(* ===== verification/Prelude.thy ===== *)
theory Prelude
  imports Main "HOL-Library.Word" "HOL-Library.Code_Target_Nat"
begin

text \<open>
  Shared vocabulary of the development: Go errors and results, the early return
  (\<open>if err != nil { return err }\<close>), Go's fixed-width integer conversions, the
  functions of Go's \<open>strings\<close> package the program calls, and the generic lemmas on
  lists and maps that the component theories use.
\<close>

section \<open>Errors and results\<close>

text \<open>
  A Go \<open>error\<close> that the program inspects. The sentinels are compared by identity
  (\<open>errors.Is\<close>, \<open>==\<close>); every other error is the text it prints. \<open>NilDereference\<close> stands for
  the panic of a nil pointer: it ends the calls above it as an error would.
\<close>

datatype go_error =
    EOF_err
  | ErrNotExist
  | NotFoundError
  | InvalidArgError string
  | NotImplementedError
  | IOError
  | NilDereference
  | Err string

type_synonym 'a result = "go_error + 'a"

text \<open>
  The text of an error, as far as the code looks into it: only errors built from text are
  searched (\<open>strings.Contains(err.Error(), ..)\<close>, \<open>regexp.MatchString(err.Error())\<close>).
\<close>

fun err_text :: "go_error \<Rightarrow> string" where
  "err_text (Err s) = s"
| "err_text (InvalidArgError s) = s"
| "err_text _ = []"

text \<open>
  Sequencing of two effectful calls with the early return on an error. A step takes
  the state and gives a result and the new state; the state reached by a failing step
  is kept.
\<close>

type_synonym ('s, 'a) step = "'s \<Rightarrow> 'a result \<times> 's"

fun andThen :: "'a result \<times> 's \<Rightarrow> ('a \<Rightarrow> ('s, 'b) step) \<Rightarrow> 'b result \<times> 's" where
  "andThen (Inl e, s) f = (Inl e, s)"
| "andThen (Inr a, s) f = f a s"

lemma andThen_Inr_iff:
  "andThen p f = (Inr b, t) \<longleftrightarrow> (\<exists>a s. p = (Inr a, s) \<and> f a s = (Inr b, t))"
  by (cases p; cases "fst p") auto

lemma andThen_split:
  "P (andThen p f) \<longleftrightarrow>
     (\<forall>e s. p = (Inl e, s) \<longrightarrow> P (Inl e, s)) \<and> (\<forall>a s. p = (Inr a, s) \<longrightarrow> P (f a s))"
  by (cases p; cases "fst p") auto

text \<open>The same for a call that only returns an \<open>error\<close>: \<open>None\<close> is \<open>nil\<close>.\<close>

fun orElse :: "go_error option \<times> 's \<Rightarrow> ('s \<Rightarrow> go_error option \<times> 's) \<Rightarrow> go_error option \<times> 's" where
  "orElse (Some e, s) f = (Some e, s)"
| "orElse (None, s) f = f s"

lemma orElse_None_iff:
  "orElse p f = (None, t) \<longleftrightarrow> (\<exists>s. p = (None, s) \<and> f s = (None, t))"
  by (cases p; cases "fst p") auto

section \<open>Fixed-width integers\<close>

text \<open>
  Go's conversions between integer types: \<open>uint64(x)\<close> is the residue modulo
  \<open>2 ^ 64\<close>, \<open>int64(x)\<close> the two's complement reading of it, \<open>int32(x)\<close> likewise.
\<close>

definition u64 :: "int \<Rightarrow> int" where
  "u64 x = x mod 2 ^ 64"

definition i64 :: "int \<Rightarrow> int" where
  "i64 x = sint (word_of_int x :: 64 word)"

definition i32 :: "int \<Rightarrow> int" where
  "i32 x = sint (word_of_int x :: 32 word)"

text \<open>Go's division truncates towards zero; \<open>b\<close> is positive wherever the code divides.\<close>

definition go_div :: "int \<Rightarrow> int \<Rightarrow> int" where
  "go_div a b = (if a < 0 then - ((- a) div b) else a div b)"

lemma u64_id: "0 \<le> x \<Longrightarrow> x < 2 ^ 64 \<Longrightarrow> u64 x = x"
  by (simp add: u64_def)

lemma u64_range: "0 \<le> u64 x \<and> u64 x < 2 ^ 64"
  by (simp add: u64_def)

lemma i64_id: "- (2 ^ 63) \<le> x \<Longrightarrow> x < 2 ^ 63 \<Longrightarrow> i64 x = x"
  by (simp add: i64_def sint_sbintrunc' signed_take_bit_int_eq_self)

section \<open>Strings\<close>

text \<open>Go strings are byte strings; a \<open>string\<close> here is the list of its bytes.\<close>

definition HasPrefix :: "string \<Rightarrow> string \<Rightarrow> bool" where
  "HasPrefix s p \<longleftrightarrow> take (length p) s = p"

definition HasSuffix :: "string \<Rightarrow> string \<Rightarrow> bool" where
  "HasSuffix s p \<longleftrightarrow> length p \<le> length s \<and> drop (length s - length p) s = p"

fun Contains :: "string \<Rightarrow> string \<Rightarrow> bool" where
  "Contains [] p \<longleftrightarrow> p = []"
| "Contains (c # s) p \<longleftrightarrow> HasPrefix (c # s) p \<or> Contains s p"

text \<open>\<open>strings.Join\<close> and \<open>strings.Split\<close> with a separator of one byte.\<close>

fun Join :: "string \<Rightarrow> string list \<Rightarrow> string" where
  "Join sep [] = []"
| "Join sep [x] = x"
| "Join sep (x # y # xs) = x @ sep @ Join sep (y # xs)"

fun Split :: "char \<Rightarrow> string \<Rightarrow> string list" where
  "Split c [] = [[]]"
| "Split c (x # s) =
     (if x = c then [] # Split c s
      else (case Split c s of [] \<Rightarrow> [[x]] | p # ps \<Rightarrow> (x # p) # ps))"

text \<open>\<open>strings.SplitN(s, c, 2)\<close>.\<close>

fun SplitN2 :: "char \<Rightarrow> string \<Rightarrow> string list" where
  "SplitN2 c s = (let p = takeWhile (\<lambda>x. x \<noteq> c) s
                  in if length p = length s then [s] else [p, drop (Suc (length p)) s])"

text \<open>\<open>strings.ToLower\<close> on ASCII.\<close>

definition lower_char :: "char \<Rightarrow> char" where
  "lower_char c =
     (let n = of_char c :: nat in if 65 \<le> n \<and> n \<le> 90 then char_of (n + 32) else c)"

definition ToLower :: "string \<Rightarrow> string" where
  "ToLower s = map lower_char s"

text \<open>\<open>strings.TrimSpace\<close> on ASCII white space.\<close>

definition is_space :: "char \<Rightarrow> bool" where
  "is_space c = (let n = of_char c :: nat in n = 32 \<or> (9 \<le> n \<and> n \<le> 13))"

definition TrimSpace :: "string \<Rightarrow> string" where
  "TrimSpace s = rev (dropWhile is_space (rev (dropWhile is_space s)))"

text \<open>\<open>utils.InString(list, s)\<close>: membership in a slice of strings.\<close>

abbreviation InString :: "string list \<Rightarrow> string \<Rightarrow> bool" where
  "InString xs x \<equiv> x \<in> set xs"

text \<open>The recurring idiom \<open>if !utils.InString(xs, x) { xs = append(xs, x) }\<close>.\<close>

definition append_new :: "'a list \<Rightarrow> 'a \<Rightarrow> 'a list" where
  "append_new xs x = (if x \<in> set xs then xs else xs @ [x])"

lemma set_append_new [simp]: "set (append_new xs x) = insert x (set xs)"
  by (auto simp: append_new_def)

lemma distinct_append_new [simp]: "distinct (append_new xs x) = distinct xs"
  by (auto simp: append_new_def)

lemma set_fold_append_new: "set (foldl append_new xs ys) = set xs \<union> set ys"
  by (induction ys arbitrary: xs) auto

lemma distinct_fold_append_new: "distinct (foldl append_new xs ys) = distinct xs"
  by (induction ys arbitrary: xs) auto

lemma append_new_known: "set ys \<subseteq> set xs \<Longrightarrow> foldl append_new xs ys = xs"
  by (induction ys arbitrary: xs) (auto simp: append_new_def)

lemma append_new_one:
  assumes "set ys = {i}" and "i \<notin> set xs"
  shows "foldl append_new xs ys = xs @ [i]"
proof -
  obtain y zs where "ys = y # zs" using assms(1) by (cases ys) auto
  then have "ys = i # zs" "set zs \<subseteq> {i}" using assms(1) by auto
  then show ?thesis using assms(2) append_new_known [of zs "xs @ [i]"] by (auto simp: append_new_def)
qed

lemma append_new_distinct: "distinct (xs @ ys) \<Longrightarrow> foldl append_new xs ys = xs @ ys"
  by (induction ys arbitrary: xs) (auto simp: append_new_def)

lemma append_new_groups:
  assumes "distinct (xs @ is)" and "\<And>i. i \<in> set is \<Longrightarrow> set (V i) = {i}"
  shows "foldl append_new xs (concat (map V is)) = xs @ is"
  using assms
proof (induction "is" arbitrary: xs)
  case (Cons i l)
  then show ?case using append_new_one [of "V i" i xs] by simp
qed simp

lemma filter_groups:
  assumes "distinct is" and "i \<in> set is" and "\<And>k. k \<in> set is \<Longrightarrow> set (map f (V k)) = {k}"
  shows "filter (\<lambda>r. f r = i) (concat (map V is)) = V i"
  using assms
proof (induction "is")
  case (Cons k l)
  have own: "\<forall>r \<in> set (V k). f r = k" using Cons.prems(3) [of k] by auto
  show ?case
  proof (cases "k = i")
    case True
    have "f r \<noteq> i" if r: "r \<in> set (concat (map V l))" for r
    proof -
      obtain m where m: "m \<in> set l" "r \<in> set (V m)" using r by auto
      then have "f r = m" using Cons.prems(3) [of m] by auto
      then show ?thesis using m(1) True Cons.prems(1) by auto
    qed
    then have "filter (\<lambda>r. f r = i) (concat (map V l)) = []" by (auto simp: filter_empty_conv)
    then show ?thesis using True own by simp
  next
    case False
    then have "filter (\<lambda>r. f r = i) (V k) = []" using own by (simp add: filter_empty_conv)
    then show ?thesis using Cons False by simp
  qed
qed simp

text \<open>A page of a sorted list: where it ends, and what comes after it.\<close>

lemma page_end:
  assumes "m < length L" and "0 < p"
  obtains j where "j < length L" "last (take p (drop m L)) = L ! j" "Suc j = m + length (take p (drop m L))"
proof -
  define part where "part = take p (drop m L)"
  have ne: "part \<noteq> []" using assms by (auto simp: part_def)
  define j where "j = m + length part - 1"
  have len: "0 < length part" using ne by simp
  have "Suc j = m + length part" using len by (simp add: j_def)
  moreover have "j < length L" using calculation using assms(1) by (simp add: part_def min_def split: if_splits)
  moreover have "last part = L ! j"
  proof -
    have i: "length part - 1 < p" "length part - 1 < length L - m"
      using len assms by (simp_all add: part_def min_def split: if_splits)
    have "last part = take p (drop m L) ! (length part - 1)" using ne by (simp add: last_conv_nth part_def)
    also have "\<dots> = L ! (m + (length part - 1))" using i by (simp add: nth_take nth_drop)
    also have "m + (length part - 1) = j" using len unfolding j_def by linarith
    finally show ?thesis .
  qed
  ultimately show thesis using that [of j] by (simp add: part_def)
qed

lemma page_rest: "take p (drop m L) @ drop (m + length (take p (drop m L))) L = drop m L"
  using append_take_drop_id [of p "drop m L"] by (simp add: min_def add.commute)

lemma find_unique:
  "distinct (map f xs) \<Longrightarrow> x \<in> set xs \<Longrightarrow> find (\<lambda>v. f v = f x) (rev xs) = Some x"
proof (induction xs rule: rev_induct)
  case (snoc y xs)
  then show ?case by (cases "x = y") (auto simp: rev_image_eqI)
qed simp

section \<open>Lemmas on strings\<close>

lemma HasPrefix_append [simp]: "HasPrefix (p @ s) p"
  by (simp add: HasPrefix_def)

lemma HasPrefix_iff: "HasPrefix s p \<longleftrightarrow> (\<exists>t. s = p @ t)"
proof
  assume "HasPrefix s p"
  then have "s = p @ drop (length p) s"
    unfolding HasPrefix_def by (metis append_take_drop_id)
  then show "\<exists>t. s = p @ t" by blast
qed auto

lemma HasSuffix_append [simp]: "HasSuffix (s @ p) p"
  by (simp add: HasSuffix_def)

lemma Contains_Nil [simp]: "Contains s []"
  by (cases s) (auto simp: HasPrefix_def)

lemma Contains_self [simp]: "Contains s s"
  by (cases s) (auto simp: HasPrefix_def)

text \<open>
  A list of strings is recovered from its join with a separator that none of the strings
  contains, provided the list is not the ambiguous \<open>[]\<close> against \<open>[[]]\<close>.
\<close>

lemma Split_no_sep: "c \<notin> set x \<Longrightarrow> Split c x = [x]"
  by (induction x) auto

lemma Split_not_Nil [simp]: "Split c s \<noteq> []"
  by (induction s) (auto split: list.splits)

lemma Split_append: "c \<notin> set x \<Longrightarrow> Split c (x @ c # s) = x # Split c s"
  by (induction x) (auto split: list.splits)

lemma Split_Join:
  "xs \<noteq> [] \<Longrightarrow> \<forall>x \<in> set xs. c \<notin> set x \<Longrightarrow> Split c (Join [c] xs) = xs"
  by (induction "[c]" xs rule: Join.induct) (auto simp: Split_no_sep Split_append)

lemma Join_inject:
  assumes "Join [c] xs = Join [c] ys"
    and "\<forall>x \<in> set xs. c \<notin> set x" and "\<forall>y \<in> set ys. c \<notin> set y"
    and "xs \<noteq> []" and "ys \<noteq> []"
  shows "xs = ys"
  using Split_Join [of xs c] Split_Join [of ys c] assms by metis

text \<open>The whole-list version for strings that are not empty themselves.\<close>

lemma Join_eq_Nil_iff:
  "\<forall>x \<in> set xs. x \<noteq> [] \<Longrightarrow> Join [c] xs = [] \<longleftrightarrow> xs = []"
  by (induction "[c]" xs rule: Join.induct) auto

lemma Join_inject_nonempty:
  assumes "Join [c] xs = Join [c] ys"
    and "\<forall>x \<in> set xs. c \<notin> set x \<and> x \<noteq> []" and "\<forall>y \<in> set ys. c \<notin> set y \<and> y \<noteq> []"
  shows "xs = ys"
proof (cases "xs = [] \<or> ys = []")
  case True
  then show ?thesis using assms Join_eq_Nil_iff [of xs c] Join_eq_Nil_iff [of ys c] by auto
next
  case False
  then show ?thesis using assms Join_inject [of c xs ys] by blast
qed

section \<open>Lists and maps\<close>

lemma concat_snoc: "concat (xs @ [x]) = concat xs @ x"
  by simp

lemma sum_list_snoc: "sum_list (xs @ [x]) = sum_list xs + (x::'a::comm_monoid_add)"
  by simp

end
