(* ===== verification/Uploads.thy ===== *)
theory Uploads
  imports Prelude
begin

text \<open>
  The client side of file uploads: \<open>vql/uploads\<close>. The interface \<open>CloudUploader\<close>
  (api.go) is a record of operations and a locale of the laws the callers need; the
  client of the interface is \<open>BufferedWriter\<close> (buffer.go) with \<open>UploadSparse\<close>
  (sparse.go) and \<open>Upload\<close> (vql.go) on top; the provider is
  \<open>VeloCloudUploader\<close> (uploader.go), on which the locale is interpreted.

  The HTTP client is a parameter: a function from the requests sent so far and the next
  request to a transport error or a reply. Parsing and hashing are parameters too.
\<close>

type_synonym bytes = "8 word list"

text \<open>\<open>s3.CompletedPart\<close> of the AWS library: the tag of a part and its number.\<close>

record completed_part =
  ETag :: string
  PartNumber :: int

section \<open>The interface CloudUploader (api.go)\<close>

text \<open>\<open>actions_proto.Range\<close> and \<open>actions_proto.Index\<close>, as far as the code uses them.\<close>

record index_range =
  FileOffset :: int
  OriginalOffset :: int
  FileLength :: int
  Length :: int

text \<open>The methods of an uploader of state \<open>'u\<close> that its callers invoke.\<close>

record 'u uploader_ops =
  up_PutWhole :: "bytes \<Rightarrow> 'u \<Rightarrow> go_error option \<times> 'u"
  up_Put :: "bytes \<Rightarrow> 'u \<Rightarrow> go_error option \<times> 'u"
  up_Commit :: "'u \<Rightarrow> 'u"
  up_Close :: "'u \<Rightarrow> go_error option \<times> 'u"
  up_SetIndex :: "index_range list \<Rightarrow> 'u \<Rightarrow> 'u"

section \<open>BufferedWriter (buffer.go)\<close>

text \<open>
  \<open>bw_buf\<close> is the filled prefix \<open>buf[:buf_idx]\<close>, the only part of the buffer the code
  reads back; \<open>buf_idx\<close> is its length.
\<close>

record 'u buffered_writer =
  bw_buf :: bytes
  bw_buf_length :: nat
  bw_uploader :: 'u
  bw_total :: nat
  bw_sent_first_buffer :: bool

definition NewBufferWriter :: "nat \<Rightarrow> 'u \<Rightarrow> 'u buffered_writer" where
  "NewBufferWriter buff_size u =
     \<lparr>bw_buf = [], bw_buf_length = buff_size, bw_uploader = u, bw_total = 0,
      bw_sent_first_buffer = False\<rparr>"

definition bw_Flush ::
  "'u uploader_ops \<Rightarrow> 'u buffered_writer \<Rightarrow> go_error option \<times> 'u buffered_writer" where
  "bw_Flush ops b =
     (let b1 = b\<lparr>bw_sent_first_buffer := True\<rparr>
      in case up_Put ops (bw_buf b1) (bw_uploader b1) of
           (Some e, u) \<Rightarrow> (Some e, b1\<lparr>bw_uploader := u\<rparr>)
         | (None, u) \<Rightarrow> (None, b1\<lparr>bw_uploader := u, bw_buf := []\<rparr>))"

definition bw_Close ::
  "'u uploader_ops \<Rightarrow> 'u buffered_writer \<Rightarrow> go_error option \<times> 'u buffered_writer" where
  "bw_Close ops b =
     (if \<not> bw_sent_first_buffer b then
        (case up_PutWhole ops (bw_buf b) (bw_uploader b) of
           (e, u) \<Rightarrow> (e, b\<lparr>bw_uploader := u\<rparr>))
      else
        (case bw_Flush ops b of
           (Some e, b1) \<Rightarrow> (Some e, b1)
         | (None, b1) \<Rightarrow>
             (case up_Close ops (up_Commit ops (bw_uploader b1)) of
                (e, u) \<Rightarrow> (e, b1\<lparr>bw_uploader := u\<rparr>))))"

text \<open>
  An \<open>io.Reader\<close> of state \<open>'r\<close>: \<open>rd k r\<close> is a read into a slice of \<open>k\<close> bytes, the bytes
  stored, the error and the new state. The slice bounds what the read can store, hence the
  \<open>take\<close>. Every turn of the loop that continues has copied at least one byte, which is why
  it ends.
\<close>

type_synonym 'r reader = "nat \<Rightarrow> 'r \<Rightarrow> (bytes \<times> go_error option) \<times> 'r"

function bw_Copy ::
  "'u uploader_ops \<Rightarrow> 'r reader \<Rightarrow> nat \<Rightarrow> 'u buffered_writer \<Rightarrow> 'r
     \<Rightarrow> go_error option \<times> 'u buffered_writer \<times> 'r" where
  "bw_Copy ops rd len b r =
     (if len = 0 then (None, b, r)
      else let space = bw_buf_length b - length (bw_buf b);
               to_read = (if len > space then space else len);
               ((d0, err), r1) = rd to_read r;
               d = take to_read d0;
               n = length d
           in if err \<noteq> None \<and> err \<noteq> Some EOF_err \<and> n = 0 then (err, b, r1)
              else if n = 0 then (None, b, r1)
              else let b1 = b\<lparr>bw_total := bw_total b + n, bw_buf := bw_buf b @ d\<rparr>
                   in if length (bw_buf b1) \<ge> bw_buf_length b1 then
                        (case bw_Flush ops b1 of
                           (Some e, b2) \<Rightarrow> (Some e, b2, r1)
                         | (None, b2) \<Rightarrow> bw_Copy ops rd (len - n) b2 r1)
                      else bw_Copy ops rd (len - n) b1 r1)"
  by pat_completeness auto
termination
  by (relation "measure (\<lambda>(ops, rd, len, b, r). len)") auto

declare bw_Copy.simps [simp del]

lemma bw_Copy_0 [simp]: "bw_Copy ops rd 0 b r = (None, b, r)"
  by (simp add: bw_Copy.simps [of ops rd 0 b r])

text \<open>One turn of the loop, with the read of \<open>k\<close> bytes made.\<close>

lemma bw_Copy_step:
  assumes "0 < len" and "k = min len (bw_buf_length b - length (bw_buf b))"
    and rd: "rd k r = ((d, e), r1)" and "length d \<le> k"
  shows "bw_Copy ops rd len b r =
     (let b1 = b\<lparr>bw_total := bw_total b + length d, bw_buf := bw_buf b @ d\<rparr>
      in if d = [] then ((if e = Some EOF_err then None else e), b, r1)
         else if bw_buf_length b \<le> length (bw_buf b) + length d then
           (case bw_Flush ops b1 of
              (Some e, b2) \<Rightarrow> (Some e, b2, r1)
            | (None, b2) \<Rightarrow> bw_Copy ops rd (len - length d) b2 r1)
         else bw_Copy ops rd (len - length d) b1 r1)"
proof -
  have k: "(if len > bw_buf_length b - length (bw_buf b)
            then bw_buf_length b - length (bw_buf b) else len) = k"
    using assms(2) by auto
  have "take k d = d" using assms(4) by simp
  then show ?thesis
    using assms(1) by (subst bw_Copy.simps) (auto simp only: Let_def k rd prod.case, auto)
qed

text \<open>
  The documented contract of \<open>io.Reader\<close> over a stream whose unread content is \<open>rest r\<close>:
  a read into a non-empty slice stores at most what the slice holds, what it stores is the next part of the
  stream, and it stores nothing without an error only at the end of the stream.
\<close>

definition reader_contract :: "'r reader \<Rightarrow> ('r \<Rightarrow> bytes) \<Rightarrow> bool" where
  "reader_contract rd rest \<longleftrightarrow>
     (\<forall>k r d e r'. 0 < k \<longrightarrow> rd k r = ((d, e), r') \<longrightarrow>
        length d \<le> k \<and> rest r = d @ rest r' \<and>
        (d = [] \<and> (e = None \<or> e = Some EOF_err) \<longrightarrow> rest r = []))"

text \<open>A reader over a byte list, as \<open>bytes.Reader\<close> behaves; used by the witnesses.\<close>

definition list_reader :: "bytes reader" where
  "list_reader k r = ((take k r, if r = [] then Some EOF_err else None), drop k r)"

lemma list_reader_contract: "reader_contract list_reader (\<lambda>r. r)"
  by (auto simp: reader_contract_def list_reader_def)

section \<open>UploadSparse (sparse.go)\<close>

text \<open>\<open>uploads.Range\<close> of the range reader.\<close>

record file_range =
  rng_Offset :: int
  rng_Length :: int
  rng_IsSparse :: bool

text \<open>The first loop: the index, the expected size, the real size and the sparse flag.\<close>

record sparse_scan =
  sc_index :: "index_range list"
  sc_expected_size :: int
  sc_real_size :: int
  sc_is_sparse :: bool

definition sparse_scan_step :: "sparse_scan \<Rightarrow> file_range \<Rightarrow> sparse_scan" where
  "sparse_scan_step s rng =
     \<lparr>sc_index = sc_index s @
        [\<lparr>FileOffset = sc_expected_size s, OriginalOffset = rng_Offset rng,
          FileLength = (if rng_IsSparse rng then 0 else rng_Length rng),
          Length = rng_Length rng\<rparr>],
      sc_expected_size = (if \<not> rng_IsSparse rng then i64 (sc_expected_size s + rng_Length rng)
                          else sc_expected_size s),
      sc_real_size = (if sc_real_size s < i64 (rng_Offset rng + rng_Length rng)
                      then i64 (rng_Offset rng + rng_Length rng) else sc_real_size s),
      sc_is_sparse = (if \<not> rng_IsSparse rng then sc_is_sparse s else True)\<rparr>"

definition scan_ranges :: "file_range list \<Rightarrow> sparse_scan" where
  "scan_ranges rngs =
     foldl sparse_scan_step
       \<lparr>sc_index = [], sc_expected_size = 0, sc_real_size = 0, sc_is_sparse = False\<rparr> rngs"

text \<open>The second loop: seek to every range that holds data and copy it.\<close>

fun copy_ranges ::
  "'u uploader_ops \<Rightarrow> 'r reader \<Rightarrow> (int \<Rightarrow> 'r \<Rightarrow> go_error option \<times> 'r) \<Rightarrow> file_range list
     \<Rightarrow> 'u buffered_writer \<Rightarrow> 'r \<Rightarrow> go_error option \<times> 'u buffered_writer \<times> 'r" where
  "copy_ranges ops rd sk [] b r = (None, b, r)"
| "copy_ranges ops rd sk (rng # rngs) b r =
     (if rng_IsSparse rng then copy_ranges ops rd sk rngs b r
      else case sk (rng_Offset rng) r of
             (Some e, r1) \<Rightarrow> (Some e, b, r1)
           | (None, r1) \<Rightarrow>
               (case bw_Copy ops rd (nat (u64 (rng_Length rng))) b r1 of
                  (Some e, b1, r2) \<Rightarrow> (Some e, b1, r2)
                | (None, b1, r2) \<Rightarrow> copy_ranges ops rd sk rngs b1 r2))"

text \<open>\<open>uploads.UploadResponse\<close>: the answer handed to the VQL query.\<close>

record upload_result =
  ur_Path :: string
  ur_StoredName :: string
  ur_Error :: string
  ur_Size :: int
  ur_StoredSize :: int
  ur_Sha256 :: string
  ur_Md5 :: string

definition empty_result :: upload_result where
  "empty_result = \<lparr>ur_Path = [], ur_StoredName = [], ur_Error = [], ur_Size = 0,
     ur_StoredSize = 0, ur_Sha256 = [], ur_Md5 = []\<rparr>"

text \<open>
  The whole function. \<open>sha256\<close> and \<open>md5\<close> give the hexadecimal digest of what was written
  to the hash; the two sums are created and never written to. \<open>marshal\<close> is
  \<open>json.Marshal\<close> of the index. The deferred \<open>buffer.Close()\<close> runs on every way out
  and its error is dropped. Result, index uploader, uploader, reader.
\<close>

definition UploadSparse ::
  "'u uploader_ops \<Rightarrow> 'u uploader_ops \<Rightarrow> 'r reader \<Rightarrow> (int \<Rightarrow> 'r \<Rightarrow> go_error option \<times> 'r)
     \<Rightarrow> (index_range list \<Rightarrow> bytes result) \<Rightarrow> (bytes \<Rightarrow> string) \<Rightarrow> (bytes \<Rightarrow> string) \<Rightarrow> nat
     \<Rightarrow> string \<Rightarrow> 'u \<Rightarrow> 'u \<Rightarrow> file_range list \<Rightarrow> 'r
     \<Rightarrow> upload_result result \<times> 'u \<times> 'u \<times> 'r" where
  "UploadSparse idx_ops ops rd sk marshal sha256 md5 buff_size ospath idx_uploader uploader ranges r =
     (let scan = scan_ranges ranges;
          (res, idx1, b1, r1) =
            (case copy_ranges ops rd sk ranges (NewBufferWriter buff_size uploader) r of
               (Some e, b, r') \<Rightarrow> (Inl e, idx_uploader, b, r')
             | (None, b, r') \<Rightarrow>
                 (let answer = Inr (empty_result\<lparr>ur_Path := ospath,
                        ur_Size := u64 (sc_real_size scan), ur_StoredSize := int (bw_total b),
                        ur_Sha256 := sha256 [], ur_Md5 := md5 []\<rparr>)
                  in if sc_is_sparse scan then
                       (case marshal (sc_index scan) of
                          Inl e \<Rightarrow> (Inl e, idx_uploader, b, r')
                        | Inr serialized \<Rightarrow>
                            (case up_Put idx_ops serialized idx_uploader of
                               (Some e, i) \<Rightarrow> (Inl e, i, b, r')
                             | (None, i) \<Rightarrow>
                                 (answer, up_Commit idx_ops i,
                                  b\<lparr>bw_uploader :=
                                      up_SetIndex ops (sc_index scan) (bw_uploader b)\<rparr>, r')))
                     else (answer, idx_uploader, b, r')));
          (ignored, b2) = bw_Close ops b1
      in (res, idx1, bw_uploader b2, r1))"

text \<open>The ways to a success.\<close>

lemma UploadSparse_Inr:
  assumes "UploadSparse idx_ops ops rd sk marshal sha256 md5 buff_size ospath idx u rngs r =
             (Inr ans, idx', u', r')"
  obtains b b1 e b2 where
    "copy_ranges ops rd sk rngs (NewBufferWriter buff_size u) r = (None, b, r')"
    "bw_Close ops b1 = (e, b2)" "u' = bw_uploader b2"
    "ans = empty_result\<lparr>ur_Path := ospath, ur_Size := u64 (sc_real_size (scan_ranges rngs)),
       ur_StoredSize := int (bw_total b), ur_Sha256 := sha256 [], ur_Md5 := md5 []\<rparr>"
    "\<not> sc_is_sparse (scan_ranges rngs) \<and> b1 = b \<or>
     sc_is_sparse (scan_ranges rngs) \<and>
       b1 = b\<lparr>bw_uploader := up_SetIndex ops (sc_index (scan_ranges rngs)) (bw_uploader b)\<rparr> \<and>
       (\<exists>ser i. marshal (sc_index (scan_ranges rngs)) = Inr ser \<and>
          up_Put idx_ops ser idx = (None, i) \<and> idx' = up_Commit idx_ops i)"
proof -
  obtain e b r1 where cp: "copy_ranges ops rd sk rngs (NewBufferWriter buff_size u) r = (e, b, r1)"
    by (metis prod.exhaust)
  with assms have e: "e = None" by (cases e) (auto simp: UploadSparse_def split: prod.splits)
  show ?thesis
  proof (cases "sc_is_sparse (scan_ranges rngs)")
    case False
    then show ?thesis
      using that [of b b] assms cp e by (auto simp: UploadSparse_def Let_def split: prod.splits)
  next
    case True
    then obtain ser i where m: "marshal (sc_index (scan_ranges rngs)) = Inr ser"
      "up_Put idx_ops ser idx = (None, i)"
      using assms cp e
      by (auto simp: UploadSparse_def Let_def split: prod.splits sum.splits option.splits)
    show ?thesis
      using that [of b "b\<lparr>bw_uploader := up_SetIndex ops (sc_index (scan_ranges rngs)) (bw_uploader b)\<rparr>"]
        assms cp e m True
      by (auto simp: UploadSparse_def Let_def split: prod.splits)
  qed
qed

lemma scan_is_sparse: "sc_is_sparse (scan_ranges rngs) \<longleftrightarrow> (\<exists>rng \<in> set rngs. rng_IsSparse rng)"
proof -
  have "sc_is_sparse (foldl sparse_scan_step s rngs) \<longleftrightarrow>
      sc_is_sparse s \<or> (\<exists>rng \<in> set rngs. rng_IsSparse rng)" for s
    by (induction rngs arbitrary: s) (auto simp: sparse_scan_step_def)
  then show ?thesis by (simp add: scan_ranges_def)
qed

section \<open>The sparse index\<close>

text \<open>
  The ranges of a file of content \<open>content\<close> as a range reader reports them: inside the
  \<open>int64\<close> offsets, and the ranges that hold data inside the file.
\<close>

definition range_bytes :: "bytes \<Rightarrow> file_range \<Rightarrow> bytes" where
  "range_bytes content rng =
     (if rng_IsSparse rng then []
      else take (nat (rng_Length rng)) (drop (nat (rng_Offset rng)) content))"

definition stored_length :: "file_range \<Rightarrow> int" where
  "stored_length rng = (if rng_IsSparse rng then 0 else rng_Length rng)"

definition wf_range :: "bytes \<Rightarrow> file_range \<Rightarrow> bool" where
  "wf_range content rng \<longleftrightarrow> 0 \<le> rng_Offset rng \<and> 0 \<le> rng_Length rng \<and>
     rng_Offset rng + rng_Length rng < 2 ^ 63 \<and>
     (\<not> rng_IsSparse rng \<longrightarrow> rng_Offset rng + rng_Length rng \<le> int (length content))"

definition wf_ranges :: "bytes \<Rightarrow> file_range list \<Rightarrow> bool" where
  "wf_ranges content rngs \<longleftrightarrow>
     list_all (wf_range content) rngs \<and> sum_list (map stored_length rngs) < 2 ^ 63"

lemma length_range_bytes:
  "wf_range content rng \<Longrightarrow> int (length (range_bytes content rng)) = stored_length rng"
  by (auto simp: wf_range_def range_bytes_def stored_length_def)

lemma stored_length_nonneg: "wf_range content rng \<Longrightarrow> 0 \<le> stored_length rng"
  by (simp add: wf_range_def stored_length_def)

lemma sum_stored_nonneg:
  "list_all (wf_range content) rngs \<Longrightarrow> 0 \<le> sum_list (map stored_length rngs)"
  by (induction rngs) (auto dest: stored_length_nonneg)

lemma length_concat_ranges:
  "list_all (wf_range content) rngs \<Longrightarrow>
     int (length (concat (map (range_bytes content) rngs))) = sum_list (map stored_length rngs)"
  by (induction rngs) (auto dest: length_range_bytes)

text \<open>The index of the ranges, without the accumulator and without wrap-around.\<close>

fun index_from :: "int \<Rightarrow> file_range list \<Rightarrow> index_range list" where
  "index_from e [] = []"
| "index_from e (rng # rngs) =
     \<lparr>FileOffset = e, OriginalOffset = rng_Offset rng, FileLength = stored_length rng,
      Length = rng_Length rng\<rparr> # index_from (e + stored_length rng) rngs"

lemma length_index_from [simp]: "length (index_from e rngs) = length rngs"
  by (induction rngs arbitrary: e) auto

lemma index_from_nth:
  "i < length rngs \<Longrightarrow> index_from e rngs ! i =
     \<lparr>FileOffset = e + sum_list (map stored_length (take i rngs)),
      OriginalOffset = rng_Offset (rngs ! i), FileLength = stored_length (rngs ! i),
      Length = rng_Length (rngs ! i)\<rparr>"
  by (induction rngs arbitrary: e i) (auto simp: nth_Cons split: nat.splits)

lemma scan_index:
  assumes "list_all (wf_range content) rngs" and "0 \<le> sc_expected_size s"
    and "sc_expected_size s + sum_list (map stored_length rngs) < 2 ^ 63"
  shows "sc_index (foldl sparse_scan_step s rngs) =
           sc_index s @ index_from (sc_expected_size s) rngs"
  using assms
proof (induction rngs arbitrary: s)
  case (Cons rng rngs)
  have nn: "0 \<le> stored_length rng" "0 \<le> sum_list (map stored_length rngs)"
    using Cons.prems(1) stored_length_nonneg sum_stored_nonneg by auto
  have e: "sc_expected_size (sparse_scan_step s rng) = sc_expected_size s + stored_length rng"
  proof (cases "rng_IsSparse rng")
    case False
    then have "stored_length rng = rng_Length rng" by (simp add: stored_length_def)
    moreover have "i64 (sc_expected_size s + stored_length rng) = sc_expected_size s + stored_length rng"
      using Cons.prems(2,3) nn by (intro i64_id) simp_all
    ultimately show ?thesis using False by (simp add: sparse_scan_step_def)
  qed (simp add: sparse_scan_step_def stored_length_def)
  have "sc_index (sparse_scan_step s rng) = sc_index s @
      [\<lparr>FileOffset = sc_expected_size s, OriginalOffset = rng_Offset rng,
        FileLength = stored_length rng, Length = rng_Length rng\<rparr>]"
    by (simp add: sparse_scan_step_def stored_length_def)
  then show ?case
    using Cons.IH [of "sparse_scan_step s rng"] Cons.prems nn e by simp
qed simp

lemma concat_slice:
  assumes "list_all (wf_range content) rngs" and "i < length rngs"
  shows "take (nat (stored_length (rngs ! i)))
           (drop (nat (sum_list (map stored_length (take i rngs))))
             (concat (map (range_bytes content) rngs))) = range_bytes content (rngs ! i)"
proof -
  have wf: "list_all (wf_range content) (take i rngs)" "wf_range content (rngs ! i)"
    using assms by (auto simp: list_all_length)
  have "rngs = take i rngs @ rngs ! i # drop (Suc i) rngs"
    using assms(2) by (rule id_take_nth_drop)
  then have "concat (map (range_bytes content) rngs) =
      concat (map (range_bytes content) (take i rngs)) @ range_bytes content (rngs ! i) @
      concat (map (range_bytes content) (drop (Suc i) rngs))"
    by (metis concat.simps(2) concat_append list.simps(9) map_append)
  moreover have "nat (sum_list (map stored_length (take i rngs))) =
      length (concat (map (range_bytes content) (take i rngs)))"
    using length_concat_ranges [OF wf(1)] by simp
  moreover have "nat (stored_length (rngs ! i)) = length (range_bytes content (rngs ! i))"
    using length_range_bytes [OF wf(2)] by simp
  ultimately show ?thesis by simp
qed

text \<open>A seekable reader over \<open>content\<close>.\<close>

definition seek_contract ::
  "(int \<Rightarrow> 'r \<Rightarrow> go_error option \<times> 'r) \<Rightarrow> ('r \<Rightarrow> bytes) \<Rightarrow> bytes \<Rightarrow> bool" where
  "seek_contract sk rest content \<longleftrightarrow>
     (\<forall>off r r'. 0 \<le> off \<longrightarrow> sk off r = (None, r') \<longrightarrow> rest r' = drop (nat off) content)"


section \<open>The laws of the interface\<close>

text \<open>
  What the callers of a \<open>CloudUploader\<close> rely on: the state determines the list of the
  parts accepted so far; a successful \<open>Put\<close> adds its buffer as one part, a failed one
  adds nothing, and the other operations leave the parts alone.
\<close>

locale cloud_uploader =
  fixes ops :: "'u uploader_ops" and parts :: "'u \<Rightarrow> bytes list"
  assumes Put_ok: "up_Put ops d u = (None, u') \<Longrightarrow> parts u' = parts u @ [d]"
    and Put_fail: "up_Put ops d u = (Some e, u') \<Longrightarrow> parts u' = parts u"
    and PutWhole_ok: "up_PutWhole ops d u = (None, u') \<Longrightarrow> parts u' = parts u @ [d]"
    and PutWhole_fail: "up_PutWhole ops d u = (Some e, u') \<Longrightarrow> parts u' = parts u"
    and Commit_parts: "parts (up_Commit ops u) = parts u"
    and Close_parts: "up_Close ops u = (r, u') \<Longrightarrow> parts u' = parts u"
    and SetIndex_parts: "parts (up_SetIndex ops idx u) = parts u"
begin

text \<open>The bytes a writer is responsible for: accepted by the uploader or still buffered.\<close>

definition written :: "'u buffered_writer \<Rightarrow> bytes" where
  "written b = concat (parts (bw_uploader b)) @ bw_buf b"

text \<open>Every part a writer sends before its last has exactly the size of the buffer.\<close>

definition full_parts :: "bytes list \<Rightarrow> 'u buffered_writer \<Rightarrow> bool" where
  "full_parts ps b \<longleftrightarrow> (\<exists>qs. parts (bw_uploader b) = ps @ qs \<and>
     (\<forall>q \<in> set qs. length q = bw_buf_length b))"

definition room :: "'u buffered_writer \<Rightarrow> bool" where
  "room b \<longleftrightarrow> length (bw_buf b) < bw_buf_length b"

lemma Flush_ok:
  assumes "bw_Flush ops b = (None, b')"
  shows "written b' = written b" and "bw_buf b' = []"
    and "bw_buf_length b' = bw_buf_length b" and "bw_total b' = bw_total b"
    and "parts (bw_uploader b') = parts (bw_uploader b) @ [bw_buf b]"
    and "bw_sent_first_buffer b'"
  using assms Put_ok
  by (auto simp: bw_Flush_def written_def Let_def split: prod.splits option.splits)

lemma Flush_full:
  assumes "bw_Flush ops b = (None, b')" and "full_parts ps b"
    and "length (bw_buf b) = bw_buf_length b"
  shows "full_parts ps b'"
proof -
  from assms(2) obtain qs where "parts (bw_uploader b) = ps @ qs"
    and "\<forall>q \<in> set qs. length q = bw_buf_length b"
    by (auto simp: full_parts_def)
  then have "parts (bw_uploader b') = ps @ (qs @ [bw_buf b])"
    and "\<forall>q \<in> set (qs @ [bw_buf b]). length q = bw_buf_length b'"
    using Flush_ok [OF assms(1)] assms(3) by auto
  then show ?thesis unfolding full_parts_def by blast
qed

text \<open>
  The loop of \<open>Copy\<close>: what it consumes of the stream goes to the written bytes, the
  counter and the size of the sent parts are right, and it consumes all that was asked
  for unless the stream ends first.
\<close>

lemma Copy_ok:
  assumes "reader_contract rd rest"
    and "bw_Copy ops rd len b r = (None, b', r')" and "room b" and "full_parts ps b"
  shows "written b' = written b @ take len (rest r)"
    and "bw_total b' = bw_total b + min len (length (rest r))"
    and "room b'" and "full_parts ps b'" and "bw_buf_length b' = bw_buf_length b"
    and "rest r' = drop len (rest r)"
proof -
  have "written b' = written b @ take len (rest r) \<and>
     bw_total b' = bw_total b + min len (length (rest r)) \<and> room b' \<and> full_parts ps b' \<and>
     bw_buf_length b' = bw_buf_length b \<and> rest r' = drop len (rest r)"
    using assms(2-)
  proof (induction len arbitrary: b r rule: less_induct)
    case (less len)
    show ?case
    proof (cases "len = 0")
      case True
      then show ?thesis using less.prems by simp
    next
      case False
      define k where "k = min len (bw_buf_length b - length (bw_buf b))"
      obtain d e r1 where rd: "rd k r = ((d, e), r1)" by (metis prod.exhaust)
      have k: "0 < k" "k \<le> len" "length (bw_buf b) + k \<le> bw_buf_length b"
        using False less.prems(2) by (auto simp: k_def room_def)
      have d: "length d \<le> k" "rest r = d @ rest r1"
        "d = [] \<Longrightarrow> e = None \<or> e = Some EOF_err \<Longrightarrow> rest r = []"
        using assms(1) rd k(1) unfolding reader_contract_def by blast+
      define b1 where
        "b1 = b\<lparr>bw_total := bw_total b + length d, bw_buf := bw_buf b @ d\<rparr>"
      have unfold: "bw_Copy ops rd len b r =
         (if d = [] then ((if e = Some EOF_err then None else e), b, r1)
          else if bw_buf_length b \<le> length (bw_buf b) + length d then
            (case bw_Flush ops b1 of (Some e, b2) \<Rightarrow> (Some e, b2, r1)
             | (None, b2) \<Rightarrow> bw_Copy ops rd (len - length d) b2 r1)
          else bw_Copy ops rd (len - length d) b1 r1)"
        using bw_Copy_step [of len k b rd r d e r1 ops] False k_def rd d(1) by (simp add: b1_def Let_def)
      have b1: "full_parts ps b1" "bw_buf_length b1 = bw_buf_length b"
        "written b1 = written b @ d" "bw_total b1 = bw_total b + length d"
        "length (bw_buf b1) = length (bw_buf b) + length d"
        using less.prems(3) by (auto simp: b1_def written_def full_parts_def)
      show ?thesis
      proof (cases "d = []")
        case True
        then show ?thesis using less.prems unfold d(2,3) by (cases e) (auto split: if_splits)
      next
        case False
        then have lt: "len - length d < len" using k(1,2) d(1) by (cases d) auto
        have tk: "take len (rest r) = d @ take (len - length d) (rest r1)"
          and dr: "drop len (rest r) = drop (len - length d) (rest r1)"
          using d k(2) by auto
        have "\<exists>b2. bw_Copy ops rd (len - length d) b2 r1 = (None, b', r') \<and> room b2 \<and>
           full_parts ps b2 \<and> written b2 = written b1 \<and> bw_total b2 = bw_total b1 \<and>
           bw_buf_length b2 = bw_buf_length b"
        proof (cases "bw_buf_length b \<le> length (bw_buf b) + length d")
          case True
          then obtain b2 where fl: "bw_Flush ops b1 = (None, b2)"
            and cp: "bw_Copy ops rd (len - length d) b2 r1 = (None, b', r')"
            using unfold False less.prems(1) by (auto split: prod.splits option.splits)
          have "full_parts ps b2"
            by (rule Flush_full [OF fl b1(1)]) (use True b1 k d in auto)
          moreover have "room b2"
            using Flush_ok [OF fl] b1 k by (simp add: room_def)
          ultimately show ?thesis
            using cp Flush_ok [OF fl] b1 by auto
        next
          case False
          then show ?thesis
            using unfold \<open>d \<noteq> []\<close> less.prems b1 by (intro exI [of _ b1]) (auto simp: room_def)
        qed
        then obtain b2 where b2: "bw_Copy ops rd (len - length d) b2 r1 = (None, b', r')"
          "room b2" "full_parts ps b2" "written b2 = written b1" "bw_total b2 = bw_total b1"
          "bw_buf_length b2 = bw_buf_length b" by blast
        from less.IH [OF lt b2(1-3)] show ?thesis
          using b1 b2(4-6) tk dr d k by auto
      qed
    qed
  qed
  then show "written b' = written b @ take len (rest r)"
    and "bw_total b' = bw_total b + min len (length (rest r))"
    and "room b'" and "full_parts ps b'" and "bw_buf_length b' = bw_buf_length b"
    and "rest r' = drop len (rest r)"
    by blast+
qed

text \<open>Closing hands over what is still buffered as one last part.\<close>

lemma Close_ok:
  assumes "bw_Close ops b = (None, b')"
  shows "parts (bw_uploader b') = parts (bw_uploader b) @ [bw_buf b]"
    and "concat (parts (bw_uploader b')) = written b"
proof -
  show *: "parts (bw_uploader b') = parts (bw_uploader b) @ [bw_buf b]"
    using assms PutWhole_ok Flush_ok(5) Close_parts Commit_parts
    by (auto simp: bw_Close_def split: if_splits prod.splits option.splits)
  show "concat (parts (bw_uploader b')) = written b"
    by (simp add: * written_def)
qed

text \<open>With a source and an uploader that never fail, copying never fails.\<close>

lemma Copy_succeeds:
  assumes "\<And>d u. fst (up_Put ops d u) = None"
    and "\<And>k r. snd (fst (rd k r)) \<in> {None, Some EOF_err}"
  shows "fst (bw_Copy ops rd len b r) = None"
proof (induction len arbitrary: b r rule: less_induct)
  case (less len)
  have fl: "\<exists>b2. bw_Flush ops b1 = (None, b2)" for b1
    using assms(1) [of "bw_buf b1" "bw_uploader b1"]
    by (auto simp: bw_Flush_def Let_def split: prod.splits option.splits)
  define k where "k = (if len > bw_buf_length b - length (bw_buf b)
                       then bw_buf_length b - length (bw_buf b) else len)"
  obtain d0 e r1 where rd: "rd k r = ((d0, e), r1)" by (metis prod.exhaust)
  define b1 where "b1 = b\<lparr>bw_total := bw_total b + length (take k d0),
                          bw_buf := bw_buf b @ take k d0\<rparr>"
  obtain b2 where b2: "bw_Flush ops b1 = (None, b2)" using fl by blast
  have e: "e = None \<or> e = Some EOF_err" using assms(2) [of k r] rd by simp
  show ?case
  proof (cases "len = 0 \<or> take k d0 = []")
    case True
    then show ?thesis
      using e by (subst bw_Copy.simps) (auto simp only: Let_def k_def [symmetric] rd prod.case, auto)
  next
    case False
    then have "len - length (take k d0) < len" by auto
    then have IH: "fst (bw_Copy ops rd (len - length (take k d0)) bb rr) = None" for bb rr
      by (rule less.IH)
    show ?thesis
      using False IH
      by (subst bw_Copy.simps)
        (simp only: Let_def k_def [symmetric] rd prod.case b1_def [symmetric] b2 option.case
          length_0_conv if_False HOL.simp_thms split: if_split, simp)
  qed
qed

lemma copy_ranges_succeeds:
  assumes "\<And>d u. fst (up_Put ops d u) = None"
    and "\<And>k r. snd (fst (rd k r)) \<in> {None, Some EOF_err}"
    and "\<And>off r. fst (sk off r) = None"
  shows "fst (copy_ranges ops rd sk rngs b r) = None"
proof (induction rngs arbitrary: b r)
  case (Cons rng rngs)
  obtain r1 where sk: "sk (rng_Offset rng) r = (None, r1)"
    using assms(3) by (metis prod.collapse)
  have "fst (bw_Copy ops rd (nat (u64 (rng_Length rng))) b r1) = None"
    by (rule Copy_succeeds [OF assms(1,2)])
  then obtain b1 r2 where "bw_Copy ops rd (nat (u64 (rng_Length rng))) b r1 = (None, b1, r2)"
    by (cases "bw_Copy ops rd (nat (u64 (rng_Length rng))) b r1") auto
  with sk show ?case using Cons by simp
qed simp

text \<open>The second loop of \<open>UploadSparse\<close> writes the data ranges one after the other.\<close>

lemma copy_ranges_ok:
  assumes "reader_contract rd rest" and "seek_contract sk rest content"
    and "list_all (wf_range content) rngs"
    and "copy_ranges ops rd sk rngs b r = (None, b', r')" and "room b" and "full_parts ps b"
  shows "written b' = written b @ concat (map (range_bytes content) rngs)"
    and "bw_total b' = bw_total b + length (concat (map (range_bytes content) rngs))"
    and "room b'" and "full_parts ps b'" and "bw_buf_length b' = bw_buf_length b"
proof -
  have "written b' = written b @ concat (map (range_bytes content) rngs) \<and>
     bw_total b' = bw_total b + length (concat (map (range_bytes content) rngs)) \<and>
     room b' \<and> full_parts ps b' \<and> bw_buf_length b' = bw_buf_length b"
    using assms(3-)
  proof (induction rngs arbitrary: b r)
    case (Cons rng rngs)
    show ?case
    proof (cases "rng_IsSparse rng")
      case True
      then show ?thesis using Cons by (simp add: range_bytes_def)
    next
      case False
      then obtain r1 b1 r2 where sk: "sk (rng_Offset rng) r = (None, r1)"
        and cp: "bw_Copy ops rd (nat (u64 (rng_Length rng))) b r1 = (None, b1, r2)"
        and rec: "copy_ranges ops rd sk rngs b1 r2 = (None, b', r')"
        using Cons.prems(2) by (auto split: prod.splits option.splits)
      have wf: "0 \<le> rng_Offset rng" "0 \<le> rng_Length rng" "rng_Length rng < 2 ^ 63"
        using Cons.prems(1) by (auto simp: wf_range_def)
      have "rest r1 = drop (nat (rng_Offset rng)) content"
        using assms(2) sk wf unfolding seek_contract_def by blast
      moreover have "u64 (rng_Length rng) = rng_Length rng"
        using wf by (intro u64_id) auto
      ultimately have d: "take (nat (u64 (rng_Length rng))) (rest r1) = range_bytes content rng"
        using False by (simp add: range_bytes_def)
      note c = Copy_ok [OF assms(1) cp Cons.prems(3,4)]
      have "bw_total b1 = bw_total b + length (range_bytes content rng)"
        using c(2) arg_cong [OF d, of length] by simp
      then show ?thesis
        using Cons.IH [OF _ rec c(3,4)] Cons.prems(1) c(1,5) d by simp
    qed
  qed simp
  then show "written b' = written b @ concat (map (range_bytes content) rngs)"
    and "bw_total b' = bw_total b + length (concat (map (range_bytes content) rngs))"
    and "room b'" and "full_parts ps b'" and "bw_buf_length b' = bw_buf_length b"
    by blast+
qed

text \<open>A writer that starts on an uploader.\<close>

lemma New_writer [simp]:
  "written (NewBufferWriter n u) = concat (parts u)"
  "bw_total (NewBufferWriter n u) = 0"
  "bw_buf_length (NewBufferWriter n u) = n"
  "bw_uploader (NewBufferWriter n u) = u"
  "room (NewBufferWriter n u) \<longleftrightarrow> 0 < n"
  "full_parts (parts u) (NewBufferWriter n u)"
  by (auto simp: written_def NewBufferWriter_def room_def full_parts_def intro: exI [of _ "[]"])

text \<open>Closing, whatever its outcome, sends the buffered bytes or leaves the parts alone.\<close>

lemma Close_parts_cases:
  "bw_Close ops b = (r, b') \<Longrightarrow>
     parts (bw_uploader b') = parts (bw_uploader b) @ [bw_buf b] \<or>
     r \<noteq> None \<and> parts (bw_uploader b') = parts (bw_uploader b)"
  using PutWhole_ok PutWhole_fail Put_ok Put_fail Close_parts Commit_parts
  by (cases r; cases "fst (up_PutWhole ops (bw_buf b) (bw_uploader b))")
    (auto simp: bw_Close_def bw_Flush_def Let_def split: if_splits prod.splits option.splits)

end

text \<open>
  A property of the uploader that each of its operations keeps, whatever its outcome, is
  kept by the code that drives it, whatever its outcome.
\<close>

locale uploader_invariant =
  fixes ops :: "'u uploader_ops" and I :: "'u \<Rightarrow> bool"
  assumes Put_inv: "I u \<Longrightarrow> I (snd (up_Put ops d u))"
    and PutWhole_inv: "I u \<Longrightarrow> I (snd (up_PutWhole ops d u))"
    and Commit_inv: "I u \<Longrightarrow> I (up_Commit ops u)"
    and Close_inv: "I u \<Longrightarrow> I (snd (up_Close ops u))"
    and SetIndex_inv: "I u \<Longrightarrow> I (up_SetIndex ops idx u)"
begin

lemma Flush_keeps:
  assumes "I (bw_uploader b)" shows "I (bw_uploader (snd (bw_Flush ops b)))"
  using Put_inv [OF assms, of "bw_buf b"]
  by (auto simp: bw_Flush_def Let_def split: prod.splits option.splits)

lemma bw_Close_keeps:
  assumes "I (bw_uploader b)" shows "I (bw_uploader (snd (bw_Close ops b)))"
  using PutWhole_inv [OF assms, of "bw_buf b"] Flush_keeps [OF assms] Commit_inv
    Close_inv [OF Commit_inv]
  by (fastforce simp: bw_Close_def split: prod.splits option.splits)

lemma Copy_keeps:
  "I (bw_uploader b) \<Longrightarrow> I (bw_uploader (fst (snd (bw_Copy ops rd len b r))))"
proof (induction len arbitrary: b r rule: less_induct)
  case (less len)
  define k where "k = (if len > bw_buf_length b - length (bw_buf b)
                       then bw_buf_length b - length (bw_buf b) else len)"
  obtain d0 e r1 where rd: "rd k r = ((d0, e), r1)" by (metis prod.exhaust)
  define b1 where "b1 = b\<lparr>bw_total := bw_total b + length (take k d0),
                          bw_buf := bw_buf b @ take k d0\<rparr>"
  obtain f b2 where b2: "bw_Flush ops b1 = (f, b2)" by fastforce
  have I: "I (bw_uploader b1)" "I (bw_uploader b2)"
    using less.prems Flush_keeps [of b1] b2 by (auto simp: b1_def)
  show ?case
  proof (cases "len = 0 \<or> take k d0 = []")
    case True
    then show ?thesis
      using less.prems
      by (subst bw_Copy.simps) (auto simp only: Let_def k_def [symmetric] rd prod.case, auto)
  next
    case False
    then have "len - length (take k d0) < len" by auto
    note IH = less.IH [OF this]
    show ?thesis
      using False IH [OF I(1), of r1] IH [OF I(2), of r1] I(2)
      by (subst bw_Copy.simps, cases f)
        (simp_all only: Let_def k_def [symmetric] rd prod.case b1_def [symmetric] b2 option.case
          length_0_conv if_False HOL.simp_thms fst_conv snd_conv split: if_split, simp_all)
  qed
qed

lemma copy_ranges_keeps:
  "I (bw_uploader b) \<Longrightarrow> I (bw_uploader (fst (snd (copy_ranges ops rd sk rngs b r))))"
proof (induction rngs arbitrary: b r)
  case (Cons rng rngs)
  have "I (bw_uploader b1)" if "bw_Copy ops rd n b r1 = (e, b1, r2)" for n r1 e b1 r2
    using Copy_keeps [OF Cons.prems, of rd n r1] that by simp
  then show ?case
    using Cons by (auto split: prod.splits option.splits)
qed simp

end

text \<open>
  The same for a property that puts keep when they succeed, and its extension to all the
  operations.
\<close>

locale uploader_puts =
  fixes ops :: "'u uploader_ops" and J :: "'u \<Rightarrow> bool"
  assumes Put_J: "J u \<Longrightarrow> up_Put ops d u = (None, u') \<Longrightarrow> J u'"
begin

lemma Flush_J:
  "J (bw_uploader b) \<Longrightarrow> bw_Flush ops b = (None, b') \<Longrightarrow> J (bw_uploader b')"
  using Put_J by (auto simp: bw_Flush_def Let_def split: prod.splits option.splits)

lemma Copy_J:
  "J (bw_uploader b) \<Longrightarrow> bw_Copy ops rd len b r = (None, b', r') \<Longrightarrow> J (bw_uploader b')"
proof (induction len arbitrary: b r rule: less_induct)
  case (less len)
  define k where "k = (if len > bw_buf_length b - length (bw_buf b)
                       then bw_buf_length b - length (bw_buf b) else len)"
  obtain d0 e r1 where rd: "rd k r = ((d0, e), r1)" by (metis prod.exhaust)
  define b1 where "b1 = b\<lparr>bw_total := bw_total b + length (take k d0),
                          bw_buf := bw_buf b @ take k d0\<rparr>"
  obtain f b2 where b2: "bw_Flush ops b1 = (f, b2)" by fastforce
  have J: "J (bw_uploader b1)" "f = None \<Longrightarrow> J (bw_uploader b2)"
    using less.prems Flush_J [of b1] b2 by (auto simp: b1_def)
  note unfolded = less.prems(2) [unfolded bw_Copy.simps [of ops rd len b r] Let_def
      k_def [symmetric] rd prod.case b1_def [symmetric] b2]
  show ?case
  proof (cases "len = 0 \<or> take k d0 = []")
    case True
    then show ?thesis
      using less.prems(1) unfolded by (auto split: if_splits)
  next
    case False
    then have "len - length (take k d0) < len" by auto
    note IH = less.IH [OF this]
    have "bw_Copy ops rd (len - length (take k d0)) b1 r1 = (None, b', r') \<or>
        f = None \<and> bw_Copy ops rd (len - length (take k d0)) b2 r1 = (None, b', r')"
      using False unfolded by (cases f) (simp_all del: length_take split: if_splits)
    then show ?thesis using IH [OF J(1)] IH [OF J(2)] by blast
  qed
qed

lemma copy_ranges_J:
  "J (bw_uploader b) \<Longrightarrow> copy_ranges ops rd sk rngs b r = (None, b', r') \<Longrightarrow> J (bw_uploader b')"
proof (induction rngs arbitrary: b r)
  case (Cons rng rngs)
  show ?case
  proof (cases "rng_IsSparse rng")
    case True
    then show ?thesis using Cons by simp
  next
    case False
    then obtain r1 b1 r2
      where cp: "bw_Copy ops rd (nat (u64 (rng_Length rng))) b r1 = (None, b1, r2)"
        and rec: "copy_ranges ops rd sk rngs b1 r2 = (None, b', r')"
      using Cons.prems(2) by (auto split: prod.splits option.splits)
    from Cons.IH [OF Copy_J [OF Cons.prems(1) cp] rec] show ?thesis .
  qed
qed simp

end

locale uploader_success = uploader_puts +
  assumes PutWhole_J: "J u \<Longrightarrow> up_PutWhole ops d u = (None, u') \<Longrightarrow> J u'"
    and Commit_J: "J u \<Longrightarrow> J (up_Commit ops u)"
    and Close_J: "J u \<Longrightarrow> up_Close ops u = (None, u') \<Longrightarrow> J u'"
begin

lemma bw_Close_J:
  assumes J: "J (bw_uploader b)" and c: "bw_Close ops b = (None, b')"
  shows "J (bw_uploader b')"
proof (cases "bw_sent_first_buffer b")
  case False
  then show ?thesis
    using c PutWhole_J [OF J, of "bw_buf b"] by (auto simp: bw_Close_def split: prod.splits)
next
  case True
  obtain f b1 where fl: "bw_Flush ops b = (f, b1)" by fastforce
  with True c have f: "f = None" by (cases f) (simp_all add: bw_Close_def split: prod.splits)
  have "J (up_Commit ops (bw_uploader b1))"
    using Commit_J Flush_J [OF J] fl f by simp
  from Close_J [OF this] show ?thesis
    using True c fl f by (auto simp: bw_Close_def split: prod.splits)
qed

end

section \<open>The index restores the file\<close>

text \<open>
  C19. The sparse index maps the stored file back to the original: for every range of the
  file its entry carries the range's place, and the slice of the stored data it points at
  is the range's bytes (nothing for a sparse one). The ranges must stay within the \<open>int64\<close>
  offsets.
\<close>

theorem sparse_index_restores:
  assumes "wf_ranges content rngs" and "i < length rngs"
  shows "let e = sc_index (scan_ranges rngs) ! i;
             data = concat (map (range_bytes content) rngs)
         in length (sc_index (scan_ranges rngs)) = length rngs \<and>
            OriginalOffset e = rng_Offset (rngs ! i) \<and> Length e = rng_Length (rngs ! i) \<and>
            take (nat (FileLength e)) (drop (nat (FileOffset e)) data) =
              range_bytes content (rngs ! i)"
proof -
  have wf: "list_all (wf_range content) rngs" "sum_list (map stored_length rngs) < 2 ^ 63"
    using assms(1) by (auto simp: wf_ranges_def)
  have "sc_index (scan_ranges rngs) = index_from 0 rngs"
    using scan_index [OF wf(1), of "\<lparr>sc_index = [], sc_expected_size = 0, sc_real_size = 0,
      sc_is_sparse = False\<rparr>"] wf(2) by (simp add: scan_ranges_def)
  then show ?thesis
    using concat_slice [OF wf(1) assms(2)] assms(2) by (simp add: index_from_nth Let_def)
qed

definition sample_ranges :: "file_range list" where
  "sample_ranges =
     [\<lparr>rng_Offset = 0, rng_Length = 2, rng_IsSparse = False\<rparr>,
      \<lparr>rng_Offset = 2, rng_Length = 5, rng_IsSparse = True\<rparr>,
      \<lparr>rng_Offset = 7, rng_Length = 3, rng_IsSparse = False\<rparr>]"

definition sample_content :: bytes where
  "sample_content = [1, 2, 0, 0, 0, 0, 0, 3, 4, 5]"

lemma sample_wf: "wf_ranges sample_content sample_ranges"
  by (simp add: wf_ranges_def sample_ranges_def sample_content_def wf_range_def stored_length_def)

theorem sparse_index_restores_witness:
  "let e = sc_index (scan_ranges sample_ranges) ! 2
   in OriginalOffset e = 7 \<and> take (nat (FileLength e)) (drop (nat (FileOffset e)) [1, 2, 3, 4, 5]) =
      [3, 4, 5 :: 8 word]"
  using sparse_index_restores [OF sample_wf, of 2]
  by (simp add: sample_ranges_def sample_content_def range_bytes_def Let_def)

end
