(* ===== verification/VeloUploader.thy ===== *)
theory VeloUploader
  imports Uploads
begin

text \<open>
  The uploader of the client (\<open>vql/uploads/uploader.go\<close>) and the \<open>upload()\<close> function that
  drives it (\<open>vql/uploads/vql.go\<close>). The uploader posts a start request, puts the parts and
  posts the completion request to the server's HTTP endpoints, and tells the server about
  every part with a \<open>FileBuffer\<close> message. The interface of \<open>Uploads\<close> is interpreted on it.
\<close>

section \<open>Requests, replies and the environment\<close>

text \<open>
  \<open>accessors.OSPath\<close> is a type of the Velociraptor library; what the code reads of a path is
  its string form, its components and its delegate path.
\<close>

record os_path =
  op_string :: string
  op_components :: "string list"
  op_delegate :: string

record upload_request =
  UploadRequest_ClientId :: string
  UploadRequest_SessionId :: string
  UploadRequest_Accessor :: string
  UploadRequest_Components :: "string list"
  UploadRequest_Type :: string

record upload_response =
  UploadResponse_Key :: string
  UploadResponse_UploadId :: string

text \<open>The three requests; the last field of each is the token of the Authorization header.\<close>

datatype http_req =
    StartReq upload_request string
  | PutReq string string int bytes string
  | CommitReq string string "completed_part list" string

record http_reply =
  StatusCode :: int
  Status :: string
  Body :: string

text \<open>
  The code's environment. \<open>net\<close> is the HTTP client: what happens to a request after the
  requests made before; \<open>Inl\<close> is an error of \<open>http.NewRequest\<close> or \<open>client.Do\<close>, which the
  code treats alike. \<open>parse_start\<close> and \<open>parse_part\<close> are \<open>json.Unmarshal\<close> into the two reply
  types. \<open>NextUploadId\<close> is the responder's counter, \<open>ctx_done\<close> the state of the context after
  the requests made so far.
\<close>

record upload_env =
  net :: "http_req list \<Rightarrow> http_req \<Rightarrow> http_reply result"
  parse_start :: "string \<Rightarrow> upload_response result"
  parse_part :: "string \<Rightarrow> completed_part result"
  NextUploadId :: int
  ctx_done :: "http_req list \<Rightarrow> bool"

text \<open>\<open>actions_proto.FileBuffer\<close> inside its \<open>VeloMessage\<close>.\<close>

record file_buffer =
  fb_SessionId :: string
  fb_Path :: string
  fb_Accessor :: string
  fb_Components :: "string list"
  fb_Offset :: nat
  fb_Size :: int
  fb_StoredSize :: nat
  fb_DataLength :: nat
  fb_Eof :: bool
  fb_UploadNumber :: int
  fb_IsSparse :: bool
  fb_Mtime :: int
  fb_Atime :: int
  fb_Ctime :: int
  fb_Btime :: int

section \<open>The uploader\<close>

text \<open>
  \<open>VeloCloudUploader\<close>. The two hashes hold the bytes written to them; a time is \<open>None\<close> when
  it is the zero time. \<open>log\<close> is the history of the HTTP client and \<open>messages\<close> the responses
  added to the responder: the effects of the code.
\<close>

record vcu =
  client_id :: string
  key :: string
  upload_id :: string
  upload_number :: int
  commit :: bool
  md5_sum :: bytes
  sha_sum :: bytes
  vcu_size :: int
  offset :: nat
  part :: int
  parts :: "completed_part list"
  session_id :: string
  token :: string
  path :: os_path
  accessor :: string
  mtime :: "int option"
  atime :: "int option"
  ctime :: "int option"
  btime :: "int option"
  uploader_type :: string
  response :: "upload_result option"
  closed :: bool
  index :: "index_range list option"
  log :: "(http_req \<times> http_reply result) list"
  messages :: "file_buffer list"

definition SetIndex :: "index_range list \<Rightarrow> vcu \<Rightarrow> vcu" where
  "SetIndex idx v =
     (if idx = [] then v
      else v\<lparr>index := Some idx,
             vcu_size := i64 (OriginalOffset (last idx) + Length (last idx))\<rparr>)"

definition GetVQLResponse :: "(bytes \<Rightarrow> string) \<Rightarrow> (bytes \<Rightarrow> string) \<Rightarrow> vcu \<Rightarrow> upload_result" where
  "GetVQLResponse sha256 md5 v =
     (case response v of
        Some r \<Rightarrow> r
      | None \<Rightarrow> \<lparr>ur_Path = op_string (path v), ur_StoredName = op_string (path v), ur_Error = [],
                 ur_Size = int (offset v), ur_StoredSize = int (offset v),
                 ur_Sha256 = sha256 (sha_sum v), ur_Md5 = md5 (md5_sum v)\<rparr>)"

definition getComponents :: "os_path \<Rightarrow> string list" where
  "getComponents p = (if op_delegate p \<noteq> [] then [op_string p] else op_components p)"

text \<open>\<open>self.client.Do(req)\<close>.\<close>

definition http_do :: "upload_env \<Rightarrow> http_req \<Rightarrow> vcu \<Rightarrow> http_reply result \<times> vcu" where
  "http_do env req v =
     (let out = net env (map fst (log v)) req in (out, v\<lparr>log := log v @ [(req, out)]\<rparr>))"

definition http_error :: "string \<Rightarrow> http_reply \<Rightarrow> go_error" where
  "http_error what rep = Err (what @ '': '' @ Status rep @ '': '' @ Body rep @ ''\<newline>'')"

definition Start :: "upload_env \<Rightarrow> vcu \<Rightarrow> go_error option \<times> vcu" where
  "Start env v =
     (case http_do env
        (StartReq \<lparr>UploadRequest_ClientId = client_id v, UploadRequest_SessionId = session_id v,
           UploadRequest_Accessor = accessor v, UploadRequest_Components = getComponents (path v),
           UploadRequest_Type = uploader_type v\<rparr> (token v)) v of
        (Inl e, v1) \<Rightarrow> (Some e, v1)
      | (Inr resp, v1) \<Rightarrow>
          if StatusCode resp \<noteq> 200 then (Some (http_error ''Unable to connect'' resp), v1)
          else (case parse_start env (Body resp) of
                  Inl e \<Rightarrow> (Some e, v1)
                | Inr ur \<Rightarrow> (None, v1\<lparr>key := UploadResponse_Key ur,
                     upload_id := UploadResponse_UploadId ur,
                     upload_number := NextUploadId env\<rparr>)))"

text \<open>
  \<open>config_obj.Client\<close>, a pointer that may be nil. The code tests it before it reads the
  pinned name and not before it reads the nonce.
\<close>

record client_config =
  PinnedServerName :: string
  Nonce :: string
  ServerUrls :: "string list"

definition server_name :: "client_config option \<Rightarrow> string" where
  "server_name cfg =
     (case cfg of
        Some c \<Rightarrow> (if PinnedServerName c \<noteq> [] then PinnedServerName c else ''VelociraptorServer'')
      | None \<Rightarrow> ''VelociraptorServer'')"

definition GetURL :: "(nat \<Rightarrow> nat) \<Rightarrow> client_config option \<Rightarrow> string result" where
  "GetURL rand cfg =
     (case cfg of
        None \<Rightarrow> Inl (Err ''No server URLs configured'')
      | Some c \<Rightarrow> if ServerUrls c = [] then Inl (Err ''No server URLs configured'')
                  else Inr (ServerUrls c ! rand (length (ServerUrls c))))"

text \<open>
  \<open>New\<close>. \<open>responder\<close> is the session id of the responder found in the scope, \<open>encrypt\<close> the
  crypto manager with the base64 encoding of its result. When \<open>Start\<close> fails the code returns
  the new uploader along with the error.
\<close>

record upload_times =
  ut_mtime :: "int option"
  ut_atime :: "int option"
  ut_ctime :: "int option"
  ut_btime :: "int option"

definition New ::
  "upload_env \<Rightarrow> (string \<Rightarrow> string \<Rightarrow> string result) \<Rightarrow> client_config \<Rightarrow> string \<Rightarrow> string option
     \<Rightarrow> os_path option \<Rightarrow> string \<Rightarrow> os_path \<Rightarrow> upload_times \<Rightarrow> int \<Rightarrow> string
     \<Rightarrow> (go_error \<times> vcu option) + vcu" where
  "New env encrypt cfg self_client_id responder dest acc name tms sz utype =
     (let dst = (case dest of None \<Rightarrow> name | Some d \<Rightarrow> d)
      in case responder of
           None \<Rightarrow> Inl (Err ''Responder not found'', None)
         | Some sid \<Rightarrow>
             (case encrypt (Nonce cfg) (server_name (Some cfg)) of
                Inl e \<Rightarrow> Inl (e, None)
              | Inr tok \<Rightarrow>
                  (case Start env
                     \<lparr>client_id = self_client_id, key = [], upload_id = [], upload_number = 0,
                      commit = False, md5_sum = [], sha_sum = [], vcu_size = sz, offset = 0,
                      part = 1, parts = [], session_id = sid, token = tok, path = dst,
                      accessor = acc, mtime = ut_mtime tms, atime = ut_atime tms,
                      ctime = ut_ctime tms, btime = ut_btime tms, uploader_type = utype,
                      response = None, closed = False, index = None, log = [], messages = []\<rparr>
                   of (Some e, v) \<Rightarrow> Inl (e, Some v)
                    | (None, v) \<Rightarrow> Inr v)))"

definition updateServerStat :: "upload_env \<Rightarrow> bool \<Rightarrow> nat \<Rightarrow> vcu \<Rightarrow> vcu" where
  "updateServerStat env eof buffer_size v =
     (if ctx_done env (map fst (log v)) then v
      else v\<lparr>messages := messages v @
        [\<lparr>fb_SessionId = session_id v, fb_Path = op_string (path v), fb_Accessor = accessor v,
          fb_Components = getComponents (path v), fb_Offset = offset v,
          fb_Size = u64 (vcu_size v), fb_StoredSize = offset v + buffer_size,
          fb_DataLength = buffer_size, fb_Eof = eof, fb_UploadNumber = upload_number v,
          fb_IsSparse = (index v \<noteq> None),
          fb_Mtime = (case mtime v of None \<Rightarrow> 0 | Some t \<Rightarrow> t),
          fb_Atime = (case atime v of None \<Rightarrow> 0 | Some t \<Rightarrow> t),
          fb_Ctime = (case ctime v of None \<Rightarrow> 0 | Some t \<Rightarrow> t),
          fb_Btime = (case btime v of None \<Rightarrow> 0 | Some t \<Rightarrow> t)\<rparr>]\<rparr>)"

definition Put :: "upload_env \<Rightarrow> bytes \<Rightarrow> vcu \<Rightarrow> go_error option \<times> vcu" where
  "Put env buf v =
     (case http_do env (PutReq (key v) (upload_id v) (part v) buf (token v))
             (v\<lparr>md5_sum := md5_sum v @ buf, sha_sum := sha_sum v @ buf\<rparr>) of
        (Inl e, v1) \<Rightarrow> (Some e, v1)
      | (Inr resp, v1) \<Rightarrow>
          if StatusCode resp \<noteq> 200 then (Some (http_error ''Unable to put part'' resp), v1)
          else let v2 = v1\<lparr>part := part v1 + 1\<rparr>
               in case parse_part env (Body resp) of
                    Inl e \<Rightarrow> (Some e, v2)
                  | Inr cp \<Rightarrow>
                      let v3 = updateServerStat env False (length buf)
                                 (v2\<lparr>parts := parts v2 @ [cp]\<rparr>)
                      in (None, v3\<lparr>offset := offset v3 + length buf\<rparr>))"

definition PutWhole :: "upload_env \<Rightarrow> bytes \<Rightarrow> vcu \<Rightarrow> go_error option \<times> vcu" where
  "PutWhole env buf v = Put env buf v"

definition Commit :: "vcu \<Rightarrow> vcu" where
  "Commit v = v\<lparr>commit := True\<rparr>"

definition Close :: "upload_env \<Rightarrow> vcu \<Rightarrow> go_error option \<times> vcu" where
  "Close env v =
     (if closed v then (None, v)
      else
        (case http_do env (CommitReq (key v) (upload_id v) (parts v) (token v))
                (v\<lparr>closed := True\<rparr>) of
           (Inl e, v1) \<Rightarrow> (Some e, v1\<lparr>response := Some (empty_result\<lparr>ur_Error := err_text e\<rparr>)\<rparr>)
         | (Inr resp, v1) \<Rightarrow>
             if StatusCode resp \<noteq> 200 then
               (let e = http_error ''Unable to put part'' resp
                in (Some e, v1\<lparr>response := Some (empty_result\<lparr>ur_Error := err_text e\<rparr>)\<rparr>))
             else (None, updateServerStat env True 0 v1)))"

text \<open>The methods of the interface, on this uploader.\<close>

definition vcu_ops :: "upload_env \<Rightarrow> vcu uploader_ops" where
  "vcu_ops env = \<lparr>up_PutWhole = PutWhole env, up_Put = Put env, up_Commit = Commit,
     up_Close = Close env, up_SetIndex = SetIndex\<rparr>"

section \<open>The upload function (vql.go)\<close>

definition BUFF_SIZE :: nat where
  "BUFF_SIZE = 10 * 1024 * 1024"

definition MAX_FILE_LENGTH :: nat where
  "MAX_FILE_LENGTH = 10 * 1000000000"

text \<open>
  \<open>Upload\<close> with the uploader factory installed. \<open>new\<close> is the factory's \<open>New\<close> with the fixed
  arguments given (environment, type, destination, name); \<open>ranges\<close> is \<open>Some\<close> when the reader
  is a range reader; the buffer size is a parameter so that it can be made small. The
  deferred closes run last, the index uploader first. The result is the answer of the call,
  the index uploader and the bulk uploader as they are left.
\<close>

definition Upload ::
  "upload_env \<Rightarrow> upload_env \<Rightarrow> (upload_env \<Rightarrow> string \<Rightarrow> os_path \<Rightarrow> os_path \<Rightarrow> (go_error \<times> vcu option) + vcu)
     \<Rightarrow> (bytes \<Rightarrow> string) \<Rightarrow> (bytes \<Rightarrow> string) \<Rightarrow> (index_range list \<Rightarrow> bytes result)
     \<Rightarrow> (os_path \<Rightarrow> os_path) \<Rightarrow> nat \<Rightarrow> os_path \<Rightarrow> os_path option
     \<Rightarrow> 'r reader \<Rightarrow> (int \<Rightarrow> 'r \<Rightarrow> go_error option \<times> 'r) \<Rightarrow> file_range list option \<Rightarrow> 'r
     \<Rightarrow> upload_result result \<times> vcu option \<times> vcu option" where
  "Upload env idx_env new sha256 md5 marshal idx_name buff_size ospath name rd sk ranges r =
     (let dest = (case name of None \<Rightarrow> ospath | Some n \<Rightarrow> n)
      in case new env [] dest dest of
           Inl (e, u) \<Rightarrow> (Inl e, None, u)
         | Inr uploader \<Rightarrow>
             (case ranges of
                Some rngs \<Rightarrow>
                  (case new idx_env ''idx'' dest (idx_name dest) of
                     Inl (e, i) \<Rightarrow> (Inl e, i, Some (snd (Close env uploader)))
                   | Inr idx_uploader \<Rightarrow>
                       (case UploadSparse (vcu_ops idx_env) (vcu_ops env) rd sk marshal sha256 md5 buff_size
                               (op_string dest) idx_uploader uploader rngs r of
                          (res, i, u, r1) \<Rightarrow>
                            (res, Some (snd (Close idx_env i)), Some (snd (Close env u)))))
              | None \<Rightarrow>
                  (case bw_Copy (vcu_ops env) rd MAX_FILE_LENGTH
                          (NewBufferWriter buff_size uploader) r of
                     (Some e, b, r1) \<Rightarrow>
                       (Inr (empty_result\<lparr>ur_Error := err_text e\<rparr>), None,
                        Some (snd (Close env (bw_uploader b))))
                   | (None, b, r1) \<Rightarrow>
                       (case bw_Close (vcu_ops env) b of
                          (Some e, b1) \<Rightarrow>
                            (Inr (empty_result\<lparr>ur_Error := err_text e\<rparr>), None,
                             Some (snd (Close env (bw_uploader b1))))
                        | (None, b1) \<Rightarrow>
                            (Inr (GetVQLResponse sha256 md5 (bw_uploader b1)), None,
                             Some (snd (Close env (bw_uploader b1))))))))"

section \<open>The parts the server has accepted\<close>

text \<open>
  A put is accepted when its reply has status 200 and names the completed part. The parts
  accepted so far are read off the history of the HTTP client; \<open>put_numbers\<close> are the part
  numbers the server answered with status 200.
\<close>

fun accepted_part :: "upload_env \<Rightarrow> http_req \<times> http_reply result \<Rightarrow> bytes list" where
  "accepted_part env (PutReq k u n d t, Inr rep) =
     (if StatusCode rep = 200 \<and> \<not> isl (parse_part env (Body rep)) then [d] else [])"
| "accepted_part env _ = []"

definition accepted :: "upload_env \<Rightarrow> vcu \<Rightarrow> bytes list" where
  "accepted env v = concat (map (accepted_part env) (log v))"

fun put_number :: "http_req \<times> http_reply result \<Rightarrow> int list" where
  "put_number (PutReq k u n d t, Inr rep) = (if StatusCode rep = 200 then [n] else [])"
| "put_number _ = []"

definition put_numbers :: "vcu \<Rightarrow> int list" where
  "put_numbers v = concat (map put_number (log v))"

text \<open>The offsets and lengths a contiguous sequence of parts has.\<close>

fun layout :: "nat \<Rightarrow> bytes list \<Rightarrow> (nat \<times> nat) list" where
  "layout off [] = []"
| "layout off (d # ds) = (off, length d) # layout (off + length d) ds"

lemma layout_snoc [simp]:
  "layout off (ds @ [d]) = layout off ds @ [(off + length (concat ds), length d)]"
  by (induction ds arbitrary: off) auto

definition part_stats :: "vcu \<Rightarrow> (nat \<times> nat) list" where
  "part_stats v = map (\<lambda>m. (fb_Offset m, fb_DataLength m)) (filter (\<lambda>m. \<not> fb_Eof m) (messages v))"

lemmas vcu_defs = http_do_def Put_def PutWhole_def Commit_def Close_def SetIndex_def
  updateServerStat_def Let_def

lemma accepted_log:
  "accepted env (v\<lparr>log := l @ [e]\<rparr>) = concat (map (accepted_part env) l) @ accepted_part env e"
  by (simp add: accepted_def)

lemma Put_accepted:
  "Put env d v = (None, v') \<Longrightarrow> accepted env v' = accepted env v @ [d]"
  "Put env d v = (Some e, v') \<Longrightarrow> accepted env v' = accepted env v"
  by (auto simp: vcu_defs accepted_def split: sum.splits if_splits)

lemma Close_accepted: "accepted env (snd (Close env v)) = accepted env v"
  by (auto simp: vcu_defs accepted_def split: sum.splits)

text \<open>The uploader provides the interface of \<open>Uploads\<close>.\<close>

interpretation vcu: cloud_uploader "vcu_ops env" "accepted env" for env
proof
  fix d :: bytes and u u' :: vcu and e r and idx :: "index_range list"
  show "up_Put (vcu_ops env) d u = (None, u') \<Longrightarrow> accepted env u' = accepted env u @ [d]"
    by (simp add: vcu_ops_def Put_accepted)
  show "up_Put (vcu_ops env) d u = (Some e, u') \<Longrightarrow> accepted env u' = accepted env u"
    by (simp add: vcu_ops_def Put_accepted)
  show "up_PutWhole (vcu_ops env) d u = (None, u') \<Longrightarrow> accepted env u' = accepted env u @ [d]"
    by (simp add: vcu_ops_def PutWhole_def Put_accepted)
  show "up_PutWhole (vcu_ops env) d u = (Some e, u') \<Longrightarrow> accepted env u' = accepted env u"
    by (simp add: vcu_ops_def PutWhole_def Put_accepted)
  show "accepted env (up_Commit (vcu_ops env) u) = accepted env u"
    by (simp add: vcu_ops_def Commit_def accepted_def)
  show "up_Close (vcu_ops env) u = (r, u') \<Longrightarrow> accepted env u' = accepted env u"
    using Close_accepted [of env u] by (simp add: vcu_ops_def)
  show "accepted env (up_SetIndex (vcu_ops env) idx u) = accepted env u"
    by (simp add: vcu_ops_def SetIndex_def accepted_def)
qed

section \<open>Reachable uploaders\<close>

text \<open>The uploaders the program can hold: made by \<open>New\<close>, then driven by the interface.\<close>

inductive uploader_reach :: "upload_env \<Rightarrow> vcu \<Rightarrow> bool" for env where
  reach_New: "New env encrypt cfg cid responder dest acc name tms sz utype = Inr v
     \<Longrightarrow> uploader_reach env v"
| reach_Put: "uploader_reach env v \<Longrightarrow> uploader_reach env (snd (Put env d v))"
| reach_Commit: "uploader_reach env v \<Longrightarrow> uploader_reach env (Commit v)"
| reach_Close: "uploader_reach env v \<Longrightarrow> uploader_reach env (snd (Close env v))"
| reach_SetIndex: "uploader_reach env v \<Longrightarrow> uploader_reach env (SetIndex idx v)"

text \<open>What \<open>New\<close> hands out when it succeeds.\<close>

lemma New_Inr:
  assumes "New env encrypt cfg cid responder dest acc name tms sz utype = Inr v"
  shows "accepted env v = []" "put_numbers v = []" "parts v = []" "offset v = 0" "part v = 1"
    "messages v = []" "response v = None" "\<not> closed v" "md5_sum v = []" "sha_sum v = []"
    "path v = (case dest of None \<Rightarrow> name | Some d \<Rightarrow> d)"
  using assms
  by (auto simp: New_def Start_def http_do_def accepted_def put_numbers_def Let_def
      split: option.splits sum.splits prod.splits if_splits)

definition vcu_inv :: "upload_env \<Rightarrow> vcu \<Rightarrow> bool" where
  "vcu_inv env v \<longleftrightarrow>
     length (parts v) = length (accepted env v) \<and>
     offset v = length (concat (accepted env v)) \<and>
     sorted_wrt (<) (put_numbers v) \<and> (\<forall>n \<in> set (put_numbers v). 1 \<le> n \<and> n < part v) \<and>
     1 \<le> part v \<and>
     ((\<forall>h. \<not> ctx_done env h) \<longrightarrow> part_stats v = layout 0 (accepted env v)) \<and>
     (response v \<noteq> None \<longrightarrow> closed v)"

lemma vcu_inv_New:
  "New env encrypt cfg cid responder dest acc name tms sz utype = Inr v \<Longrightarrow> vcu_inv env v"
  by (simp add: vcu_inv_def New_Inr part_stats_def)

lemma Put_numbers:
  "part (snd (Put env d v)) = part v \<and> put_numbers (snd (Put env d v)) = put_numbers v \<or>
   part (snd (Put env d v)) = part v + 1 \<and>
     put_numbers (snd (Put env d v)) = put_numbers v @ [part v]"
  by (auto simp: vcu_defs put_numbers_def split: sum.splits)

lemma Put_fields:
  "Put env d v = (None, v') \<Longrightarrow>
     length (parts v') = Suc (length (parts v)) \<and> offset v' = offset v + length d \<and>
     response v' = response v \<and> closed v' = closed v \<and>
     ((\<forall>h. \<not> ctx_done env h) \<longrightarrow> part_stats v' = part_stats v @ [(offset v, length d)])"
  "Put env d v = (Some e, v') \<Longrightarrow>
     parts v' = parts v \<and> offset v' = offset v \<and> response v' = response v \<and>
     closed v' = closed v \<and> part_stats v' = part_stats v"
  by (auto simp: vcu_defs part_stats_def split: sum.splits if_splits)

lemma vcu_inv_Put:
  assumes "vcu_inv env v" shows "vcu_inv env (snd (Put env d v))"
proof -
  obtain r v' where p: "Put env d v = (r, v')" by fastforce
  have le: "n \<le> part v" if "n \<in> set (put_numbers v)" for n
    using assms that by (auto simp: vcu_inv_def dest: less_imp_le)
  have "sorted_wrt (<) (put_numbers v') \<and> (\<forall>n \<in> set (put_numbers v'). 1 \<le> n \<and> n < part v') \<and>
      1 \<le> part v'"
    using assms Put_numbers [of env d v] p
    by (auto simp: vcu_inv_def sorted_wrt_append le)
  then show ?thesis
  proof (cases r)
    case None
    note f = Put_fields(1) [OF p [unfolded None]] Put_accepted(1) [OF p [unfolded None]]
    show ?thesis
      using assms \<open>_ \<and> _ \<and> 1 \<le> part v'\<close> p f by (simp add: vcu_inv_def)
  next
    case (Some e)
    note f = Put_fields(2) [OF p [unfolded Some]] Put_accepted(2) [OF p [unfolded Some]]
    show ?thesis
      using assms \<open>_ \<and> _ \<and> 1 \<le> part v'\<close> p f by (simp add: vcu_inv_def)
  qed
qed

lemma vcu_inv_Close: "vcu_inv env v \<Longrightarrow> vcu_inv env (snd (Close env v))"
  by (auto simp: vcu_inv_def vcu_defs accepted_def put_numbers_def part_stats_def
      sorted_wrt_append split: sum.splits)

lemma vcu_inv_other:
  "vcu_inv env v \<Longrightarrow> vcu_inv env (Commit v)"
  "vcu_inv env v \<Longrightarrow> vcu_inv env (SetIndex idx v)"
  by (simp_all add: vcu_inv_def Commit_def SetIndex_def accepted_def put_numbers_def
      part_stats_def)

lemma reach_inv: "uploader_reach env v \<Longrightarrow> vcu_inv env v"
  by (induction rule: uploader_reach.induct)
    (auto intro: vcu_inv_New vcu_inv_Put vcu_inv_Close vcu_inv_other)

interpretation vcu: uploader_invariant "vcu_ops env" "uploader_reach env" for env
  by unfold_locales
    (simp_all add: vcu_ops_def PutWhole_def uploader_reach.intros)

text \<open>While every put succeeds, the hashes are those of the accepted parts.\<close>

definition vcu_good :: "upload_env \<Rightarrow> vcu \<Rightarrow> bool" where
  "vcu_good env v \<longleftrightarrow> uploader_reach env v \<and> sha_sum v = concat (accepted env v) \<and>
     md5_sum v = concat (accepted env v) \<and> response v = None"

lemma Put_hash:
  "sha_sum (snd (Put env d v)) = sha_sum v @ d \<and> md5_sum (snd (Put env d v)) = md5_sum v @ d"
  by (auto simp: vcu_defs split: sum.splits)

lemma vcu_good_Put: "vcu_good env v \<Longrightarrow> Put env d v = (None, v') \<Longrightarrow> vcu_good env v'"
  using Put_hash [of env d v] Put_accepted(1) [of env d v v'] Put_fields(1) [of env d v v']
    reach_Put [of env v d]
  by (simp add: vcu_good_def)

lemma Close_hash:
  "sha_sum (snd (Close env v)) = sha_sum v \<and> md5_sum (snd (Close env v)) = md5_sum v"
  "Close env v = (None, v') \<Longrightarrow> response v' = response v"
  by (auto simp: vcu_defs split: sum.splits if_splits)

lemma vcu_good_Close: "vcu_good env v \<Longrightarrow> Close env v = (None, v') \<Longrightarrow> vcu_good env v'"
  using Close_hash(1) [of env v] Close_hash(2) [of env v v'] Close_accepted [of env v]
    reach_Close [of env v]
  by (simp add: vcu_good_def)

lemma vcu_good_Commit: "vcu_good env v \<Longrightarrow> vcu_good env (Commit v)"
  using reach_Commit [of env v] by (auto simp: vcu_good_def Commit_def accepted_def)

lemma vcu_good_New:
  "New env encrypt cfg cid responder dest acc name tms sz utype = Inr v \<Longrightarrow> vcu_good env v"
  using reach_New by (auto simp: vcu_good_def New_Inr)

interpretation vcu: uploader_success "vcu_ops env" "vcu_good env" for env
  by unfold_locales
    (auto simp: vcu_ops_def PutWhole_def intro: vcu_good_Put vcu_good_Close vcu_good_Commit)

text \<open>The last request of a closed uploader is the completion with all its parts.\<close>

definition completed :: "vcu \<Rightarrow> bool" where
  "completed v \<longleftrightarrow> (\<exists>l out. log v = l @ [(CommitReq (key v) (upload_id v) (parts v) (token v), out)])"

definition closed_inv :: "vcu \<Rightarrow> bool" where
  "closed_inv v \<longleftrightarrow> (closed v \<longrightarrow> completed v)"

lemma Close_completed: "closed_inv v \<Longrightarrow> completed (snd (Close env v))"
  by (auto simp: vcu_defs completed_def closed_inv_def split: sum.splits)

lemma Close_closed: "closed (snd (Close env v))"
  by (auto simp: vcu_defs split: sum.splits)

text \<open>
  The bulk uploader as \<open>Upload\<close> leaves it: the writer is closed by the time the deferred
  close runs, or was never flushed.
\<close>

lemma bw_Close_closed_inv:
  assumes "bw_Close (vcu_ops env) b = (None, b')" and "\<not> closed (bw_uploader b)"
  shows "closed_inv (bw_uploader b')"
proof (cases "bw_sent_first_buffer b")
  case False
  then have "\<not> closed (bw_uploader b')"
    using assms Put_fields(1) [of env "bw_buf b" "bw_uploader b"]
    by (auto simp: bw_Close_def vcu_ops_def PutWhole_def split: prod.splits)
  then show ?thesis by (simp add: closed_inv_def)
next
  case True
  obtain f b1 where fl: "bw_Flush (vcu_ops env) b = (f, b1)" by fastforce
  with True assms(1) have f: "f = None" by (cases f) (simp_all add: bw_Close_def split: prod.splits)
  have "\<not> closed (bw_uploader b1)"
    using fl f assms(2) Put_fields(1) [of env "bw_buf b" "bw_uploader b"]
    by (auto simp: bw_Flush_def vcu_ops_def Let_def split: prod.splits option.splits)
  then have "closed_inv (Commit (bw_uploader b1))"
    by (simp add: closed_inv_def Commit_def)
  from Close_completed [OF this, of env] show ?thesis
    using True assms(1) fl f
    by (auto simp: bw_Close_def vcu_ops_def closed_inv_def split: prod.splits)
qed

interpretation open_vcu: uploader_puts "vcu_ops env" "\<lambda>v. \<not> closed v" for env
  by unfold_locales (use Put_fields(1) in \<open>auto simp: vcu_ops_def\<close>)

lemma full_parts_last:
  assumes "vcu.full_parts env [] b" and "vcu.room b" and "bw_Close (vcu_ops env) b = (None, b')"
  shows "\<exists>qs d. accepted env (bw_uploader b') = qs @ [d] \<and>
           (\<forall>q \<in> set qs. length q = bw_buf_length b) \<and> length d < bw_buf_length b"
  using assms vcu.Close_ok(1) [OF assms(3)] by (auto simp: vcu.full_parts_def vcu.room_def)

text \<open>A put that was sent and not accepted.\<close>

fun is_put :: "http_req \<Rightarrow> bool" where
  "is_put (PutReq k u n d t) \<longleftrightarrow> True"
| "is_put _ \<longleftrightarrow> False"

definition put_failed :: "upload_env \<Rightarrow> vcu \<Rightarrow> bool" where
  "put_failed env v \<longleftrightarrow> list_ex (\<lambda>e. is_put (fst e) \<and> accepted_part env e = []) (log v)"

lemma Put_failed: "Put env d v = (Some e, v') \<Longrightarrow> put_failed env v'"
  by (auto simp: vcu_defs put_failed_def split: sum.splits if_splits)

lemma Close_put_failed: "put_failed env v \<Longrightarrow> put_failed env (snd (Close env v))"
  by (auto simp: vcu_defs put_failed_def split: sum.splits)

lemma bw_Close_cases:
  assumes "bw_Close (vcu_ops env) b = (r, b')"
  shows "accepted env (bw_uploader b') = accepted env (bw_uploader b) @ [bw_buf b] \<or>
         accepted env (bw_uploader b') = accepted env (bw_uploader b) \<and>
         put_failed env (bw_uploader b')"
proof (cases "bw_sent_first_buffer b")
  case False
  obtain f u where p: "Put env (bw_buf b) (bw_uploader b) = (f, u)" by fastforce
  then have "bw_uploader b' = u"
    using assms False by (auto simp: bw_Close_def vcu_ops_def PutWhole_def)
  then show ?thesis using p Put_accepted Put_failed by (cases f) auto
next
  case True
  obtain f b1 where fl: "bw_Flush (vcu_ops env) b = (f, b1)" by fastforce
  show ?thesis
  proof (cases f)
    case None
    have "accepted env (bw_uploader b') = accepted env (bw_uploader b1)"
      using assms True fl None Close_accepted [of env "Commit (bw_uploader b1)"]
      by (auto simp: bw_Close_def vcu_ops_def accepted_def Commit_def split: prod.splits)
    then show ?thesis using vcu.Flush_ok(5) [OF fl [unfolded None]] by simp
  next
    case (Some e)
    then have "b' = b1" using assms True fl by (simp add: bw_Close_def)
    then show ?thesis
      using fl Some Put_accepted(2) Put_failed
      by (fastforce simp: bw_Flush_def vcu_ops_def Let_def split: prod.splits option.splits)
  qed
qed

text \<open>A run of \<open>Upload\<close> on the buffered path that ends with an answer that has a path.\<close>

definition dest_of :: "os_path \<Rightarrow> os_path option \<Rightarrow> os_path" where
  "dest_of ospath name = (case name of None \<Rightarrow> ospath | Some n \<Rightarrow> n)"

lemma Upload_run:
  assumes "0 < buff_size"
    and "Upload env idx_env (\<lambda>en ty dst nm. New en encrypt cfg cid responder (Some dst) acc nm tms sz ty)
           sha256 md5 marshal idx_name buff_size ospath name rd sk None r = (Inr ans, i, Some u)"
    and "ur_Path ans \<noteq> []"
  obtains v b b1 r1 where
    "New env encrypt cfg cid responder (Some (dest_of ospath name)) acc (dest_of ospath name)
       tms sz [] = Inr v"
    "bw_Copy (vcu_ops env) rd MAX_FILE_LENGTH (NewBufferWriter buff_size v) r = (None, b, r1)"
    "bw_Close (vcu_ops env) b = (None, b1)"
    "ans = GetVQLResponse sha256 md5 (bw_uploader b1)"
    "u = snd (Close env (bw_uploader b1))"
proof -
  obtain v where new: "New env encrypt cfg cid responder (Some (dest_of ospath name)) acc
      (dest_of ospath name) tms sz [] = Inr v"
    using assms(2) by (auto simp: Upload_def dest_of_def Let_def split: sum.splits prod.splits)
  define b0 where "b0 = NewBufferWriter buff_size v"
  obtain e b r1 where cp: "bw_Copy (vcu_ops env) rd MAX_FILE_LENGTH b0 r = (e, b, r1)"
    by (metis prod.exhaust)
  obtain f b1 where cl: "bw_Close (vcu_ops env) b = (f, b1)" by fastforce
  have "e = None \<and> f = None \<and> ans = GetVQLResponse sha256 md5 (bw_uploader b1) \<and>
      u = snd (Close env (bw_uploader b1))"
    using assms(2,3) new cp cl
    by (auto simp: Upload_def dest_of_def [symmetric] b0_def [symmetric] empty_result_def
        split: option.splits)
  then show ?thesis using that new cp cl unfolding b0_def by blast
qed

lemma fresh_writer:
  assumes "New env encrypt cfg cid responder dest acc name tms sz utype = Inr v" and "0 < n"
  shows "vcu.room (NewBufferWriter n v)" and "vcu.full_parts env [] (NewBufferWriter n v)"
  using assms(2) New_Inr(1) [OF assms(1)] vcu.New_writer(6) [of env v n] by simp_all

lemma Upload_data:
  assumes "reader_contract rd rest" and "0 < n"
    and "New env encrypt cfg cid responder dest acc name tms sz utype = Inr v"
    and "bw_Copy (vcu_ops env) rd len (NewBufferWriter n v) r = (None, b, r1)"
    and "bw_Close (vcu_ops env) b = (None, b1)"
  shows "concat (accepted env (snd (Close env (bw_uploader b1)))) = take len (rest r)"
  using vcu.Close_ok(2) [OF assms(5)] New_Inr(1) [OF assms(3)] Close_accepted
    vcu.Copy_ok(1) [OF assms(1,4) fresh_writer [OF assms(3,2)]]
  by simp

lemma Close_twice: "closed v \<Longrightarrow> Close env v = (None, v)"
  by (simp add: Close_def)

text \<open>
  The state the completion is sent from: still open, and with every property of the uploader
  that successful puts and \<open>Commit\<close> keep.
\<close>

lemma bw_Close_final:
  assumes "bw_Close (vcu_ops env) b = (None, b1)" and "\<not> closed (bw_uploader b)"
    and "J (bw_uploader b)" and "\<And>d v v'. J v \<Longrightarrow> Put env d v = (None, v') \<Longrightarrow> J v'"
    and "\<And>v. J v \<Longrightarrow> J (Commit v)"
  obtains v where "J v" "\<not> closed v" "snd (Close env (bw_uploader b1)) = snd (Close env v)"
proof (cases "bw_sent_first_buffer b")
  case False
  then have "Put env (bw_buf b) (bw_uploader b) = (None, bw_uploader b1)"
    using assms(1) by (auto simp: bw_Close_def vcu_ops_def PutWhole_def split: prod.splits)
  then show ?thesis
    using that [of "bw_uploader b1"] assms(2-4) Put_fields(1) by blast
next
  case True
  obtain f b2 where fl: "bw_Flush (vcu_ops env) b = (f, b2)" by fastforce
  with True assms(1) have f: "f = None" by (cases f) (simp_all add: bw_Close_def split: prod.splits)
  have p: "Put env (bw_buf b) (bw_uploader b) = (None, bw_uploader b2)"
    using fl f by (auto simp: bw_Flush_def vcu_ops_def Let_def split: prod.splits option.splits)
  have b1: "bw_uploader b1 = snd (Close env (Commit (bw_uploader b2)))"
    using True assms(1) fl f by (auto simp: bw_Close_def vcu_ops_def split: prod.splits)
  have "snd (Close env (bw_uploader b1)) = bw_uploader b1"
    using Close_closed [of env "Commit (bw_uploader b2)"] b1
      Close_twice [of "bw_uploader b1" env] by simp
  moreover have "\<not> closed (Commit (bw_uploader b2))"
    using p assms(2) Put_fields(1) by (fastforce simp: Commit_def)
  ultimately show ?thesis
    using that [of "Commit (bw_uploader b2)"] assms(3-5) p b1 by auto
qed

section \<open>Properties\<close>

text \<open>
  C7. The uploader's books are right in every state it can reach, whatever the server
  answered: one completed part per accepted put, an offset that is the number of bytes
  accepted, part numbers that grow from one accepted request to the next and start at 1, and, as
  long as the context lives, one status message per accepted part, laid out contiguously.
\<close>

theorem uploader_accounts:
  assumes "uploader_reach env v"
  shows "length (parts v) = length (accepted env v) \<and>
    offset v = length (concat (accepted env v)) \<and>
    sorted_wrt (<) (put_numbers v) \<and> (\<forall>n \<in> set (put_numbers v). 1 \<le> n \<and> n < part v) \<and>
    ((\<forall>h. \<not> ctx_done env h) \<longrightarrow> part_stats v = layout 0 (accepted env v))"
  using reach_inv [OF assms] by (simp add: vcu_inv_def)

text \<open>
  C2. A file uploaded through the buffered path is stored whole: when the reader honours
  the contract of \<open>io.Reader\<close> and the answer carries a path (the error answers carry none),
  the parts the server accepted are the first ten gigabytes of the file, each of them of the
  size of the buffer but for a shorter last one, the answer has their size and digest, and
  the last request is the completion that lists all of them.
\<close>

theorem upload_stores_file:
  assumes "reader_contract rd rest" and "0 < buff_size"
    and "Upload env idx_env (\<lambda>en ty dst nm. New en encrypt cfg cid responder (Some dst) acc nm tms sz ty)
           sha256 md5 marshal idx_name buff_size ospath name rd sk None r = (Inr ans, i, Some u)"
    and "ur_Path ans \<noteq> []"
  shows "concat (accepted env u) = take MAX_FILE_LENGTH (rest r) \<and>
    (\<exists>qs d. accepted env u = qs @ [d] \<and> (\<forall>q \<in> set qs. length q = buff_size) \<and>
       length d < buff_size) \<and>
    ur_Size ans = int (min MAX_FILE_LENGTH (length (rest r))) \<and>
    ur_Sha256 ans = sha256 (take MAX_FILE_LENGTH (rest r)) \<and>
    length (parts u) = length (accepted env u) \<and> completed u"
proof -
  from Upload_run [OF assms(2,3,4)] obtain v b b1 r1
    where new: "New env encrypt cfg cid responder (Some (dest_of ospath name)) acc
        (dest_of ospath name) tms sz [] = Inr v"
      and cp: "bw_Copy (vcu_ops env) rd MAX_FILE_LENGTH (NewBufferWriter buff_size v) r = (None, b, r1)"
      and d: "bw_Close (vcu_ops env) b = (None, b1)"
      and ans: "ans = GetVQLResponse sha256 md5 (bw_uploader b1)"
      and u: "u = snd (Close env (bw_uploader b1))" by metis
  have acc: "concat (accepted env (bw_uploader b1)) = take MAX_FILE_LENGTH (rest r)"
    using Upload_data [OF assms(1,2) new cp d] u Close_accepted by simp
  note c = vcu.Copy_ok [OF assms(1) cp fresh_writer [OF new assms(2)]]
  have good: "vcu_good env (bw_uploader b1)"
    by (rule vcu.bw_Close_J [OF vcu.Copy_J [OF _ cp] d])
      (simp add: NewBufferWriter_def vcu_good_New [OF new])
  have "\<not> closed (bw_uploader b)"
    by (rule open_vcu.Copy_J [OF _ cp]) (simp add: NewBufferWriter_def New_Inr [OF new])
  then have "completed u"
    using bw_Close_closed_inv [OF d] Close_completed u by simp
  moreover have "accepted env u = accepted env (bw_uploader b1)" using Close_accepted u by simp
  moreover have "uploader_reach env u"
    using good u by (simp add: vcu_good_def reach_Close)
  moreover have "offset (bw_uploader b1) = min MAX_FILE_LENGTH (length (rest r))"
    using good reach_inv [of env "bw_uploader b1"] acc by (simp add: vcu_good_def vcu_inv_def min.commute)
  ultimately show ?thesis
    using acc good ans full_parts_last [OF c(4,3) d] c(5) reach_inv [of env u]
    by (simp add: vcu_good_def GetVQLResponse_def vcu_inv_def)
qed

text \<open>
  C3. A sparse upload stores the data ranges one after the other. When the answer is a
  success, what the server accepted of the bulk file is the data, but for a tail shorter
  than the buffer whose put failed when the deferred close of the writer sent it; the answer
  has the size of the data all the same, and the digest of the empty string. When some
  range is sparse the index of the ranges was accepted in one part and completed.
\<close>

theorem upload_sparse_stores_ranges:
  assumes "reader_contract rd rest" and "seek_contract sk rest content"
    and "wf_ranges content rngs" and "0 < buff_size"
    and "Upload env idx_env (\<lambda>en ty dst nm. New en encrypt cfg cid responder (Some dst) acc nm tms sz ty)
           sha256 md5 marshal idx_name buff_size ospath name rd sk (Some rngs) r = (Inr ans, i, Some u)"
  shows "\<exists>tail. concat (accepted env u) @ tail = concat (map (range_bytes content) rngs) \<and>
      length tail < buff_size \<and> (tail \<noteq> [] \<longrightarrow> put_failed env u) \<and>
      ur_StoredSize ans = int (length (concat (map (range_bytes content) rngs))) \<and>
      ur_Sha256 ans = sha256 [] \<and>
      ((\<exists>rng \<in> set rngs. rng_IsSparse rng) \<longrightarrow>
        (\<exists>ser v. marshal (index_from 0 rngs) = Inr ser \<and> i = Some v \<and>
           accepted idx_env v = [ser] \<and> completed v))"
proof -
  define dest where "dest = (case name of None \<Rightarrow> ospath | Some n \<Rightarrow> n)"
  obtain v where new: "New env encrypt cfg cid responder (Some dest) acc dest tms sz [] = Inr v"
    using assms(5) by (auto simp: Upload_def dest_def Let_def split: sum.splits prod.splits)
  obtain iv where inew: "New idx_env encrypt cfg cid responder (Some dest) acc (idx_name dest)
      tms sz ''idx'' = Inr iv"
    using assms(5) new by (auto simp: Upload_def dest_def Let_def split: sum.splits prod.splits)
  obtain i1 u1 r1 where up: "UploadSparse (vcu_ops idx_env) (vcu_ops env) rd sk marshal sha256 md5
      buff_size (op_string dest) iv v rngs r = (Inr ans, i1, u1, r1)"
    and i: "i = Some (snd (Close idx_env i1))" and u: "u = snd (Close env u1)"
    using assms(5) new inew by (auto simp: Upload_def dest_def [symmetric] split: prod.splits)
  from UploadSparse_Inr [OF up] obtain b b1 f b2
    where cp: "copy_ranges (vcu_ops env) rd sk rngs (NewBufferWriter buff_size v) r = (None, b, r1)"
      and cl: "bw_Close (vcu_ops env) b1 = (f, b2)" and u1: "u1 = bw_uploader b2"
      and ans: "ans = empty_result\<lparr>ur_Path := op_string dest,
        ur_Size := u64 (sc_real_size (scan_ranges rngs)), ur_StoredSize := int (bw_total b),
        ur_Sha256 := sha256 [], ur_Md5 := md5 []\<rparr>"
      and sp: "\<not> sc_is_sparse (scan_ranges rngs) \<and> b1 = b \<or>
        sc_is_sparse (scan_ranges rngs) \<and>
        b1 = b\<lparr>bw_uploader := up_SetIndex (vcu_ops env) (sc_index (scan_ranges rngs)) (bw_uploader b)\<rparr> \<and>
        (\<exists>ser j. marshal (sc_index (scan_ranges rngs)) = Inr ser \<and>
           up_Put (vcu_ops idx_env) ser iv = (None, j) \<and> i1 = up_Commit (vcu_ops idx_env) j)"
    by metis
  have b1: "accepted env (bw_uploader b1) = accepted env (bw_uploader b)" "bw_buf b1 = bw_buf b"
    using sp vcu.SetIndex_parts by auto
  have wf: "list_all (wf_range content) rngs" and sz: "sum_list (map stored_length rngs) < 2 ^ 63"
    using assms(3) by (auto simp: wf_ranges_def)
  have b0: "vcu.room (NewBufferWriter buff_size v)"
    "vcu.full_parts env [] (NewBufferWriter buff_size v)"
    "vcu.written env (NewBufferWriter buff_size v) = []"
    using assms(4) New_Inr(1) [OF new] vcu.New_writer(6) [of env v buff_size] by simp_all
  note c = vcu.copy_ranges_ok [OF assms(1,2) wf cp b0(1,2)]
  have data: "concat (accepted env (bw_uploader b)) @ bw_buf b = concat (map (range_bytes content) rngs)"
    using c(1) b0(3) by (simp add: vcu.written_def)
  have acc: "accepted env u = accepted env u1" using Close_accepted u by simp
  have len: "length (bw_buf b) < buff_size" using c(3,5) by (simp add: vcu.room_def)
  have bulk: "\<exists>tail. concat (accepted env u) @ tail = concat (map (range_bytes content) rngs) \<and>
      length tail < buff_size \<and> (tail \<noteq> [] \<longrightarrow> put_failed env u)"
    using bw_Close_cases [OF cl]
  proof
    assume "accepted env (bw_uploader b2) = accepted env (bw_uploader b1) @ [bw_buf b1]"
    then show ?thesis using acc u1 b1 data assms(4) by (intro exI [of _ "[]"]) simp
  next
    assume "accepted env (bw_uploader b2) = accepted env (bw_uploader b1) \<and>
      put_failed env (bw_uploader b2)"
    then show ?thesis
      using acc u1 u b1 data len Close_put_failed by (intro exI [of _ "bw_buf b"]) simp
  qed
  have "sc_index (scan_ranges rngs) = index_from 0 rngs"
    using scan_index [OF wf, of "\<lparr>sc_index = [], sc_expected_size = 0, sc_real_size = 0,
      sc_is_sparse = False\<rparr>"] sz by (simp add: scan_ranges_def)
  moreover have "accepted idx_env (snd (Close idx_env (Commit j))) = [ser] \<and>
      completed (snd (Close idx_env (Commit j)))" if "Put idx_env ser iv = (None, j)" for ser j
    using that Put_accepted(1) [OF that] New_Inr [OF inew] Put_fields(1) [OF that]
      Close_accepted [of idx_env "Commit j"] Close_completed [of "Commit j" idx_env]
    by (simp add: Commit_def accepted_def closed_inv_def)
  ultimately have idx: "(\<exists>rng \<in> set rngs. rng_IsSparse rng) \<longrightarrow>
      (\<exists>ser v. marshal (index_from 0 rngs) = Inr ser \<and> i = Some v \<and>
         accepted idx_env v = [ser] \<and> completed v)"
    using sp i by (auto simp: scan_is_sparse vcu_ops_def)
  have "ur_StoredSize ans = int (length (concat (map (range_bytes content) rngs)))"
    "ur_Sha256 ans = sha256 []"
    using ans c(2) by simp_all
  with bulk idx show ?thesis by blast
qed

section \<open>Runs on a concrete server\<close>

text \<open>A server that answers every request with 200, and one that refuses the completion.\<close>

definition reply :: "int \<Rightarrow> http_reply" where
  "reply code = \<lparr>StatusCode = code, Status = ''status'', Body = ''body''\<rparr>"

definition demo_env :: "int \<Rightarrow> upload_env" where
  "demo_env commit_code =
     \<lparr>net = (\<lambda>h req. Inr (reply (case req of CommitReq _ _ _ _ \<Rightarrow> commit_code | _ \<Rightarrow> 200))),
      parse_start = (\<lambda>s. Inr \<lparr>UploadResponse_Key = ''k'', UploadResponse_UploadId = ''u''\<rparr>),
      parse_part = (\<lambda>s. Inr \<lparr>ETag = ''e'', PartNumber = 1\<rparr>),
      NextUploadId = 1, ctx_done = (\<lambda>h. False)\<rparr>"

definition demo_path :: os_path where
  "demo_path = \<lparr>op_string = ''/a'', op_components = [''a''], op_delegate = []\<rparr>"

definition demo_new ::
  "upload_env \<Rightarrow> string \<Rightarrow> os_path \<Rightarrow> os_path \<Rightarrow> (go_error \<times> vcu option) + vcu" where
  "demo_new en ty dst nm =
     New en (\<lambda>n s. Inr ''token'') \<lparr>PinnedServerName = [], Nonce = ''n'', ServerUrls = []\<rparr>
       ''C.1'' (Some ''F.1'') (Some dst) ''file'' nm
       \<lparr>ut_mtime = None, ut_atime = None, ut_ctime = None, ut_btime = None\<rparr> 3 ty"

definition demo_upload ::
  "int \<Rightarrow> nat \<Rightarrow> bytes \<Rightarrow> upload_result result \<times> vcu option \<times> vcu option" where
  "demo_upload code n d =
     Upload (demo_env code) (demo_env 200) demo_new (\<lambda>b. []) (\<lambda>b. []) (\<lambda>i. Inr [])
       (\<lambda>p. p) n demo_path None list_reader (\<lambda>off r. (None, r)) None d"

lemmas demo_defs = demo_upload_def demo_new_def demo_env_def reply_def demo_path_def
  Upload_def New_def Start_def vcu_defs vcu_ops_def NewBufferWriter_def bw_Flush_def
  bw_Close_def list_reader_def MAX_FILE_LENGTH_def getComponents_def GetVQLResponse_def
  empty_result_def

lemma demo_run:
  "case demo_upload code 2 [1, 2, 3] of
     (Inr ans, i, Some u) \<Rightarrow> ur_Path ans = ''/a'' | _ \<Rightarrow> False" if "code = 200"
  unfolding that by code_simp

theorem upload_stores_file_witness:
  "case demo_upload 200 2 [1, 2, 3] of
     (Inr ans, i, Some u) \<Rightarrow> concat (accepted (demo_env 200) u) = [1, 2, 3] \<and> ur_Size ans = 3 \<and>
       completed u
   | _ \<Rightarrow> False"
proof -
  obtain ans i u where run: "demo_upload 200 2 [1, 2, 3] = (Inr ans, i, Some u)"
    and path: "ur_Path ans = ''/a''"
    using demo_run [OF refl] by (auto split: prod.splits sum.splits option.splits)
  note up = run [unfolded demo_upload_def demo_new_def]
  show ?thesis
    using upload_stores_file [OF list_reader_contract _ up] path run
    by (simp add: MAX_FILE_LENGTH_def)
qed

text \<open>
  A file smaller than the buffer is answered before its completion is sent: the deferred
  close completes it, and when the server refuses the completion the answer is still the
  one of a stored file, without an error, while the uploader holds the error.
\<close>

theorem small_upload_hides_commit_failure:
  "case demo_upload 500 2 [1] of
     (Inr ans, i, Some u) \<Rightarrow> ur_Error ans = [] \<and> ur_StoredSize ans = 1 \<and>
       (case response u of None \<Rightarrow> False | Some r \<Rightarrow> ur_Error r \<noteq> [])
   | _ \<Rightarrow> False"
  by code_simp

text \<open>The same file with a refused completion, one byte above the size of the buffer.\<close>

lemma large_upload_reports_commit_failure:
  "case demo_upload 500 2 [1, 2, 3] of (Inr ans, i, u) \<Rightarrow> ur_Error ans \<noteq> [] | _ \<Rightarrow> False"
  by code_simp

definition demo_vcu :: vcu where
  "demo_vcu = (case demo_new (demo_env 200) [] demo_path demo_path of Inr v \<Rightarrow> v)"

lemma demo_vcu_reach: "uploader_reach (demo_env 200) demo_vcu"
proof -
  have "case demo_new (demo_env 200) [] demo_path demo_path of Inr v \<Rightarrow> True | _ \<Rightarrow> False"
    by code_simp
  then obtain v where v: "demo_new (demo_env 200) [] demo_path demo_path = Inr v"
    by (auto split: sum.splits)
  have "uploader_reach (demo_env 200) v"
    by (rule reach_New [OF v [unfolded demo_new_def]])
  then show ?thesis by (simp add: demo_vcu_def v)
qed

theorem uploader_accounts_witness:
  "let v = snd (Put (demo_env 200) [4] (snd (Put (demo_env 200) [1, 2, 3] demo_vcu)))
   in offset v = 4 \<and> part_stats v = [(0, 3), (3, 1)] \<and> length (parts v) = 2"
proof -
  let ?v = "snd (Put (demo_env 200) [4] (snd (Put (demo_env 200) [1, 2, 3] demo_vcu)))"
  have r: "uploader_reach (demo_env 200) ?v"
    by (intro reach_Put demo_vcu_reach)
  have a: "accepted (demo_env 200) ?v = [[1, 2, 3], [4]]" by code_simp
  have c: "ctx_done (demo_env 200) h = False" for h by (simp add: demo_env_def)
  show ?thesis using uploader_accounts [OF r] by (simp add: a c Let_def)
qed

text \<open>A seekable reader over a fixed content, and a sparse upload with it.\<close>

definition seek_in :: "bytes \<Rightarrow> int \<Rightarrow> bytes \<Rightarrow> go_error option \<times> bytes" where
  "seek_in content off r = (None, drop (nat off) content)"

lemma seek_in_contract: "seek_contract (seek_in content) (\<lambda>r. r) content"
  by (simp add: seek_contract_def seek_in_def)

definition demo_sparse :: "upload_result result \<times> vcu option \<times> vcu option" where
  "demo_sparse =
     Upload (demo_env 200) (demo_env 200) demo_new (\<lambda>b. []) (\<lambda>b. []) (\<lambda>i. Inr [9])
       (\<lambda>p. p) 2 demo_path None list_reader (seek_in sample_content) (Some sample_ranges)
       sample_content"

theorem upload_sparse_stores_ranges_witness:
  "case demo_sparse of
     (Inr ans, Some i, Some u) \<Rightarrow> concat (accepted (demo_env 200) u) = [1, 2, 3, 4, 5] \<and>
       ur_StoredSize ans = 5 \<and> accepted (demo_env 200) i = [[9]]
   | _ \<Rightarrow> False"
proof -
  have "case demo_sparse of (Inr ans, Some i, Some u) \<Rightarrow> \<not> put_failed (demo_env 200) u | _ \<Rightarrow> False"
    by code_simp
  then obtain ans i u where run: "demo_sparse = (Inr ans, Some i, Some u)"
    and nf: "\<not> put_failed (demo_env 200) u"
    by (auto split: prod.splits sum.splits option.splits)
  note up = run [unfolded demo_sparse_def demo_new_def]
  show ?thesis
    using upload_sparse_stores_ranges [OF list_reader_contract seek_in_contract sample_wf _ up]
      nf
    by (auto simp: run sample_ranges_def sample_content_def range_bytes_def)
qed

end
