(* ===== verification/S3.thy ===== *)
theory S3
  imports Uploads
begin

text \<open>
  The file store on S3 (\<open>filestore/writer.go\<close>, \<open>reader.go\<close>, \<open>s3filestore.go\<close>,
  \<open>name_mapping.go\<close>). The S3 service is a parameter: operations over a state of its own and
  a predicate that states its documented behaviour.
\<close>

section \<open>The service\<close>

text \<open>
  An error of a download: the code of an \<open>awserr.Error\<close> is only compared with
  \<open>"InvalidRange"\<close>; other errors do not carry a code.
\<close>

datatype s3_error =
    InvalidRange
  | AwsErr go_error
  | PlainErr go_error

record s3_object =
  obj_Key :: string
  obj_Size :: int
  obj_LastModified :: int

record 's s3_ops =
  CreateMultipartUpload :: "string \<Rightarrow> 's \<Rightarrow> string option result \<times> 's"
  UploadPart :: "string \<Rightarrow> string \<Rightarrow> int \<Rightarrow> bytes \<Rightarrow> 's \<Rightarrow> string result \<times> 's"
  CompleteUpload :: "string \<Rightarrow> string \<Rightarrow> completed_part list \<Rightarrow> 's \<Rightarrow> go_error option \<times> 's"
  DeleteObject :: "string \<Rightarrow> 's \<Rightarrow> go_error option \<times> 's"
  Download :: "string \<Rightarrow> int \<Rightarrow> int \<Rightarrow> 's \<Rightarrow> bytes \<times> s3_error option"
  HeadObject :: "string \<Rightarrow> 's \<Rightarrow> int result"
  ListObjects :: "string \<Rightarrow> 's \<Rightarrow> s3_object list result"

text \<open>
  The retry loop around \<open>svc.UploadPart\<close>, written once in \<open>S3Writer.writeBuf\<close> and once in
  \<open>Communicator.uploadPart\<close>: \<open>n\<close> retries after the first attempt.
\<close>

definition maxRetries :: nat where
  "maxRetries = 10"

fun retry_part :: "nat \<Rightarrow> ('s \<Rightarrow> string result \<times> 's) \<Rightarrow> 's \<Rightarrow> string result \<times> 's" where
  "retry_part n attempt s =
     (case attempt s of
        (Inr etag, s1) \<Rightarrow> (Inr etag, s1)
      | (Inl e, s1) \<Rightarrow> (case n of 0 \<Rightarrow> (Inl e, s1) | Suc m \<Rightarrow> retry_part m attempt s1))"

declare retry_part.simps [simp del]

section \<open>S3Writer (writer.go)\<close>

record s3_writer =
  w_key :: string
  w_buf :: bytes
  w_parts :: "completed_part list"
  w_size :: int
  w_upload_id :: string
  w_part_number :: int
  w_part_size :: nat

definition w_start :: "'s s3_ops \<Rightarrow> s3_writer \<Rightarrow> 's \<Rightarrow> go_error option \<times> s3_writer \<times> 's" where
  "w_start ops w s =
     (case CreateMultipartUpload ops (w_key w) s of
        (Inl e, s1) \<Rightarrow> (Some e, w, s1)
      | (Inr None, s1) \<Rightarrow> (Some (Err ''Unknown UploadId''), w, s1)
      | (Inr (Some uid), s1) \<Rightarrow> (None, w\<lparr>w_upload_id := uid\<rparr>, s1))"

definition w_Size :: "s3_writer \<Rightarrow> int result" where
  "w_Size w = Inr (w_size w)"

definition w_writeBuf :: "'s s3_ops \<Rightarrow> s3_writer \<Rightarrow> 's \<Rightarrow> nat result \<times> s3_writer \<times> 's" where
  "w_writeBuf ops w s =
     (let data = w_buf w; w1 = w\<lparr>w_buf := []\<rparr>
      in case retry_part maxRetries
                (UploadPart ops (w_key w1) (w_upload_id w1) (w_part_number w1) data) s of
           (Inr etag, s1) \<Rightarrow>
             (Inr (length data),
              w1\<lparr>w_parts := w_parts w1 @ [\<lparr>ETag = etag, PartNumber = w_part_number w1\<rparr>],
                 w_part_number := w_part_number w1 + 1\<rparr>, s1)
         | (Inl e, s1) \<Rightarrow> (Inl e, w1, s1))"

definition w_Write :: "'s s3_ops \<Rightarrow> bytes \<Rightarrow> s3_writer \<Rightarrow> 's \<Rightarrow> nat result \<times> s3_writer \<times> 's" where
  "w_Write ops data w s =
     (if data = [] then (Inr 0, w, s)
      else case (if w_upload_id w = [] then w_start ops w s else (None, w, s)) of
             (Some e, w1, s1) \<Rightarrow> (Inl e, w1, s1)
           | (None, w1, s1) \<Rightarrow>
               (let w2 = w1\<lparr>w_buf := w_buf w1 @ data\<rparr>
                in if length (w_buf w2) > w_part_size w2 then
                     (case w_writeBuf ops w2 s1 of
                        (Inl e, w3, s2) \<Rightarrow> (Inl e, w3, s2)
                      | (Inr n, w3, s2) \<Rightarrow> (Inr (length data), w3, s2))
                   else (Inr (length data), w2, s1)))"

definition w_Update :: "bytes \<Rightarrow> int \<Rightarrow> s3_writer \<Rightarrow> go_error option" where
  "w_Update data off w = Some (Err ''Updating filestore objects is not implemented yet'')"

definition w_Truncate :: "'s s3_ops \<Rightarrow> s3_writer \<Rightarrow> 's \<Rightarrow> go_error option \<times> s3_writer \<times> 's" where
  "w_Truncate ops w s =
     (case DeleteObject ops (w_key w) s of (e, s1) \<Rightarrow> (e, w\<lparr>w_buf := []\<rparr>, s1))"

definition w_Flush :: "'s s3_ops \<Rightarrow> s3_writer \<Rightarrow> 's \<Rightarrow> go_error option \<times> s3_writer \<times> 's" where
  "w_Flush ops w s =
     (case (if 0 < length (w_buf w) then w_writeBuf ops w s else (Inr 0, w, s)) of
        (Inl e, w1, s1) \<Rightarrow> (Some e, w1, s1)
      | (Inr n, w1, s1) \<Rightarrow>
          (case CompleteUpload ops (w_key w1) (w_upload_id w1) (w_parts w1) s1 of
             (e, s2) \<Rightarrow> (e, w1, s2)))"

definition w_Close :: "'s s3_ops \<Rightarrow> s3_writer \<Rightarrow> 's \<Rightarrow> go_error option \<times> s3_writer \<times> 's" where
  "w_Close ops w s = w_Flush ops w s"

section \<open>S3Reader (reader.go)\<close>

record s3_reader =
  r_offset :: int
  r_key :: string

definition r_Read ::
  "'s s3_ops \<Rightarrow> 's \<Rightarrow> nat \<Rightarrow> s3_reader \<Rightarrow> (bytes \<times> go_error option) \<times> s3_reader" where
  "r_Read ops s k r =
     (case Download ops (r_key r) (r_offset r) (r_offset r + (int k - 1)) s of
        (d, Some InvalidRange) \<Rightarrow> (([], Some EOF_err), r)
      | (d, Some (AwsErr e)) \<Rightarrow> (([], Some e), r)
      | (d, _) \<Rightarrow> ((d, None), r\<lparr>r_offset := r_offset r + int (length d)\<rparr>))"

definition r_Seek :: "int \<Rightarrow> int \<Rightarrow> s3_reader \<Rightarrow> int result \<times> s3_reader" where
  "r_Seek off whence r = (Inr off, r\<lparr>r_offset := off\<rparr>)"

definition r_Stat :: "'s s3_ops \<Rightarrow> 's \<Rightarrow> s3_reader \<Rightarrow> int result" where
  "r_Stat ops s r = HeadObject ops (r_key r) s"

section \<open>Names and the file store (name_mapping.go, s3filestore.go)\<close>

text \<open>
  What the code reads of an \<open>api.FSPathSpec\<close>: its components and the file extension of its
  type. \<open>NormalizedOrgId\<close> and \<open>SanitizeString\<close> are functions of the Velociraptor library.
\<close>

record path_spec =
  ps_Components :: "string list"
  ps_Extension :: string

definition PathspecToKey ::
  "(string \<Rightarrow> string) \<Rightarrow> (string \<Rightarrow> string) \<Rightarrow> string \<Rightarrow> path_spec \<Rightarrow> string" where
  "PathspecToKey normalized_org sanitize org_id ps =
     Join ''/'' ([''orgs'', normalized_org org_id] @ map sanitize (ps_Components ps)) @
     ps_Extension ps"

text \<open>The file store; \<open>fs_key\<close> is \<open>PathspecToKey\<close> with the configuration's organisation.\<close>

definition fs_ReadFile :: "(path_spec \<Rightarrow> string) \<Rightarrow> path_spec \<Rightarrow> s3_reader" where
  "fs_ReadFile fs_key filename = \<lparr>r_offset = 0, r_key = fs_key filename\<rparr>"

definition fs_WriteFile :: "(path_spec \<Rightarrow> string) \<Rightarrow> nat \<Rightarrow> path_spec \<Rightarrow> s3_writer" where
  "fs_WriteFile fs_key S3PartSize filename =
     \<lparr>w_key = fs_key filename, w_buf = [], w_parts = [], w_size = 0, w_upload_id = [],
      w_part_number = 1, w_part_size = (if 0 < S3PartSize then S3PartSize else 6000000)\<rparr>"

record file_info =
  fi_parent :: path_spec
  fi_name :: string
  fi_type :: string
  fi_size :: int
  fi_mod_time :: int

text \<open>
  \<open>path_type\<close> is \<open>api.GetFileStorePathTypeFromExtension\<close>, \<open>dir_key\<close> the key of the
  directory under the datastore directory type.
\<close>

definition fs_ListDirectory ::
  "'s s3_ops \<Rightarrow> (path_spec \<Rightarrow> string) \<Rightarrow> (string \<Rightarrow> string \<times> string) \<Rightarrow> (string \<Rightarrow> string)
     \<Rightarrow> path_spec \<Rightarrow> 's \<Rightarrow> file_info list result" where
  "fs_ListDirectory ops dir_key path_type unsanitize dirname s =
     (case ListObjects ops (dir_key dirname) s of
        Inl e \<Rightarrow> Inl e
      | Inr objs \<Rightarrow> Inr (map (\<lambda>ob.
          let (t, name) = path_type (last (Split (CHR ''/'') (obj_Key ob)))
          in \<lparr>fi_parent = dirname, fi_name = unsanitize name, fi_type = t,
              fi_size = obj_Size ob, fi_mod_time = obj_LastModified ob\<rparr>) objs))"

definition fs_Delete ::
  "'s s3_ops \<Rightarrow> (path_spec \<Rightarrow> string) \<Rightarrow> path_spec \<Rightarrow> 's \<Rightarrow> go_error option \<times> 's" where
  "fs_Delete ops fs_key filename s = DeleteObject ops (fs_key filename) s"

definition fs_StatFile :: "path_spec \<Rightarrow> file_info result" where
  "fs_StatFile filename = Inl (Err ''S3Filestore.StatFile is not implemented'')"

definition fs_Move :: "path_spec \<Rightarrow> path_spec \<Rightarrow> go_error option" where
  "fs_Move src dest = Some (Err ''S3Filestore.Move is not implemented'')"

section \<open>The documented behaviour of the service\<close>

text \<open>
  \<open>obj\<close> is the content of an object, \<open>pending\<close> the parts of an upload. A part that was
  accepted replaces the part of its number; a failed attempt says nothing about the part of
  its number and leaves the others; completing a list of accepted parts in ascending order
  makes the object their concatenation; a range request gives the bytes of the range the
  object has, or \<open>InvalidRange\<close> when it starts past the end.
\<close>

definition s3_upload_contract ::
  "'s s3_ops \<Rightarrow> ('s \<Rightarrow> string \<rightharpoonup> bytes) \<Rightarrow> ('s \<Rightarrow> string \<Rightarrow> int \<rightharpoonup> string \<times> bytes) \<Rightarrow> bool" where
  "s3_upload_contract ops obj pending \<longleftrightarrow>
     (\<forall>k s uid s'. CreateMultipartUpload ops k s = (Inr (Some uid), s') \<longrightarrow> uid \<noteq> []) \<and>
     (\<forall>k u n d s etag s'. UploadPart ops k u n d s = (Inr etag, s') \<longrightarrow>
        pending s' u = (pending s u)(n \<mapsto> (etag, d))) \<and>
     (\<forall>k u n d s e s' m. UploadPart ops k u n d s = (Inl e, s') \<longrightarrow> m \<noteq> n \<longrightarrow>
        pending s' u m = pending s u m) \<and>
     (\<forall>k u ps s s' ds. CompleteUpload ops k u ps s = (None, s') \<longrightarrow>
        sorted_wrt (<) (map PartNumber ps) \<longrightarrow>
        list_all2 (\<lambda>p d. pending s u (PartNumber p) = Some (ETag p, d)) ps ds \<longrightarrow>
        obj s' k = Some (concat ds))"

definition s3_range_contract :: "'s s3_ops \<Rightarrow> ('s \<Rightarrow> string \<rightharpoonup> bytes) \<Rightarrow> bool" where
  "s3_range_contract ops obj \<longleftrightarrow>
     (\<forall>k s first last c. obj s k = Some c \<longrightarrow> 0 \<le> first \<longrightarrow> first \<le> last \<longrightarrow>
        Download ops k first last s =
          (if int (length c) \<le> first then ([], Some InvalidRange)
           else (take (nat (last - first + 1)) (drop (nat first) c), None)))"

section \<open>The writer\<close>

lemma contract_create:
  "s3_upload_contract ops obj pending \<Longrightarrow>
     CreateMultipartUpload ops k s = (Inr (Some uid), s') \<Longrightarrow> uid \<noteq> []"
  unfolding s3_upload_contract_def by (elim conjE) metis

lemma contract_part:
  "s3_upload_contract ops obj pending \<Longrightarrow> UploadPart ops k u n d s = (Inr etag, s') \<Longrightarrow>
     pending s' u = (pending s u)(n \<mapsto> (etag, d))"
  unfolding s3_upload_contract_def by simp

lemma contract_failed_part:
  "s3_upload_contract ops obj pending \<Longrightarrow> UploadPart ops k u n d s = (Inl e, s') \<Longrightarrow>
     m \<noteq> n \<Longrightarrow> pending s' u m = pending s u m"
  unfolding s3_upload_contract_def by simp

lemma contract_complete:
  "s3_upload_contract ops obj pending \<Longrightarrow> CompleteUpload ops k u ps s = (None, s') \<Longrightarrow>
     sorted_wrt (<) (map PartNumber ps) \<Longrightarrow>
     list_all2 (\<lambda>p d. pending s u (PartNumber p) = Some (ETag p, d)) ps ds \<Longrightarrow>
     obj s' k = Some (concat ds)"
  unfolding s3_upload_contract_def by simp

lemma retry_part_ok:
  assumes "s3_upload_contract ops obj pending"
    and "retry_part m (UploadPart ops k u n d) s = (Inr etag, s')"
  shows "pending s' u n = Some (etag, d) \<and> (\<forall>j. j \<noteq> n \<longrightarrow> pending s' u j = pending s u j)"
  using assms(2)
proof (induction m arbitrary: s)
  case 0
  then show ?case
    using contract_part [OF assms(1)]
    by (auto simp: retry_part.simps [of 0] split: prod.splits sum.splits)
next
  case (Suc m)
  obtain r s1 where up: "UploadPart ops k u n d s = (r, s1)" by fastforce
  show ?case
  proof (cases r)
    case (Inl e)
    then have "\<forall>j. j \<noteq> n \<longrightarrow> pending s1 u j = pending s u j"
      using contract_failed_part [OF assms(1)] up by blast
    then show ?thesis
      using Suc.IH [of s1] Suc.prems up Inl by (simp add: retry_part.simps [of "Suc m"])
  next
    case (Inr t)
    then have "pending s1 u = (pending s u)(n \<mapsto> (t, d))"
      using contract_part [OF assms(1)] up by blast
    then show ?thesis using Suc.prems up Inr by (simp add: retry_part.simps [of "Suc m"])
  qed
qed

text \<open>What the writer has accepted so far, as the service holds it.\<close>

definition holds_parts ::
  "('s \<Rightarrow> string \<Rightarrow> int \<rightharpoonup> string \<times> bytes) \<Rightarrow> 's \<Rightarrow> string \<Rightarrow> completed_part list \<Rightarrow> bytes list \<Rightarrow> bool"
where
  "holds_parts pending s u ps ds \<longleftrightarrow>
     list_all2 (\<lambda>p d. pending s u (PartNumber p) = Some (ETag p, d)) ps ds"

lemma holds_parts_snoc:
  assumes "holds_parts pending s u ps ds" and "\<forall>p \<in> set ps. PartNumber p \<noteq> n"
    and "pending s' u n = Some (t, d)" and "\<forall>j. j \<noteq> n \<longrightarrow> pending s' u j = pending s u j"
  shows "holds_parts pending s' u (ps @ [\<lparr>ETag = t, PartNumber = n\<rparr>]) (ds @ [d])"
  using assms
  by (auto simp: holds_parts_def list_all2_conv_all_nth nth_append less_Suc_eq)

definition writer_inv ::
  "('s \<Rightarrow> string \<Rightarrow> int \<rightharpoonup> string \<times> bytes) \<Rightarrow> s3_writer \<Rightarrow> 's \<Rightarrow> bytes \<Rightarrow> bool" where
  "writer_inv pending w s sofar \<longleftrightarrow>
     (\<exists>ds. holds_parts pending s (w_upload_id w) (w_parts w) ds \<and>
        sofar = concat ds @ w_buf w \<and> (\<forall>d \<in> set ds. w_part_size w < length d)) \<and>
     map PartNumber (w_parts w) = map int [1..<Suc (length (w_parts w))] \<and>
     w_part_number w = int (length (w_parts w)) + 1 \<and>
     length (w_buf w) \<le> w_part_size w \<and>
     (w_upload_id w = [] \<longrightarrow> sofar = [] \<and> w_parts w = [])"

lemma part_numbers_fresh:
  assumes "map PartNumber ps = map int [1..<Suc (length ps)]"
  shows "\<forall>p \<in> set ps. PartNumber p \<noteq> int (length ps) + 1"
    and "sorted_wrt (<) (map PartNumber ps)"
proof -
  have "set (map PartNumber ps) \<subseteq> {..int (length ps)}" unfolding assms by auto
  then show "\<forall>p \<in> set ps. PartNumber p \<noteq> int (length ps) + 1" by fastforce
  show "sorted_wrt (<) (map PartNumber ps)"
    unfolding assms using strict_sorted_list_of_set by (simp add: sorted_wrt_map del: upt_Suc)
qed

text \<open>Sending the buffer, whatever its size.\<close>

lemma writeBuf_ok:
  assumes "s3_upload_contract ops obj pending"
    and "w_writeBuf ops w s = (Inr n, w', s')"
    and "holds_parts pending s (w_upload_id w) (w_parts w) ds"
    and "map PartNumber (w_parts w) = map int [1..<Suc (length (w_parts w))]"
    and "w_part_number w = int (length (w_parts w)) + 1"
  shows "holds_parts pending s' (w_upload_id w') (w_parts w') (ds @ [w_buf w])"
    and "map PartNumber (w_parts w') = map int [1..<Suc (length (w_parts w'))]"
    and "w_part_number w' = int (length (w_parts w')) + 1"
    and "w_buf w' = []" and "w_upload_id w' = w_upload_id w" and "w_key w' = w_key w"
    and "w_part_size w' = w_part_size w" and "w_parts w' \<noteq> []"
proof -
  obtain etag where up: "retry_part maxRetries
      (UploadPart ops (w_key w) (w_upload_id w) (w_part_number w) (w_buf w)) s = (Inr etag, s')"
    and w': "w' = w\<lparr>w_buf := [],
      w_parts := w_parts w @ [\<lparr>ETag = etag, PartNumber = w_part_number w\<rparr>],
      w_part_number := w_part_number w + 1\<rparr>"
    using assms(2) by (auto simp: w_writeBuf_def Let_def split: prod.splits sum.splits)
  show "holds_parts pending s' (w_upload_id w') (w_parts w') (ds @ [w_buf w])"
    using holds_parts_snoc [OF assms(3)] retry_part_ok [OF assms(1) up]
      part_numbers_fresh(1) [OF assms(4)] assms(5) w' by simp
  show "map PartNumber (w_parts w') = map int [1..<Suc (length (w_parts w'))]"
    and "w_part_number w' = int (length (w_parts w')) + 1"
    and "w_buf w' = []" and "w_upload_id w' = w_upload_id w" and "w_key w' = w_key w"
    and "w_part_size w' = w_part_size w" and "w_parts w' \<noteq> []"
    using assms(4,5) w' by simp_all
qed

lemma start_ok:
  assumes "s3_upload_contract ops obj pending" and "w_start ops w s = (None, w', s')"
  shows "w_upload_id w' \<noteq> [] \<and> w_buf w' = w_buf w \<and> w_parts w' = w_parts w \<and>
    w_part_number w' = w_part_number w \<and> w_part_size w' = w_part_size w \<and> w_key w' = w_key w"
proof -
  obtain uid where "CreateMultipartUpload ops (w_key w) s = (Inr (Some uid), s')"
    and "w' = w\<lparr>w_upload_id := uid\<rparr>"
    using assms(2) by (auto simp: w_start_def split: prod.splits sum.splits option.splits)
  then show ?thesis using contract_create [OF assms(1)] by simp
qed

lemma Write_inv:
  assumes c: "s3_upload_contract ops obj pending" and i: "writer_inv pending w s sofar"
    and wr: "w_Write ops data w s = (Inr n, w', s')"
  shows "writer_inv pending w' s' (sofar @ data)" and "n = length data"
    and "w_key w' = w_key w" and "w_part_size w' = w_part_size w"
proof -
  have "writer_inv pending w' s' (sofar @ data) \<and> n = length data \<and>
      w_key w' = w_key w \<and> w_part_size w' = w_part_size w"
  proof (cases "data = []")
    case True
    then show ?thesis using i wr by (simp add: w_Write_def)
  next
    case False
    obtain w1 s1 where st: "(if w_upload_id w = [] then w_start ops w s else (None, w, s)) =
        (None, w1, s1)"
      using wr False by (auto simp: w_Write_def split: prod.splits option.splits)
    have k1: "w_upload_id w1 \<noteq> []" "w_buf w1 = w_buf w" "w_parts w1 = w_parts w"
      "w_part_number w1 = w_part_number w" "w_part_size w1 = w_part_size w" "w_key w1 = w_key w"
      using st start_ok [OF c, of w s w1 s1] by (auto split: if_splits)
    obtain ds where ds: "holds_parts pending s1 (w_upload_id w1) (w_parts w1) ds"
      "sofar = concat ds @ w_buf w" "\<forall>d \<in> set ds. w_part_size w < length d"
    proof (cases "w_upload_id w = []")
      case True
      then show ?thesis using that [of "[]"] i k1 by (auto simp: writer_inv_def holds_parts_def)
    next
      case False
      then show ?thesis using that i st by (auto simp: writer_inv_def)
    qed
    define w2 where "w2 = w1\<lparr>w_buf := w_buf w1 @ data\<rparr>"
    have i2: "map PartNumber (w_parts w2) = map int [1..<Suc (length (w_parts w2))]"
      "w_part_number w2 = int (length (w_parts w2)) + 1"
      "holds_parts pending s1 (w_upload_id w2) (w_parts w2) ds"
      using i k1 ds by (simp_all add: w2_def writer_inv_def)
    show ?thesis
    proof (cases "length (w_buf w2) > w_part_size w2")
      case True
      then obtain n' where wb: "w_writeBuf ops w2 s1 = (Inr n', w', s')" and n: "n = length data"
        using wr False st by (auto simp: w_Write_def w2_def Let_def split: prod.splits sum.splits)
      note b = writeBuf_ok [OF c wb i2(3,1,2)]
      show ?thesis
        using b ds True k1 n by (auto simp: writer_inv_def w2_def intro!: exI [of _ "ds @ [w_buf w2]"])
    next
      case False
      then have "w' = w2" "s' = s1" "n = length data"
        using wr \<open>data \<noteq> []\<close> st by (auto simp: w_Write_def w2_def Let_def)
      then show ?thesis using i2 ds False k1 by (auto simp: writer_inv_def w2_def)
    qed
  qed
  then show "writer_inv pending w' s' (sofar @ data)" and "n = length data"
    and "w_key w' = w_key w" and "w_part_size w' = w_part_size w" by blast+
qed

text \<open>A sequence of writes that stops at the first error, and a sequence of reads.\<close>

fun w_Writes :: "'s s3_ops \<Rightarrow> bytes list \<Rightarrow> s3_writer \<Rightarrow> 's \<Rightarrow> go_error option \<times> s3_writer \<times> 's" where
  "w_Writes ops [] w s = (None, w, s)"
| "w_Writes ops (d # ds) w s =
     (case w_Write ops d w s of
        (Inl e, w1, s1) \<Rightarrow> (Some e, w1, s1)
      | (Inr n, w1, s1) \<Rightarrow> w_Writes ops ds w1 s1)"

fun r_Reads :: "'s s3_ops \<Rightarrow> 's \<Rightarrow> nat list \<Rightarrow> s3_reader \<Rightarrow> bytes \<times> s3_reader" where
  "r_Reads ops s [] r = ([], r)"
| "r_Reads ops s (k # ks) r =
     (case r_Read ops s k r of
        ((d, e), r1) \<Rightarrow> (case r_Reads ops s ks r1 of (ds, r2) \<Rightarrow> (d @ ds, r2)))"

lemma Writes_inv:
  assumes "s3_upload_contract ops obj pending" and "writer_inv pending w s sofar"
    and "w_Writes ops ds w s = (None, w', s')"
  shows "writer_inv pending w' s' (sofar @ concat ds) \<and> w_key w' = w_key w \<and>
         w_part_size w' = w_part_size w"
  using assms(2,3)
proof (induction ds arbitrary: w s sofar)
  case (Cons d ds)
  obtain n w1 s1 where wr: "w_Write ops d w s = (Inr n, w1, s1)"
    and rec: "w_Writes ops ds w1 s1 = (None, w', s')"
    using Cons.prems(2) by (auto split: prod.splits sum.splits)
  show ?case
    using Cons.IH [OF Write_inv(1) [OF assms(1) Cons.prems(1) wr] rec]
      Write_inv(3,4) [OF assms(1) Cons.prems(1) wr] by simp
qed simp

lemma WriteFile_inv: "writer_inv pending (fs_WriteFile fs_key psz fn) s []"
  by (simp add: writer_inv_def fs_WriteFile_def holds_parts_def)

lemma s3_Close_ok:
  assumes c: "s3_upload_contract ops obj pending" and i: "writer_inv pending w s sofar"
    and cl: "w_Close ops w s = (None, w', s')"
  shows "obj s' (w_key w) = Some sofar"
proof -
  obtain ds where ds: "holds_parts pending s (w_upload_id w) (w_parts w) ds"
    "sofar = concat ds @ w_buf w"
    using i by (auto simp: writer_inv_def)
  have n: "map PartNumber (w_parts w) = map int [1..<Suc (length (w_parts w))]"
    "w_part_number w = int (length (w_parts w)) + 1"
    using i by (auto simp: writer_inv_def)
  obtain m w1 s1 where wb: "(if 0 < length (w_buf w) then w_writeBuf ops w s else (Inr 0, w, s)) =
      (Inr m, w1, s1)"
    and cm: "CompleteUpload ops (w_key w1) (w_upload_id w1) (w_parts w1) s1 = (None, s')"
    using cl by (auto simp: w_Close_def w_Flush_def split: prod.splits sum.splits)
  obtain ds1 where "holds_parts pending s1 (w_upload_id w1) (w_parts w1) ds1" "sofar = concat ds1"
    "sorted_wrt (<) (map PartNumber (w_parts w1))" "w_key w1 = w_key w"
  proof (cases "w_buf w = []")
    case True
    then show ?thesis using that [of ds] ds wb part_numbers_fresh(2) [OF n(1)] by simp
  next
    case False
    then have wb: "w_writeBuf ops w s = (Inr m, w1, s1)" using wb by simp
    note b = writeBuf_ok [OF c wb ds(1) n]
    show ?thesis using that [of "ds @ [w_buf w]"] b ds part_numbers_fresh(2) [OF b(2)] by simp
  qed
  then show ?thesis
    using contract_complete [OF c cm] by (auto simp: holds_parts_def)
qed

section \<open>The reader\<close>

lemma Read_next:
  assumes "s3_range_contract ops obj" and "obj s (r_key r) = Some c" and "0 \<le> r_offset r"
    and "0 < k"
  shows "r_Read ops s k r =
     (if drop (nat (r_offset r)) c = [] then (([], Some EOF_err), r)
      else let d = take k (drop (nat (r_offset r)) c)
           in ((d, None), r\<lparr>r_offset := r_offset r + int (length d)\<rparr>))"
proof -
  have "Download ops (r_key r) (r_offset r) (r_offset r + (int k - 1)) s =
      (if int (length c) \<le> r_offset r then ([], Some InvalidRange)
       else (take k (drop (nat (r_offset r)) c), None))"
    using assms unfolding s3_range_contract_def by simp
  moreover have "int (length c) \<le> r_offset r \<longleftrightarrow> drop (nat (r_offset r)) c = []"
    using assms(3) by auto
  ultimately show ?thesis by (simp add: r_Read_def Let_def)
qed

lemma Reads_content:
  assumes "s3_range_contract ops obj" and "obj s (r_key r) = Some c" and "0 \<le> r_offset r"
    and "\<forall>k \<in> set ks. 0 < k"
  shows "fst (r_Reads ops s ks r) = take (sum_list ks) (drop (nat (r_offset r)) c)"
  using assms(2-)
proof (induction ks arbitrary: r)
  case (Cons k ks)
  define d where "d = take k (drop (nat (r_offset r)) c)"
  have rd: "r_Read ops s k r =
     (if drop (nat (r_offset r)) c = [] then (([], Some EOF_err), r)
      else ((d, None), r\<lparr>r_offset := r_offset r + int (length d)\<rparr>))"
    using Read_next [OF assms(1) Cons.prems(1,2), of k] Cons.prems(3) by (simp add: d_def Let_def)
  have len: "nat (r_offset r + int (length d)) = nat (r_offset r) + length d"
    using Cons.prems(2) by simp
  have tk: "take (k + sum_list ks) (drop (nat (r_offset r)) c) =
      d @ take (sum_list ks) (drop (nat (r_offset r) + length d) c)"
    unfolding d_def by (simp add: take_add add.commute min_def) 
  show ?case
  proof (cases "drop (nat (r_offset r)) c = []")
    case True
    then show ?thesis
      using Cons.IH [of r] Cons.prems rd by (auto split: prod.splits simp: prod_eq_iff)
  next
    case False
    then show ?thesis
      using Cons.IH [of "r\<lparr>r_offset := r_offset r + int (length d)\<rparr>"] Cons.prems rd len tk
      by (auto split: prod.splits)
  qed
qed simp

section \<open>A service in memory\<close>

text \<open>One upload at a time; tags are empty. The witnesses run on it.\<close>

type_synonym mem_store = "(string \<rightharpoonup> bytes) \<times> (int \<rightharpoonup> bytes)"

definition mem_ops :: "mem_store s3_ops" where
  "mem_ops =
     \<lparr>CreateMultipartUpload = (\<lambda>k (ob, pend). (Inr (Some ''u''), (ob, Map.empty))),
      UploadPart = (\<lambda>k u n d (ob, pend). (Inr [], (ob, pend(n \<mapsto> d)))),
      CompleteUpload = (\<lambda>k u ps (ob, pend).
        (None, (ob(k \<mapsto> concat (map (\<lambda>p. case pend (PartNumber p) of None \<Rightarrow> [] | Some d \<Rightarrow> d) ps)), pend))),
      DeleteObject = (\<lambda>k (ob, pend). (None, (ob(k := None), pend))),
      Download = (\<lambda>k first last (ob, pend).
        (case ob k of None \<Rightarrow> ([], Some (AwsErr NotFoundError))
         | Some c \<Rightarrow> if int (length c) \<le> first then ([], Some InvalidRange)
                     else (take (nat (last - first + 1)) (drop (nat first) c), None))),
      HeadObject = (\<lambda>k (ob, pend). (case ob k of None \<Rightarrow> Inl NotFoundError | Some c \<Rightarrow> Inr (int (length c)))),
      ListObjects = (\<lambda>k st. Inr [])\<rparr>"

definition mem_pending :: "mem_store \<Rightarrow> string \<Rightarrow> int \<rightharpoonup> string \<times> bytes" where
  "mem_pending st u = (\<lambda>n. case snd st n of None \<Rightarrow> None | Some d \<Rightarrow> Some ([], d))"

lemma mem_complete:
  "list_all2 (\<lambda>p d. (case pend (PartNumber p) of None \<Rightarrow> None | Some d \<Rightarrow> Some ([], d)) =
      Some (ETag p, d)) ps ds \<Longrightarrow>
     map (\<lambda>p. case pend (PartNumber p) of None \<Rightarrow> [] | Some d \<Rightarrow> d) ps = ds"
  by (induction rule: list_all2_induct) (auto split: option.splits)

lemma mem_upload_contract: "s3_upload_contract mem_ops fst mem_pending"
  by (auto simp: s3_upload_contract_def mem_ops_def mem_pending_def dest!: mem_complete)

lemma mem_range_contract: "s3_range_contract mem_ops fst"
  by (auto simp: s3_range_contract_def mem_ops_def)

definition mem_empty :: mem_store where
  "mem_empty = (Map.empty, Map.empty)"

section \<open>Properties\<close>

text \<open>
  C8. What is written is what is read: when every write and the close of a new file succeed
  and something was written, the object holds the writes one after the other, and reads of
  any positive sizes from the start of the file return its prefix.
\<close>

theorem s3_write_read_roundtrip:
  assumes "s3_upload_contract ops obj pending" and "s3_range_contract ops obj"
    and "w_Writes ops ds (fs_WriteFile fs_key psz fn) s = (None, w, s1)"
    and "w_Close ops w s1 = (None, w', s2)"
    and "\<forall>k \<in> set ks. 0 < k"
  shows "obj s2 (fs_key fn) = Some (concat ds) \<and>
         fst (r_Reads ops s2 ks (fs_ReadFile fs_key fn)) = take (sum_list ks) (concat ds)"
proof -
  have i: "writer_inv pending w s1 (concat ds)" "w_key w = fs_key fn"
    using Writes_inv [OF assms(1) WriteFile_inv assms(3)] by (simp_all add: fs_WriteFile_def)
  have o: "obj s2 (fs_key fn) = Some (concat ds)"
    using s3_Close_ok [OF assms(1) i(1) assms(4)] i(2) by simp
  then show ?thesis
    using Reads_content [OF assms(2), of s2 "fs_ReadFile fs_key fn" "concat ds" ks] assms(5)
    by (simp add: fs_ReadFile_def)
qed

definition mem_file :: path_spec where
  "mem_file = \<lparr>ps_Components = [''a''], ps_Extension = []\<rparr>"

definition mem_writer :: "go_error option \<times> s3_writer \<times> mem_store" where
  "mem_writer = w_Writes mem_ops [[1, 2], [3], [4, 5]] (fs_WriteFile (\<lambda>p. ''k'') 2 mem_file) mem_empty"

lemma mem_run:
  "case mem_writer of (None, w, s1) \<Rightarrow> (case w_Close mem_ops w s1 of (None, w', s2) \<Rightarrow> True | _ \<Rightarrow> False)
   | _ \<Rightarrow> False"
  by code_simp

theorem s3_write_read_roundtrip_witness:
  "\<exists>s2. fst s2 ''k'' = Some [1, 2, 3, 4, 5 :: 8 word] \<and>
     fst (r_Reads mem_ops s2 [3, 4] (fs_ReadFile (\<lambda>p. ''k'') mem_file)) = [1, 2, 3, 4, 5]"
proof -
  obtain w s1 w' s2 where r: "mem_writer = (None, w, s1)" "w_Close mem_ops w s1 = (None, w', s2)"
    using mem_run by (auto split: prod.splits option.splits)
  from s3_write_read_roundtrip [OF mem_upload_contract mem_range_contract r(1) [unfolded mem_writer_def] r(2),
    of "[3, 4]"]
  show ?thesis by (intro exI [of _ s2]) simp
qed

text \<open>
  C26. The parts of an S3 upload: after any successful writes, the parts handed over are
  numbered 1, 2, 3 and so on, the service holds each of them, each is larger than the part
  size (only the last part, sent by the close, may be smaller), and with the bytes still
  buffered, at most the part size, they are the bytes written.
\<close>

theorem s3_writer_parts:
  assumes "s3_upload_contract ops obj pending"
    and "w_Writes ops ds (fs_WriteFile fs_key psz fn) s = (None, w, s1)"
  shows "map PartNumber (w_parts w) = map int [1..<Suc (length (w_parts w))] \<and>
    (\<exists>qs. list_all2 (\<lambda>p d. pending s1 (w_upload_id w) (PartNumber p) = Some (ETag p, d)) (w_parts w) qs \<and>
       (\<forall>q \<in> set qs. w_part_size w < length q) \<and>
       concat qs @ w_buf w = concat ds) \<and>
    length (w_buf w) \<le> w_part_size w"
  using Writes_inv [OF assms(1) WriteFile_inv assms(2)]
  by (auto simp: writer_inv_def holds_parts_def)

theorem s3_writer_parts_witness:
  "\<exists>w s1. mem_writer = (None, w, s1) \<and> map PartNumber (w_parts w) = [1] \<and> length (w_buf w) \<le> 2"
proof -
  obtain w s1 where r: "mem_writer = (None, w, s1)"
    using mem_run by (auto split: prod.splits option.splits)
  have n: "length (w_parts (fst (snd mem_writer))) = 1 \<and> w_part_size (fst (snd mem_writer)) = 2"
    by code_simp
  have n': "length (w_parts w) = 1" "w_part_size w = 2"
    using n unfolding r by simp_all
  show ?thesis
    using s3_writer_parts [OF mem_upload_contract r [unfolded mem_writer_def]] n' r
    by (intro exI [of _ w] exI [of _ s1]) simp
qed

text \<open>The state after \<open>n\<close> attempts.\<close>

fun attempts :: "nat \<Rightarrow> ('s \<Rightarrow> string result \<times> 's) \<Rightarrow> 's \<Rightarrow> 's" where
  "attempts 0 f s = s"
| "attempts (Suc n) f s = attempts n f (snd (f s))"

text \<open>
  The retry loop makes at most eleven attempts: it stops at the first success with its
  tag, and reports an error only when all eleven failed.
\<close>

theorem upload_part_retries:
  fixes f :: "'s \<Rightarrow> string result \<times> 's"
  shows "\<exists>n \<le> maxRetries. retry_part maxRetries f s = f (attempts n f s) \<and>
    (\<forall>m < n. isl (fst (f (attempts m f s)))) \<and>
    (isl (fst (retry_part maxRetries f s)) = (n = maxRetries \<and> isl (fst (f (attempts n f s)))))"
proof -
  have "\<exists>n \<le> k. retry_part k f s = f (attempts n f s) \<and>
    (\<forall>m < n. isl (fst (f (attempts m f s)))) \<and>
    (isl (fst (retry_part k f s)) = (n = k \<and> isl (fst (f (attempts n f s)))))" for k
  proof (induction k arbitrary: s)
    case 0
    then show ?case
      by (auto simp: retry_part.simps [of 0] split: prod.splits sum.splits)
  next
    case (Suc k)
    show ?case
    proof (cases "fst (f s)")
      case (Inl e)
      obtain n where n: "n \<le> k" "retry_part k f (snd (f s)) = f (attempts n f (snd (f s)))"
        "\<forall>m < n. isl (fst (f (attempts m f (snd (f s)))))"
        "isl (fst (retry_part k f (snd (f s)))) = (n = k \<and> isl (fst (f (attempts n f (snd (f s))))))"
        using Suc.IH [of "snd (f s)"] by blast
      have r: "retry_part (Suc k) f s = retry_part k f (snd (f s))"
        using Inl by (cases "f s") (simp add: retry_part.simps [of "Suc k"])
      have "\<forall>m < Suc n. isl (fst (f (attempts m f s)))"
        using n(3) Inl by (auto simp: less_Suc_eq_0_disj)
      then show ?thesis using n r by (intro exI [of _ "Suc n"]) simp
    next
      case (Inr t)
      then have "retry_part (Suc k) f s = f s"
        by (cases "f s") (simp add: retry_part.simps [of "Suc k"])
      then show ?thesis using Inr by (intro exI [of _ 0]) simp
    qed
  qed
  then show ?thesis .
qed

theorem upload_part_retries_witness:
  "isl (fst (retry_part maxRetries (\<lambda>n::nat. (if n < 20 then Inl IOError else Inr ''tag'', Suc n)) 0))"
proof -
  let ?f = "\<lambda>n::nat. (if n < 20 then Inl IOError else Inr ''tag'', Suc n)"
  have a: "attempts k ?f m = m + k" for k m by (induction k arbitrary: m) auto
  show ?thesis
    using upload_part_retries [of ?f 0] by (auto simp: a maxRetries_def)
qed

end
