(* ===== verification/UploadServer.thy ===== *)
theory UploadServer
  imports VeloUploader S3
begin

text \<open>
  The server's upload endpoints (\<open>server/upload.go\<close>) and the S3 keys of client uploads
  (\<open>filestore/name_mapping.go\<close>), and the composition of the client's uploader with them: the
  HTTP client of the uploader is the sequence of handlers over the S3 service.
\<close>

section \<open>The keys of client uploads\<close>

definition S3ComponentsForClientUpload :: "(string \<Rightarrow> string) \<Rightarrow> upload_request \<Rightarrow> string list" where
  "S3ComponentsForClientUpload sha256_hex req =
     (let base = [''clients'', UploadRequest_ClientId req, ''collections'',
                  UploadRequest_SessionId req, ''uploads'', UploadRequest_Accessor req];
          client_path = Join [CHR 0x00] (UploadRequest_Components req);
          file_name = sha256_hex client_path;
          file_name1 = (if UploadRequest_Type req = ''idx'' then file_name @ ''.idx'' else file_name)
      in base @ [file_name1])"

definition S3KeyForClientUpload ::
  "(string \<Rightarrow> string) \<Rightarrow> (string \<Rightarrow> string) \<Rightarrow> string \<Rightarrow> upload_request \<Rightarrow> string" where
  "S3KeyForClientUpload normalized_org sha256_hex org_id req =
     Join ''/'' ([''orgs'', normalized_org org_id] @ S3ComponentsForClientUpload sha256_hex req)"

section \<open>The handlers\<close>

text \<open>\<open>UploadPutRequest\<close> and \<open>UploadCompletionRequest\<close> of the client.\<close>

record put_request =
  Put_Key :: string
  Put_UploadId :: string
  Put_Part :: int

record completion_request =
  Completion_Key :: string
  Completion_UploadId :: string
  Completion_Parts :: "completed_part list"

text \<open>
  The environment of the server: \<open>Decrypt\<close> is the crypto manager on the decoded token and
  gives the source of the message; \<open>OrgIdFromClientId\<close> and \<open>NormalizedOrgId\<close> are library
  functions; the rest is base64 and JSON.
\<close>

record server_env =
  b64_decode :: "string \<Rightarrow> string result"
  Decrypt :: "string \<Rightarrow> string result"
  OrgIdFromClientId :: "string \<Rightarrow> string"
  NormalizedOrgId :: "string \<Rightarrow> string"
  sha256_hex :: "string \<Rightarrow> string"
  dec_start :: "string \<Rightarrow> upload_request result"
  dec_put :: "string \<Rightarrow> put_request result"
  dec_completion :: "string \<Rightarrow> completion_request result"
  enc_response :: "upload_response \<Rightarrow> string"
  enc_part :: "completed_part \<Rightarrow> string"

text \<open>
  A request: the Authorization header (empty when absent), the query parameters in the order
  the map is iterated, and the outcome of reading the body.
\<close>

record 'b server_request =
  sr_auth :: string
  sr_query :: "(string \<times> string list) list"
  sr_body :: "'b result"

datatype server_reply = Reply int string | Panic

definition verifyToken :: "server_env \<Rightarrow> 'b server_request \<Rightarrow> string result" where
  "verifyToken se r =
     (if sr_auth r = [] then Inl (Err ''No token provided'')
      else case b64_decode se (sr_auth r) of
             Inl e \<Rightarrow> Inl e
           | Inr decoded \<Rightarrow>
               (case Decrypt se decoded of
                  Inl e \<Rightarrow> Inl e
                | Inr source \<Rightarrow> Inr (OrgIdFromClientId se source)))"

definition StartMultipartUpload ::
  "server_env \<Rightarrow> 's s3_ops \<Rightarrow> string server_request \<Rightarrow> 's \<Rightarrow> server_reply \<times> 's" where
  "StartMultipartUpload se ops r s =
     (case verifyToken se r of
        Inl e \<Rightarrow> (Reply 403 [], s)
      | Inr org_id \<Rightarrow>
          (case sr_body r of
             Inl e \<Rightarrow> (Reply 503 (err_text e), s)
           | Inr serialized \<Rightarrow>
               (case dec_start se serialized of
                  Inl e \<Rightarrow> (Reply 503 (err_text e), s)
                | Inr request \<Rightarrow>
                    (let ky = S3KeyForClientUpload (NormalizedOrgId se) (sha256_hex se) org_id request
                     in case CreateMultipartUpload ops ky s of
                          (Inl e, s1) \<Rightarrow> (Reply 503 (err_text e), s1)
                        | (Inr None, s1) \<Rightarrow> (Panic, s1)
                        | (Inr (Some uid), s1) \<Rightarrow>
                            (Reply 200 (enc_response se
                               \<lparr>UploadResponse_Key = ky, UploadResponse_UploadId = uid\<rparr>), s1)))))"

fun extractUploadRequest :: "server_env \<Rightarrow> (string \<times> string list) list \<Rightarrow> put_request result" where
  "extractUploadRequest se [] = Inl (Err ''Invalid Request'')"
| "extractUploadRequest se ((k, v) # qs) =
     (if k = ''payload'' \<and> v \<noteq> [] then
        (case b64_decode se (hd v) of
           Inl e \<Rightarrow> extractUploadRequest se qs
         | Inr serialized \<Rightarrow> dec_put se serialized)
      else extractUploadRequest se qs)"

definition uploadPart ::
  "'s s3_ops \<Rightarrow> string \<Rightarrow> string \<Rightarrow> int \<Rightarrow> bytes \<Rightarrow> 's \<Rightarrow> string result \<times> 's" where
  "uploadPart ops ky uid pn data s =
     retry_part maxRetries (UploadPart ops ky uid pn data) s"

definition GetUploadPart ::
  "server_env \<Rightarrow> 's s3_ops \<Rightarrow> bytes server_request \<Rightarrow> 's \<Rightarrow> server_reply \<times> 's" where
  "GetUploadPart se ops r s =
     (case verifyToken se r of
        Inl e \<Rightarrow> (Reply 403 [], s)
      | Inr org_id \<Rightarrow>
          (case extractUploadRequest se (sr_query r) of
             Inl e \<Rightarrow> (Reply 400 ''Invalid request'', s)
           | Inr req \<Rightarrow>
               if Put_Part req < 0 \<or> Put_UploadId req = [] \<or> Put_Key req = [] then
                 (Reply 400 ''Invalid request'', s)
               else case sr_body r of
                      Inl e \<Rightarrow> (Reply 400 (err_text e), s)
                    | Inr serialized \<Rightarrow>
                        (case uploadPart ops (Put_Key req) (Put_UploadId req) (Put_Part req)
                                serialized s of
                           (Inl e, s1) \<Rightarrow> (Reply 400 (err_text e), s1)
                         | (Inr etag, s1) \<Rightarrow>
                             (Reply 200 (enc_part se
                                \<lparr>ETag = etag, PartNumber = Put_Part req\<rparr>), s1))))"

definition completeUpload ::
  "'s s3_ops \<Rightarrow> string \<Rightarrow> string \<Rightarrow> completed_part list \<Rightarrow> 's \<Rightarrow> go_error option \<times> 's" where
  "completeUpload ops ky uid ps s = CompleteUpload ops ky uid ps s"

definition CompleteMultipartUpload ::
  "server_env \<Rightarrow> 's s3_ops \<Rightarrow> string server_request \<Rightarrow> 's \<Rightarrow> server_reply \<times> 's" where
  "CompleteMultipartUpload se ops r s =
     (case verifyToken se r of
        Inl e \<Rightarrow> (Reply 403 [], s)
      | Inr org_id \<Rightarrow>
          (case sr_body r of
             Inl e \<Rightarrow> (Reply 503 (err_text e), s)
           | Inr serialized \<Rightarrow>
               (case dec_completion se serialized of
                  Inl e \<Rightarrow> (Reply 503 (err_text e), s)
                | Inr request \<Rightarrow>
                    if Completion_UploadId request = [] \<or> Completion_Key request = [] then
                      (Reply 400 ''Invalid request'', s)
                    else case completeUpload ops (Completion_Key request)
                                (Completion_UploadId request) (Completion_Parts request) s of
                           (Some e, s1) \<Rightarrow> (Reply 503 (err_text e), s1)
                         | (None, s1) \<Rightarrow> (Reply 200 [], s1))))"

definition AbortMultipartUpload :: "'b server_request \<Rightarrow> 's \<Rightarrow> 's" where
  "AbortMultipartUpload r s = s"

section \<open>The client on this server\<close>

text \<open>
  The encoders of the client. \<open>codec_ok\<close> states that what one side decodes is what the other
  encoded.
\<close>

record client_codec =
  b64_encode :: "string \<Rightarrow> string"
  enc_start :: "upload_request \<Rightarrow> string"
  enc_put :: "put_request \<Rightarrow> string"
  enc_completion :: "completion_request \<Rightarrow> string"
  dec_response :: "string \<Rightarrow> upload_response result"
  dec_part :: "string \<Rightarrow> completed_part result"

definition codec_ok :: "client_codec \<Rightarrow> server_env \<Rightarrow> bool" where
  "codec_ok cc se \<longleftrightarrow>
     (\<forall>x. b64_decode se (b64_encode cc x) = Inr x) \<and>
     (\<forall>x. dec_start se (enc_start cc x) = Inr x) \<and> (\<forall>x. dec_put se (enc_put cc x) = Inr x) \<and>
     (\<forall>x. dec_completion se (enc_completion cc x) = Inr x) \<and>
     (\<forall>x. dec_response cc (enc_response se x) = Inr x) \<and> (\<forall>x. dec_part cc (enc_part se x) = Inr x)"

text \<open>One request of the client, handled. A panic closes the connection.\<close>

definition handle :: "client_codec \<Rightarrow> server_env \<Rightarrow> 's s3_ops \<Rightarrow> http_req \<Rightarrow> 's \<Rightarrow> server_reply \<times> 's" where
  "handle cc se ops req s =
     (case req of
        StartReq ur tok \<Rightarrow> StartMultipartUpload se ops
          \<lparr>sr_auth = tok, sr_query = [], sr_body = Inr (enc_start cc ur)\<rparr> s
      | PutReq k u n d tok \<Rightarrow> GetUploadPart se ops
          \<lparr>sr_auth = tok,
           sr_query = [(''payload'', [b64_encode cc (enc_put cc
              \<lparr>Put_Key = k, Put_UploadId = u, Put_Part = n\<rparr>)])], sr_body = Inr d\<rparr> s
      | CommitReq k u ps tok \<Rightarrow> CompleteMultipartUpload se ops
          \<lparr>sr_auth = tok, sr_query = [], sr_body = Inr (enc_completion cc
             \<lparr>Completion_Key = k, Completion_UploadId = u, Completion_Parts = ps\<rparr>)\<rparr> s)"

definition server_state :: "client_codec \<Rightarrow> server_env \<Rightarrow> 's s3_ops \<Rightarrow> 's \<Rightarrow> http_req list \<Rightarrow> 's" where
  "server_state cc se ops s0 h = foldl (\<lambda>s req. snd (handle cc se ops req s)) s0 h"

definition server_net ::
  "client_codec \<Rightarrow> server_env \<Rightarrow> 's s3_ops \<Rightarrow> 's \<Rightarrow> http_req list \<Rightarrow> http_req \<Rightarrow> http_reply result" where
  "server_net cc se ops s0 h req =
     (case fst (handle cc se ops req (server_state cc se ops s0 h)) of
        Panic \<Rightarrow> Inl IOError
      | Reply code body \<Rightarrow> Inr \<lparr>StatusCode = code, Status = [], Body = body\<rparr>)"

definition server_upload_env ::
  "client_codec \<Rightarrow> server_env \<Rightarrow> 's s3_ops \<Rightarrow> 's \<Rightarrow> int \<Rightarrow> (http_req list \<Rightarrow> bool) \<Rightarrow> upload_env" where
  "server_upload_env cc se ops s0 number is_done =
     \<lparr>net = server_net cc se ops s0, parse_start = dec_response cc, parse_part = dec_part cc,
      NextUploadId = number, ctx_done = is_done\<rparr>"

text \<open>The state of the server after the requests of an uploader.\<close>

abbreviation store_of ::
  "client_codec \<Rightarrow> server_env \<Rightarrow> 's s3_ops \<Rightarrow> 's \<Rightarrow> vcu \<Rightarrow> 's" where
  "store_of cc se ops s0 v \<equiv> server_state cc se ops s0 (map fst (log v))"

lemma server_state_snoc [simp]:
  "server_state cc se ops s0 (h @ [req]) = snd (handle cc se ops req (server_state cc se ops s0 h))"
  by (simp add: server_state_def)

text \<open>The parts of the uploader are the parts the service holds.\<close>

definition in_step ::
  "('s \<Rightarrow> string \<Rightarrow> int \<rightharpoonup> string \<times> bytes) \<Rightarrow> 's \<Rightarrow> upload_env \<Rightarrow> vcu \<Rightarrow> bool" where
  "in_step pending s env v \<longleftrightarrow>
     holds_parts pending s (upload_id v) (parts v) (accepted env v) \<and>
     sorted_wrt (<) (map PartNumber (parts v)) \<and>
     (\<forall>p \<in> set (parts v). PartNumber p < part v)"

lemma in_step_Put:
  assumes c: "s3_upload_contract ops obj pending" and k: "codec_ok cc se"
    and env: "env = server_upload_env cc se ops s0 num is_done"
    and i: "in_step pending (store_of cc se ops s0 v) env v"
    and p: "Put env d v = (None, v')"
  shows "in_step pending (store_of cc se ops s0 v') env v'"
proof -
  let ?s = "store_of cc se ops s0 v"
  obtain etag s1 where up: "retry_part maxRetries (UploadPart ops (key v) (upload_id v) (part v) d) ?s =
      (Inr etag, s1)"
    and st: "store_of cc se ops s0 v' = s1"
    and v': "parts v' = parts v @ [\<lparr>ETag = etag, PartNumber = part v\<rparr>]"
      "upload_id v' = upload_id v" "part v' = part v + 1"
    using p k unfolding env codec_ok_def
    by (auto simp: vcu_defs server_upload_env_def server_net_def handle_def GetUploadPart_def
        uploadPart_def split: sum.splits if_splits prod.splits server_reply.splits)
  have "\<forall>q \<in> set (parts v). PartNumber q \<noteq> part v" using i by (auto simp: in_step_def)
  then have "holds_parts pending s1 (upload_id v) (parts v @ [\<lparr>ETag = etag, PartNumber = part v\<rparr>])
      (accepted env v @ [d])"
    by (rule holds_parts_snoc [rotated]) (use retry_part_ok [OF c up] i in \<open>auto simp: in_step_def\<close>)
  then show ?thesis
    using i v' st Put_accepted(1) [OF p]
    by (auto simp: in_step_def sorted_wrt_append)
qed

lemma log_Commit: "log (Commit v) = log v"
  by (simp add: Commit_def)

lemma in_step_Commit:
  "in_step pending s env v \<Longrightarrow> in_step pending s env (Commit v)"
  by (simp add: in_step_def Commit_def accepted_def)

definition upload_request_of :: "vcu \<Rightarrow> upload_request" where
  "upload_request_of v =
     \<lparr>UploadRequest_ClientId = client_id v, UploadRequest_SessionId = session_id v,
      UploadRequest_Accessor = accessor v, UploadRequest_Components = getComponents (path v),
      UploadRequest_Type = uploader_type v\<rparr>"

lemma New_server:
  assumes "New (server_upload_env cc se ops s0 num is_done) encrypt cfg cid responder dest acc name
             tms sz utype = Inr v" and "codec_ok cc se"
  shows "\<exists>org. key v = S3KeyForClientUpload (NormalizedOrgId se) (sha256_hex se) org
                       (upload_request_of v)"
  using assms unfolding codec_ok_def
  by (auto simp: New_def Start_def http_do_def Let_def server_upload_env_def server_net_def
      handle_def StartMultipartUpload_def upload_request_of_def
      split: option.splits sum.splits prod.splits if_splits server_reply.splits) blast+

text \<open>A completion that the uploader took for a success stored the object.\<close>

lemma Close_stores:
  assumes c: "s3_upload_contract ops obj pending" and k: "codec_ok cc se"
    and env: "env = server_upload_env cc se ops s0 num is_done"
    and i: "in_step pending (store_of cc se ops s0 v) env v"
    and o: "\<not> closed v" and r: "response (snd (Close env v)) = None"
  shows "obj (store_of cc se ops s0 (snd (Close env v))) (key v) = Some (concat (accepted env v))"
proof -
  let ?s = "store_of cc se ops s0 v"
  obtain s1 where cm: "CompleteUpload ops (key v) (upload_id v) (parts v) ?s = (None, s1)"
    and st: "store_of cc se ops s0 (snd (Close env v)) = s1"
    using r o k unfolding env codec_ok_def
    by (auto simp: vcu_defs server_upload_env_def server_net_def handle_def
        CompleteMultipartUpload_def completeUpload_def
        split: sum.splits if_splits prod.splits option.splits server_reply.splits)
  show ?thesis
    using contract_complete [OF c cm] i st by (auto simp: in_step_def holds_parts_def)
qed

text \<open>The fields of an uploader that its operations never change.\<close>

definition same_target :: "vcu \<Rightarrow> vcu \<Rightarrow> bool" where
  "same_target v w \<longleftrightarrow> key w = key v \<and> upload_id w = upload_id v \<and> client_id w = client_id v \<and>
     session_id w = session_id v \<and> accessor w = accessor v \<and> path w = path v \<and>
     uploader_type w = uploader_type v"

lemma same_target_ops:
  "same_target v w \<Longrightarrow> same_target v (snd (Put env d w))"
  "same_target v w \<Longrightarrow> same_target v (Commit w)"
  "same_target v w \<Longrightarrow> same_target v (snd (Close env w))"
  by (auto simp: same_target_def vcu_defs split: sum.splits)

text \<open>
  C1. From the client's file to the object in the store: with the server's handlers over S3
  behind the HTTP client, when \<open>upload()\<close> answers with a path and the uploader recorded no
  error, the object under the key of the upload (built from the organisation of the token,
  the client, the flow, the accessor and the digest of the path's components) is the first
  ten gigabytes of the file.
\<close>

theorem client_upload_lands_in_store:
  assumes "s3_upload_contract ops obj pending" and "codec_ok cc se"
    and "reader_contract rd rest" and "0 < buff_size"
    and env: "env = server_upload_env cc se ops s0 num is_done"
    and "Upload env idx_env (\<lambda>en ty dst nm. New en encrypt cfg cid responder (Some dst) acc nm tms sz ty)
           sha256 md5 marshal idx_name buff_size ospath name rd sk None r = (Inr ans, i, Some u)"
    and "ur_Path ans \<noteq> []" and "response u = None"
  shows "obj (store_of cc se ops s0 u) (key u) = Some (take MAX_FILE_LENGTH (rest r)) \<and>
    (\<exists>org. key u = S3KeyForClientUpload (NormalizedOrgId se) (sha256_hex se) org
                     (upload_request_of u))"
proof -
  from Upload_run [OF assms(4,6,7)] obtain v b b1 r1
    where new: "New env encrypt cfg cid responder (Some (dest_of ospath name)) acc
        (dest_of ospath name) tms sz [] = Inr v"
      and cp: "bw_Copy (vcu_ops env) rd MAX_FILE_LENGTH (NewBufferWriter buff_size v) r = (None, b, r1)"
      and d: "bw_Close (vcu_ops env) b = (None, b1)"
      and u: "u = snd (Close env (bw_uploader b1))" by metis
  define J where "J w \<longleftrightarrow> in_step pending (store_of cc se ops s0 w) env w \<and> same_target v w" for w
  have put: "J w'" if "J w" and p: "Put env x w = (None, w')" for x w w'
    using that in_step_Put [OF assms(1,2) env _ p] same_target_ops(1) [of v w env x] by (simp add: J_def)
  have com: "J (Commit w)" if "J w" for w
    using that by (simp add: J_def log_Commit in_step_Commit same_target_ops(2))
  have J0: "J v"
    using New_Inr [OF new] by (simp add: J_def in_step_def same_target_def holds_parts_def)
  have puts: "uploader_puts (vcu_ops env) J"
    by unfold_locales (simp add: vcu_ops_def put)
  have Jb: "J (bw_uploader b)"
    by (rule uploader_puts.Copy_J [OF puts _ cp]) (simp add: NewBufferWriter_def J0)
  have open_b: "\<not> closed (bw_uploader b)"
    by (rule open_vcu.Copy_J [OF _ cp]) (simp add: NewBufferWriter_def New_Inr [OF new])
  obtain w where w: "J w" "\<not> closed w" "u = snd (Close env w)"
    using bw_Close_final [OF d open_b, of J] Jb put com u by metis
  have "accepted env w = accepted env u" using Close_accepted w(3) by simp
  moreover have "concat (accepted env u) = take MAX_FILE_LENGTH (rest r)"
    using Upload_data [OF assms(3,4) new cp d] u by simp
  moreover have t: "same_target v u" using w same_target_ops(3) by (simp add: J_def)
  moreover have "key w = key u" using w(1) t by (simp add: J_def same_target_def)
  ultimately have "obj (store_of cc se ops s0 u) (key u) = Some (take MAX_FILE_LENGTH (rest r))"
    using Close_stores [OF assms(1,2) env _ w(2)] w assms(8) by (simp add: J_def)
  moreover have "upload_request_of u = upload_request_of v" "key u = key v"
    using t by (simp_all add: same_target_def upload_request_of_def)
  ultimately show ?thesis using New_server [OF new [unfolded env] assms(2)] by simp
qed

section \<open>A run on a concrete codec\<close>

text \<open>Strings with a mark before every character and unary integers.\<close>

definition put_str :: "string \<Rightarrow> string" where
  "put_str s = concat (map (\<lambda>c. [CHR ''x'', c]) s) @ ''.''"

fun get_str :: "string \<Rightarrow> string \<times> string" where
  "get_str [] = ([], [])"
| "get_str (c # t) =
     (if c = CHR ''x'' then
        (case t of [] \<Rightarrow> ([], []) | d # u \<Rightarrow> (case get_str u of (s, r) \<Rightarrow> (d # s, r)))
      else ([], t))"

lemma get_put_str [simp]: "get_str (put_str s @ t) = (s, t)" "get_str (put_str s) = (s, [])"
  by (induction s) (auto simp: put_str_def)

fun get_strs :: "string \<Rightarrow> string \<Rightarrow> string list" where
  "get_strs [] t = []"
| "get_strs (c # n) t = (case get_str t of (s, r) \<Rightarrow> s # get_strs n r)"

definition put_list :: "string list \<Rightarrow> string" where
  "put_list ss = put_str (map (\<lambda>s. CHR ''1'') ss) @ concat (map put_str ss)"

definition get_list :: "string \<Rightarrow> string list" where
  "get_list t = (case get_str t of (n, r) \<Rightarrow> get_strs n r)"

lemma get_put_list [simp]: "get_list (put_list ss) = ss"
proof -
  have "get_strs (map (\<lambda>s. CHR ''1'') ss) (concat (map put_str ss)) = ss"
    by (induction ss) auto
  then show ?thesis by (simp add: get_list_def put_list_def)
qed

definition put_int :: "int \<Rightarrow> string" where
  "put_int i = (if i < 0 then CHR ''-'' else CHR ''+'') # replicate (nat \<bar>i\<bar>) (CHR ''1'')"

definition get_int :: "string \<Rightarrow> int" where
  "get_int t = (case t of [] \<Rightarrow> 0 | c # r \<Rightarrow> if c = CHR ''-'' then - int (length r) else int (length r))"

lemma get_put_int [simp]: "get_int (put_int i) = i"
  by (simp add: get_int_def put_int_def)

definition put_part :: "completed_part \<Rightarrow> string" where
  "put_part p = put_list [ETag p, put_int (PartNumber p)]"

definition get_part :: "string \<Rightarrow> completed_part" where
  "get_part t = (case get_list t of [a, b] \<Rightarrow> \<lparr>ETag = a, PartNumber = get_int b\<rparr>)"

lemma get_put_part [simp]: "get_part (put_part p) = p"
  by (simp add: get_part_def put_part_def Let_def)

definition sample_codec :: client_codec where
  "sample_codec =
     \<lparr>b64_encode = (\<lambda>x. x),
      enc_start = (\<lambda>u. put_list [UploadRequest_ClientId u, UploadRequest_SessionId u,
        UploadRequest_Accessor u, put_list (UploadRequest_Components u), UploadRequest_Type u]),
      enc_put = (\<lambda>u. put_list [Put_Key u, Put_UploadId u, put_int (Put_Part u)]),
      enc_completion = (\<lambda>u. put_list [Completion_Key u, Completion_UploadId u,
        put_list (map put_part (Completion_Parts u))]),
      dec_response = (\<lambda>t. case get_list t of [a, b] \<Rightarrow>
        Inr \<lparr>UploadResponse_Key = a, UploadResponse_UploadId = b\<rparr>),
      dec_part = (\<lambda>t. Inr (get_part t))\<rparr>"

definition sample_server :: server_env where
  "sample_server =
     \<lparr>b64_decode = Inr, Decrypt = Inr, OrgIdFromClientId = (\<lambda>c. ''O1''), NormalizedOrgId = (\<lambda>x. x),
      sha256_hex = (\<lambda>x. ''hash''),
      dec_start = (\<lambda>t. case get_list t of [a, b, c, d, e] \<Rightarrow>
        Inr \<lparr>UploadRequest_ClientId = a, UploadRequest_SessionId = b,
         UploadRequest_Accessor = c, UploadRequest_Components = get_list d,
         UploadRequest_Type = e\<rparr>),
      dec_put = (\<lambda>t. case get_list t of [a, b, c] \<Rightarrow>
        Inr \<lparr>Put_Key = a, Put_UploadId = b, Put_Part = get_int c\<rparr>),
      dec_completion = (\<lambda>t. case get_list t of [a, b, c] \<Rightarrow>
        Inr \<lparr>Completion_Key = a, Completion_UploadId = b,
         Completion_Parts = map get_part (get_list c)\<rparr>),
      enc_response = (\<lambda>u. put_list [UploadResponse_Key u, UploadResponse_UploadId u]),
      enc_part = put_part\<rparr>"

lemma sample_codec_ok: "codec_ok sample_codec sample_server"
  by (simp add: codec_ok_def sample_codec_def sample_server_def comp_def)

definition sample_upload :: "upload_result result \<times> vcu option \<times> vcu option" where
  "sample_upload =
     (let env = server_upload_env sample_codec sample_server mem_ops mem_empty 1 (\<lambda>h. False)
      in Upload env env demo_new (\<lambda>b. []) (\<lambda>b. []) (\<lambda>i. Inr []) (\<lambda>p. p) 2 demo_path None
           list_reader (\<lambda>off r. (None, r)) None [1, 2, 3])"

lemma sample_upload_run:
  "case sample_upload of
     (Inr ans, i, Some u) \<Rightarrow> ur_Path ans = ''/a'' \<and> response u = None | _ \<Rightarrow> False"
  by code_simp

theorem client_upload_lands_in_store_witness:
  "case sample_upload of
     (Inr ans, i, Some u) \<Rightarrow>
       fst (store_of sample_codec sample_server mem_ops mem_empty u) (key u) = Some [1, 2, 3]
   | _ \<Rightarrow> False"
proof -
  obtain ans i u where run: "sample_upload = (Inr ans, i, Some u)"
    and a: "ur_Path ans \<noteq> []" "response u = None"
  proof -
    obtain res i uo where run: "sample_upload = (res, i, uo)" by (metis prod.exhaust)
    show ?thesis
      using that [of _ i] sample_upload_run unfolding run by (cases res; cases uo) auto
  qed
  note up = run [unfolded sample_upload_def demo_new_def Let_def]
  show ?thesis
    using client_upload_lands_in_store [OF mem_upload_contract sample_codec_ok
        list_reader_contract _ refl up a]
    by (simp add: run MAX_FILE_LENGTH_def)
qed

section \<open>Access to the endpoints\<close>

text \<open>
  A request without a valid token never reaches the store: each of the three endpoints
  answers it with 403 and leaves the store as it is; and a request for a part of a negative
  number, or without a key or an upload id, is answered with 400, the store untouched.
\<close>

theorem upload_endpoints_guarded:
  "(\<forall>e. verifyToken se r = Inl e \<longrightarrow>
      StartMultipartUpload se ops r s = (Reply 403 [], s) \<and>
      CompleteMultipartUpload se ops r s = (Reply 403 [], s)) \<and>
   (\<forall>e. verifyToken se rb = Inl e \<longrightarrow> GetUploadPart se ops rb s = (Reply 403 [], s)) \<and>
   (\<forall>org q. verifyToken se rb = Inr org \<longrightarrow> extractUploadRequest se (sr_query rb) = Inr q \<longrightarrow>
      Put_Part q < 0 \<or> Put_UploadId q = [] \<or> Put_Key q = [] \<longrightarrow>
      GetUploadPart se ops rb s = (Reply 400 ''Invalid request'', s))"
  by (auto simp: StartMultipartUpload_def CompleteMultipartUpload_def GetUploadPart_def)

theorem upload_endpoints_guarded_witness:
  "GetUploadPart sample_server mem_ops \<lparr>sr_auth = [], sr_query = [], sr_body = Inr [1]\<rparr> mem_empty =
     (Reply 403 [], mem_empty)"
  using upload_endpoints_guarded [of sample_server "\<lparr>sr_auth = [], sr_query = [], sr_body = Inr []\<rparr>"
      mem_ops mem_empty "\<lparr>sr_auth = [], sr_query = [], sr_body = Inr [1]\<rparr>"]
  by (simp add: verifyToken_def)

end
