(* ===== verification/Json.thy ===== *)
theory Json
  imports Prelude "HOL-Library.Char_ord" "HOL-Library.List_Lexorder"
begin

text \<open>
  JSON documents. The program exchanges JSON with its data store and keeps raw messages
  until it decodes them into its types; a document is modelled by its structure, so that
  decoding is reading fields. \<open>ordereddict.Dict\<close> keeps the order of the keys, hence the
  association list. The sort keys of the store are ordered values of a document.
\<close>

section \<open>Documents\<close>

datatype json =
    JNull
  | JBool bool
  | JInt int
  | JStr string
  | JList "json list"
  | JObj "(string \<times> json) list"

text \<open>\<open>dict.Get(field)\<close>.\<close>

fun jget :: "string \<Rightarrow> json \<Rightarrow> json option" where
  "jget f (JObj kvs) = map_of kvs f"
| "jget f _ = None"

text \<open>
  \<open>dict.Set(field, value)\<close>: in place when the key is there, at the end otherwise;
  \<open>dict.Delete(field)\<close>.
\<close>

fun kv_set :: "string \<Rightarrow> json \<Rightarrow> (string \<times> json) list \<Rightarrow> (string \<times> json) list" where
  "kv_set f v [] = [(f, v)]"
| "kv_set f v ((k, w) # kvs) = (if k = f then (k, v) # kvs else (k, w) # kv_set f v kvs)"

definition kv_del :: "string \<Rightarrow> (string \<times> json) list \<Rightarrow> (string \<times> json) list" where
  "kv_del f kvs = filter (\<lambda>(k, v). k \<noteq> f) kvs"

lemma map_of_kv_set: "map_of (kv_set f v kvs) = (map_of kvs)(f \<mapsto> v)"
  by (induction kvs) auto

lemma map_of_kv_del: "map_of (kv_del f kvs) = (map_of kvs)(f := None)"
  by (induction kvs) (auto simp: kv_del_def)

section \<open>Decoding into the program's types\<close>

text \<open>
  \<open>json.Unmarshal\<close> into a field of a struct: an absent or null field leaves the zero value,
  a value of the wrong type is an error.
\<close>

definition type_error :: "string \<Rightarrow> go_error" where
  "type_error f = Err (''json: cannot unmarshal field '' @ f)"

definition get_str :: "string \<Rightarrow> json \<Rightarrow> string result" where
  "get_str f j = (case jget f j of None \<Rightarrow> Inr [] | Some JNull \<Rightarrow> Inr [] | Some (JStr s) \<Rightarrow> Inr s
                  | Some v \<Rightarrow> Inl (type_error f))"

definition get_int :: "string \<Rightarrow> json \<Rightarrow> int result" where
  "get_int f j = (case jget f j of None \<Rightarrow> Inr 0 | Some JNull \<Rightarrow> Inr 0 | Some (JInt i) \<Rightarrow> Inr i
                  | Some v \<Rightarrow> Inl (type_error f))"

definition get_bool :: "string \<Rightarrow> json \<Rightarrow> bool result" where
  "get_bool f j = (case jget f j of None \<Rightarrow> Inr False | Some JNull \<Rightarrow> Inr False
                   | Some (JBool b) \<Rightarrow> Inr b | Some v \<Rightarrow> Inl (type_error f))"

definition get_raw :: "string \<Rightarrow> json \<Rightarrow> json" where
  "get_raw f j = (case jget f j of None \<Rightarrow> JNull | Some v \<Rightarrow> v)"

definition get_list :: "string \<Rightarrow> json \<Rightarrow> json list result" where
  "get_list f j = (case jget f j of None \<Rightarrow> Inr [] | Some JNull \<Rightarrow> Inr [] | Some (JList l) \<Rightarrow> Inr l
                   | Some v \<Rightarrow> Inl (type_error f))"

text \<open>Decoding all elements of a list, with the first error.\<close>

fun decode_all :: "(json \<Rightarrow> 'a result) \<Rightarrow> json list \<Rightarrow> 'a list result" where
  "decode_all d [] = Inr []"
| "decode_all d (j # js) =
     (case d j of Inl e \<Rightarrow> Inl e
      | Inr a \<Rightarrow> (case decode_all d js of Inl e \<Rightarrow> Inl e | Inr l \<Rightarrow> Inr (a # l)))"

definition decode_str :: "json \<Rightarrow> string result" where
  "decode_str j = (case j of JStr s \<Rightarrow> Inr s | JNull \<Rightarrow> Inr [] | _ \<Rightarrow> Inl (type_error []))"

definition get_strs :: "string \<Rightarrow> json \<Rightarrow> string list result" where
  "get_strs f j = (case get_list f j of Inl e \<Rightarrow> Inl e | Inr l \<Rightarrow> decode_all decode_str l)"

definition jstrs :: "string list \<Rightarrow> json" where
  "jstrs l = JList (map JStr l)"

lemma decode_all_map:
  "(\<And>x. x \<in> set l \<Longrightarrow> d (e x) = Inr x) \<Longrightarrow> decode_all d (map e l) = Inr l"
  by (induction l) auto

lemma decode_jstrs [simp]: "decode_all decode_str (map JStr l) = Inr l"
  by (rule decode_all_map) (simp add: decode_str_def)

lemma decode_all_length: "decode_all d js = Inr l \<Longrightarrow> length l = length js"
  by (induction js arbitrary: l) (auto split: sum.splits)

text \<open>Sequencing of decoders.\<close>

definition bindR :: "'a result \<Rightarrow> ('a \<Rightarrow> 'b result) \<Rightarrow> 'b result" where
  "bindR r f = (case r of Inl e \<Rightarrow> Inl e | Inr a \<Rightarrow> f a)"

lemma bindR_simps [simp]: "bindR (Inl e) f = Inl e" "bindR (Inr a) f = f a"
  by (simp_all add: bindR_def)

lemma bindR_Inr_iff: "bindR r f = Inr b \<longleftrightarrow> (\<exists>a. r = Inr a \<and> f a = Inr b)"
  by (cases r) auto

section \<open>Sort keys\<close>

text \<open>
  The value a document is sorted by: integers below strings, documents without the field
  last. The order is a linear order, so the library's sorting applies.
\<close>

datatype jkey = KInt int | KStr string | KMissing

fun jkey_of :: "json option \<Rightarrow> jkey" where
  "jkey_of (Some (JInt i)) = KInt i"
| "jkey_of (Some (JStr s)) = KStr s"
| "jkey_of _ = KMissing"

fun jkey_json :: "jkey \<Rightarrow> json" where
  "jkey_json (KInt i) = JInt i"
| "jkey_json (KStr s) = JStr s"
| "jkey_json KMissing = JNull"

instantiation jkey :: linorder
begin

fun less_eq_jkey :: "jkey \<Rightarrow> jkey \<Rightarrow> bool" where
  "less_eq_jkey (KInt a) (KInt b) = (a \<le> b)"
| "less_eq_jkey (KInt a) _ = True"
| "less_eq_jkey (KStr a) (KInt b) = False"
| "less_eq_jkey (KStr a) (KStr b) = (a \<le> b)"
| "less_eq_jkey (KStr a) KMissing = True"
| "less_eq_jkey KMissing KMissing = True"
| "less_eq_jkey KMissing _ = False"

definition less_jkey :: "jkey \<Rightarrow> jkey \<Rightarrow> bool" where
  "less_jkey a b \<longleftrightarrow> a \<le> b \<and> \<not> b \<le> (a :: jkey)"

instance
proof
  fix x y z :: jkey
  show "(x < y) = (x \<le> y \<and> \<not> y \<le> x)" by (simp add: less_jkey_def)
  show "x \<le> x" by (cases x) auto
  show "x \<le> y \<or> y \<le> x" by (cases x; cases y) auto
  show "x \<le> y \<Longrightarrow> y \<le> z \<Longrightarrow> x \<le> z" by (cases x; cases y; cases z) auto
  show "x \<le> y \<Longrightarrow> y \<le> x \<Longrightarrow> x = y" by (cases x; cases y) auto
qed

end

end
