(* ===== verification/Elastic.thy ===== *)
theory Elastic
  imports Json "HOL-Library.Multiset"
begin

text \<open>
  The access layer to the OpenSearch store (\<open>services/elasticsearch.go\<close>, \<open>services/retry.go\<close>):
  the choice of the cluster, document reads and writes, searches and paging. The cluster is
  a parameter: its operations over a state of its own, with the documented meaning of a
  search stated separately.
\<close>

section \<open>Search requests\<close>

text \<open>
  The requests the program builds with \<open>json.Format\<close>, as data: the query clauses it uses, one
  sort column with its direction (\<open>True\<close> is descending), and the paging fields.
\<close>

datatype rel = Gt | Gte | Lt | Lte

datatype clause =
    MatchAll
  | Match string json
  | Terms string "string list"
  | Prefix string string
  | Range string rel int
  | Exists string
  | Must "clause list"
  | Should "clause list"
  | MustNot clause
  | PrefixCI string string

record search_req =
  sq_query :: clause
  sq_sort :: "(string \<times> bool) option"
  sq_from :: "nat option"
  sq_size :: "nat option"
  sq_search_after :: "jkey option"
  sq_source :: bool
  sq_agg :: "string option"

definition query_of :: "clause \<Rightarrow> search_req" where
  "query_of c = \<lparr>sq_query = c, sq_sort = None, sq_from = None, sq_size = None,
     sq_search_after = None, sq_source = True, sq_agg = None\<rparr>"

text \<open>
  An update is a script on the document, \<open>None\<close> where it throws, with an optional document to
  insert.
\<close>

record update_req =
  up_script :: "json \<Rightarrow> json option"
  up_upsert :: "json option"

section \<open>The cluster\<close>

text \<open>
  A reply after its body was read: an error of the request and an error of reading the body
  take the same early return. \<open>rp_json\<close> is the body when it parses as JSON.
\<close>

record os_reply =
  rp_IsError :: bool
  rp_text :: string
  rp_json :: "json option"

datatype cluster = PrimaryOpenSearch | SecondaryOpenSearch | OtherCluster int

record bulk_item =
  bi_Index :: string
  bi_Action :: string
  bi_DocumentID :: string
  bi_Body :: json

text \<open>
  The package state (the clients that were set, the primary organisations) and the
  operations of the client library.
\<close>

record 's elastic =
  elasticClients :: "cluster list"
  primary_orgs :: "string list"
  os_CatIndices :: "cluster \<Rightarrow> 's \<Rightarrow> os_reply result"
  os_Get :: "cluster \<Rightarrow> string \<Rightarrow> string \<Rightarrow> 's \<Rightarrow> os_reply result"
  os_Mget :: "cluster \<Rightarrow> string \<Rightarrow> string list \<Rightarrow> 's \<Rightarrow> os_reply result"
  os_Search :: "cluster \<Rightarrow> string \<Rightarrow> search_req \<Rightarrow> 's \<Rightarrow> os_reply result"
  os_Count :: "cluster \<Rightarrow> string \<Rightarrow> search_req \<Rightarrow> 's \<Rightarrow> os_reply result"
  os_Index :: "cluster \<Rightarrow> string \<Rightarrow> string \<Rightarrow> json \<Rightarrow> 's \<Rightarrow> os_reply result \<times> 's"
  os_Update :: "cluster \<Rightarrow> string \<Rightarrow> string \<Rightarrow> update_req \<Rightarrow> 's \<Rightarrow> os_reply result \<times> 's"
  os_Delete :: "cluster \<Rightarrow> string \<Rightarrow> string \<Rightarrow> 's \<Rightarrow> os_reply result \<times> 's"
  os_DeleteByQuery :: "cluster \<Rightarrow> string \<Rightarrow> search_req \<Rightarrow> 's \<Rightarrow> os_reply result \<times> 's"
  os_Refresh :: "cluster \<Rightarrow> string list \<Rightarrow> 's \<Rightarrow> os_reply result \<times> 's"
  os_ExistsTemplate :: "cluster \<Rightarrow> string \<Rightarrow> 's \<Rightarrow> os_reply result"
  os_PutTemplate :: "cluster \<Rightarrow> string \<Rightarrow> json \<Rightarrow> 's \<Rightarrow> os_reply result \<times> 's"
  os_BulkNew :: "cluster \<Rightarrow> 's \<Rightarrow> go_error option \<times> 's"
  os_BulkAdd :: "bulk_item \<Rightarrow> 's \<Rightarrow> go_error option \<times> 's"
  os_BulkClose :: "'s \<Rightarrow> go_error option \<times> 's"

definition ElasticConfigurationNotInitializedError :: go_error where
  "ElasticConfigurationNotInitializedError = Err ''Elastic configuration not initialized''"

definition GetElasticClientByType :: "('s, 'z) elastic_scheme \<Rightarrow> cluster \<Rightarrow> cluster result" where
  "GetElasticClientByType es ty =
     (case ty of
        PrimaryOpenSearch \<Rightarrow>
          (if PrimaryOpenSearch \<in> set (elasticClients es) then Inr PrimaryOpenSearch
           else Inl ElasticConfigurationNotInitializedError)
      | SecondaryOpenSearch \<Rightarrow>
          (if SecondaryOpenSearch \<in> set (elasticClients es) then Inr SecondaryOpenSearch
           else Inl ElasticConfigurationNotInitializedError)
      | OtherCluster n \<Rightarrow> Inl (Err ''invalid opensearch client instance type''))"

definition GetElasticClient :: "('s, 'z) elastic_scheme \<Rightarrow> string \<Rightarrow> cluster result" where
  "GetElasticClient es org_id =
     (if primary_orgs es = [] \<or> org_id \<in> set (primary_orgs es) then
        (if PrimaryOpenSearch \<in> set (elasticClients es) then Inr PrimaryOpenSearch
         else Inl ElasticConfigurationNotInitializedError)
      else
        (if SecondaryOpenSearch \<in> set (elasticClients es) then Inr SecondaryOpenSearch
         else Inl ElasticConfigurationNotInitializedError))"

definition SetElasticClient :: "cluster \<Rightarrow> ('s, 'z) elastic_scheme \<Rightarrow> ('s, 'z) elastic_scheme" where
  "SetElasticClient c es = es\<lparr>elasticClients := append_new (elasticClients es) c\<rparr>"

text \<open>
  The start of the service. \<open>create\<close> is \<open>createOpenSearchClientFromConfig\<close> on the two address
  lists; the secondary one is nil when it is not configured.
\<close>

definition StartElasticSearchService ::
  "(string list \<Rightarrow> go_error option) \<Rightarrow> string list \<Rightarrow> string list \<Rightarrow> string list option
     \<Rightarrow> ('s, 'z) elastic_scheme \<Rightarrow> go_error option \<times> ('s, 'z) elastic_scheme" where
  "StartElasticSearchService create PrimaryOrgs Addresses SecondaryAddresses es =
     (let es1 = es\<lparr>primary_orgs := PrimaryOrgs\<rparr>
      in case create Addresses of
           Some e \<Rightarrow> (Some e, es1)
         | None \<Rightarrow>
             (let es2 = SetElasticClient PrimaryOpenSearch es1
              in case SecondaryAddresses of
                   None \<Rightarrow> (None, es2)
                 | Some addrs \<Rightarrow>
                     (case create addrs of
                        Some e \<Rightarrow> (Some e, es2)
                      | None \<Rightarrow> (None, SetElasticClient SecondaryOpenSearch es2))))"

definition GetIndex :: "string \<Rightarrow> string \<Rightarrow> string" where
  "GetIndex org_id idx =
     (let org = (if org_id = ''root'' then [] else org_id)
      in if org = [] then idx else ToLower org @ ''_'' @ idx)"

section \<open>Errors of the store\<close>

text \<open>\<open>utils.GetString(response, "error.type")\<close>.\<close>

definition error_type :: "json \<Rightarrow> string" where
  "error_type j =
     (case jget ''error'' j of
        Some e \<Rightarrow> (case jget ''type'' e of Some (JStr s) \<Rightarrow> s | _ \<Rightarrow> [])
      | None \<Rightarrow> [])"

text \<open>Parsing into a dict succeeds on JSON objects only.\<close>

definition as_dict :: "os_reply \<Rightarrow> json option" where
  "as_dict r = (case rp_json r of Some (JObj kvs) \<Rightarrow> Some (JObj kvs) | _ \<Rightarrow> None)"

definition makeElasticError :: "os_reply \<Rightarrow> go_error" where
  "makeElasticError r = Err (''Elastic Error: '' @ rp_text r)"

text \<open>A missing index is not an error when reading.\<close>

definition makeReadElasticError :: "os_reply \<Rightarrow> go_error option" where
  "makeReadElasticError r =
     (case as_dict r of
        None \<Rightarrow> Some (Err (''Elastic Error: '' @ rp_text r))
      | Some d \<Rightarrow> if error_type d = ''index_not_found_exception'' then None
                  else Some (Err (''Elastic Error: '' @ rp_text r)))"

text \<open>The \<open>found\<close> field of the reply, when it is a boolean.\<close>

definition not_found :: "json \<Rightarrow> bool" where
  "not_found d = (jget ''found'' d = Some (JBool False))"

section \<open>Replies\<close>

record elastic_hit =
  hit_Source :: json
  hit_Id :: string

record elastic_response =
  er_Hits :: "elastic_hit list"
  er_Total :: int
  er_Buckets :: "json list"
  er_Value :: json

definition decode_hit :: "json \<Rightarrow> elastic_hit result" where
  "decode_hit j = bindR (get_str ''_id'' j) (\<lambda>i. Inr \<lparr>hit_Source = get_raw ''_source'' j, hit_Id = i\<rparr>)"

definition decode_response :: "json option \<Rightarrow> elastic_response result" where
  "decode_response body =
     (case body of
        None \<Rightarrow> Inl (Err ''invalid JSON'')
      | Some j \<Rightarrow>
          bindR (get_list ''hits'' (get_raw ''hits'' j)) (\<lambda>hs.
          bindR (decode_all decode_hit hs) (\<lambda>hits.
          bindR (get_int ''value'' (get_raw ''total'' (get_raw ''hits'' j))) (\<lambda>tot.
          bindR (get_list ''buckets'' (get_raw ''genres'' (get_raw ''aggregations'' j))) (\<lambda>bs.
          Inr \<lparr>er_Hits = hits, er_Total = tot, er_Buckets = map (get_raw ''key'') bs,
               er_Value = get_raw ''value'' (get_raw ''genres'' (get_raw ''aggregations'' j))\<rparr>)))))"

section \<open>Documents\<close>

text \<open>
  \<open>GetElasticRecordByQuery\<close>; \<open>Inr None\<close> is the nil message with a nil error.
\<close>

definition GetElasticRecordByQuery ::
  "('s, 'z) elastic_scheme \<Rightarrow> string \<Rightarrow> string \<Rightarrow> search_req \<Rightarrow> 's \<Rightarrow> json option result" where
  "GetElasticRecordByQuery es org_id idx query s =
     bindR (GetElasticClient es org_id) (\<lambda>client.
     bindR (os_Search es client (GetIndex org_id idx) query s) (\<lambda>res.
       if \<not> rp_IsError res then
         bindR (decode_response (rp_json res)) (\<lambda>hit.
           if er_Total hit > 0 then
             (case er_Hits hit of [] \<Rightarrow> Inl NilDereference | h # _ \<Rightarrow> Inr (Some (hit_Source h)))
           else Inr None)
       else case as_dict res of
              None \<Rightarrow> (case makeReadElasticError res of Some e \<Rightarrow> Inl e | None \<Rightarrow> Inr None)
            | Some d \<Rightarrow>
                if not_found d then Inl ErrNotExist
                else (case makeReadElasticError res of Some e \<Rightarrow> Inl e | None \<Rightarrow> Inr None)))"

definition GetElasticRecord ::
  "('s, 'z) elastic_scheme \<Rightarrow> string \<Rightarrow> string \<Rightarrow> string \<Rightarrow> 's \<Rightarrow> json result" where
  "GetElasticRecord es org_id idx i s =
     bindR (GetElasticClient es org_id) (\<lambda>client.
     bindR (os_Get es client (GetIndex org_id idx) i s) (\<lambda>res.
       if \<not> rp_IsError res then
         (case rp_json res of
            None \<Rightarrow> Inl (Err ''invalid JSON'')
          | Some j \<Rightarrow> bindR (decode_hit j) (\<lambda>h. Inr (hit_Source h)))
       else case as_dict res of
              None \<Rightarrow> Inl (Err (''Elastic Error: '' @ rp_text res))
            | Some d \<Rightarrow>
                if not_found d then Inl ErrNotExist
                else (case makeReadElasticError res of
                        None \<Rightarrow> Inl ErrNotExist
                      | Some e \<Rightarrow> Inl e)))"

definition GetMultipleElasticRecords ::
  "('s, 'z) elastic_scheme \<Rightarrow> string \<Rightarrow> string \<Rightarrow> string list \<Rightarrow> 's \<Rightarrow> json list result" where
  "GetMultipleElasticRecords es org_id idx ids s =
     (if ids = [] then Inr []
      else
        bindR (GetElasticClient es org_id) (\<lambda>client.
        bindR (os_Mget es client (GetIndex org_id idx) ids s) (\<lambda>res.
          if \<not> rp_IsError res then
            (case rp_json res of
               None \<Rightarrow> Inl (Err ''invalid JSON'')
             | Some j \<Rightarrow>
                 bindR (get_list ''docs'' j) (\<lambda>ds.
                 bindR (decode_all decode_hit ds) (\<lambda>hits. Inr (map hit_Source hits))))
          else case as_dict res of
                 None \<Rightarrow> (case makeReadElasticError res of Some e \<Rightarrow> Inl e | None \<Rightarrow> Inr [])
               | Some d \<Rightarrow>
                   if not_found d then Inl ErrNotExist
                   else (case makeReadElasticError res of Some e \<Rightarrow> Inl e | None \<Rightarrow> Inr []))))"

text \<open>
  The retry loop of writes: at most ten calls, repeated only when the error text contains
  "version conflict"; the pauses between the calls are left out.
\<close>

fun retry_from :: "nat \<Rightarrow> go_error option \<Rightarrow> ('s \<Rightarrow> go_error option \<times> 's) \<Rightarrow> 's \<Rightarrow> go_error option \<times> 's"
where
  "retry_from 0 err cb s = (err, s)"
| "retry_from (Suc n) err cb s =
     (case cb s of
        (None, s1) \<Rightarrow> (None, s1)
      | (Some e, s1) \<Rightarrow>
          if \<not> Contains (err_text e) ''version conflict'' then (Some e, s1)
          else retry_from n (Some e) cb s1)"

definition retry :: "('s \<Rightarrow> go_error option \<times> 's) \<Rightarrow> 's \<Rightarrow> go_error option \<times> 's" where
  "retry cb s = retry_from 10 None cb s"

text \<open>The outcome of a write from its reply.\<close>

definition write_outcome :: "os_reply result \<times> 's \<Rightarrow> go_error option \<times> 's" where
  "write_outcome p =
     (case p of
        (Inl e, s) \<Rightarrow> (Some e, s)
      | (Inr res, s) \<Rightarrow> (if \<not> rp_IsError res then (None, s) else (Some (makeElasticError res), s)))"

definition UpdateIndex_once ::
  "('s, 'z) elastic_scheme \<Rightarrow> string \<Rightarrow> string \<Rightarrow> string \<Rightarrow> update_req \<Rightarrow> 's \<Rightarrow> go_error option \<times> 's"
where
  "UpdateIndex_once es org_id idx i query s =
     (case GetElasticClient es org_id of
        Inl e \<Rightarrow> (Some e, s)
      | Inr client \<Rightarrow> write_outcome (os_Update es client (GetIndex org_id idx) i query s))"

definition UpdateIndex ::
  "('s, 'z) elastic_scheme \<Rightarrow> string \<Rightarrow> string \<Rightarrow> string \<Rightarrow> update_req \<Rightarrow> 's \<Rightarrow> go_error option \<times> 's"
where
  "UpdateIndex es org_id idx i query s = retry (UpdateIndex_once es org_id idx i query) s"

definition SetElasticIndex_once ::
  "('s, 'z) elastic_scheme \<Rightarrow> string \<Rightarrow> string \<Rightarrow> string \<Rightarrow> json \<Rightarrow> 's \<Rightarrow> go_error option \<times> 's" where
  "SetElasticIndex_once es org_id idx i rec s =
     (case GetElasticClient es org_id of
        Inl e \<Rightarrow> (Some e, s)
      | Inr client \<Rightarrow> write_outcome (os_Index es client (GetIndex org_id idx) i rec s))"

definition SetElasticIndex ::
  "('s, 'z) elastic_scheme \<Rightarrow> string \<Rightarrow> string \<Rightarrow> string \<Rightarrow> json \<Rightarrow> 's \<Rightarrow> go_error option \<times> 's" where
  "SetElasticIndex es org_id idx i rec s = retry (SetElasticIndex_once es org_id idx i rec) s"

text \<open>
  A synchronous delete refreshes the index; the deferred close of the refresh reply reads the
  reply of a failed refresh, which is nil.
\<close>

definition sync_refresh ::
  "('s, 'z) elastic_scheme \<Rightarrow> cluster \<Rightarrow> string \<Rightarrow> bool \<Rightarrow> 's \<Rightarrow> go_error option \<times> 's" where
  "sync_refresh es client idx sync s =
     (if sync then
        (case os_Refresh es client [idx] s of
           (Inl e, s1) \<Rightarrow> (Some NilDereference, s1)
         | (Inr r, s1) \<Rightarrow> (None, s1))
      else (None, s))"

definition DeleteDocument ::
  "('s, 'z) elastic_scheme \<Rightarrow> string \<Rightarrow> string \<Rightarrow> string \<Rightarrow> bool \<Rightarrow> 's \<Rightarrow> go_error option \<times> 's" where
  "DeleteDocument es org_id idx i sync s =
     (case GetElasticClient es org_id of
        Inl e \<Rightarrow> (Some e, s)
      | Inr client \<Rightarrow>
          (case os_Delete es client (GetIndex org_id idx) i s of
             (Inl e, s1) \<Rightarrow> (Some e, s1)
           | (Inr r, s1) \<Rightarrow> sync_refresh es client (GetIndex org_id idx) sync s1))"

definition DeleteDocumentByQuery ::
  "('s, 'z) elastic_scheme \<Rightarrow> string \<Rightarrow> string \<Rightarrow> search_req \<Rightarrow> bool \<Rightarrow> 's \<Rightarrow> go_error option \<times> 's"
where
  "DeleteDocumentByQuery es org_id idx query sync s =
     (case GetElasticClient es org_id of
        Inl e \<Rightarrow> (Some e, s)
      | Inr client \<Rightarrow>
          (case os_DeleteByQuery es client (GetIndex org_id idx) query s of
             (Inl e, s1) \<Rightarrow> (Some e, s1)
           | (Inr r, s1) \<Rightarrow> sync_refresh es client (GetIndex org_id idx) sync s1))"

definition DeleteByQuery ::
  "('s, 'z) elastic_scheme \<Rightarrow> string \<Rightarrow> string \<Rightarrow> search_req \<Rightarrow> 's \<Rightarrow> go_error option \<times> 's" where
  "DeleteByQuery es org_id idx query s =
     (case GetElasticClient es org_id of
        Inl e \<Rightarrow> (Some e, s)
      | Inr client \<Rightarrow>
          (case os_DeleteByQuery es client (GetIndex org_id idx) query s of
             (Inl e, s1) \<Rightarrow> (Some e, s1)
           | (Inr res, s1) \<Rightarrow>
               (if \<not> rp_IsError res then (None, s1) else (makeReadElasticError res, s1))))"

definition FlushIndex :: "('s, 'z) elastic_scheme \<Rightarrow> string \<Rightarrow> string \<Rightarrow> 's \<Rightarrow> go_error option \<times> 's" where
  "FlushIndex es org_id idx s =
     (case GetElasticClient es org_id of
        Inl e \<Rightarrow> (Some e, s)
      | Inr client \<Rightarrow>
          (case os_Refresh es client [GetIndex org_id idx] s of
             (Inl e, s1) \<Rightarrow> (Some e, s1)
           | (Inr r, s1) \<Rightarrow> (None, s1)))"

section \<open>Searches\<close>

text \<open>The part the four searches share: client, request, error reply, decoding.\<close>

definition run_search ::
  "('s, 'z) elastic_scheme \<Rightarrow> string \<Rightarrow> string \<Rightarrow> search_req \<Rightarrow> 's \<Rightarrow> elastic_response option result"
where
  "run_search es org_id idx query s =
     bindR (GetElasticClient es org_id) (\<lambda>client.
     bindR (os_Search es client (GetIndex org_id idx) query s) (\<lambda>res.
       if rp_IsError res then
         (case makeReadElasticError res of Some e \<Rightarrow> Inl e | None \<Rightarrow> Inr None)
       else (case decode_response (rp_json res) of
               Inl e \<Rightarrow> (case makeReadElasticError res of Some e' \<Rightarrow> Inl e' | None \<Rightarrow> Inr None)
             | Inr parsed \<Rightarrow> Inr (Some parsed))))"

definition QueryElasticRaw ::
  "('s, 'z) elastic_scheme \<Rightarrow> string \<Rightarrow> string \<Rightarrow> search_req \<Rightarrow> 's \<Rightarrow> (json list \<times> int) result" where
  "QueryElasticRaw es org_id idx query s =
     bindR (run_search es org_id idx query s) (\<lambda>r.
       Inr (case r of None \<Rightarrow> ([], 0) | Some parsed \<Rightarrow> (map hit_Source (er_Hits parsed), er_Total parsed)))"

definition QueryElasticIds ::
  "('s, 'z) elastic_scheme \<Rightarrow> string \<Rightarrow> string \<Rightarrow> search_req \<Rightarrow> 's \<Rightarrow> (string list \<times> int) result" where
  "QueryElasticIds es org_id idx query s =
     bindR (run_search es org_id idx query s) (\<lambda>r.
       Inr (case r of None \<Rightarrow> ([], 0) | Some parsed \<Rightarrow> (map hit_Id (er_Hits parsed), er_Total parsed)))"

definition QueryElastic ::
  "('s, 'z) elastic_scheme \<Rightarrow> string \<Rightarrow> string \<Rightarrow> search_req \<Rightarrow> 's \<Rightarrow> elastic_hit list result" where
  "QueryElastic es org_id idx query s =
     bindR (run_search es org_id idx query s) (\<lambda>r.
       Inr (case r of None \<Rightarrow> [] | Some parsed \<Rightarrow> er_Hits parsed))"

text \<open>\<open>to_string\<close>: a string as it is, anything else as its JSON text, which is a parameter.\<close>

definition to_string :: "(json \<Rightarrow> string) \<Rightarrow> json \<Rightarrow> string" where
  "to_string marshal j = (case j of JStr s \<Rightarrow> s | _ \<Rightarrow> marshal j)"

definition QueryElasticAggregations ::
  "('s, 'z) elastic_scheme \<Rightarrow> (json \<Rightarrow> string) \<Rightarrow> string \<Rightarrow> string \<Rightarrow> search_req \<Rightarrow> 's \<Rightarrow> string list result"
where
  "QueryElasticAggregations es marshal org_id idx query s =
     bindR (run_search es org_id idx query s) (\<lambda>r.
       Inr (case r of
              None \<Rightarrow> []
            | Some parsed \<Rightarrow>
                (if er_Value parsed \<noteq> JNull then [to_string marshal (er_Value parsed)]
                 else map (to_string marshal) (er_Buckets parsed))))"

definition QueryCountAPI ::
  "('s, 'z) elastic_scheme \<Rightarrow> string \<Rightarrow> string \<Rightarrow> search_req \<Rightarrow> 's \<Rightarrow> int result" where
  "QueryCountAPI es org_id idx query s =
     bindR (GetElasticClient es org_id) (\<lambda>client.
     bindR (os_Count es client (GetIndex org_id idx) query s) (\<lambda>res.
       if rp_IsError res then
         (case makeReadElasticError res of Some e \<Rightarrow> Inl e | None \<Rightarrow> Inr 0)
       else (case (case rp_json res of None \<Rightarrow> Inl (Err ''invalid JSON'') | Some j \<Rightarrow> get_int ''count'' j) of
               Inl e \<Rightarrow> (case makeReadElasticError res of Some e' \<Rightarrow> Inl e' | None \<Rightarrow> Inr 0)
             | Inr n \<Rightarrow> Inr n)))"

section \<open>QueryChan\<close>

text \<open>
  The rows put on the channel, in order, when the reader of the channel takes them all. The
  first page is sorted in the direction of the sort field (a leading \<open>'>'\<close> is descending);
  the next pages are asked for with \<open>"asc"\<close>. The store can change between pages, so the state
  of the store is a function of the page number. The loop runs while pages are full: it is
  given fuel, one unit for each page.
\<close>

fun chan_pages ::
  "('s, 'z) elastic_scheme \<Rightarrow> nat \<Rightarrow> nat \<Rightarrow> string \<Rightarrow> string \<Rightarrow> search_req \<Rightarrow> string \<Rightarrow> (nat \<Rightarrow> 's)
     \<Rightarrow> nat \<Rightarrow> json list \<Rightarrow> json list" where
  "chan_pages es 0 page_size org_id idx query sort_field st n part = []"
| "chan_pages es (Suc fuel) page_size org_id idx query sort_field st n part =
     (if part = [] then []
      else case (case last part of JObj kvs \<Rightarrow> map_of kvs sort_field | _ \<Rightarrow> None) of
             None \<Rightarrow> part
           | Some search_after \<Rightarrow>
               if length part < page_size then part
               else (case QueryElasticRaw es org_id idx
                            (query\<lparr>sq_sort := Some (sort_field, False), sq_size := Some page_size,
                               sq_search_after := Some (jkey_of (Some search_after))\<rparr>) (st n) of
                       Inl e \<Rightarrow> part
                     | Inr (next, tot) \<Rightarrow>
                         part @ chan_pages es fuel page_size org_id idx query sort_field st (Suc n) next))"

definition QueryChan ::
  "('s, 'z) elastic_scheme \<Rightarrow> nat \<Rightarrow> nat \<Rightarrow> string \<Rightarrow> string \<Rightarrow> search_req \<Rightarrow> string \<Rightarrow> (nat \<Rightarrow> 's)
     \<Rightarrow> json list result" where
  "QueryChan es fuel page_size org_id idx query sort_field st =
     (let (field, first) =
        (if sort_field \<noteq> [] then
           (let desc = hd sort_field = CHR ''>'';
                field = (if desc then tl sort_field else sort_field)
            in (field, query\<lparr>sq_sort := Some (field, desc), sq_size := Some page_size\<rparr>))
         else (sort_field, query\<lparr>sq_size := Some page_size\<rparr>))
      in bindR (QueryElasticRaw es org_id idx first (st 0)) (\<lambda>(part, tot).
           Inr (chan_pages es fuel page_size org_id idx query field st 1 part)))"

section \<open>Indexes and templates\<close>

definition listIndexes :: "('s, 'z) elastic_scheme \<Rightarrow> cluster \<Rightarrow> 's \<Rightarrow> string list result" where
  "listIndexes es client s =
     bindR (os_CatIndices es client s) (\<lambda>res.
       case rp_json res of
         Some (JList l) \<Rightarrow>
           bindR (decode_all (get_str ''index'') l) (\<lambda>names.
             Inr (foldl (\<lambda>acc i. acc @ [i]) (replicate (length names) []) names))
       | _ \<Rightarrow> Inl (Err ''invalid JSON''))"

text \<open>The clients are a Go map: \<open>order\<close> is the order of its iteration.\<close>

fun ListIndexes :: "('s, 'z) elastic_scheme \<Rightarrow> cluster list \<Rightarrow> 's \<Rightarrow> string list result" where
  "ListIndexes es [] s = Inr []"
| "ListIndexes es (c # order) s =
     bindR (listIndexes es c s) (\<lambda>l. bindR (ListIndexes es order s) (\<lambda>r. Inr (l @ r)))"

text \<open>
  Both template calls close the body of the reply before they look at the error: a failed
  request has no reply.
\<close>

definition doesTemplateExist :: "('s, 'z) elastic_scheme \<Rightarrow> cluster \<Rightarrow> string \<Rightarrow> 's \<Rightarrow> go_error option" where
  "doesTemplateExist es client name s =
     (case os_ExistsTemplate es client name s of
        Inl e \<Rightarrow> Some NilDereference
      | Inr resp \<Rightarrow> if \<not> rp_IsError resp then None else Some (makeElasticError resp))"

fun DoesTemplateExist :: "('s, 'z) elastic_scheme \<Rightarrow> cluster list \<Rightarrow> string \<Rightarrow> 's \<Rightarrow> go_error option" where
  "DoesTemplateExist es [] name s = None"
| "DoesTemplateExist es (c # order) name s =
     (case doesTemplateExist es c name s of
        Some e \<Rightarrow> Some e
      | None \<Rightarrow> DoesTemplateExist es order name s)"

definition PutTemplate ::
  "('s, 'z) elastic_scheme \<Rightarrow> string \<Rightarrow> json \<Rightarrow> cluster \<Rightarrow> 's \<Rightarrow> go_error option \<times> 's" where
  "PutTemplate es name template instance_type s =
     (case GetElasticClientByType es instance_type of
        Inl e \<Rightarrow> (Some e, s)
      | Inr client \<Rightarrow>
          (case os_PutTemplate es client name template s of
             (Inl e, s1) \<Rightarrow> (Some NilDereference, s1)
           | (Inr resp, s1) \<Rightarrow>
               (if \<not> rp_IsError resp then (None, s1) else (Some (makeElasticError resp), s1))))"

section \<open>The bulk indexer\<close>

text \<open>
  The wrapper of the library's bulk indexer: the indexes it has written to. The library's
  indexer is part of the store's state; \<open>None\<close> is the package variable before the start.
\<close>

record bulk_indexer =
  bulk_instance_type :: cluster
  bulk_indexes :: "string list"

definition bulk_Add ::
  "('s, 'z) elastic_scheme \<Rightarrow> bulk_item \<Rightarrow> bulk_indexer \<Rightarrow> 's \<Rightarrow> go_error option \<times> bulk_indexer \<times> 's"
where
  "bulk_Add es item b s =
     (case os_BulkAdd es item s of
        (e, s1) \<Rightarrow> (e, b\<lparr>bulk_indexes := append_new (bulk_indexes b) (bi_Index item)\<rparr>, s1))"

definition bulk_Close ::
  "('s, 'z) elastic_scheme \<Rightarrow> bulk_indexer \<Rightarrow> 's \<Rightarrow> go_error option \<times> bulk_indexer \<times> 's" where
  "bulk_Close es b s =
     (case GetElasticClientByType es (bulk_instance_type b) of
        Inl e \<Rightarrow> (Some e, b, s)
      | Inr client \<Rightarrow>
          (case os_BulkNew es client s of
             (Some e, s1) \<Rightarrow> (Some e, b, s1)
           | (None, s1) \<Rightarrow>
               (case os_BulkClose es s1 of
                  (Some e, s2) \<Rightarrow> (Some e, b, s2)
                | (None, s2) \<Rightarrow>
                    (case os_Refresh es client (bulk_indexes b) s2 of
                       (Inl e, s3) \<Rightarrow> (Some e, b, s3)
                     | (Inr r, s3) \<Rightarrow> (None, b, s3)))))"

definition FlushBulkIndexer ::
  "('s, 'z) elastic_scheme \<Rightarrow> bulk_indexer option \<Rightarrow> 's \<Rightarrow> go_error option \<times> bulk_indexer option \<times> 's"
where
  "FlushBulkIndexer es bulk s =
     (case bulk of
        None \<Rightarrow> (None, None, s)
      | Some b \<Rightarrow> (case bulk_Close es b s of (e, b1, s1) \<Rightarrow> (e, Some b1, s1)))"

definition StartBulkIndexService ::
  "('s, 'z) elastic_scheme \<Rightarrow> cluster \<Rightarrow> bulk_indexer option \<Rightarrow> 's \<Rightarrow> go_error option \<times> bulk_indexer option \<times> 's"
where
  "StartBulkIndexService es ty bulk s =
     (case GetElasticClientByType es ty of
        Inl e \<Rightarrow> (Some e, bulk, s)
      | Inr client \<Rightarrow>
          (case os_BulkNew es client s of
             (Some e, s1) \<Rightarrow> (Some e, bulk, s1)
           | (None, s1) \<Rightarrow> (None, Some \<lparr>bulk_instance_type = ty, bulk_indexes = []\<rparr>, s1)))"

definition SetElasticIndexAsync ::
  "('s, 'z) elastic_scheme \<Rightarrow> string \<Rightarrow> string \<Rightarrow> string \<Rightarrow> string \<Rightarrow> json \<Rightarrow> bulk_indexer option \<Rightarrow> 's
     \<Rightarrow> go_error option \<times> bulk_indexer option \<times> 's" where
  "SetElasticIndexAsync es org_id idx i action rec bulk s =
     (case bulk of
        None \<Rightarrow> (Some NilDereference, None, s)
      | Some b \<Rightarrow>
          (case bulk_Add es \<lparr>bi_Index = GetIndex org_id idx, bi_Action = action,
                   bi_DocumentID = i, bi_Body = rec\<rparr> b s of
             (e, b1, s1) \<Rightarrow> (e, Some b1, s1)))"

definition MakeId :: "(string \<Rightarrow> string) \<Rightarrow> string \<Rightarrow> string" where
  "MakeId sha1_hex item = sha1_hex item"

definition PERSISTED :: string where "PERSISTED = ''persisted''"
definition TRANSIENT :: string where "TRANSIENT = ''transient''"

lemmas index_names = PERSISTED_def TRANSIENT_def

section \<open>The documented meaning of a search\<close>

text \<open>
  A clause holds of a document when some value of its field (a field may hold a list of
  values) satisfies it; the templates of the program index the fields as keywords and
  numbers, on which \<open>match\<close> is equality.
\<close>

definition field_values :: "string \<Rightarrow> json \<Rightarrow> json list" where
  "field_values f d =
     (case jget f d of None \<Rightarrow> [] | Some JNull \<Rightarrow> [] | Some (JList l) \<Rightarrow> l | Some v \<Rightarrow> [v])"

fun holds_rel :: "rel \<Rightarrow> int \<Rightarrow> int \<Rightarrow> bool" where
  "holds_rel Gt a b \<longleftrightarrow> b < a"
| "holds_rel Gte a b \<longleftrightarrow> b \<le> a"
| "holds_rel Lt a b \<longleftrightarrow> a < b"
| "holds_rel Lte a b \<longleftrightarrow> a \<le> b"

fun matches :: "clause \<Rightarrow> json \<Rightarrow> bool" where
  "matches MatchAll d \<longleftrightarrow> True"
| "matches (Match f v) d \<longleftrightarrow> v \<in> set (field_values f d)"
| "matches (Terms f vs) d \<longleftrightarrow> list_ex (\<lambda>v. case v of JStr x \<Rightarrow> x \<in> set vs | _ \<Rightarrow> False) (field_values f d)"
| "matches (Prefix f p) d \<longleftrightarrow>
     list_ex (\<lambda>v. case v of JStr x \<Rightarrow> HasPrefix x p | _ \<Rightarrow> False) (field_values f d)"
| "matches (Range f r n) d \<longleftrightarrow>
     list_ex (\<lambda>v. case v of JInt x \<Rightarrow> holds_rel r x n | _ \<Rightarrow> False) (field_values f d)"
| "matches (Exists f) d \<longleftrightarrow> field_values f d \<noteq> []"
| "matches (Must cs) d \<longleftrightarrow> list_all (\<lambda>c. matches c d) cs"
| "matches (Should cs) d \<longleftrightarrow> list_ex (\<lambda>c. matches c d) cs"
| "matches (MustNot c) d \<longleftrightarrow> \<not> matches c d"
| "matches (PrefixCI f p) d \<longleftrightarrow>
     list_ex (\<lambda>v. case v of JStr x \<Rightarrow> HasPrefix (ToLower x) (ToLower p) | _ \<Rightarrow> False) (field_values f d)"

type_synonym index_docs = "(string \<times> json) list"

definition key_of :: "string \<Rightarrow> string \<times> json \<Rightarrow> jkey" where
  "key_of f d = jkey_of (jget f (snd d))"

definition sorted_hits :: "(string \<times> bool) option \<Rightarrow> index_docs \<Rightarrow> index_docs" where
  "sorted_hits srt ds =
     (case srt of None \<Rightarrow> ds
      | Some (f, desc) \<Rightarrow> if desc then rev (sort_key (key_of f) (rev ds)) else sort_key (key_of f) ds)"

definition after_hits :: "(string \<times> bool) option \<Rightarrow> jkey option \<Rightarrow> index_docs \<Rightarrow> index_docs" where
  "after_hits srt search_after ds =
     (case (srt, search_after) of
        (Some (f, desc), Some k) \<Rightarrow> filter (\<lambda>d. if desc then key_of f d < k else k < key_of f d) ds
      | _ \<Rightarrow> ds)"

definition search_hits :: "search_req \<Rightarrow> index_docs \<Rightarrow> index_docs" where
  "search_hits q ds =
     take (case sq_size q of None \<Rightarrow> 10 | Some n \<Rightarrow> n)
       (drop (case sq_from q of None \<Rightarrow> 0 | Some n \<Rightarrow> n)
         (after_hits (sq_sort q) (sq_search_after q)
           (sorted_hits (sq_sort q) (filter (\<lambda>d. matches (sq_query q) (snd d)) ds))))"

definition render_hits :: "index_docs \<Rightarrow> nat \<Rightarrow> json" where
  "render_hits hits tot =
     JObj [(''hits'', JObj
       [(''total'', JObj [(''value'', JInt (int tot))]),
        (''hits'', JList (map (\<lambda>(i, src). JObj [(''_id'', JStr i), (''_source'', src)]) hits))])]"

definition search_contract :: "('s, 'z) elastic_scheme \<Rightarrow> ('s \<Rightarrow> cluster \<Rightarrow> string \<Rightarrow> index_docs) \<Rightarrow> bool" where
  "search_contract es docs \<longleftrightarrow>
     (\<forall>c idx q s. sq_source q \<longrightarrow>
        (\<exists>tx. os_Search es c idx q s = Inr \<lparr>rp_IsError = False, rp_text = tx, rp_json = Some
          (render_hits (search_hits q (docs s c idx))
             (length (filter (\<lambda>d. matches (sq_query q) (snd d)) (docs s c idx))))\<rparr>))"

lemma decode_render:
  "decode_response (Some (render_hits hits n)) =
     Inr \<lparr>er_Hits = map (\<lambda>(i, src). \<lparr>hit_Source = src, hit_Id = i\<rparr>) hits, er_Total = int n,
          er_Buckets = [], er_Value = JNull\<rparr>"
proof -
  have "decode_all decode_hit (map (\<lambda>(i, src). JObj [(''_id'', JStr i), (''_source'', src)]) hits) =
      Inr (map (\<lambda>(i, src). \<lparr>hit_Source = src, hit_Id = i\<rparr>) hits)"
    by (induction hits) (auto simp: decode_hit_def get_str_def get_raw_def)
  then show ?thesis
    by (simp add: decode_response_def render_hits_def get_list_def get_raw_def get_int_def)
qed

lemma QueryElasticRaw_hits:
  assumes "search_contract es docs" and "GetElasticClient es org_id = Inr c" and "sq_source q"
  shows "QueryElasticRaw es org_id idx q s =
    Inr (map snd (search_hits q (docs s c (GetIndex org_id idx))),
      int (length (filter (\<lambda>d. matches (sq_query q) (snd d)) (docs s c (GetIndex org_id idx)))))"
proof -
  obtain tx where "os_Search es c (GetIndex org_id idx) q s =
      Inr \<lparr>rp_IsError = False, rp_text = tx, rp_json = Some
          (render_hits (search_hits q (docs s c (GetIndex org_id idx)))
             (length (filter (\<lambda>d. matches (sq_query q) (snd d)) (docs s c (GetIndex org_id idx)))))\<rparr>"
    using assms(1,3) unfolding search_contract_def by metis
  then show ?thesis
    by (simp add: QueryElasticRaw_def run_search_def assms(2) decode_render comp_def
        split_def)
qed

section \<open>Paging is complete for an ascending unique column\<close>

lemma filter_after:
  fixes k :: "'a \<Rightarrow> 'b::linorder"
  assumes "sorted_wrt (<) (map k L)" and "j < length L"
  shows "filter (\<lambda>d. k (L ! j) < k d) L = drop (Suc j) L"
  using assms
proof (induction L arbitrary: j)
  case (Cons a L)
  show ?case
  proof (cases j)
    case 0
    then have "filter (\<lambda>d. k a < k d) L = L" using Cons.prems by (auto simp: filter_id_conv)
    then show ?thesis using 0 by simp
  next
    case (Suc i)
    have "filter (\<lambda>d. k (L ! i) < k d) L = drop (Suc i) L"
      using Cons.IH [of i] Cons.prems Suc by simp
    moreover have "\<not> k (L ! i) < k a" using Cons.prems Suc by (auto simp: not_less intro: less_imp_le)
    ultimately show ?thesis using Suc by simp
  qed
qed simp

lemma strict_sort_key:
  "distinct (map k l) \<Longrightarrow> sorted_wrt (<) (map k (sort_key k l))"
proof -
  assume "distinct (map k l)"
  then have "distinct (map k (sort_key k l))"
    by (simp add: distinct_map inj_on_def)
  then show ?thesis
    using sorted_sort_key [of k l] by (simp add: strict_sorted_iff)
qed

definition match_docs :: "clause \<Rightarrow> index_docs \<Rightarrow> index_docs" where
  "match_docs c ds = filter (\<lambda>d. matches c (snd d)) ds"

lemma from_start: "sq_from q \<in> {None, Some 0} \<Longrightarrow> (case sq_from q of None \<Rightarrow> 0 | Some n \<Rightarrow> n) = 0"
  by auto

lemma search_hits_after:
  assumes "sq_from q \<in> {None, Some 0}"
    and "L = sort_key (key_of f) (match_docs (sq_query q) ds)" and "sorted_wrt (<) (map (key_of f) L)"
    and "j < length L"
  shows "search_hits (q\<lparr>sq_sort := Some (f, False), sq_size := Some p,
      sq_search_after := Some (key_of f (L ! j))\<rparr>) ds = take p (drop (Suc j) L)"
  using filter_after [OF assms(3,4)] from_start [OF assms(1)]
  by (simp add: search_hits_def sorted_hits_def after_hits_def match_docs_def assms(2))

lemma sort_by_str_key:
  assumes "map k L = map KStr (map f L)"
  shows "map f (sort_key k L) = sort (map f L)"
proof -
  have k: "k d = KStr (f d)" if "d \<in> set L" for d using assms that by (simp add: comp_def)
  have "sorted (map k (sort_key k L))" by simp
  moreover have "map k (sort_key k L) = map (\<lambda>d. KStr (f d)) (sort_key k L)"
    by (rule map_cong) (simp_all add: k)
  ultimately have "sorted (map (\<lambda>d. KStr (f d)) (sort_key k L))" by metis
  then have "sorted (map f (sort_key k L))"
    by (simp add: sorted_map)
  moreover have "mset (map f (sort_key k L)) = mset (map f L)" by simp
  ultimately show ?thesis by (metis properties_for_sort)
qed

lemma chan_pages_complete:
  assumes c: "search_contract es docs" and cl: "GetElasticClient es org_id = Inr cluster"
    and q: "sq_source q" "sq_from q \<in> {None, Some 0}"
    and L: "L = sort_key (key_of f) (match_docs (sq_query q) (docs s cluster (GetIndex org_id idx)))"
    and srt: "sorted_wrt (<) (map (key_of f) L)" and key: "\<forall>d \<in> set L. jget f (snd d) \<noteq> None"
    and p: "0 < page_size"
  shows "length (drop m L) < fuel \<Longrightarrow>
    chan_pages es fuel page_size org_id idx q f (\<lambda>n. s) n (map snd (take page_size (drop m L))) =
    map snd (drop m L)"
proof (induction fuel arbitrary: m n)
  case (Suc fuel)
  define part where "part = take page_size (drop m L)"
  show ?case
  proof (cases "drop m L = []")
    case True
    then show ?thesis by simp
  next
    case False
    then have ne: "part \<noteq> []" and m: "m < length L" using p by (auto simp: part_def)
    obtain j where j: "j < length L" "last part = L ! j" "Suc j = m + length part"
      using page_end [OF m p] unfolding part_def by metis
    obtain v where v: "jget f (snd (L ! j)) = Some v" using key j(1) by fastforce
    have lst: "last (map snd part) = snd (L ! j)" using ne j(2) by (simp add: last_map)
    have get: "(case last (map snd part) of JObj kvs \<Rightarrow> map_of kvs f | _ \<Rightarrow> None) = Some v"
      using v unfolding lst by (cases "snd (L ! j)") auto
    have k: "jkey_of (Some v) = key_of f (L ! j)" using v by (simp add: key_of_def)
    show ?thesis
    proof (cases "length part < page_size")
      case True
      then have "part = drop m L" by (auto simp: part_def)
      then show ?thesis using get ne True by (simp add: part_def [symmetric])
    next
      case False
      let ?q = "q\<lparr>sq_sort := Some (f, False), sq_size := Some page_size,
                  sq_search_after := Some (jkey_of (Some v))\<rparr>"
      have "search_hits ?q (docs s cluster (GetIndex org_id idx)) = take page_size (drop (Suc j) L)"
        using search_hits_after [OF q(2) L srt j(1)] by (simp add: k)
      moreover have "length (drop (Suc j) L) < fuel" using Suc.prems j ne by (cases part) auto
      ultimately have "chan_pages es fuel page_size org_id idx q f (\<lambda>n. s) (Suc n)
          (map snd (search_hits ?q (docs s cluster (GetIndex org_id idx)))) = map snd (drop (Suc j) L)"
        using Suc.IH [of "Suc j" "Suc n"] by simp
      moreover have "map snd part @ map snd (drop (Suc j) L) = map snd (drop m L)"
        unfolding j(3) part_def by (simp only: page_rest flip: map_append)
      ultimately show ?thesis
        using get ne False QueryElasticRaw_hits [OF c cl, of ?q idx s] q
        by (simp add: part_def [symmetric])
    qed
  qed
qed simp

section \<open>A store in memory\<close>

text \<open>One cluster; indexes as an association list. The witnesses run on it.\<close>

type_synonym mem_es_state = "(string \<times> index_docs) list"

definition mem_docs :: "mem_es_state \<Rightarrow> string \<Rightarrow> index_docs" where
  "mem_docs st idx = (case map_of st idx of None \<Rightarrow> [] | Some ds \<Rightarrow> ds)"

fun doc_put :: "string \<Rightarrow> json \<Rightarrow> index_docs \<Rightarrow> index_docs" where
  "doc_put i j [] = [(i, j)]"
| "doc_put i j ((k, v) # ds) = (if k = i then (k, j) # ds else (k, v) # doc_put i j ds)"

text \<open>The empty id asks for a random one: a new one.\<close>

definition doc_add :: "string \<Rightarrow> json \<Rightarrow> index_docs \<Rightarrow> index_docs" where
  "doc_add i j ds =
     (if i = [] then ds @ [(replicate (Suc (foldr max (map (\<lambda>(k, v). length k) ds) 0)) (CHR ''r''), j)]
      else doc_put i j ds)"

definition mem_put :: "string \<Rightarrow> index_docs \<Rightarrow> mem_es_state \<Rightarrow> mem_es_state" where
  "mem_put idx ds st = (idx, ds) # filter (\<lambda>(k, v). k \<noteq> idx) st"

definition ok_reply :: "json \<Rightarrow> os_reply result" where
  "ok_reply j = Inr \<lparr>rp_IsError = False, rp_text = [], rp_json = Some j\<rparr>"

definition missing_reply :: "os_reply result" where
  "missing_reply = Inr \<lparr>rp_IsError = True, rp_text = ''not found'',
     rp_json = Some (JObj [(''found'', JBool False)])\<rparr>"

definition document_missing_reply :: "os_reply result" where
  "document_missing_reply = Inr \<lparr>rp_IsError = True, rp_text = ''document_missing_exception'',
     rp_json = Some (JObj [(''error'', JObj [(''type'', JStr ''document_missing_exception'')])])\<rparr>"

definition script_error_reply :: "os_reply result" where
  "script_error_reply = Inr \<lparr>rp_IsError = True, rp_text = ''script_exception'',
     rp_json = Some (JObj [(''error'', JObj [(''type'', JStr ''script_exception'')])])\<rparr>"

definition mem_es :: "mem_es_state elastic" where
  "mem_es =
     \<lparr>elasticClients = [PrimaryOpenSearch], primary_orgs = [],
      os_CatIndices = (\<lambda>c st. ok_reply (JList (map (\<lambda>(k, v). JObj [(''index'', JStr k)]) st))),
      os_Get = (\<lambda>c idx i st. case map_of (mem_docs st idx) i of None \<Rightarrow> missing_reply
        | Some j \<Rightarrow> ok_reply (JObj [(''_id'', JStr i), (''_source'', j)])),
      os_Mget = (\<lambda>c idx ids st. ok_reply (JObj [(''docs'', JList (map (\<lambda>i. JObj [(''_id'', JStr i),
        (''_source'', case map_of (mem_docs st idx) i of None \<Rightarrow> JNull | Some j \<Rightarrow> j)]) ids))])),
      os_Search = (\<lambda>c idx q st. ok_reply (render_hits (search_hits q (mem_docs st idx))
        (length (filter (\<lambda>d. matches (sq_query q) (snd d)) (mem_docs st idx))))),
      os_Count = (\<lambda>c idx q st. ok_reply (JObj [(''count'',
        JInt (int (length (filter (\<lambda>d. matches (sq_query q) (snd d)) (mem_docs st idx)))))])),
      os_Index = (\<lambda>c idx i j st. (ok_reply JNull, mem_put idx (doc_add i j (mem_docs st idx)) st)),
      os_Update = (\<lambda>c idx i u st. case map_of (mem_docs st idx) i of
          None \<Rightarrow> (case up_upsert u of None \<Rightarrow> (document_missing_reply, st)
                   | Some j \<Rightarrow> (ok_reply JNull, mem_put idx (doc_put i j (mem_docs st idx)) st))
        | Some j \<Rightarrow> (case up_script u j of None \<Rightarrow> (script_error_reply, st)
                     | Some j' \<Rightarrow> (ok_reply JNull, mem_put idx (doc_put i j' (mem_docs st idx)) st))),
      os_Delete = (\<lambda>c idx i st. (ok_reply JNull,
        mem_put idx (filter (\<lambda>(k, v). k \<noteq> i) (mem_docs st idx)) st)),
      os_DeleteByQuery = (\<lambda>c idx q st. (ok_reply JNull,
        mem_put idx (filter (\<lambda>d. \<not> matches (sq_query q) (snd d)) (mem_docs st idx)) st)),
      os_Refresh = (\<lambda>c idxs st. (ok_reply JNull, st)),
      os_ExistsTemplate = (\<lambda>c n st. ok_reply JNull),
      os_PutTemplate = (\<lambda>c n t st. (ok_reply JNull, st)),
      os_BulkNew = (\<lambda>c st. (None, st)),
      os_BulkAdd = (\<lambda>item st. (None, mem_put (bi_Index item)
        (doc_add (bi_DocumentID item) (bi_Body item) (mem_docs st (bi_Index item))) st)),
      os_BulkClose = (\<lambda>st. (None, st))\<rparr>"

lemma mem_client [simp]: "GetElasticClient mem_es org = Inr PrimaryOpenSearch"
  by (simp add: GetElasticClient_def mem_es_def)

lemma mem_search_contract: "search_contract mem_es (\<lambda>st c idx. mem_docs st idx)"
  by (simp add: search_contract_def mem_es_def ok_reply_def)

text \<open>
  The documented behaviour of the document operations on a healthy cluster: a document with
  an empty id gets a fresh one, an id has one document, an update runs its script on the
  document, and error replies of updates name their cause.
\<close>

definition mget_reply :: "index_docs \<Rightarrow> string list \<Rightarrow> json" where
  "mget_reply ds ids = JObj [(''docs'', JList (map (\<lambda>i. JObj [(''_id'', JStr i),
     (''_source'', case map_of ds i of None \<Rightarrow> JNull | Some j \<Rightarrow> j)]) ids))]"

definition store_contract :: "('s, 'z) elastic_scheme \<Rightarrow> ('s \<Rightarrow> cluster \<Rightarrow> string \<Rightarrow> index_docs) \<Rightarrow> bool" where
  "store_contract es docs \<longleftrightarrow> search_contract es docs \<and>
     (\<forall>c idx j s. \<exists>r i s'. os_Index es c idx [] j s = (Inr r, s') \<and> \<not> rp_IsError r \<and>
        i \<notin> fst ` set (docs s c idx) \<and> docs s' c idx = docs s c idx @ [(i, j)]) \<and>
     (\<forall>c idx i j s. i \<noteq> [] \<longrightarrow> (\<exists>r s'. os_Index es c idx i j s = (Inr r, s') \<and> \<not> rp_IsError r \<and>
        docs s' c idx = doc_put i j (docs s c idx))) \<and>
     (\<forall>c idx i s. \<exists>r s'. os_Delete es c idx i s = (Inr r, s') \<and>
        docs s' c idx = filter (\<lambda>d. fst d \<noteq> i) (docs s c idx)) \<and>
     (\<forall>c idx i u s j j'. map_of (docs s c idx) i = Some j \<longrightarrow> up_script u j = Some j' \<longrightarrow>
        (\<exists>r s'. os_Update es c idx i u s = (Inr r, s') \<and> \<not> rp_IsError r \<and>
           docs s' c idx = doc_put i j' (docs s c idx))) \<and>
     (\<forall>c idx i u s. map_of (docs s c idx) i = None \<longrightarrow> up_upsert u = None \<longrightarrow>
        (\<exists>r s'. os_Update es c idx i u s = (Inr r, s') \<and> rp_IsError r \<and>
           Contains (rp_text r) ''document_missing_exception'' \<and>
           \<not> Contains (''Elastic Error: '' @ rp_text r) ''version conflict'' \<and>
           docs s' c idx = docs s c idx)) \<and>
     (\<forall>c idx i s j. map_of (docs s c idx) i = Some j \<longrightarrow>
        (\<exists>tx. os_Get es c idx i s = Inr \<lparr>rp_IsError = False, rp_text = tx,
           rp_json = Some (JObj [(''_id'', JStr i), (''_source'', j)])\<rparr>)) \<and>
     (\<forall>c idx i s. map_of (docs s c idx) i = None \<longrightarrow>
        (\<exists>tx. os_Get es c idx i s = Inr \<lparr>rp_IsError = True, rp_text = tx,
           rp_json = Some (JObj [(''found'', JBool False)])\<rparr>)) \<and>
     (\<forall>c idx ids s. \<exists>tx. os_Mget es c idx ids s = Inr \<lparr>rp_IsError = False, rp_text = tx,
        rp_json = Some (mget_reply (docs s c idx) ids)\<rparr>)"

lemma store_contractD:
  assumes "store_contract es docs"
  shows "search_contract es docs"
    and "\<exists>r i s'. os_Index es c idx [] j s = (Inr r, s') \<and> \<not> rp_IsError r \<and>
        i \<notin> fst ` set (docs s c idx) \<and> docs s' c idx = docs s c idx @ [(i, j)]"
    and "i \<noteq> [] \<Longrightarrow> \<exists>r s'. os_Index es c idx i j s = (Inr r, s') \<and> \<not> rp_IsError r \<and>
        docs s' c idx = doc_put i j (docs s c idx)"
    and "\<exists>r s'. os_Delete es c idx i s = (Inr r, s') \<and>
        docs s' c idx = filter (\<lambda>d. fst d \<noteq> i) (docs s c idx)"
    and "map_of (docs s c idx) i = Some j \<Longrightarrow> up_script u j = Some j' \<Longrightarrow>
        \<exists>r s'. os_Update es c idx i u s = (Inr r, s') \<and> \<not> rp_IsError r \<and>
           docs s' c idx = doc_put i j' (docs s c idx)"
    and "map_of (docs s c idx) i = None \<Longrightarrow> up_upsert u = None \<Longrightarrow>
        \<exists>r s'. os_Update es c idx i u s = (Inr r, s') \<and> rp_IsError r \<and>
           Contains (rp_text r) ''document_missing_exception'' \<and>
           \<not> Contains (''Elastic Error: '' @ rp_text r) ''version conflict'' \<and>
           docs s' c idx = docs s c idx"
    and "map_of (docs s c idx) i = Some j \<Longrightarrow>
        \<exists>tx. os_Get es c idx i s = Inr \<lparr>rp_IsError = False, rp_text = tx,
          rp_json = Some (JObj [(''_id'', JStr i), (''_source'', j)])\<rparr>"
    and "map_of (docs s c idx) i = None \<Longrightarrow>
        \<exists>tx. os_Get es c idx i s = Inr \<lparr>rp_IsError = True, rp_text = tx,
          rp_json = Some (JObj [(''found'', JBool False)])\<rparr>"
    and "\<exists>tx. os_Mget es c idx ids s = Inr \<lparr>rp_IsError = False, rp_text = tx,
          rp_json = Some (mget_reply (docs s c idx) ids)\<rparr>"
  using assms by (simp_all add: store_contract_def)

lemma GetElasticRecord_found:
  assumes "store_contract es docs" and "GetElasticClient es org = Inr c"
    and "map_of (docs s c (GetIndex org idx)) i = Some j"
  shows "GetElasticRecord es org idx i s = Inr j"
  using store_contractD(7) [OF assms(1,3)] assms(2)
  by (auto simp: GetElasticRecord_def decode_hit_def get_str_def get_raw_def)

lemma GetElasticRecord_missing:
  assumes "store_contract es docs" and "GetElasticClient es org = Inr c"
    and "map_of (docs s c (GetIndex org idx)) i = None"
  shows "GetElasticRecord es org idx i s = Inl ErrNotExist"
  using store_contractD(8) [OF assms(1,3)] assms(2)
  by (auto simp: GetElasticRecord_def as_dict_def not_found_def)

lemma GetMultipleElasticRecords_docs:
  assumes "store_contract es docs" and "GetElasticClient es org = Inr c"
  shows "GetMultipleElasticRecords es org idx ids s =
    Inr (map (\<lambda>i. case map_of (docs s c (GetIndex org idx)) i of None \<Rightarrow> JNull | Some j \<Rightarrow> j) ids)"
proof -
  have "decode_all decode_hit (map (\<lambda>i. JObj [(''_id'', JStr i), (''_source'', f i)]) ids) =
      Inr (map (\<lambda>i. \<lparr>hit_Source = f i, hit_Id = i\<rparr>) ids)" for f
    by (induction ids) (auto simp: decode_hit_def get_str_def get_raw_def)
  then show ?thesis
    using store_contractD(9) [OF assms(1), of c "GetIndex org idx" ids s] assms(2)
    by (auto simp: GetMultipleElasticRecords_def mget_reply_def get_list_def comp_def)
qed

lemma map_of_doc_put: "map_of (doc_put i j ds) = (map_of ds)(i \<mapsto> j)"
  by (induction ds) auto

text \<open>What the contract gives for the wrappers.\<close>

lemma retry_success: "fst (cb s) = None \<Longrightarrow> retry cb s = cb s"
  by (cases "cb s") (simp add: retry_def numeral_nat)

lemma retry_other_error:
  "cb s = (Some e, s') \<Longrightarrow> \<not> Contains (err_text e) ''version conflict'' \<Longrightarrow> retry cb s = (Some e, s')"
  by (simp add: retry_def numeral_nat)

lemma SetElasticIndex_fresh:
  assumes "store_contract es docs" and "GetElasticClient es org = Inr c"
  shows "\<exists>i s'. SetElasticIndex es org idx [] j s = (None, s') \<and>
    i \<notin> fst ` set (docs s c (GetIndex org idx)) \<and>
    docs s' c (GetIndex org idx) = docs s c (GetIndex org idx) @ [(i, j)]"
  using store_contractD(2) [OF assms(1), of c "GetIndex org idx" j s] assms(2)
  by (auto simp: SetElasticIndex_def SetElasticIndex_once_def write_outcome_def retry_success)

lemma SetElasticIndex_put:
  assumes "store_contract es docs" and "GetElasticClient es org = Inr c" and "i \<noteq> []"
  shows "\<exists>s'. SetElasticIndex es org idx i j s = (None, s') \<and>
    docs s' c (GetIndex org idx) = doc_put i j (docs s c (GetIndex org idx))"
  using store_contractD(3) [OF assms(1,3), of c "GetIndex org idx" j s] assms(2)
  by (auto simp: SetElasticIndex_def SetElasticIndex_once_def write_outcome_def retry_success)

lemma DeleteDocument_removes:
  assumes "store_contract es docs" and "GetElasticClient es org = Inr c"
  shows "\<exists>s'. DeleteDocument es org idx i False s = (None, s') \<and>
    docs s' c (GetIndex org idx) = filter (\<lambda>d. fst d \<noteq> i) (docs s c (GetIndex org idx))"
  using store_contractD(4) [OF assms(1), of c "GetIndex org idx" i s] assms(2)
  by (auto simp: DeleteDocument_def sync_refresh_def)

lemma UpdateIndex_script:
  assumes "store_contract es docs" and "GetElasticClient es org = Inr c"
    and "map_of (docs s c (GetIndex org idx)) i = Some j" and "up_script u j = Some j'"
  shows "\<exists>s'. UpdateIndex es org idx i u s = (None, s') \<and>
    docs s' c (GetIndex org idx) = doc_put i j' (docs s c (GetIndex org idx))"
  using store_contractD(5) [OF assms(1,3,4)] assms(2)
  by (auto simp: UpdateIndex_def UpdateIndex_once_def write_outcome_def retry_success)

lemma UpdateIndex_missing:
  assumes "store_contract es docs" and "GetElasticClient es org = Inr c"
    and "map_of (docs s c (GetIndex org idx)) i = None" and "up_upsert u = None"
  shows "\<exists>e s'. UpdateIndex es org idx i u s = (Some e, s') \<and>
    Contains (err_text e) ''document_missing_exception'' \<and>
    docs s' c (GetIndex org idx) = docs s c (GetIndex org idx)"
proof -
  obtain r s' where r: "os_Update es c (GetIndex org idx) i u s = (Inr r, s')" "rp_IsError r"
    "Contains (rp_text r) ''document_missing_exception''"
    "\<not> Contains (''Elastic Error: '' @ rp_text r) ''version conflict''"
    "docs s' c (GetIndex org idx) = docs s c (GetIndex org idx)"
    using store_contractD(6) [OF assms(1,3,4)] by blast
  have "UpdateIndex es org idx i u s = (Some (makeElasticError r), s')"
    unfolding UpdateIndex_def
    by (rule retry_other_error)
      (use r assms(2) in \<open>simp_all add: UpdateIndex_once_def write_outcome_def makeElasticError_def\<close>)
  moreover have "Contains (err_text (makeElasticError r)) ''document_missing_exception''"
    using r(3) by (simp add: makeElasticError_def)
  ultimately show ?thesis using r(5) by blast
qed

lemma mem_docs_put [simp]: "mem_docs (mem_put idx ds st) idx = ds"
  by (simp add: mem_docs_def mem_put_def)

lemma fold_max_ge: "x \<in> set l \<Longrightarrow> x \<le> foldr max l (b::nat)"
  by (induction l) auto

lemma doc_add_fresh:
  "\<exists>i. doc_add [] j ds = ds @ [(i, j)] \<and> i \<notin> fst ` set ds"
proof -
  let ?n = "Suc (foldr max (map (\<lambda>(k, v). length k) ds) 0)"
  have "length k < ?n" if "(k, v) \<in> set ds" for k v
    using that by (intro le_imp_less_Suc fold_max_ge) force
  then have "replicate ?n (CHR ''r'') \<notin> fst ` set ds" by fastforce
  then show ?thesis by (simp add: doc_add_def)
qed

lemma doc_missing_text: "\<not> Contains ''Elastic Error: document_missing_exception'' ''version conflict''"
  by code_simp

lemma mem_store_contract: "store_contract mem_es (\<lambda>st c idx. mem_docs st idx)"
proof -
  have "\<exists>r i s'. os_Index mem_es c idx [] j s = (Inr r, s') \<and> \<not> rp_IsError r \<and>
      i \<notin> fst ` set (mem_docs s idx) \<and> mem_docs s' idx = mem_docs s idx @ [(i, j)]" for c idx j s
    using doc_add_fresh [of j "mem_docs s idx"] by (auto simp: mem_es_def ok_reply_def)
  moreover have "filter (\<lambda>(k, v). k \<noteq> i) ds = filter (\<lambda>d. fst d \<noteq> i) ds" for i and ds :: index_docs
    by (rule filter_cong) auto
  ultimately show ?thesis
    using doc_missing_text
    by (simp add: store_contract_def mem_search_contract)
      (simp add: mem_es_def ok_reply_def doc_add_def document_missing_reply_def missing_reply_def
        mget_reply_def)
qed

section \<open>A search that fits in a page\<close>

lemma run_search_hits:
  assumes "search_contract es docs" and "GetElasticClient es org_id = Inr c" and "sq_source q"
  shows "\<exists>n. run_search es org_id idx q s = Inr (Some
    \<lparr>er_Hits = map (\<lambda>(i, src). \<lparr>hit_Source = src, hit_Id = i\<rparr>) (search_hits q (docs s c (GetIndex org_id idx))),
     er_Total = n, er_Buckets = [], er_Value = JNull\<rparr>)"
proof -
  obtain tx where "os_Search es c (GetIndex org_id idx) q s =
      Inr \<lparr>rp_IsError = False, rp_text = tx, rp_json = Some
          (render_hits (search_hits q (docs s c (GetIndex org_id idx)))
             (length (filter (\<lambda>d. matches (sq_query q) (snd d)) (docs s c (GetIndex org_id idx)))))\<rparr>"
    using assms(1,3) unfolding search_contract_def by metis
  then show ?thesis by (simp add: run_search_def assms(2) decode_render)
qed

lemma QueryElastic_hits:
  assumes "search_contract es docs" and "GetElasticClient es org_id = Inr c" and "sq_source q"
  shows "QueryElastic es org_id idx q s =
    Inr (map (\<lambda>(i, src). \<lparr>hit_Source = src, hit_Id = i\<rparr>) (search_hits q (docs s c (GetIndex org_id idx))))"
  using run_search_hits [OF assms, of idx s] by (auto simp: QueryElastic_def comp_def split_def)

lemma sort_key_last_max:
  "x \<in> set l \<Longrightarrow> k x \<le> k (last (sort_key k l))"
proof -
  assume x: "x \<in> set l"
  then have ne: "sort_key k l \<noteq> []" by (metis empty_iff list.set(1) set_sort)
  have "sorted (map k (butlast (sort_key k l) @ [last (sort_key k l)]))"
    using ne by simp
  then have "\<forall>y \<in> set (butlast (sort_key k l)). k y \<le> k (last (sort_key k l))"
    by (simp only: map_append sorted_append) auto
  moreover have "x \<in> set (butlast (sort_key k l) @ [last (sort_key k l)])" using x ne by simp
  ultimately show ?thesis by auto
qed

text \<open>
  When the matching documents fit in one page they are all delivered, whether or not the
  sort column is unique.
\<close>

lemma QueryChan_one_page:
  assumes "search_contract es docs" and "GetElasticClient es org_id = Inr c"
    and "sq_source q" and "sq_from q \<in> {None, Some 0}" and "sq_search_after q = None"
    and "length (match_docs (sq_query q) (docs s c (GetIndex org_id idx))) \<le> page_size"
    and "f \<noteq> []" and "hd f \<noteq> CHR ''>''" and "0 < fuel"
  shows "QueryChan es fuel page_size org_id idx q f (\<lambda>n. s) =
    Inr (map snd (sort_key (key_of f) (match_docs (sq_query q) (docs s c (GetIndex org_id idx)))))"
proof -
  define L where "L = match_docs (sq_query q) (docs s c (GetIndex org_id idx))"
  let ?S = "sort_key (key_of f) L"
  let ?q = "q\<lparr>sq_sort := Some (f, False), sq_size := Some page_size\<rparr>"
  have "search_hits ?q (docs s c (GetIndex org_id idx)) = ?S"
    using from_start [OF assms(4)] assms(5,6)
    by (simp add: search_hits_def sorted_hits_def after_hits_def match_docs_def L_def)
  then have first: "\<exists>n. QueryElasticRaw es org_id idx ?q s = Inr (map snd ?S, n)"
    using QueryElasticRaw_hits [OF assms(1,2), of ?q idx s] assms(3) by simp
  obtain fuel' where fuel: "fuel = Suc fuel'" using assms(9) by (cases fuel) auto
  have "chan_pages es fuel page_size org_id idx q f (\<lambda>n. s) 1 (map snd ?S) = map snd ?S"
  proof (cases "?S = []")
    case False
    have nxt: "\<exists>n. QueryElasticRaw es org_id idx (q\<lparr>sq_sort := Some (f, False), sq_size := Some page_size,
        sq_search_after := Some (key_of f (last ?S))\<rparr>) s = Inr ([], n)"
    proof -
      have "\<not> key_of f (last ?S) < key_of f d" if "d \<in> set ?S" for d
        using sort_key_last_max [of d L "key_of f"] that by (simp add: leD)
      then have "filter (\<lambda>d. key_of f (last ?S) < key_of f d) ?S = []" by (simp add: filter_empty_conv)
      then show ?thesis
        using QueryElasticRaw_hits [OF assms(1,2), of "q\<lparr>sq_sort := Some (f, False),
            sq_size := Some page_size, sq_search_after := Some (key_of f (last ?S))\<rparr>" idx s] assms(3) from_start [OF assms(4)]
        by (simp add: search_hits_def sorted_hits_def after_hits_def match_docs_def L_def)
    qed
    have lst: "last (map snd ?S) = snd (last ?S)" using False by (simp add: last_map)
    show ?thesis
    proof (cases "jget f (snd (last ?S))")
      case None
      then have "(case last (map snd ?S) of JObj kvs \<Rightarrow> map_of kvs f | _ \<Rightarrow> None) = None"
        unfolding lst by (cases "snd (last ?S)") auto
      then show ?thesis using False by (simp add: fuel)
    next
      case (Some v)
      then have "(case last (map snd ?S) of JObj kvs \<Rightarrow> map_of kvs f | _ \<Rightarrow> None) = Some v"
        unfolding lst by (cases "snd (last ?S)") auto
      moreover have "jkey_of (Some v) = key_of f (last ?S)" using Some by (simp add: key_of_def)
      moreover have "chan_pages es n page_size org_id idx q f (\<lambda>n. s) m [] = []" for n m
        by (cases n) auto
      ultimately show ?thesis using nxt False by (auto simp: fuel)
    qed
  qed (simp add: fuel)
  then show ?thesis using first assms(7,8) by (auto simp: QueryChan_def Let_def L_def)
qed

text \<open>
  The answer of the cluster to a query without sources: the ids of the hits and their number.
\<close>

definition ids_contract :: "('s, 'z) elastic_scheme \<Rightarrow> ('s \<Rightarrow> cluster \<Rightarrow> string \<Rightarrow> index_docs) \<Rightarrow> bool" where
  "ids_contract es docs \<longleftrightarrow>
     (\<forall>c idx q s. \<not> sq_source q \<longrightarrow>
        (\<exists>tx hits. os_Search es c idx q s = Inr \<lparr>rp_IsError = False, rp_text = tx, rp_json = Some
           (render_hits hits (length (match_docs (sq_query q) (docs s c idx))))\<rparr> \<and>
         map fst hits = map fst (search_hits q (docs s c idx))))"

lemma mem_ids_contract: "ids_contract mem_es (\<lambda>st c idx. mem_docs st idx)"
  by (auto simp: ids_contract_def mem_es_def ok_reply_def match_docs_def)

lemma QueryElasticIds_hits:
  assumes "ids_contract es docs" and "GetElasticClient es org = Inr c" and "\<not> sq_source q"
  shows "QueryElasticIds es org idx q s =
    Inr (map fst (search_hits q (docs s c (GetIndex org idx))),
         int (length (match_docs (sq_query q) (docs s c (GetIndex org idx)))))"
proof -
  obtain tx hits where h: "os_Search es c (GetIndex org idx) q s = Inr \<lparr>rp_IsError = False, rp_text = tx,
      rp_json = Some (render_hits hits (length (match_docs (sq_query q) (docs s c (GetIndex org idx)))))\<rparr>"
    "map fst hits = map fst (search_hits q (docs s c (GetIndex org idx)))"
    using assms(1,3) unfolding ids_contract_def by metis
  show ?thesis
    by (simp add: QueryElasticIds_def run_search_def assms(2) h(1) decode_render comp_def split_def
        flip: h(2))
qed

definition count_contract :: "('s, 'z) elastic_scheme \<Rightarrow> ('s \<Rightarrow> cluster \<Rightarrow> string \<Rightarrow> index_docs) \<Rightarrow> bool" where
  "count_contract es docs \<longleftrightarrow>
     (\<forall>c idx q s. \<exists>tx. os_Count es c idx q s = Inr \<lparr>rp_IsError = False, rp_text = tx, rp_json = Some
        (JObj [(''count'', JInt (int (length (match_docs (sq_query q) (docs s c idx)))))])\<rparr>)"

lemma mem_count_contract: "count_contract mem_es (\<lambda>st c idx. mem_docs st idx)"
  by (auto simp: count_contract_def mem_es_def ok_reply_def match_docs_def)

lemma QueryCountAPI_count:
  assumes "count_contract es docs" and "GetElasticClient es org = Inr c"
  shows "QueryCountAPI es org idx q s =
    Inr (int (length (match_docs (sq_query q) (docs s c (GetIndex org idx)))))"
proof -
  obtain tx where "os_Count es c (GetIndex org idx) q s = Inr \<lparr>rp_IsError = False, rp_text = tx, rp_json = Some
      (JObj [(''count'', JInt (int (length (match_docs (sq_query q) (docs s c (GetIndex org idx))))))])\<rparr>"
    using assms(1) unfolding count_contract_def by metis
  then show ?thesis by (simp add: QueryCountAPI_def assms(2) get_int_def get_raw_def)
qed

text \<open>
  When all matching documents have the same key only the first page is delivered: the second
  page asks for greater keys and is empty.
\<close>

lemma QueryChan_same_key:
  assumes "search_contract es docs" and "GetElasticClient es org_id = Inr c"
    and "sq_source q" and "sq_from q \<in> {None, Some 0}" and "sq_search_after q = None"
    and "L = match_docs (sq_query q) (docs s c (GetIndex org_id idx))"
    and "\<forall>d \<in> set L. jget f (snd d) = Some v"
    and "f \<noteq> []" and "hd f \<noteq> CHR ''>''" and "0 < fuel"
  shows "QueryChan es fuel page_size org_id idx q f (\<lambda>n. s) = Inr (map snd (take page_size L))"
proof -
  have key: "\<forall>d \<in> set L. key_of f d = jkey_of (Some v)" using assms(7) by (simp add: key_of_def)
  have "sorted (map (key_of f) L)"
    using key by (simp add: sorted_wrt_map sorted_wrt_iff_nth_less)
  then have srt: "sort_key (key_of f) L = L" by (rule sort_key_id_if_sorted)
  let ?q = "q\<lparr>sq_sort := Some (f, False), sq_size := Some page_size\<rparr>"
  have first: "\<exists>n. QueryElasticRaw es org_id idx ?q s = Inr (map snd (take page_size L), n)"
    using QueryElasticRaw_hits [OF assms(1,2), of ?q idx s] assms(3,5,6) from_start [OF assms(4)] srt
    by (simp add: search_hits_def sorted_hits_def after_hits_def match_docs_def)
  have "filter (\<lambda>d. jkey_of (Some v) < key_of f d) L = []" using key by (simp add: filter_empty_conv)
  then have nxt: "\<exists>n. QueryElasticRaw es org_id idx (?q\<lparr>sq_search_after := Some (jkey_of (Some v))\<rparr>) s = Inr ([], n)"
    using QueryElasticRaw_hits [OF assms(1,2), of "?q\<lparr>sq_search_after := Some (jkey_of (Some v))\<rparr>" idx s]
      assms(3,6) from_start [OF assms(4)] srt
    by (simp add: search_hits_def sorted_hits_def after_hits_def match_docs_def)
  obtain fuel' where fuel: "fuel = Suc fuel'" using assms(10) by (cases fuel) auto
  have "chan_pages es fuel page_size org_id idx q f (\<lambda>n. s) 1 (map snd (take page_size L)) =
      map snd (take page_size L)"
  proof (cases "take page_size L = []")
    case False
    then have "last (take page_size L) \<in> set L" by (meson in_set_takeD last_in_set)
    moreover have "last (map snd (take page_size L)) = snd (last (take page_size L))"
      using False by (rule last_map)
    ultimately have "(case last (map snd (take page_size L)) of JObj kvs \<Rightarrow> map_of kvs f | _ \<Rightarrow> None) =
        Some v"
      using assms(7) by (cases "snd (last (take page_size L))") auto
    moreover have "chan_pages es n page_size org_id idx q f (\<lambda>n. s) m [] = []" for n m
      by (cases n) auto
    ultimately show ?thesis using nxt False by (auto simp: fuel)
  qed (simp add: fuel)
  then show ?thesis using first assms(8,9) by (auto simp: QueryChan_def Let_def)
qed

section \<open>Properties\<close>

lemma QueryChan_complete:
  assumes "search_contract es docs" and "GetElasticClient es org_id = Inr cluster"
    and "sq_source q" and "sq_from q \<in> {None, Some 0}" and "sq_search_after q = None"
    and "L = match_docs (sq_query q) (docs s cluster (GetIndex org_id idx))"
    and "distinct (map (key_of f) L)" and "\<forall>d \<in> set L. jget f (snd d) \<noteq> None"
    and "f \<noteq> []" and "hd f \<noteq> CHR ''>''" and "0 < page_size" and "length L < fuel"
  shows "QueryChan es fuel page_size org_id idx q f (\<lambda>n. s) = Inr (map snd (sort_key (key_of f) L))"
proof -
  let ?q = "q\<lparr>sq_sort := Some (f, False), sq_size := Some page_size\<rparr>"
  let ?S = "sort_key (key_of f) L"
  have "search_hits ?q (docs s cluster (GetIndex org_id idx)) = take page_size ?S"
    using from_start [OF assms(4)] assms(5,6) by (simp add: search_hits_def sorted_hits_def after_hits_def match_docs_def)
  then have "QueryElasticRaw es org_id idx ?q s =
      Inr (map snd (take page_size (drop 0 ?S)), int (length (filter (\<lambda>d. matches (sq_query q) (snd d))
        (docs s cluster (GetIndex org_id idx)))))"
    using QueryElasticRaw_hits [OF assms(1,2), of ?q idx s] assms(3) by simp
  moreover have "chan_pages es fuel page_size org_id idx q f (\<lambda>n. s) 1
      (map snd (take page_size (drop 0 ?S))) = map snd (drop 0 ?S)"
    by (rule chan_pages_complete [OF assms(1,2,3,4) _ strict_sort_key [OF assms(7)] _ assms(11)])
      (use assms(6,8,12) in auto)
  ultimately show ?thesis using assms(9,10) by (simp add: QueryChan_def Let_def)
qed

text \<open>
  C16. Paging misses nothing and repeats nothing: over a store that does not change, for a
  column that every matching document has with a value of its own, an ascending \<open>QueryChan\<close>
  delivers exactly the matching documents in the order of the column, whatever the page
  size, within as many pages as there are documents.
\<close>

theorem query_chan_complete:
  assumes "search_contract es docs" and "GetElasticClient es org_id = Inr cluster"
    and "sq_source q" and "sq_from q \<in> {None, Some 0}" and "sq_search_after q = None"
    and "L = match_docs (sq_query q) (docs s cluster (GetIndex org_id idx))"
    and "distinct (map (key_of f) L)" and "\<forall>d \<in> set L. jget f (snd d) \<noteq> None"
    and "f \<noteq> []" and "hd f \<noteq> CHR ''>''" and "0 < page_size" and "length L < fuel"
  shows "QueryChan es fuel page_size org_id idx q f (\<lambda>n. s) = Inr (map snd (sort_key (key_of f) L))"
  using assms by (rule QueryChan_complete)

definition sample_docs :: mem_es_state where
  "sample_docs = [(''rows'', map (\<lambda>n. (''id'', JObj [(''row'', JInt n)])) [3, 1, 2])]"

theorem query_chan_complete_witness:
  "QueryChan mem_es 4 2 ''root'' ''rows'' (query_of MatchAll) ''row'' (\<lambda>n. sample_docs) =
     Inr (map (\<lambda>n. JObj [(''row'', JInt n)]) [1, 2, 3])"
proof -
  have k: "map (key_of ''row'') (mem_docs sample_docs ''rows'') = [KInt 3, KInt 1, KInt 2]"
    by (simp add: mem_docs_def sample_docs_def key_of_def)
  have s: "map snd (sort_key (key_of ''row'') (mem_docs sample_docs ''rows'')) =
      map (\<lambda>n. JObj [(''row'', JInt n)]) [1, 2, 3]"
    by code_simp
  show ?thesis
    using query_chan_complete [OF mem_search_contract mem_client, of "query_of MatchAll"
        "mem_docs sample_docs ''rows''" sample_docs "''root''" "''rows''" "''row''" 2 4] k s
    by (simp add: query_of_def match_docs_def GetIndex_def mem_docs_def sample_docs_def)
qed

text \<open>
  A descending query is not paged: the pages after the first are asked for in ascending
  order, so with more than one page the first rows come again and the last ones never come;
  and without a sort column only the first page is delivered.
\<close>

theorem query_chan_beyond_first_page:
  "QueryChan mem_es 9 2 ''root'' ''rows'' (query_of MatchAll) ''>row'' (\<lambda>n. sample_docs) =
     Inr (map (\<lambda>n. JObj [(''row'', JInt n)]) [3, 2, 3]) \<and>
   QueryChan mem_es 9 2 ''root'' ''rows'' (query_of MatchAll) [] (\<lambda>n. sample_docs) =
     Inr (map (\<lambda>n. JObj [(''row'', JInt n)]) [3, 1])"
  by code_simp

text \<open>The state after \<open>n\<close> calls.\<close>

fun after_calls :: "nat \<Rightarrow> ('s \<Rightarrow> go_error option \<times> 's) \<Rightarrow> 's \<Rightarrow> 's" where
  "after_calls 0 cb s = s"
| "after_calls (Suc n) cb s = after_calls n cb (snd (cb s))"

text \<open>
  C39. A write is attempted at most ten times, again only after a version conflict: it ends
  with the first success or with the first other error, and a version conflict is reported
  only after ten of them.
\<close>

theorem retry_bounded:
  fixes cb :: "'s \<Rightarrow> go_error option \<times> 's"
  shows "\<exists>n < 10. retry cb s = cb (after_calls n cb s) \<and>
    (\<forall>m < n. \<exists>e. fst (cb (after_calls m cb s)) = Some e \<and> Contains (err_text e) ''version conflict'') \<and>
    (n = 9 \<or> fst (retry cb s) = None \<or>
     (\<exists>e. fst (retry cb s) = Some e \<and> \<not> Contains (err_text e) ''version conflict''))"
proof -
  let ?vc = "\<lambda>e. Contains (err_text e) ''version conflict''"
  have "\<exists>n \<le> k. retry_from (Suc k) err cb s = cb (after_calls n cb s) \<and>
    (\<forall>m < n. \<exists>e. fst (cb (after_calls m cb s)) = Some e \<and> ?vc e) \<and>
    (n = k \<or> fst (retry_from (Suc k) err cb s) = None \<or>
     (\<exists>e. fst (retry_from (Suc k) err cb s) = Some e \<and> \<not> ?vc e))" for k err
  proof (induction k arbitrary: err s)
    case 0
    then show ?case by (auto split: prod.splits option.splits)
  next
    case (Suc k)
    obtain r s1 where cb: "cb s = (r, s1)" by fastforce
    show ?case
    proof (cases "\<exists>e. r = Some e \<and> ?vc e")
      case False
      then have "retry_from (Suc (Suc k)) err cb s = cb s" using cb by (cases r) auto
      then show ?thesis using False cb by (intro exI [of _ 0]) (cases r, auto)
    next
      case True
      then obtain e where e: "r = Some e" "?vc e" by blast
      have rr: "retry_from (Suc (Suc k)) err cb s = retry_from (Suc k) (Some e) cb s1"
        using cb e by (simp del: retry_from.simps(2) add: retry_from.simps(2) [of "Suc k"])
      obtain n where n: "n \<le> k" "retry_from (Suc k) (Some e) cb s1 = cb (after_calls n cb s1)"
        "\<forall>m < n. \<exists>e. fst (cb (after_calls m cb s1)) = Some e \<and> ?vc e"
        "n = k \<or> fst (retry_from (Suc k) (Some e) cb s1) = None \<or>
         (\<exists>e'. fst (retry_from (Suc k) (Some e) cb s1) = Some e' \<and> \<not> ?vc e')"
        using Suc.IH [of "Some e" s1] by blast
      have "\<forall>m < Suc n. \<exists>e. fst (cb (after_calls m cb s)) = Some e \<and> ?vc e"
        using n(3) cb e by (auto simp: less_Suc_eq_0_disj)
      then show ?thesis using n rr cb by (intro exI [of _ "Suc n"]) (simp del: retry_from.simps)
    qed
  qed
  from this [of 9 None] obtain n where "n \<le> 9" "retry cb s = cb (after_calls n cb s)"
    "\<forall>m < n. \<exists>e. fst (cb (after_calls m cb s)) = Some e \<and> ?vc e"
    "n = 9 \<or> fst (retry cb s) = None \<or> (\<exists>e. fst (retry cb s) = Some e \<and> \<not> ?vc e)"
    unfolding retry_def by (auto simp del: retry_from.simps simp: eval_nat_numeral)
  then show ?thesis by (intro exI [of _ n]) auto
qed

theorem retry_bounded_witness:
  "fst (retry (\<lambda>n::nat. (Some (Err ''version conflict''), Suc n)) 0) \<noteq> None"
  using retry_bounded [of "\<lambda>n::nat. (Some (Err ''version conflict''), Suc n)" 0] by auto

end
