(* ===== verification/ResultSets.thy ===== *)
theory ResultSets
  imports Elastic
begin

text \<open>
  Result sets on the document store (\<open>result_sets/simple\<close>, \<open>result_sets/timed\<close>): rows are
  written in packets that carry the range of rows they hold, a metadata record points at the
  current version of a result set, and a reader walks the packets from any row.
\<close>

section \<open>Environment\<close>

text \<open>
  The clock (nanoseconds of the n-th reading), the GUID generator, the row encoder and the
  configuration. The world is the store, the package's bulk indexer and the counters of the
  clock and the generator.
\<close>

record 's rs_env =
  rs_es :: "'s elastic"
  rs_now :: "nat \<Rightarrow> int"
  rs_guid :: "nat \<Rightarrow> string"
  rs_marshal :: "json \<Rightarrow> string result"
  rs_org_id :: string
  RowsPerResultSet :: nat
  MaxSizePerPacket :: nat

record 's world =
  wd_store :: 's
  wd_bulk :: "bulk_indexer option"
  wd_ticks :: nat
  wd_guids :: nat

definition Now :: "'s rs_env \<Rightarrow> 's world \<Rightarrow> int \<times> 's world" where
  "Now env w = (rs_now env (wd_ticks w), w\<lparr>wd_ticks := Suc (wd_ticks w)\<rparr>)"

definition GetGUID :: "'s rs_env \<Rightarrow> 's world \<Rightarrow> string \<times> 's world" where
  "GetGUID env w = (rs_guid env (wd_guids w), w\<lparr>wd_guids := Suc (wd_guids w)\<rparr>)"

section \<open>Records (simple.go, metadata.go)\<close>

record rs_record =
  rr_ClientId :: string
  rr_FlowId :: string
  rr_Artifact :: string
  rr_Type :: string
  rr_StartRow :: int
  rr_EndRow :: int
  rr_VFSPath :: string
  rr_JSONData :: string
  rr_TotalRows :: int
  rr_Timestamp :: int
  rr_ID :: string

definition NewSimpleResultSetRecord :: "string \<Rightarrow> string \<Rightarrow> rs_record" where
  "NewSimpleResultSetRecord log_path i =
     \<lparr>rr_ClientId = [], rr_FlowId = [], rr_Artifact = [], rr_Type = [], rr_StartRow = 0,
      rr_EndRow = 0, rr_VFSPath = log_path, rr_JSONData = [], rr_TotalRows = 0,
      rr_Timestamp = 0, rr_ID = i\<rparr>"

definition encode_record :: "rs_record \<Rightarrow> json" where
  "encode_record r = JObj
     [(''client_id'', JStr (rr_ClientId r)), (''flow_id'', JStr (rr_FlowId r)),
      (''artifact'', JStr (rr_Artifact r)), (''type'', JStr (rr_Type r)),
      (''start_row'', JInt (rr_StartRow r)), (''end_row'', JInt (rr_EndRow r)),
      (''vfs_path'', JStr (rr_VFSPath r)), (''data'', JStr (rr_JSONData r)),
      (''total_rows'', JInt (rr_TotalRows r)), (''timestamp'', JInt (rr_Timestamp r)),
      (''id'', JStr (rr_ID r))]"

definition decode_record :: "json \<Rightarrow> rs_record result" where
  "decode_record j =
     bindR (get_str ''client_id'' j) (\<lambda>a. bindR (get_str ''flow_id'' j) (\<lambda>b.
     bindR (get_str ''artifact'' j) (\<lambda>c. bindR (get_str ''type'' j) (\<lambda>d.
     bindR (get_int ''start_row'' j) (\<lambda>e. bindR (get_int ''end_row'' j) (\<lambda>f.
     bindR (get_str ''vfs_path'' j) (\<lambda>g. bindR (get_str ''data'' j) (\<lambda>h.
     bindR (get_int ''total_rows'' j) (\<lambda>i. bindR (get_int ''timestamp'' j) (\<lambda>k.
     bindR (get_str ''id'' j) (\<lambda>l.
       Inr \<lparr>rr_ClientId = a, rr_FlowId = b, rr_Artifact = c, rr_Type = d, rr_StartRow = e,
            rr_EndRow = f, rr_VFSPath = g, rr_JSONData = h, rr_TotalRows = i, rr_Timestamp = k,
            rr_ID = l\<rparr>)))))))))))"

lemma decode_encode_record [simp]: "decode_record (encode_record r) = Inr r"
  by (simp add: decode_record_def encode_record_def get_str_def get_int_def)

record rs_metadata =
  md_Timestamp :: int
  md_VFSPath :: string
  md_ID :: string
  md_EndRow :: int
  md_TotalRows :: int
  md_Type :: string

definition encode_md :: "rs_metadata \<Rightarrow> json" where
  "encode_md m = JObj
     [(''timestamp'', JInt (md_Timestamp m)), (''vfs_path'', JStr (md_VFSPath m)),
      (''id'', JStr (md_ID m)), (''end_row'', JInt (md_EndRow m)),
      (''total_rows'', JInt (md_TotalRows m)), (''type'', JStr (md_Type m))]"

definition decode_md :: "json \<Rightarrow> rs_metadata result" where
  "decode_md j =
     bindR (get_int ''timestamp'' j) (\<lambda>a. bindR (get_str ''vfs_path'' j) (\<lambda>b.
     bindR (get_str ''id'' j) (\<lambda>c. bindR (get_int ''end_row'' j) (\<lambda>d.
     bindR (get_int ''total_rows'' j) (\<lambda>e. bindR (get_str ''type'' j) (\<lambda>f.
       Inr \<lparr>md_Timestamp = a, md_VFSPath = b, md_ID = c, md_EndRow = d, md_TotalRows = e,
            md_Type = f\<rparr>))))))"

lemma decode_encode_md [simp]: "decode_md (encode_md m) = Inr m"
  by (simp add: decode_md_def encode_md_def get_str_def get_int_def)

definition result_md_query :: "string \<Rightarrow> search_req" where
  "result_md_query vfs_path =
     (query_of (Must [Match ''type'' (JStr ''rs_metadata''), Match ''vfs_path'' (JStr vfs_path)]))
       \<lparr>sq_sort := Some (''timestamp'', True), sq_size := Some 1\<rparr>"

definition GetResultSetMetadata :: "'s rs_env \<Rightarrow> string \<Rightarrow> 's world \<Rightarrow> rs_metadata result" where
  "GetResultSetMetadata env log_path w =
     bindR (QueryElasticRaw (rs_es env) (rs_org_id env) TRANSIENT (result_md_query log_path) (wd_store w))
       (\<lambda>(hits, n).
         case hits of
           [] \<Rightarrow> Inr \<lparr>md_Timestamp = 0, md_VFSPath = log_path, md_ID = [], md_EndRow = 0,
                      md_TotalRows = 0, md_Type = ''rs_metadata''\<rparr>
         | h # _ \<Rightarrow> decode_md h)"

text \<open>The caller's record is updated through the pointer: it is returned.\<close>

definition SetResultSetMetadata ::
  "'s rs_env \<Rightarrow> rs_metadata \<Rightarrow> 's world \<Rightarrow> go_error option \<times> rs_metadata \<times> 's world" where
  "SetResultSetMetadata env md w =
     (let (t, w1) = Now env w; md1 = md\<lparr>md_Timestamp := t\<rparr>
      in case SetElasticIndex (rs_es env) (rs_org_id env) TRANSIENT [] (encode_md md1) (wd_store w1) of
           (e, s) \<Rightarrow> (e, md1, w1\<lparr>wd_store := s\<rparr>))"

section \<open>The writer (writer.go, factory.go)\<close>

record rs_writer =
  rw_log_path :: string
  rw_buff :: string
  rw_buffered_rows :: int
  rw_start_row :: int
  rw_truncated :: bool
  rw_sync :: bool
  rw_md :: rs_metadata
  rw_version :: string
  rw_rows_per_result_set :: nat
  rw_max_size_per_packet :: nat

definition rs_Update :: "int \<Rightarrow> json \<Rightarrow> go_error option" where
  "rs_Update row data = Some (Err ''Updating result sets is not implemented yet.'')"

text \<open>
  \<open>Abort\<close> closes the writer, that is flushes it, and a synchronous \<open>writeJSONL\<close> whose write
  fails aborts the writer: \<open>flush\<close> is the flush that \<open>Abort\<close> makes. The recursion is given
  fuel; \<open>None\<close> is a run that has not returned within it.
\<close>

definition rs_Abort_with ::
  "(rs_writer \<Rightarrow> 's world \<Rightarrow> (rs_writer \<times> 's world) option) \<Rightarrow> rs_writer \<Rightarrow> 's world
     \<Rightarrow> (rs_writer \<times> 's world) option" where
  "rs_Abort_with flush rw w =
     flush (rw\<lparr>rw_md := (rw_md rw)\<lparr>md_TotalRows := -1, md_EndRow := -1\<rparr>\<rparr>) w"

definition rs_writeJSONL ::
  "'s rs_env \<Rightarrow> (rs_writer \<Rightarrow> 's world \<Rightarrow> (rs_writer \<times> 's world) option) \<Rightarrow> string \<Rightarrow> int
     \<Rightarrow> rs_writer \<Rightarrow> 's world \<Rightarrow> (rs_writer \<times> 's world) option" where
  "rs_writeJSONL env flush serialized n_rows rw w =
     (let (t, w1) = Now env w;
          rec = (NewSimpleResultSetRecord (rw_log_path rw) (rw_version rw))
            \<lparr>rr_JSONData := serialized, rr_StartRow := rw_start_row rw,
             rr_EndRow := rw_start_row rw + n_rows, rr_Timestamp := t div 1000000000,
             rr_ID := rw_version rw, rr_Type := ''result_set'',
             rr_TotalRows := rw_start_row rw + n_rows\<rparr>;
          rw1 = rw\<lparr>rw_start_row := rr_EndRow rec, rw_md := (rw_md rw)\<lparr>md_EndRow := rr_EndRow rec\<rparr>\<rparr>
      in if rw_sync rw then
           (case SetElasticIndex (rs_es env) (rs_org_id env) TRANSIENT [] (encode_record rec) (wd_store w1) of
              (None, s) \<Rightarrow> Some (rw1, w1\<lparr>wd_store := s\<rparr>)
            | (Some e, s) \<Rightarrow> rs_Abort_with flush rw1 (w1\<lparr>wd_store := s\<rparr>))
         else
           (case SetElasticIndexAsync (rs_es env) (rs_org_id env) TRANSIENT [] ''create''
                   (encode_record rec) (wd_bulk w1) (wd_store w1) of
              (e, b, s) \<Rightarrow> Some (rw1, w1\<lparr>wd_store := s, wd_bulk := b\<rparr>)))"

fun rs_Flush :: "'s rs_env \<Rightarrow> nat \<Rightarrow> rs_writer \<Rightarrow> 's world \<Rightarrow> (rs_writer \<times> 's world) option" where
  "rs_Flush env 0 rw w = None"
| "rs_Flush env (Suc fuel) rw w =
     (if rw_buffered_rows rw = 0 then Some (rw, w)
      else case rs_writeJSONL env (rs_Flush env fuel) (rw_buff rw) (rw_buffered_rows rw) rw w of
             None \<Rightarrow> None
           | Some (rw1, w1) \<Rightarrow>
               (case SetResultSetMetadata env (rw_md rw1) w1 of
                  (ignored, md, w2) \<Rightarrow>
                    (case FlushIndex (rs_es env) (rs_org_id env) TRANSIENT (wd_store w2) of
                       (ignored', s) \<Rightarrow>
                         Some (rw1\<lparr>rw_buff := [], rw_buffered_rows := 0, rw_md := md,
                                   rw_truncated := True\<rparr>, w2\<lparr>wd_store := s\<rparr>))))"

definition rs_Close :: "'s rs_env \<Rightarrow> nat \<Rightarrow> rs_writer \<Rightarrow> 's world \<Rightarrow> (rs_writer \<times> 's world) option" where
  "rs_Close env fuel rw w = rs_Flush env fuel rw w"

definition rs_Abort :: "'s rs_env \<Rightarrow> nat \<Rightarrow> rs_writer \<Rightarrow> 's world \<Rightarrow> (rs_writer \<times> 's world) option" where
  "rs_Abort env fuel rw w = rs_Abort_with (rs_Close env fuel) rw w"

text \<open>The rest of \<open>WriteJSONL\<close> and \<open>Write\<close>: flush when the buffer is large.\<close>

definition rs_flush_if_large ::
  "'s rs_env \<Rightarrow> nat \<Rightarrow> rs_writer \<Rightarrow> 's world \<Rightarrow> (rs_writer \<times> 's world) option" where
  "rs_flush_if_large env fuel rw w =
     (if rw_buffered_rows rw > int (rw_rows_per_result_set rw) \<or>
         length (rw_buff rw) > rw_max_size_per_packet rw
      then rs_Flush env fuel rw w else Some (rw, w))"

definition rs_WriteJSONL ::
  "'s rs_env \<Rightarrow> nat \<Rightarrow> string \<Rightarrow> int \<Rightarrow> rs_writer \<Rightarrow> 's world \<Rightarrow> (rs_writer \<times> 's world) option" where
  "rs_WriteJSONL env fuel serialized n_rows rw w =
     rs_flush_if_large env fuel
       (rw\<lparr>rw_buff := rw_buff rw @ serialized, rw_buffered_rows := rw_buffered_rows rw + n_rows\<rparr>) w"

definition rs_Write :: "'s rs_env \<Rightarrow> nat \<Rightarrow> json \<Rightarrow> rs_writer \<Rightarrow> 's world \<Rightarrow> (rs_writer \<times> 's world) option"
where
  "rs_Write env fuel row rw w =
     (case rs_marshal env row of
        Inl e \<Rightarrow> Some (rw, w)
      | Inr serialized \<Rightarrow>
          rs_flush_if_large env fuel
            (rw\<lparr>rw_buff := rw_buff rw @ serialized @ ''\<newline>'',
                rw_buffered_rows := rw_buffered_rows rw + 1\<rparr>) w)"

definition rs_SetStartRow :: "int \<Rightarrow> rs_writer \<Rightarrow> rs_writer" where
  "rs_SetStartRow start_row rw = rw\<lparr>rw_start_row := start_row, rw_truncated := True\<rparr>"

definition rs_SetSync :: "rs_writer \<Rightarrow> rs_writer" where
  "rs_SetSync rw = rw\<lparr>rw_sync := True\<rparr>"

definition NewResultSetWriter ::
  "'s rs_env \<Rightarrow> string \<Rightarrow> bool \<Rightarrow> bool \<Rightarrow> 's world \<Rightarrow> rs_writer result \<times> 's world" where
  "NewResultSetWriter env log_path sync trunc w =
     (let rows = (if RowsPerResultSet env = 0 then 1000 else RowsPerResultSet env);
          max_size = (if MaxSizePerPacket env = 0 then 1024 * 1024 else MaxSizePerPacket env);
          (new_id, w1) = GetGUID env w;
          (t, w2) = Now env w1;
          md = \<lparr>md_Timestamp = t, md_VFSPath = log_path, md_ID = new_id, md_EndRow = 0,
                md_TotalRows = 0, md_Type = ''rs_metadata''\<rparr>;
          mk = (\<lambda>md. \<lparr>rw_log_path = log_path, rw_buff = [], rw_buffered_rows = 0,
                 rw_start_row = md_EndRow md, rw_truncated = False, rw_sync = sync, rw_md = md,
                 rw_version = md_ID md, rw_rows_per_result_set = rows,
                 rw_max_size_per_packet = max_size\<rparr>)
      in case (if trunc then Inl NotFoundError else GetResultSetMetadata env log_path w2) of
           Inr existing_md \<Rightarrow> (Inr (mk existing_md), w2)
         | Inl e \<Rightarrow>
             (case SetResultSetMetadata env md w2 of
                (Some e, md1, w3) \<Rightarrow> (Inl e, w3)
              | (None, md1, w3) \<Rightarrow> (Inr (mk md1), w3)))"

section \<open>The reader (reader.go, factory.go)\<close>

record rs_reader =
  rd_row :: int
  rd_base :: rs_record
  rd_mtime :: int
  rd_md :: rs_metadata
  rd_stacker :: "string option"

definition rd_SeekToRow :: "int \<Rightarrow> rs_reader \<Rightarrow> rs_reader" where
  "rd_SeekToRow start r = r\<lparr>rd_row := start\<rparr>"

definition artifact_clause :: "rs_record \<Rightarrow> clause list" where
  "artifact_clause b = (if rr_Artifact b \<noteq> [] then [Match ''artifact'' (JStr (rr_Artifact b))] else [])"

definition packet_query :: "rs_record \<Rightarrow> int \<Rightarrow> search_req" where
  "packet_query b row =
     (if rr_VFSPath b \<noteq> [] then
        query_of (Must [Match ''vfs_path'' (JStr (rr_VFSPath b)), Match ''id'' (JStr (rr_ID b)),
          Match ''type'' (JStr ''result_set''), Range ''start_row'' Lte row, Range ''end_row'' Gt row])
      else
        query_of (Must ([Match ''client_id'' (JStr (rr_ClientId b)),
          Match ''flow_id'' (JStr (rr_FlowId b)), Match ''type'' (JStr (rr_Type b)),
          Match ''id'' (JStr (rr_ID b)), Match ''type'' (JStr ''result_set''),
          Range ''start_row'' Lte row, Range ''end_row'' Gt row] @ artifact_clause b)))"

definition getPacket :: "'s rs_env \<Rightarrow> rs_record \<Rightarrow> int \<Rightarrow> 's world \<Rightarrow> rs_record result" where
  "getPacket env b row w =
     bindR (QueryElasticRaw (rs_es env) (rs_org_id env) TRANSIENT (packet_query b row) (wd_store w))
       (\<lambda>(hits, n). case hits of [] \<Rightarrow> Inl (Err ''Not found'') | h # _ \<Rightarrow> decode_record h)"

definition last_record_query :: "rs_record \<Rightarrow> search_req" where
  "last_record_query b =
     (if rr_VFSPath b \<noteq> [] then
        (query_of (Must [Match ''id'' (JStr (rr_ID b)), Match ''type'' (JStr ''result_set''),
           Match ''vfs_path'' (JStr (rr_VFSPath b))]))
          \<lparr>sq_sort := Some (''end_row'', True), sq_size := Some 1\<rparr>
      else
        (query_of (Must ([Match ''id'' (JStr (rr_ID b)), Match ''client_id'' (JStr (rr_ClientId b)),
           Match ''type'' (JStr ''result_set''), Match ''flow_id'' (JStr (rr_FlowId b)),
           Match ''type'' (JStr (rr_Type b))] @ artifact_clause b)))
          \<lparr>sq_sort := Some (''end_row'', True), sq_size := Some 1\<rparr>)"

fun first_decoded :: "json list \<Rightarrow> rs_record result" where
  "first_decoded [] = Inl (Err ''Not found'')"
| "first_decoded (h # hs) = (case decode_record h of Inl e \<Rightarrow> first_decoded hs | Inr r \<Rightarrow> Inr r)"

definition getLastRecord :: "'s rs_env \<Rightarrow> rs_record \<Rightarrow> 's world \<Rightarrow> rs_record result" where
  "getLastRecord env b w =
     bindR (QueryElasticRaw (rs_es env) (rs_org_id env) TRANSIENT (last_record_query b) (wd_store w))
       (\<lambda>(hits, n). first_decoded hits)"

definition NewResultSetReader :: "'s rs_env \<Rightarrow> string \<Rightarrow> 's world \<Rightarrow> rs_reader result" where
  "NewResultSetReader env log_path w =
     (case GetResultSetMetadata env log_path w of
        Inl e \<Rightarrow> Inl NotFoundError
      | Inr md \<Rightarrow>
          if md_TotalRows md < 0 then Inl NotFoundError
          else
            let base = NewSimpleResultSetRecord log_path (md_ID md);
                md1 = (if md_EndRow md = 0 then
                         (case getLastRecord env base w of
                            Inl e \<Rightarrow> md
                          | Inr last_rec \<Rightarrow> md\<lparr>md_EndRow := rr_EndRow last_rec\<rparr>)
                       else md)
            in Inr \<lparr>rd_row = 0, rd_base = base, rd_mtime = md_Timestamp md, rd_md = md1,
                    rd_stacker = None\<rparr>)"

text \<open>The lines of a packet as \<open>bufio.Reader.ReadBytes('\n')\<close> returns them.\<close>

fun split_lines :: "string \<Rightarrow> string list" where
  "split_lines [] = []"
| "split_lines (c # s) =
     (if c = CHR ''\<newline>'' then [c] # split_lines s
      else (case split_lines s of [] \<Rightarrow> [[c]] | l # ls \<Rightarrow> (c # l) # ls))"

text \<open>
  The inner loop over the lines of a packet: lines before the wanted row are skipped. The
  lines delivered and the row reached.
\<close>

fun take_lines :: "string list \<Rightarrow> int \<Rightarrow> int \<Rightarrow> string list \<times> int" where
  "take_lines [] start_row row = ([], row)"
| "take_lines (l # ls) start_row row =
     (if start_row < row then take_lines ls (start_row + 1) row
      else (case take_lines ls (start_row + 1) (row + 1) of (out, row') \<Rightarrow> (l # out, row')))"

text \<open>
  The outer loop, with a fuel of one unit for each packet; \<open>last_row\<close> is the guard against a
  packet that makes no progress.
\<close>

fun rd_loop :: "'s rs_env \<Rightarrow> nat \<Rightarrow> rs_reader \<Rightarrow> int \<Rightarrow> int \<Rightarrow> 's world \<Rightarrow> string list" where
  "rd_loop env 0 r last_row row w = []"
| "rd_loop env (Suc fuel) r last_row row w =
     (if last_row = row then []
      else if md_EndRow (rd_md r) > 0 \<and> row \<ge> md_EndRow (rd_md r) then []
      else case getPacket env (rd_base r) row w of
             Inl e \<Rightarrow> []
           | Inr packet \<Rightarrow>
               (case take_lines (split_lines (rr_JSONData packet)) (rr_StartRow packet) row of
                  (out, row') \<Rightarrow> out @ rd_loop env fuel r row row' w))"

definition rd_JSON :: "'s rs_env \<Rightarrow> nat \<Rightarrow> rs_reader \<Rightarrow> 's world \<Rightarrow> string list" where
  "rd_JSON env fuel r w = rd_loop env fuel r (-1) (rd_row r) w"

text \<open>\<open>Rows\<close> is the same walk with the lines decoded and the undecodable ones left out.\<close>

definition rd_Rows ::
  "'s rs_env \<Rightarrow> (string \<Rightarrow> json option) \<Rightarrow> nat \<Rightarrow> rs_reader \<Rightarrow> 's world \<Rightarrow> json list" where
  "rd_Rows env unmarshal fuel r w =
     concat (map (\<lambda>l. case unmarshal l of None \<Rightarrow> [] | Some j \<Rightarrow> [j]) (rd_loop env fuel r (-1) (rd_row r) w))"

definition rd_TotalRows :: "rs_reader \<Rightarrow> int" where
  "rd_TotalRows r = md_EndRow (rd_md r)"

definition rd_MTime :: "rs_reader \<Rightarrow> int" where
  "rd_MTime r = rd_mtime r"

definition rd_Stacker :: "rs_reader \<Rightarrow> string option" where
  "rd_Stacker r = rd_stacker r"

definition rd_SetStacker :: "string \<Rightarrow> rs_reader \<Rightarrow> rs_reader" where
  "rd_SetStacker p r = r\<lparr>rd_stacker := Some p\<rparr>"

section \<open>The lines of a packet\<close>

definition is_line :: "string \<Rightarrow> bool" where
  "is_line l \<longleftrightarrow> (\<exists>x. l = x @ ''\<newline>'' \<and> CHR ''\<newline>'' \<notin> set x)"

lemma split_lines_line: "CHR ''\<newline>'' \<notin> set x \<Longrightarrow> split_lines (x @ CHR ''\<newline>'' # s) = (x @ ''\<newline>'') # split_lines s"
  by (induction x) auto

lemma split_lines_concat: "\<forall>l \<in> set ls. is_line l \<Longrightarrow> split_lines (concat ls) = ls"
  by (induction ls) (auto simp: is_line_def split_lines_line)

lemma take_lines_eq:
  "start \<le> row \<Longrightarrow> row \<le> start + int (length ls) \<Longrightarrow>
     take_lines ls start row = (drop (nat (row - start)) ls, start + int (length ls))"
proof (induction ls start row rule: take_lines.induct)
  case (2 l ls start row)
  show ?case
  proof (cases "start < row")
    case True
    then have "nat (row - start) = Suc (nat (row - (start + 1)))" by simp
    then show ?thesis using 2 True by simp
  next
    case False
    then have "row = start" using 2 by simp
    then show ?thesis using "2.IH"(2) False 2 by (simp add: split_def)
  qed
qed simp

text \<open>Packets laid out one after the other from a row on.\<close>

fun lay :: "nat \<Rightarrow> string list list \<Rightarrow> (nat \<times> string list) list" where
  "lay s [] = []"
| "lay s (ls # lss) = (s, ls) # lay (s + length ls) lss"

lemma lay_snoc: "lay s (lss @ [ls]) = lay s lss @ [(s + length (concat lss), ls)]"
  by (induction lss arbitrary: s) auto

text \<open>The packet that covers a row.\<close>

lemma lay_cover:
  assumes "s \<le> k" and "k < s + length (concat lss)"
  shows "\<exists>xs a ls ys. lay s lss = xs @ (a, ls) # ys \<and> a \<le> k \<and> k < a + length ls \<and>
    (\<forall>(b, ms) \<in> set xs. b + length ms \<le> k) \<and> (\<forall>(b, ms) \<in> set ys. k < b)"
  using assms
proof (induction lss arbitrary: s)
  case (Cons ls lss)
  have later: "\<forall>(b, ms) \<in> set (lay t lss). t \<le> b" for t
    by (induction lss arbitrary: t) (auto, fastforce)
  show ?case
  proof (cases "k < s + length ls")
    case True
    then show ?thesis
      using Cons.prems later [of "s + length ls"]
      by (intro exI [of _ "[]"] exI [of _ s] exI [of _ ls] exI [of _ "lay (s + length ls) lss"]) fastforce
  next
    case False
    then obtain xs a ls' ys where *: "lay (s + length ls) lss = xs @ (a, ls') # ys" "a \<le> k"
      "k < a + length ls'" "\<forall>(b, ms) \<in> set xs. b + length ms \<le> k" "\<forall>(b, ms) \<in> set ys. k < b"
      using Cons.IH [of "s + length ls"] Cons.prems by auto
    then show ?thesis
      using False
      by (intro exI [of _ "(s, ls) # xs"] exI [of _ a] exI [of _ ls'] exI [of _ ys]) auto
  qed
qed simp

section \<open>A healthy store\<close>

text \<open>
  Searches answer as documented, a write under a random id adds one document, a refresh
  changes none.
\<close>

definition reliable_store :: "'s elastic \<Rightarrow> ('s \<Rightarrow> cluster \<Rightarrow> string \<Rightarrow> index_docs) \<Rightarrow> bool" where
  "reliable_store es docs \<longleftrightarrow> search_contract es docs \<and>
     (\<forall>c idx j s. \<exists>tx js i s'. os_Index es c idx [] j s =
        (Inr \<lparr>rp_IsError = False, rp_text = tx, rp_json = js\<rparr>, s') \<and>
        docs s' c idx = docs s c idx @ [(i, j)]) \<and>
     (\<forall>c idxs s d idx. docs (snd (os_Refresh es c idxs s)) d idx = docs s d idx)"

lemma SetElasticIndex_adds:
  assumes "reliable_store es docs" and "GetElasticClient es org = Inr c"
  shows "\<exists>i s'. SetElasticIndex es org idx [] j s = (None, s') \<and>
           docs s' c (GetIndex org idx) = docs s c (GetIndex org idx) @ [(i, j)]"
proof -
  obtain tx js i s' where "os_Index es c (GetIndex org idx) [] j s =
      (Inr \<lparr>rp_IsError = False, rp_text = tx, rp_json = js\<rparr>, s')"
    and "docs s' c (GetIndex org idx) = docs s c (GetIndex org idx) @ [(i, j)]"
    using assms(1) unfolding reliable_store_def by metis
  then show ?thesis
    by (intro exI [of _ i] exI [of _ s'])
      (simp add: SetElasticIndex_def retry_def SetElasticIndex_once_def write_outcome_def assms(2)
        numeral_nat)
qed

lemma FlushIndex_keeps:
  assumes "reliable_store es docs"
  shows "docs (snd (FlushIndex es org idx s)) c i = docs s c i"
  using assms unfolding reliable_store_def
  by (auto simp: FlushIndex_def split: sum.splits prod.splits) (metis snd_conv)+

section \<open>The state of a result set\<close>

text \<open>
  What the store holds for the path \<open>P\<close>: the newest metadata record names the version \<open>V\<close>
  and the number of rows, and the packets of the version are laid out contiguously from row 0
  and hold the lines \<open>rows\<close>.
\<close>

definition all_docs :: "'s rs_env \<Rightarrow> ('s \<Rightarrow> cluster \<Rightarrow> string \<Rightarrow> index_docs) \<Rightarrow> cluster \<Rightarrow> 's world \<Rightarrow> index_docs"
where
  "all_docs env docs c w = docs (wd_store w) c (GetIndex (rs_org_id env) TRANSIENT)"

definition packets_of :: "string \<Rightarrow> string \<Rightarrow> index_docs \<Rightarrow> index_docs" where
  "packets_of P V ds = filter (\<lambda>d. matches (Must [Match ''vfs_path'' (JStr P), Match ''id'' (JStr V),
     Match ''type'' (JStr ''result_set'')]) (snd d)) ds"

definition mds_of :: "string \<Rightarrow> index_docs \<Rightarrow> index_docs" where
  "mds_of P ds = filter (\<lambda>d. matches (sq_query (result_md_query P)) (snd d)) ds"

definition packet_doc :: "string \<Rightarrow> string \<Rightarrow> nat \<times> string list \<Rightarrow> json \<Rightarrow> bool" where
  "packet_doc P V p d \<longleftrightarrow> (\<exists>t. d = encode_record
     \<lparr>rr_ClientId = [], rr_FlowId = [], rr_Artifact = [], rr_Type = ''result_set'',
      rr_StartRow = int (fst p), rr_EndRow = int (fst p + length (snd p)), rr_VFSPath = P,
      rr_JSONData = concat (snd p), rr_TotalRows = int (fst p + length (snd p)), rr_Timestamp = t,
      rr_ID = V\<rparr>)"

definition newest :: "rs_metadata \<Rightarrow> index_docs \<Rightarrow> bool" where
  "newest md ms \<longleftrightarrow> (\<exists>xs i. ms = xs @ [(i, encode_md md)] \<and>
     (\<forall>x \<in> set xs. key_of ''timestamp'' x < KInt (md_Timestamp md)))"

definition is_md :: "string \<Rightarrow> string \<Rightarrow> nat \<Rightarrow> rs_metadata \<Rightarrow> bool" where
  "is_md P V n md \<longleftrightarrow> md_VFSPath md = P \<and> md_ID md = V \<and> md_EndRow md = int n \<and>
     md_TotalRows md = 0 \<and> md_Type md = ''rs_metadata''"

definition stores_rows :: "string \<Rightarrow> string \<Rightarrow> string list \<Rightarrow> rs_metadata \<Rightarrow> index_docs \<Rightarrow> bool" where
  "stores_rows P V rows md ds \<longleftrightarrow> is_md P V (length rows) md \<and> newest md (mds_of P ds) \<and>
     (\<exists>lss. concat lss = rows \<and> (\<forall>ls \<in> set lss. ls \<noteq> []) \<and>
        list_all2 (packet_doc P V) (lay 0 lss) (map snd (packets_of P V ds)))"

lemma insort_key_last:
  "\<forall>y \<in> set ys. k y < k x \<Longrightarrow> insort_key k x ys = ys @ [x]"
  by (induction ys) auto

lemma sort_desc_newest:
  assumes "\<forall>x \<in> set xs. key_of f x < key_of f m"
  shows "\<exists>zs. sorted_hits (Some (f, True)) (xs @ [m]) = m # zs"
  using assms insort_key_last [of "sort_key (key_of f) (rev xs)" "key_of f" m]
  by (simp add: sorted_hits_def)

lemma encode_md_fields:
  "jget ''timestamp'' (encode_md md) = Some (JInt (md_Timestamp md))"
  "jget ''vfs_path'' (encode_md md) = Some (JStr (md_VFSPath md))"
  "jget ''id'' (encode_md md) = Some (JStr (md_ID md))"
  "jget ''type'' (encode_md md) = Some (JStr (md_Type md))"
  by (simp_all add: encode_md_def)

lemma encode_record_fields:
  "jget ''vfs_path'' (encode_record r) = Some (JStr (rr_VFSPath r))"
  "jget ''id'' (encode_record r) = Some (JStr (rr_ID r))"
  "jget ''type'' (encode_record r) = Some (JStr (rr_Type r))"
  "jget ''start_row'' (encode_record r) = Some (JInt (rr_StartRow r))"
  "jget ''end_row'' (encode_record r) = Some (JInt (rr_EndRow r))"
  by (simp_all add: encode_record_def)

lemmas doc_fields = encode_md_fields encode_record_fields field_values_def

lemma GetResultSetMetadata_newest:
  assumes "reliable_store (rs_es env) docs" and "GetElasticClient (rs_es env) (rs_org_id env) = Inr c"
    and "newest md (mds_of P (all_docs env docs c w))"
  shows "GetResultSetMetadata env P w = Inr md"
proof -
  obtain xs i where ms: "mds_of P (all_docs env docs c w) = xs @ [(i, encode_md md)]"
    and xs: "\<forall>x \<in> set xs. key_of ''timestamp'' x < KInt (md_Timestamp md)"
    using assms(3) by (auto simp: newest_def)
  have "\<forall>x \<in> set xs. key_of ''timestamp'' x < key_of ''timestamp'' (i, encode_md md)"
    using xs by (simp add: key_of_def encode_md_fields)
  then obtain zs where "sorted_hits (Some (''timestamp'', True)) (xs @ [(i, encode_md md)]) =
      (i, encode_md md) # zs"
    using sort_desc_newest by blast
  then have "search_hits (result_md_query P) (docs (wd_store w) c (GetIndex (rs_org_id env) TRANSIENT)) =
      [(i, encode_md md)]"
    using ms by (simp add: search_hits_def after_hits_def mds_of_def all_docs_def result_md_query_def
        query_of_def)
  then show ?thesis
    using QueryElasticRaw_hits [of "rs_es env" docs "rs_org_id env" c "result_md_query P" TRANSIENT "wd_store w"]
      assms(1,2)
    by (simp add: GetResultSetMetadata_def reliable_store_def result_md_query_def query_of_def)
qed

section \<open>The reader delivers the rows\<close>

lemma list_all2_split:
  assumes "list_all2 R (xs @ y # ys) zs"
  obtains as b bs where "zs = as @ b # bs" "list_all2 R xs as" "R y b" "list_all2 R ys bs"
  using assms by (auto simp: list_all2_append1 list_all2_Cons1)

lemma list_all2_in_right: "list_all2 R xs ys \<Longrightarrow> y \<in> set ys \<Longrightarrow> \<exists>x \<in> set xs. R x y"
  by (induction rule: list_all2_induct) auto

lemma filter_none: "\<forall>x \<in> set xs. \<not> Q x \<Longrightarrow> filter Q xs = []"
  by (simp add: filter_empty_conv)

lemma packet_range:
  assumes "packet_doc P V p d"
  shows "matches (Range ''start_row'' Lte k) d \<longleftrightarrow> int (fst p) \<le> k"
    and "matches (Range ''end_row'' Gt k) d \<longleftrightarrow> k < int (fst p + length (snd p))"
  using assms by (auto simp: packet_doc_def doc_fields)

lemma packet_query_filter:
  assumes "P \<noteq> []"
  shows "filter (\<lambda>d. matches (sq_query (packet_query (NewSimpleResultSetRecord P V) k)) (snd d)) ds =
    filter (\<lambda>d. matches (Range ''start_row'' Lte k) (snd d) \<and> matches (Range ''end_row'' Gt k) (snd d))
      (packets_of P V ds)"
  unfolding packets_of_def filter_filter
  by (rule filter_cong [OF refl])
    (use assms in \<open>auto simp: packet_query_def query_of_def NewSimpleResultSetRecord_def\<close>)

lemma getPacket_none:
  assumes rs: "reliable_store (rs_es env) docs" and cl: "GetElasticClient (rs_es env) (rs_org_id env) = Inr c"
    and P: "P \<noteq> []" and "packets_of P V (all_docs env docs c w) = []"
  shows "\<exists>e. getPacket env (NewSimpleResultSetRecord P V) k w = Inl e"
proof -
  let ?q = "packet_query (NewSimpleResultSetRecord P V) k"
  have "filter (\<lambda>d. matches (sq_query ?q) (snd d)) (all_docs env docs c w) = []"
    using packet_query_filter [OF P] assms(4) by simp
  then have "search_hits ?q (all_docs env docs c w) = []"
    by (simp add: search_hits_def sorted_hits_def after_hits_def packet_query_def query_of_def)
  moreover have "sq_source ?q" by (simp add: packet_query_def query_of_def)
  ultimately show ?thesis
    using QueryElasticRaw_hits [of "rs_es env" docs "rs_org_id env" c ?q TRANSIENT "wd_store w"] rs cl
    by (simp add: getPacket_def reliable_store_def all_docs_def)
qed

lemma getPacket_covers:
  assumes rs: "reliable_store (rs_es env) docs" and cl: "GetElasticClient (rs_es env) (rs_org_id env) = Inr c"
    and P: "P \<noteq> []"
    and ps: "list_all2 (packet_doc P V) (lay 0 lss) (map snd (packets_of P V (all_docs env docs c w)))"
    and k: "k < length (concat lss)"
  shows "\<exists>a ls r. getPacket env (NewSimpleResultSetRecord P V) (int k) w = Inr r \<and>
    rr_StartRow r = int a \<and> rr_JSONData r = concat ls \<and> (\<exists>pre post. concat lss = pre @ ls @ post \<and>
    length pre = a) \<and> a \<le> k \<and> k < a + length ls \<and> set ls \<subseteq> set (concat lss)"
proof -
  let ?b = "NewSimpleResultSetRecord P V"
  obtain xs a ls ys where l: "lay 0 lss = xs @ (a, ls) # ys" "a \<le> k" "k < a + length ls"
    "\<forall>(b, ms) \<in> set xs. b + length ms \<le> k" "\<forall>(b, ms) \<in> set ys. k < b"
    using lay_cover [of 0 k lss] k by auto
  obtain as d bs where z: "map snd (packets_of P V (all_docs env docs c w)) = as @ d # bs"
    "list_all2 (packet_doc P V) xs as" "packet_doc P V (a, ls) d" "list_all2 (packet_doc P V) ys bs"
    using ps [unfolded l(1)] by (rule list_all2_split)
  let ?Q = "\<lambda>d. matches (Range ''start_row'' Lte (int k)) d \<and> matches (Range ''end_row'' Gt (int k)) d"
  have "\<not> ?Q x" if x: "x \<in> set as" for x
  proof -
    obtain p where p: "p \<in> set xs" "packet_doc P V p x"
      using list_all2_in_right [OF z(2) x] by blast
    then have "fst p + length (snd p) \<le> k" using l(4) by auto
    then show ?thesis using packet_range(2) [OF p(2), of "int k"] by (simp del: matches.simps)
  qed
  moreover have "\<not> ?Q x" if x: "x \<in> set bs" for x
  proof -
    obtain p where p: "p \<in> set ys" "packet_doc P V p x"
      using list_all2_in_right [OF z(4) x] by blast
    then have "k < fst p" using l(5) by auto
    then show ?thesis using packet_range(1) [OF p(2), of "int k"] by (simp del: matches.simps)
  qed
  moreover have "?Q d" using packet_range [OF z(3), of "int k"] l(2,3) by (simp del: matches.simps)
  ultimately have f: "filter ?Q (map snd (packets_of P V (all_docs env docs c w))) = [d]"
    unfolding z(1) by (simp add: filter_none)
  have "filter (\<lambda>d. matches (sq_query (packet_query ?b (int k))) (snd d)) (all_docs env docs c w) =
      filter (\<lambda>d. ?Q (snd d)) (packets_of P V (all_docs env docs c w))"
    by (rule packet_query_filter [OF P])
  moreover have "map snd (filter (\<lambda>d. ?Q (snd d)) (packets_of P V (all_docs env docs c w))) = [d]"
    using f by (simp add: filter_map comp_def)
  ultimately have one: "map snd (filter (\<lambda>d. matches (sq_query (packet_query ?b (int k))) (snd d))
      (all_docs env docs c w)) = [d]" by simp
  have "sq_sort (packet_query ?b (int k)) = None" "sq_from (packet_query ?b (int k)) = None"
    "sq_size (packet_query ?b (int k)) = None" by (simp_all add: packet_query_def query_of_def)
  then have "map snd (search_hits (packet_query ?b (int k)) (all_docs env docs c w)) = [d]"
    using one by (auto simp: search_hits_def sorted_hits_def after_hits_def)
  then obtain i where hit: "QueryElasticRaw (rs_es env) (rs_org_id env) TRANSIENT (packet_query ?b (int k))
      (wd_store w) = Inr ([d], i)"
    using QueryElasticRaw_hits [of "rs_es env" docs "rs_org_id env" c "packet_query ?b (int k)" TRANSIENT "wd_store w"]
      rs cl by (simp add: reliable_store_def all_docs_def packet_query_def query_of_def)
  obtain r where r: "d = encode_record r" "rr_StartRow r = int a" "rr_JSONData r = concat ls"
    using z(3) by (auto simp: packet_doc_def)
  have pieces: "\<exists>pre post. concat mss = pre @ ls @ post \<and> s + length pre = a"
    if "lay s mss = us @ (a, ls) # vs" for s mss us vs
    using that
  proof (induction mss arbitrary: s us)
    case (Cons m mss)
    show ?case
    proof (cases us)
      case Nil
      then show ?thesis
        using Cons.prems by (intro exI [of _ "[]"] exI [of _ "concat mss"]) simp
    next
      case (Cons u us')
      then obtain pre post where "concat mss = pre @ ls @ post" "s + length m + length pre = a"
        using Cons.IH [of "s + length m" us'] Cons.prems by auto
      then show ?thesis by (intro exI [of _ "m @ pre"] exI [of _ post]) simp
    qed
  qed simp
  have "getPacket env ?b (int k) w = Inr r"
    using hit r(1) by (simp add: getPacket_def)
  moreover obtain pre post where "concat lss = pre @ ls @ post" "length pre = a"
    using pieces [OF l(1)] by auto
  ultimately show ?thesis
    using r(2,3) l(2,3)
    by (intro exI [of _ a] exI [of _ ls] exI [of _ r] conjI exI [of _ pre] exI [of _ post]) auto
qed

lemma rd_loop_rows:
  assumes rs: "reliable_store (rs_es env) docs" and cl: "GetElasticClient (rs_es env) (rs_org_id env) = Inr c"
    and P: "P \<noteq> []" and base: "rd_base r = NewSimpleResultSetRecord P V"
    and ps: "list_all2 (packet_doc P V) (lay 0 lss) (map snd (packets_of P V (all_docs env docs c w)))"
    and ne: "\<forall>ls \<in> set lss. ls \<noteq> []" and lines: "\<forall>l \<in> set (concat lss). is_line l"
    and e: "md_EndRow (rd_md r) = int (length (concat lss))"
  shows "k \<le> length (concat lss) \<Longrightarrow> length (concat lss) - k < fuel \<Longrightarrow> last_row \<noteq> int k \<Longrightarrow>
    rd_loop env fuel r last_row (int k) w = drop k (concat lss)"
proof (induction fuel arbitrary: k last_row)
  case (Suc fuel)
  show ?case
  proof (cases "k = length (concat lss)")
    case True
    show ?thesis
    proof (cases "concat lss = []")
      case False
      then show ?thesis using True e Suc.prems by simp
    next
      case nil: True
      then have l: "lss = []" using ne by (cases lss) auto
      then have "packets_of P V (all_docs env docs c w) = []" using ps by simp
      from getPacket_none [OF rs cl P this, of "int k"] obtain e
        where "getPacket env (rd_base r) (int k) w = Inl e" using base by auto
      then show ?thesis using l by simp
    qed
  next
    case False
    then have k: "k < length (concat lss)" using Suc.prems by simp
    obtain a ls p pre post where p: "getPacket env (rd_base r) (int k) w = Inr p"
      "rr_StartRow p = int a" "rr_JSONData p = concat ls" "concat lss = pre @ ls @ post"
      "length pre = a" "a \<le> k" "k < a + length ls" "set ls \<subseteq> set (concat lss)"
      using getPacket_covers [OF rs cl P ps k] base by metis
    have "split_lines (rr_JSONData p) = ls" using p(3,8) lines by (auto intro!: split_lines_concat)
    then have t: "take_lines (split_lines (rr_JSONData p)) (rr_StartRow p) (int k) =
        (drop (k - a) ls, int (a + length ls))"
      using take_lines_eq [of "int a" "int k" ls] p(2,6,7) by (simp add: nat_diff_distrib)
    have "rd_loop env fuel r (int k) (int (a + length ls)) w = drop (a + length ls) (concat lss)"
      by (rule Suc.IH) (use p(4,5,7) Suc.prems in auto)
    moreover have "drop k (concat lss) = drop (k - a) ls @ drop (a + length ls) (concat lss)"
      using p(4,5,6,7) by simp
    moreover have "\<not> md_EndRow (rd_md r) \<le> int k" using e k by simp
    ultimately show ?thesis using p(1) t Suc.prems(3) by simp
  qed
qed simp

section \<open>The writer keeps the rows\<close>

text \<open>
  The state of a synchronous writer in use: the store holds the rows flushed so far, the
  buffer the lines after them.
\<close>

definition writer_ok ::
  "'s rs_env \<Rightarrow> ('s \<Rightarrow> cluster \<Rightarrow> string \<Rightarrow> index_docs) \<Rightarrow> cluster \<Rightarrow> string \<Rightarrow> rs_writer \<Rightarrow> 's world
     \<Rightarrow> string list \<Rightarrow> string list \<Rightarrow> bool" where
  "writer_ok env docs c P rw w rows bl \<longleftrightarrow>
     stores_rows P (rw_version rw) rows (rw_md rw) (all_docs env docs c w) \<and>
     rw_sync rw \<and> rw_log_path rw = P \<and> rw_start_row rw = int (length rows) \<and>
     rw_buff rw = concat bl \<and> rw_buffered_rows rw = int (length bl) \<and>
     md_Timestamp (rw_md rw) < rs_now env (wd_ticks w)"

lemma mds_append_md:
  assumes "md_VFSPath md = P" and "md_Type md = ''rs_metadata''"
  shows "mds_of P (ds @ [(i, encode_md md)]) = mds_of P ds @ [(i, encode_md md)]"
    and "packets_of P V (ds @ [(i, encode_md md)]) = packets_of P V ds"
  using assms by (simp_all add: mds_of_def packets_of_def result_md_query_def query_of_def doc_fields)

lemma append_packet:
  assumes "rr_Type r = ''result_set''" and "rr_VFSPath r = P" and "rr_ID r = V"
  shows "mds_of P (ds @ [(i, encode_record r)]) = mds_of P ds"
    and "packets_of P V (ds @ [(i, encode_record r)]) = packets_of P V ds @ [(i, encode_record r)]"
  using assms by (simp_all add: mds_of_def packets_of_def result_md_query_def query_of_def doc_fields)

lemma newest_append:
  assumes "newest md ms" and "md_Timestamp md < md_Timestamp md'"
  shows "newest md' (ms @ [(i, encode_md md')])"
proof -
  obtain xs j where ms: "ms = xs @ [(j, encode_md md)]"
    and xs: "\<forall>x \<in> set xs. key_of ''timestamp'' x < KInt (md_Timestamp md)"
    using assms(1) by (auto simp: newest_def)
  have "KInt (md_Timestamp md) < KInt (md_Timestamp md')"
    using assms(2) by (simp add: less_jkey_def)
  then have "\<forall>x \<in> set ms. key_of ''timestamp'' x < KInt (md_Timestamp md')"
    using ms xs by (auto simp: key_of_def encode_md_fields intro: less_trans)
  then show ?thesis by (auto simp: newest_def)
qed

text \<open>
  The same before the first write, when the path has no metadata record yet: a writer that
  appends starts from an empty result set whose version is the empty string.
\<close>

definition writer_at ::
  "'s rs_env \<Rightarrow> ('s \<Rightarrow> cluster \<Rightarrow> string \<Rightarrow> index_docs) \<Rightarrow> cluster \<Rightarrow> string \<Rightarrow> rs_writer \<Rightarrow> 's world
     \<Rightarrow> string list \<Rightarrow> string list \<Rightarrow> bool" where
  "writer_at env docs c P rw w rows bl \<longleftrightarrow>
     is_md P (rw_version rw) (length rows) (rw_md rw) \<and>
     (mds_of P (all_docs env docs c w) = [] \<or> newest (rw_md rw) (mds_of P (all_docs env docs c w)) \<and>
        md_Timestamp (rw_md rw) < rs_now env (wd_ticks w)) \<and>
     (\<exists>lss. concat lss = rows \<and> (\<forall>ls \<in> set lss. ls \<noteq> []) \<and>
        list_all2 (packet_doc P (rw_version rw)) (lay 0 lss)
          (map snd (packets_of P (rw_version rw) (all_docs env docs c w)))) \<and>
     rw_sync rw \<and> rw_log_path rw = P \<and> rw_start_row rw = int (length rows) \<and>
     rw_buff rw = concat bl \<and> rw_buffered_rows rw = int (length bl)"

lemma writer_ok_at: "writer_ok env docs c P rw w rows bl \<Longrightarrow> writer_at env docs c P rw w rows bl"
  by (simp add: writer_ok_def writer_at_def stores_rows_def)

lemma newest_first:
  assumes "ms = [] \<or> newest md ms \<and> md_Timestamp md < md_Timestamp md'"
  shows "newest md' (ms @ [(i, encode_md md')])"
  using assms newest_append [of md ms md' i] by (cases "ms = []") (simp_all add: newest_def)

lemma rs_Flush_at:
  assumes rs: "reliable_store (rs_es env) docs" and cl: "GetElasticClient (rs_es env) (rs_org_id env) = Inr c"
    and mono: "\<And>m n. m < n \<Longrightarrow> rs_now env m < rs_now env n"
    and ok: "writer_at env docs c P rw w rows bl" and False: "bl \<noteq> []"
  shows "\<exists>rw' w'. rs_Flush env (Suc fuel) rw w = Some (rw', w') \<and>
    writer_ok env docs c P rw' w' (rows @ bl) [] \<and> rw_version rw' = rw_version rw"
proof -
  let ?I = "GetIndex (rs_org_id env) TRANSIENT"
  let ?n = "length rows"
  define V where "V = rw_version rw"
  define w1 where "w1 = w\<lparr>wd_ticks := Suc (wd_ticks w)\<rparr>"
  define rec where "rec = \<lparr>rr_ClientId = [], rr_FlowId = [], rr_Artifact = [], rr_Type = ''result_set'',
      rr_StartRow = int ?n, rr_EndRow = int (?n + length bl), rr_VFSPath = P,
      rr_JSONData = concat bl, rr_TotalRows = int (?n + length bl),
      rr_Timestamp = rs_now env (wd_ticks w) div 1000000000, rr_ID = V\<rparr>"
  define md1 where "md1 = (rw_md rw)\<lparr>md_EndRow := int (?n + length bl),
      md_Timestamp := rs_now env (Suc (wd_ticks w))\<rparr>"
  obtain i s1 where s1: "SetElasticIndex (rs_es env) (rs_org_id env) TRANSIENT [] (encode_record rec)
      (wd_store w) = (None, s1)"
    "docs s1 c ?I = docs (wd_store w) c ?I @ [(i, encode_record rec)]"
    using SetElasticIndex_adds [OF rs cl] by blast
  obtain j s2 where s2: "SetElasticIndex (rs_es env) (rs_org_id env) TRANSIENT [] (encode_md md1) s1 =
      (None, s2)" "docs s2 c ?I = docs s1 c ?I @ [(j, encode_md md1)]"
    using SetElasticIndex_adds [OF rs cl] by blast
  obtain e s3 where s3: "FlushIndex (rs_es env) (rs_org_id env) TRANSIENT s2 = (e, s3)"
    "docs s3 c ?I = docs s2 c ?I"
    using FlushIndex_keeps [OF rs, of "rs_org_id env" TRANSIENT s2 c ?I]
    by (cases "FlushIndex (rs_es env) (rs_org_id env) TRANSIENT s2") auto
  define rw' where "rw' = rw\<lparr>rw_start_row := int (?n + length bl), rw_buff := [],
      rw_buffered_rows := 0, rw_md := md1, rw_truncated := True\<rparr>"
  define w' where "w' = w\<lparr>wd_ticks := Suc (Suc (wd_ticks w)), wd_store := s3\<rparr>"
  have r: "NewSimpleResultSetRecord (rw_log_path rw) (rw_version rw)
            \<lparr>rr_JSONData := rw_buff rw, rr_StartRow := rw_start_row rw,
             rr_EndRow := rw_start_row rw + rw_buffered_rows rw,
             rr_Timestamp := rs_now env (wd_ticks w) div 1000000000,
             rr_ID := rw_version rw, rr_Type := ''result_set'',
             rr_TotalRows := rw_start_row rw + rw_buffered_rows rw\<rparr> = rec"
    using ok by (simp add: writer_at_def rec_def NewSimpleResultSetRecord_def V_def)
  have run: "rs_Flush env (Suc fuel) rw w = Some (rw', w')"
    using ok False s1(1) s2(1) s3(1) r
    by (simp add: rs_writeJSONL_def Now_def Let_def writer_at_def SetResultSetMetadata_def
        md1_def rw'_def w'_def rec_def NewSimpleResultSetRecord_def V_def)
  have d: "all_docs env docs c w' = (all_docs env docs c w @ [(i, encode_record rec)]) @ [(j, encode_md md1)]"
    using s1(2) s2(2) s3(2) by (simp add: all_docs_def w'_def)
  have old: "is_md P V ?n (rw_md rw)" and old_rows: "\<exists>lss. concat lss = rows \<and> (\<forall>ls \<in> set lss. ls \<noteq> []) \<and>
        list_all2 (packet_doc P V) (lay 0 lss) (map snd (packets_of P V (all_docs env docs c w)))"
    using ok by (auto simp: writer_at_def V_def)
  have md: "is_md P V (length (rows @ bl)) md1" using old(1) by (simp add: is_md_def md1_def)
  have "newest md1 (mds_of P (all_docs env docs c w) @ [(j, encode_md md1)])"
    using newest_first [of "mds_of P (all_docs env docs c w)" "rw_md rw" md1] ok
      mono [of "wd_ticks w" "Suc (wd_ticks w)"]
    by (auto simp: writer_at_def md1_def)
  moreover have mf: "md_VFSPath md1 = P" "md_Type md1 = ''rs_metadata''"
    using md by (simp_all add: is_md_def)
  moreover have rf: "rr_Type rec = ''result_set''" "rr_VFSPath rec = P" "rr_ID rec = V"
    by (simp_all add: rec_def)
  ultimately have new: "newest md1 (mds_of P (all_docs env docs c w'))"
    unfolding d mds_append_md(1) [OF mf] append_packet(1) [OF rf] by blast
  have pk: "packets_of P V (all_docs env docs c w') = packets_of P V (all_docs env docs c w) @ [(i, encode_record rec)]"
    unfolding d mds_append_md(2) [OF mf] append_packet(2) [OF rf] by (rule refl)
  obtain lss where lss: "concat lss = rows" "\<forall>ls \<in> set lss. ls \<noteq> []"
    "list_all2 (packet_doc P V) (lay 0 lss) (map snd (packets_of P V (all_docs env docs c w)))"
    using old_rows by blast
  have "packet_doc P V (?n, bl) (encode_record rec)"
    by (auto simp: packet_doc_def rec_def)
  then have "list_all2 (packet_doc P V) (lay 0 (lss @ [bl])) (map snd (packets_of P V (all_docs env docs c w')))"
    using lss by (auto simp: pk lay_snoc intro!: list_all2_appendI)
  then have "stores_rows P V (rows @ bl) md1 (all_docs env docs c w')"
    using md new lss False unfolding stores_rows_def by (auto intro!: exI [of _ "lss @ [bl]"])
  then have "writer_ok env docs c P rw' w' (rows @ bl) []"
    using ok mono [of "Suc (wd_ticks w)" "Suc (Suc (wd_ticks w))"]
    by (simp add: writer_ok_def writer_at_def rw'_def w'_def V_def md1_def)
  then show ?thesis using run by (auto simp: rw'_def)
qed

lemma rs_Flush_ok:
  assumes "reliable_store (rs_es env) docs" and "GetElasticClient (rs_es env) (rs_org_id env) = Inr c"
    and "\<And>m n. m < n \<Longrightarrow> rs_now env m < rs_now env n"
    and "writer_ok env docs c P rw w rows bl"
  shows "\<exists>rw' w'. rs_Flush env (Suc fuel) rw w = Some (rw', w') \<and>
    writer_ok env docs c P rw' w' (rows @ bl) [] \<and> rw_version rw' = rw_version rw"
proof (cases "bl = []")
  case True
  then show ?thesis using assms(4) by (auto simp: writer_ok_def)
qed (use rs_Flush_at [OF assms(1-3) writer_ok_at [OF assms(4)]] in blast)

text \<open>Rows written one after the other.\<close>

fun rs_Writes :: "'s rs_env \<Rightarrow> nat \<Rightarrow> json list \<Rightarrow> rs_writer \<Rightarrow> 's world \<Rightarrow> (rs_writer \<times> 's world) option" where
  "rs_Writes env fuel [] rw w = Some (rw, w)"
| "rs_Writes env fuel (r # rs) rw w =
     (case rs_Write env fuel r rw w of
        None \<Rightarrow> None
      | Some (rw1, w1) \<Rightarrow> rs_Writes env fuel rs rw1 w1)"

lemma Write_ok:
  assumes rs: "reliable_store (rs_es env) docs" and cl: "GetElasticClient (rs_es env) (rs_org_id env) = Inr c"
    and mono: "\<And>m n. m < n \<Longrightarrow> rs_now env m < rs_now env n"
    and ok: "writer_ok env docs c P rw w rows bl"
    and m: "rs_marshal env row = Inr x"
  shows "\<exists>rw' w' rows' bl'. rs_Write env (Suc fuel) row rw w = Some (rw', w') \<and>
    writer_ok env docs c P rw' w' rows' bl' \<and> rows' @ bl' = rows @ bl @ [x @ ''\<newline>''] \<and>
    rw_version rw' = rw_version rw"
proof -
  define rw1 where "rw1 = rw\<lparr>rw_buff := rw_buff rw @ x @ ''\<newline>'', rw_buffered_rows := rw_buffered_rows rw + 1\<rparr>"
  have ok1: "writer_ok env docs c P rw1 w rows (bl @ [x @ ''\<newline>''])"
    using ok by (simp add: writer_ok_def rw1_def)
  obtain rw2 w2 where fl: "rs_Flush env (Suc fuel) rw1 w = Some (rw2, w2)"
    "writer_ok env docs c P rw2 w2 (rows @ bl @ [x @ ''\<newline>'']) []" "rw_version rw2 = rw_version rw1"
    using rs_Flush_ok [OF rs cl mono ok1, of fuel] by auto
  show ?thesis
  proof (cases "rw_buffered_rows rw1 > int (rw_rows_per_result_set rw1) \<or>
         length (rw_buff rw1) > rw_max_size_per_packet rw1")
    case True
    then have "rs_Write env (Suc fuel) row rw w = Some (rw2, w2)"
      using m fl by (simp add: rs_Write_def rs_flush_if_large_def rw1_def del: rs_Flush.simps)
    then show ?thesis
      using fl by (intro exI [of _ rw2] exI [of _ w2] exI [of _ "rows @ bl @ [x @ ''\<newline>'']"] exI [of _ "[]"])
        (simp add: rw1_def)
  next
    case False
    then have "rs_Write env (Suc fuel) row rw w = Some (rw1, w)"
      using m by (simp add: rs_Write_def rs_flush_if_large_def rw1_def del: rs_Flush.simps)
    then show ?thesis
      using ok1 by (intro exI [of _ rw1] exI [of _ w] exI [of _ rows] exI [of _ "bl @ [x @ ''\<newline>'']"])
        (simp add: rw1_def)
  qed
qed

lemma Writes_ok:
  assumes rs: "reliable_store (rs_es env) docs" and cl: "GetElasticClient (rs_es env) (rs_org_id env) = Inr c"
    and mono: "\<And>m n. m < n \<Longrightarrow> rs_now env m < rs_now env n"
    and m: "\<And>row. rs_marshal env row = Inr (enc row)"
  shows "writer_ok env docs c P rw w rows bl \<Longrightarrow>
    \<exists>rw' w' rows' bl'. rs_Writes env (Suc fuel) new rw w = Some (rw', w') \<and>
    writer_ok env docs c P rw' w' rows' bl' \<and>
    rows' @ bl' = rows @ bl @ map (\<lambda>r. enc r @ ''\<newline>'') new \<and> rw_version rw' = rw_version rw"
proof (induction new arbitrary: rw w rows bl)
  case (Cons r new)
  obtain rw1 w1 rows1 bl1 where 1: "rs_Write env (Suc fuel) r rw w = Some (rw1, w1)"
    "writer_ok env docs c P rw1 w1 rows1 bl1" "rows1 @ bl1 = rows @ bl @ [enc r @ ''\<newline>'']"
    "rw_version rw1 = rw_version rw"
    using Write_ok [OF rs cl mono Cons.prems m, of fuel r] by blast
  obtain rw2 w2 rows2 bl2 where 2: "rs_Writes env (Suc fuel) new rw1 w1 = Some (rw2, w2)"
    "writer_ok env docs c P rw2 w2 rows2 bl2" "rows2 @ bl2 = rows1 @ bl1 @ map (\<lambda>r. enc r @ ''\<newline>'') new"
    "rw_version rw2 = rw_version rw1"
    using Cons.IH [OF 1(2)] by blast
  have "rows2 @ bl2 = rows @ bl @ map (\<lambda>r. enc r @ ''\<newline>'') (r # new)"
  proof -
    have "rows2 @ bl2 = (rows1 @ bl1) @ map (\<lambda>r. enc r @ ''\<newline>'') new" using 2(3) by simp
    then show ?thesis by (simp add: 1(3))
  qed
  then show ?case using 1 2 by (intro exI [of _ rw2] exI [of _ w2] exI [of _ rows2] exI [of _ bl2]) simp
qed auto

text \<open>
  A session: open a synchronous writer, write rows, close. \<open>None\<close> when the open failed or a
  flush ran out of fuel.
\<close>

definition rs_session ::
  "'s rs_env \<Rightarrow> nat \<Rightarrow> string \<Rightarrow> bool \<Rightarrow> json list \<Rightarrow> 's world \<Rightarrow> (rs_writer \<times> 's world) option" where
  "rs_session env fuel P trunc rows w =
     (case NewResultSetWriter env P True trunc w of
        (Inl e, w1) \<Rightarrow> None
      | (Inr rw, w1) \<Rightarrow>
          (case rs_Writes env fuel rows rw w1 of
             None \<Rightarrow> None
           | Some (rw2, w2) \<Rightarrow> rs_Close env fuel rw2 w2))"

lemma session_from:
  assumes rs: "reliable_store (rs_es env) docs" and cl: "GetElasticClient (rs_es env) (rs_org_id env) = Inr c"
    and mono: "\<And>m n. m < n \<Longrightarrow> rs_now env m < rs_now env n"
    and m: "\<And>row. rs_marshal env row = Inr (enc row)"
    and new: "NewResultSetWriter env P True trunc w = (Inr rw, w1)"
    and ok: "writer_ok env docs c P rw w1 old []"
  shows "\<exists>rw' w'. rs_session env (Suc fuel) P trunc rows w = Some (rw', w') \<and>
    writer_ok env docs c P rw' w' (old @ map (\<lambda>r. enc r @ ''\<newline>'') rows) []"
proof -
  obtain rw2 w2 rows2 bl2 where 2: "rs_Writes env (Suc fuel) rows rw w1 = Some (rw2, w2)"
    "writer_ok env docs c P rw2 w2 rows2 bl2" "rows2 @ bl2 = old @ map (\<lambda>r. enc r @ ''\<newline>'') rows"
    using Writes_ok [OF rs cl mono m ok, of fuel rows] by auto
  obtain rw3 w3 where "rs_Flush env (Suc fuel) rw2 w2 = Some (rw3, w3)"
    "writer_ok env docs c P rw3 w3 (rows2 @ bl2) []"
    using rs_Flush_ok [OF rs cl mono 2(2), of fuel] by auto
  then show ?thesis
    using new 2 by (simp add: rs_session_def rs_Close_def del: rs_Flush.simps)
qed

lemma New_trunc:
  assumes rs: "reliable_store (rs_es env) docs" and cl: "GetElasticClient (rs_es env) (rs_org_id env) = Inr c"
    and mono: "\<And>m n. m < n \<Longrightarrow> rs_now env m < rs_now env n"
    and fresh: "packets_of P (rs_guid env (wd_guids w)) (all_docs env docs c w) = []"
    and older: "\<forall>x \<in> set (mds_of P (all_docs env docs c w)).
      key_of ''timestamp'' x < KInt (rs_now env (wd_ticks w))"
  shows "\<exists>rw w1. NewResultSetWriter env P True True w = (Inr rw, w1) \<and>
    writer_ok env docs c P rw w1 [] []"
proof -
  let ?V = "rs_guid env (wd_guids w)"
  define md where "md = \<lparr>md_Timestamp = rs_now env (Suc (wd_ticks w)), md_VFSPath = P, md_ID = ?V,
    md_EndRow = 0, md_TotalRows = 0, md_Type = ''rs_metadata''\<rparr>"
  obtain i s1 where s1: "SetElasticIndex (rs_es env) (rs_org_id env) TRANSIENT [] (encode_md md)
      (wd_store w) = (None, s1)"
    "docs s1 c (GetIndex (rs_org_id env) TRANSIENT) =
      docs (wd_store w) c (GetIndex (rs_org_id env) TRANSIENT) @ [(i, encode_md md)]"
    using SetElasticIndex_adds [OF rs cl] by blast
  define w1 where "w1 = w\<lparr>wd_guids := Suc (wd_guids w), wd_ticks := Suc (Suc (wd_ticks w)), wd_store := s1\<rparr>"
  obtain rw where rw: "NewResultSetWriter env P True True w = (Inr rw, w1)"
    "rw_md rw = md" "rw_version rw = ?V" "rw_buff rw = []" "rw_buffered_rows rw = 0"
    "rw_start_row rw = 0" "rw_sync rw" "rw_log_path rw = P"
    using s1(1) by (simp add: NewResultSetWriter_def GetGUID_def Now_def Let_def SetResultSetMetadata_def
        md_def w1_def)
  have d: "all_docs env docs c w1 = all_docs env docs c w @ [(i, encode_md md)]"
    using s1(2) by (simp add: all_docs_def w1_def)
  have mf: "md_VFSPath md = P" "md_Type md = ''rs_metadata''" by (simp_all add: md_def)
  have "KInt (rs_now env (wd_ticks w)) < KInt (md_Timestamp md)"
    using mono [of "wd_ticks w" "Suc (wd_ticks w)"] by (simp add: less_jkey_def md_def)
  then have "newest md (mds_of P (all_docs env docs c w1))"
    using older unfolding d mds_append_md(1) [OF mf] newest_def by (auto intro: less_trans)
  moreover have "packets_of P ?V (all_docs env docs c w1) = []"
    unfolding d mds_append_md(2) [OF mf] by (rule fresh)
  ultimately have "stores_rows P ?V [] md (all_docs env docs c w1)"
    unfolding stores_rows_def by (auto simp: is_md_def md_def intro!: exI [of _ "[]"])
  then show ?thesis
    using rw mono [of "Suc (wd_ticks w)" "Suc (Suc (wd_ticks w))"]
    by (auto simp: writer_ok_def md_def w1_def)
qed

lemma New_append:
  assumes rs: "reliable_store (rs_es env) docs" and cl: "GetElasticClient (rs_es env) (rs_org_id env) = Inr c"
    and mono: "\<And>m n. m < n \<Longrightarrow> rs_now env m < rs_now env n"
    and ok: "writer_ok env docs c P rw0 w rows []"
  shows "\<exists>rw w1. NewResultSetWriter env P True False w = (Inr rw, w1) \<and>
    writer_ok env docs c P rw w1 rows [] \<and> rw_version rw = rw_version rw0"
proof -
  define w1 where "w1 = w\<lparr>wd_guids := Suc (wd_guids w), wd_ticks := Suc (wd_ticks w)\<rparr>"
  have s: "stores_rows P (rw_version rw0) rows (rw_md rw0) (all_docs env docs c w1)"
    using ok by (simp add: writer_ok_def all_docs_def w1_def)
  have "GetResultSetMetadata env P w1 = Inr (rw_md rw0)"
    by (rule GetResultSetMetadata_newest [OF rs cl]) (use s in \<open>simp add: stores_rows_def\<close>)
  then obtain rw where "NewResultSetWriter env P True False w = (Inr rw, w1)"
    "rw_md rw = rw_md rw0" "rw_version rw = md_ID (rw_md rw0)" "rw_buff rw = []"
    "rw_buffered_rows rw = 0" "rw_start_row rw = md_EndRow (rw_md rw0)" "rw_sync rw" "rw_log_path rw = P"
    by (simp add: NewResultSetWriter_def GetGUID_def Now_def Let_def w1_def)
  moreover have "md_ID (rw_md rw0) = rw_version rw0" "md_EndRow (rw_md rw0) = int (length rows)"
    using s by (auto simp: stores_rows_def is_md_def)
  ultimately show ?thesis
    using ok s mono [of "wd_ticks w" "Suc (wd_ticks w)"] by (auto simp: writer_ok_def w1_def)
qed

lemma New_first:
  assumes rs: "reliable_store (rs_es env) docs" and cl: "GetElasticClient (rs_es env) (rs_org_id env) = Inr c"
    and md: "mds_of P (all_docs env docs c w) = []" and pk: "packets_of P [] (all_docs env docs c w) = []"
  shows "\<exists>rw w1. NewResultSetWriter env P True False w = (Inr rw, w1) \<and>
    writer_at env docs c P rw w1 [] [] \<and> rw_version rw = []"
proof -
  define w1 where "w1 = w\<lparr>wd_guids := Suc (wd_guids w), wd_ticks := Suc (wd_ticks w)\<rparr>"
  have d: "all_docs env docs c w1 = all_docs env docs c w" by (simp add: w1_def all_docs_def)
  have "search_hits (result_md_query P) (all_docs env docs c w1) = []"
    using md by (simp add: search_hits_def sorted_hits_def after_hits_def mds_of_def d split: prod.splits option.splits)
  moreover have "sq_source (result_md_query P)" by (simp add: result_md_query_def query_of_def)
  ultimately have "GetResultSetMetadata env P w1 = Inr \<lparr>md_Timestamp = 0, md_VFSPath = P, md_ID = [],
      md_EndRow = 0, md_TotalRows = 0, md_Type = ''rs_metadata''\<rparr>"
    using QueryElasticRaw_hits [of "rs_es env" docs "rs_org_id env" c "result_md_query P" TRANSIENT "wd_store w1"] rs cl
    by (simp add: GetResultSetMetadata_def reliable_store_def all_docs_def)
  then obtain rw where "NewResultSetWriter env P True False w = (Inr rw, w1)" "rw_md rw = \<lparr>md_Timestamp = 0,
      md_VFSPath = P, md_ID = [], md_EndRow = 0, md_TotalRows = 0, md_Type = ''rs_metadata''\<rparr>"
    "rw_version rw = []" "rw_buff rw = []" "rw_buffered_rows rw = 0" "rw_start_row rw = 0" "rw_sync rw"
    "rw_log_path rw = P"
    by (simp add: NewResultSetWriter_def GetGUID_def Now_def Let_def w1_def)
  then show ?thesis
    using md pk by (auto simp: writer_at_def is_md_def d intro!: exI [of _ "[]"])
qed

text \<open>A packet of lines given as one text, and the close of the writer.\<close>

lemma JSONL_session:
  assumes rs: "reliable_store (rs_es env) docs" and cl: "GetElasticClient (rs_es env) (rs_org_id env) = Inr c"
    and mono: "\<And>m n. m < n \<Longrightarrow> rs_now env m < rs_now env n"
    and at: "writer_at env docs c P rw w rows []" and bl: "bl \<noteq> []"
  shows "\<exists>rw1 w1 rw2 w2. rs_WriteJSONL env (Suc fuel) (concat bl) (int (length bl)) rw w = Some (rw1, w1) \<and>
    rs_Close env (Suc fuel) rw1 w1 = Some (rw2, w2) \<and>
    writer_ok env docs c P rw2 w2 (rows @ bl) [] \<and> rw_version rw2 = rw_version rw"
proof -
  define rw0 where "rw0 = rw\<lparr>rw_buff := rw_buff rw @ concat bl, rw_buffered_rows := rw_buffered_rows rw + int (length bl)\<rparr>"
  have at0: "writer_at env docs c P rw0 w rows bl" using at by (simp add: writer_at_def rw0_def)
  obtain rw2 w2 where fl: "rs_Flush env (Suc fuel) rw0 w = Some (rw2, w2)"
    "writer_ok env docs c P rw2 w2 (rows @ bl) []" "rw_version rw2 = rw_version rw"
    using rs_Flush_at [OF rs cl mono at0 bl, of fuel] by (auto simp: rw0_def)
  have none: "rs_Flush env (Suc fuel) rw2 w2 = Some (rw2, w2)" using fl(2) by (simp add: writer_ok_def)
  show ?thesis
  proof (cases "rw_buffered_rows rw0 > int (rw_rows_per_result_set rw0) \<or> length (rw_buff rw0) > rw_max_size_per_packet rw0")
    case True
    then have "rs_WriteJSONL env (Suc fuel) (concat bl) (int (length bl)) rw w = Some (rw2, w2)"
      using fl(1) by (simp add: rs_WriteJSONL_def rs_flush_if_large_def rw0_def del: rs_Flush.simps)
    then show ?thesis using fl none by (auto simp: rs_Close_def simp del: rs_Flush.simps)
  next
    case False
    then have "rs_WriteJSONL env (Suc fuel) (concat bl) (int (length bl)) rw w = Some (rw0, w)"
      by (simp add: rs_WriteJSONL_def rs_flush_if_large_def rw0_def del: rs_Flush.simps)
    then show ?thesis using fl by (auto simp: rs_Close_def simp del: rs_Flush.simps)
  qed
qed

lemma Reader_ok:
  assumes rs: "reliable_store (rs_es env) docs" and cl: "GetElasticClient (rs_es env) (rs_org_id env) = Inr c"
    and P: "P \<noteq> []" and st: "stores_rows P V rows md (all_docs env docs c w)"
    and lines: "\<forall>l \<in> set rows. is_line l"
  shows "\<exists>rd. NewResultSetReader env P w = Inr rd \<and> rd_TotalRows rd = int (length rows) \<and>
    (\<forall>k fuel. k \<le> length rows \<longrightarrow> length rows < fuel \<longrightarrow>
       rd_JSON env fuel (rd_SeekToRow (int k) rd) w = drop k rows)"
proof -
  have md: "is_md P V (length rows) md" using st by (simp add: stores_rows_def)
  obtain lss where lss: "concat lss = rows" "\<forall>ls \<in> set lss. ls \<noteq> []"
    "list_all2 (packet_doc P V) (lay 0 lss) (map snd (packets_of P V (all_docs env docs c w)))"
    using st by (auto simp: stores_rows_def)
  have get: "GetResultSetMetadata env P w = Inr md"
    by (rule GetResultSetMetadata_newest [OF rs cl]) (use st in \<open>simp add: stores_rows_def\<close>)
  have last: "\<exists>e. getLastRecord env (NewSimpleResultSetRecord P V) w = Inl e" if "rows = []"
  proof -
    let ?q = "last_record_query (NewSimpleResultSetRecord P V)"
    have "lss = []" using that lss(1,2) by (cases lss) auto
    then have "packets_of P V (all_docs env docs c w) = []" using lss(3) by simp
    then have "filter (\<lambda>d. matches (sq_query ?q) (snd d)) (all_docs env docs c w) = []"
      using P by (auto simp: packets_of_def last_record_query_def query_of_def
          NewSimpleResultSetRecord_def filter_empty_conv)
    then have "search_hits ?q (all_docs env docs c w) = []"
      using P by (simp add: search_hits_def sorted_hits_def after_hits_def last_record_query_def
          NewSimpleResultSetRecord_def query_of_def)
    moreover have "sq_source ?q" by (simp add: last_record_query_def query_of_def)
    ultimately show ?thesis
      using QueryElasticRaw_hits [of "rs_es env" docs "rs_org_id env" c ?q TRANSIENT "wd_store w"] rs cl
      by (simp add: getLastRecord_def reliable_store_def all_docs_def)
  qed
  obtain rd where rd: "NewResultSetReader env P w = Inr rd" "rd_md rd = md"
    "rd_base rd = NewSimpleResultSetRecord P V"
  proof (cases "rows = []")
    case True
    then show ?thesis using that get md last by (auto simp: NewResultSetReader_def is_md_def Let_def)
  next
    case False
    then show ?thesis using that get md by (auto simp: NewResultSetReader_def is_md_def Let_def)
  qed
  have e: "md_EndRow md = int (length (concat lss))" using md lss(1) by (simp add: is_md_def)
  have "rd_JSON env fuel (rd_SeekToRow (int k) rd) w = drop k rows"
    if "k \<le> length rows" "length rows < fuel" for k fuel
  proof -
    let ?r = "rd_SeekToRow (int k) rd"
    have "rd_loop env fuel ?r (-1) (int k) w = drop k (concat lss)"
      by (rule rd_loop_rows [OF rs cl P _ lss(3,2)])
        (use that lines lss(1) e rd in \<open>auto simp: rd_SeekToRow_def\<close>)
    then show ?thesis by (simp add: rd_JSON_def rd_SeekToRow_def lss(1))
  qed
  then show ?thesis using rd e lss(1) by (auto simp: rd_TotalRows_def)
qed

text \<open>The store in memory is healthy.\<close>

lemma mem_reliable: "reliable_store mem_es (\<lambda>st c idx. mem_docs st idx)"
proof -
  have "os_Index mem_es c idx [] j st = (Inr \<lparr>rp_IsError = False, rp_text = [], rp_json = Some JNull\<rparr>,
      mem_put idx (doc_add [] j (mem_docs st idx)) st)" for c idx j st
    by (simp add: mem_es_def ok_reply_def)
  moreover have "\<exists>i. doc_add [] j ds = ds @ [(i, j)]" for j ds by (simp add: doc_add_def)
  moreover have "os_Refresh mem_es c idxs st = (ok_reply JNull, st)" for c idxs st
    by (simp add: mem_es_def)
  ultimately show ?thesis
    using mem_search_contract unfolding reliable_store_def by (metis mem_docs_put snd_conv)
qed

definition sample_rs_env :: "mem_es_state rs_env" where
  "sample_rs_env =
     \<lparr>rs_es = mem_es, rs_now = (\<lambda>n. 5000000000 + int n), rs_guid = (\<lambda>n. replicate (Suc n) (CHR ''g'')),
      rs_marshal = (\<lambda>j. Inr (case j of JInt n \<Rightarrow> if n = 1 then ''one'' else ''other'' | _ \<Rightarrow> ''row'')),
      rs_org_id = ''root'', RowsPerResultSet = 1, MaxSizePerPacket = 0\<rparr>"

definition sample_world :: "mem_es_state world" where
  "sample_world = \<lparr>wd_store = [], wd_bulk = None, wd_ticks = 0, wd_guids = 0\<rparr>"

section \<open>Properties\<close>



text \<open>
  A synchronous writer whose writes fail never returns from its flush: the failed write
  aborts the writer, the abort closes it, the close flushes the same buffer again, and so on
  without end, whatever the fuel.
\<close>

theorem failed_sync_flush_never_returns:
  assumes "\<And>j s. fst (SetElasticIndex (rs_es env) (rs_org_id env) TRANSIENT [] j s) \<noteq> None"
    and "rw_sync rw" and "rw_buffered_rows rw \<noteq> 0"
  shows "rs_Flush env fuel rw w = None \<and> rs_Close env fuel rw w = None"
proof -
  have "rs_Flush env fuel rw w = None"
    using assms(2,3)
  proof (induction fuel arbitrary: rw w)
    case (Suc fuel)
    have fail: "\<exists>e s'. SetElasticIndex (rs_es env) (rs_org_id env) TRANSIENT [] j s = (Some e, s')" for j s
      using assms(1) [of j s] by (cases "SetElasticIndex (rs_es env) (rs_org_id env) TRANSIENT [] j s") auto
    have "rs_writeJSONL env (rs_Flush env fuel) x n rw w = None" for x n
      using Suc fail
      by (auto simp: rs_writeJSONL_def Now_def Let_def rs_Abort_with_def split: prod.splits option.splits)
        (metis option.simps(3) prod.inject)
    then show ?case using Suc.prems by simp
  qed simp
  then show ?thesis by (simp add: rs_Close_def)
qed

definition down_env :: "mem_es_state rs_env" where
  "down_env = sample_rs_env\<lparr>rs_es := mem_es\<lparr>elasticClients := []\<rparr>\<rparr>"

lemma down_fails: "fst (SetElasticIndex (rs_es down_env) (rs_org_id down_env) idx [] j s) \<noteq> None"
  by (simp add: SetElasticIndex_def retry_def SetElasticIndex_once_def down_env_def GetElasticClient_def
      mem_es_def sample_rs_env_def numeral_nat ElasticConfigurationNotInitializedError_def
      HasPrefix_def)

definition pending_writer :: rs_writer where
  "pending_writer = \<lparr>rw_log_path = ''/p'', rw_buff = ''x\<newline>'', rw_buffered_rows = 1, rw_start_row = 0,
     rw_truncated = False, rw_sync = True, rw_md = \<lparr>md_Timestamp = 0, md_VFSPath = ''/p'',
     md_ID = ''g'', md_EndRow = 0, md_TotalRows = 0, md_Type = ''rs_metadata''\<rparr>,
     rw_version = ''g'', rw_rows_per_result_set = 10, rw_max_size_per_packet = 10\<rparr>"

theorem failed_sync_flush_never_returns_witness:
  "rs_Flush down_env 1000 pending_writer sample_world = None"
  using failed_sync_flush_never_returns [OF down_fails, of pending_writer 1000 sample_world]
  by (simp add: pending_writer_def)

text \<open>
  The mark of an incomplete result set is only written with rows: a writer that replaces
  a result set and is aborted before it has a row records nothing, and the reader opens the
  result set as a finished one with no rows.
\<close>

theorem aborted_empty_result_set_opens:
  assumes "reliable_store (rs_es env) docs" and "GetElasticClient (rs_es env) (rs_org_id env) = Inr c"
    and "P \<noteq> []" and "\<And>m n. m < n \<Longrightarrow> rs_now env m < rs_now env n"
    and "packets_of P (rs_guid env (wd_guids w)) (all_docs env docs c w) = []"
    and "\<forall>x \<in> set (mds_of P (all_docs env docs c w)). key_of ''timestamp'' x < KInt (rs_now env (wd_ticks w))"
  shows "\<exists>rw w1 rw' rd. NewResultSetWriter env P True True w = (Inr rw, w1) \<and>
    rs_Abort env (Suc fuel) rw w1 = Some (rw', w1) \<and> md_TotalRows (rw_md rw') = -1 \<and>
    NewResultSetReader env P w1 = Inr rd \<and> rd_TotalRows rd = 0"
proof -
  obtain rw w1 where 0: "NewResultSetWriter env P True True w = (Inr rw, w1)"
    "writer_ok env docs c P rw w1 [] []"
    using New_trunc [OF assms(1,2,4,5,6)] by blast
  then obtain rd where "NewResultSetReader env P w1 = Inr rd" "rd_TotalRows rd = 0"
    using Reader_ok [OF assms(1-3), of "rw_version rw" "[]" "rw_md rw" w1] by (auto simp: writer_ok_def)
  then show ?thesis
    using 0 by (simp add: rs_Abort_def rs_Abort_with_def rs_Close_def writer_ok_def)
qed

theorem aborted_empty_result_set_opens_witness:
  "\<exists>w1 rd. NewResultSetReader sample_rs_env ''/p'' w1 = Inr rd \<and> rd_TotalRows rd = 0"
proof -
  have cl: "GetElasticClient (rs_es sample_rs_env) (rs_org_id sample_rs_env) = Inr PrimaryOpenSearch"
    by (simp add: sample_rs_env_def)
  have rel: "reliable_store (rs_es sample_rs_env) (\<lambda>st c idx. mem_docs st idx)"
    using mem_reliable by (simp add: sample_rs_env_def)
  have none: "all_docs sample_rs_env (\<lambda>st c idx. mem_docs st idx) PrimaryOpenSearch sample_world = []"
    by (simp add: all_docs_def sample_world_def mem_docs_def)
  have "rs_now sample_rs_env m < rs_now sample_rs_env n" if "m < n" for m n
    using that by (simp add: sample_rs_env_def)
  from aborted_empty_result_set_opens [OF rel cl _ this, of "''/p''" sample_world 0]
  show ?thesis by (auto simp: none packets_of_def mds_of_def)
qed

end
