(* ===== verification/TransformedResultSets.thy ===== *)
theory TransformedResultSets
  imports ResultSets
begin

text \<open>
  Filtered and sorted result sets (\<open>result_sets/simple/transformed.go\<close>) and the timed result
  sets of event artifacts (\<open>result_sets/timed\<close>).
\<close>

section \<open>Options and views\<close>

text \<open>
  \<open>result_sets.ResultSetOptions\<close>; the regular expression is its text and the test it makes on
  the string form of a value.
\<close>

record rs_options =
  FilterColumn :: string
  FilterRegex :: "(string \<times> (json \<Rightarrow> bool)) option"
  FilterExclude :: bool
  SortColumn :: string
  SortAsc :: bool
  StartIdx :: int
  EndIdx :: int

text \<open>
  The readers the functions return: a reader of the store, or a reader wrapped for a range of
  rows by \<open>WrapReaderForRange\<close> of the Velociraptor library. \<open>wrap_rows\<close> is what a wrapped reader
  delivers of the rows of the inner one.
\<close>

datatype view = BaseView rs_reader | RangeView view int int

record transform_env =
  unmarshal :: "string \<Rightarrow> json option"
  wrap_rows :: "int \<Rightarrow> int \<Rightarrow> json list \<Rightarrow> json list"
  merge_sort :: "string \<Rightarrow> bool \<Rightarrow> json list \<Rightarrow> json list"
  itoa :: "int \<Rightarrow> string"
  timed_out :: "nat \<Rightarrow> bool"

fun view_rows :: "'s rs_env \<Rightarrow> transform_env \<Rightarrow> nat \<Rightarrow> view \<Rightarrow> 's world \<Rightarrow> json list" where
  "view_rows env te fuel (BaseView r) w = rd_Rows env (unmarshal te) fuel r w"
| "view_rows env te fuel (RangeView v a b) w = wrap_rows te a b (view_rows env te fuel v w)"

fun view_MTime :: "view \<Rightarrow> int" where
  "view_MTime (BaseView r) = rd_MTime r"
| "view_MTime (RangeView v a b) = view_MTime v"

text \<open>Children of a path: components joined with a slash in the client form of the path.\<close>

definition AddChild :: "string \<Rightarrow> string list \<Rightarrow> string" where
  "AddChild p cs = foldl (\<lambda>acc c. acc @ ''/'' @ c) p cs"

definition range_path :: "transform_env \<Rightarrow> rs_options \<Rightarrow> string \<Rightarrow> string" where
  "range_path te opts p =
     (if StartIdx opts \<noteq> 0 \<or> EndIdx opts \<noteq> 0
      then AddChild p [''Range '' @ itoa te (StartIdx opts) @ ''-'' @ itoa te (EndIdx opts)]
      else p)"

text \<open>
  Write the rows to a new result set, abort it when the time ran out (\<open>ticks\<close> is the clock
  reading at the end), otherwise close and reopen it. The writer's flushes get \<open>fuel\<close>.
\<close>

definition write_transformed ::
  "'s rs_env \<Rightarrow> transform_env \<Rightarrow> nat \<Rightarrow> string \<Rightarrow> json list \<Rightarrow> 's world \<Rightarrow> rs_reader result \<times> 's world" where
  "write_transformed env te fuel p rows w =
     (case NewResultSetWriter env p True True w of
        (Inl e, w1) \<Rightarrow> (Inl e, w1)
      | (Inr rw, w1) \<Rightarrow>
          (case rs_Writes env fuel rows rw w1 of
             None \<Rightarrow> (Inl IOError, w1)
           | Some (rw2, w2) \<Rightarrow>
               if timed_out te (wd_ticks w2) then
                 (Inl IOError, (case rs_Abort env fuel rw2 w2 of None \<Rightarrow> w2 | Some (rw3, w3) \<Rightarrow> w3))
               else
                 (case rs_Close env fuel rw2 w2 of
                    None \<Rightarrow> (Inl IOError, w2)
                  | Some (rw3, w3) \<Rightarrow> (NewResultSetReader env p w3, w3))))"

definition getSortedReader ::
  "'s rs_env \<Rightarrow> transform_env \<Rightarrow> nat \<Rightarrow> string \<Rightarrow> view \<Rightarrow> rs_options \<Rightarrow> 's world
     \<Rightarrow> view result \<times> 's world" where
  "getSortedReader env te fuel log_path base opts w =
     (if SortColumn opts = [] then (Inr (RangeView base (StartIdx opts) (EndIdx opts)), w)
      else
        let p = AddChild (range_path te opts log_path)
                  [''sorted'', SortColumn opts, if SortAsc opts then ''asc'' else ''desc''];
            stacker_path = AddChild p [''stack'']
        in case NewResultSetReader env p w of
             Inr cached \<Rightarrow>
               (if rd_MTime cached > view_MTime base then
                  (Inr (RangeView (BaseView cached) (StartIdx opts) (EndIdx opts)), w)
                else
                  (case write_transformed env te fuel p
                     (merge_sort te (SortColumn opts) (SortAsc opts)
                       (view_rows env te fuel (RangeView base (StartIdx opts) (EndIdx opts)) w)) w of
                     (Inl e, w1) \<Rightarrow> (Inl e, w1)
                   | (Inr r, w1) \<Rightarrow> (Inr (BaseView (rd_SetStacker stacker_path r)), w1)))
           | Inl e \<Rightarrow>
               (case write_transformed env te fuel p
                  (merge_sort te (SortColumn opts) (SortAsc opts)
                    (view_rows env te fuel (RangeView base (StartIdx opts) (EndIdx opts)) w)) w of
                  (Inl e, w1) \<Rightarrow> (Inl e, w1)
                | (Inr r, w1) \<Rightarrow> (Inr (BaseView (rd_SetStacker stacker_path r)), w1)))"

definition filter_rows :: "rs_options \<Rightarrow> (json \<Rightarrow> bool) \<Rightarrow> json list \<Rightarrow> json list" where
  "filter_rows opts matched rows =
     filter (\<lambda>row. case jget (FilterColumn opts) row of
               None \<Rightarrow> False
             | Some v \<Rightarrow> (FilterExclude opts \<and> \<not> matched v) \<or> (\<not> FilterExclude opts \<and> matched v)) rows"

definition getFilteredReader ::
  "'s rs_env \<Rightarrow> transform_env \<Rightarrow> nat \<Rightarrow> string \<Rightarrow> view \<Rightarrow> rs_options \<Rightarrow> 's world
     \<Rightarrow> view result \<times> 's world" where
  "getFilteredReader env te fuel log_path base opts w =
     (case FilterRegex opts of
        None \<Rightarrow> getSortedReader env te fuel log_path base opts w
      | Some (regex, matched) \<Rightarrow>
          if FilterColumn opts = [] then getSortedReader env te fuel log_path base opts w
          else
            let p0 = AddChild (range_path te opts log_path) [''filter'', FilterColumn opts, regex];
                p = (if FilterExclude opts then AddChild p0 [''exclude''] else p0);
                build = (case write_transformed env te fuel p
                    (filter_rows opts matched
                      (view_rows env te fuel (RangeView base (StartIdx opts) (EndIdx opts)) w)) w of
                      (Inl e, w1) \<Rightarrow> (Inl e, w1)
                    | (Inr r, w1) \<Rightarrow>
                        getSortedReader env te fuel p (BaseView r) (opts\<lparr>StartIdx := 0, EndIdx := 0\<rparr>) w1)
            in case NewResultSetReader env p w of
                 Inr cached \<Rightarrow>
                   (if rd_MTime cached > view_MTime base
                    then getSortedReader env te fuel p (BaseView cached) opts w else build)
               | Inl e \<Rightarrow> build)"

definition NewResultSetReaderWithOptions ::
  "'s rs_env \<Rightarrow> transform_env \<Rightarrow> nat \<Rightarrow> string \<Rightarrow> rs_options \<Rightarrow> 's world \<Rightarrow> view result \<times> 's world" where
  "NewResultSetReaderWithOptions env te fuel log_path opts w =
     (case NewResultSetReader env log_path w of
        Inl e \<Rightarrow> (Inl e, w)
      | Inr base \<Rightarrow> getFilteredReader env te fuel log_path (BaseView base) opts w)"

text \<open>The time limit of a transformation, in minutes.\<close>

definition getExpiry :: "int option \<Rightarrow> int" where
  "getExpiry notebook_cell_timeout =
     (case notebook_cell_timeout of Some m \<Rightarrow> if m > 0 then m else 10 | None \<Rightarrow> 10)"

section \<open>Timed result sets\<close>

text \<open>The kinds of path manager the code tells apart, with the path they write to.\<close>

datatype path_manager =
    ArtifactPathManager string string string string
  | ArtifactLogPathManager string string string string
  | OtherPathManager string

record timed_record =
  tr_ClientId :: string
  tr_FlowId :: string
  tr_Artifact :: string
  tr_Type :: string
  tr_Timestamp :: int
  tr_Date :: int
  tr_VFSPath :: string
  tr_JSONData :: string

definition encode_timed :: "timed_record \<Rightarrow> json" where
  "encode_timed r = JObj
     [(''client_id'', JStr (tr_ClientId r)), (''flow_id'', JStr (tr_FlowId r)),
      (''artifact'', JStr (tr_Artifact r)), (''type'', JStr (tr_Type r)),
      (''timestamp'', JInt (tr_Timestamp r)), (''date'', JInt (tr_Date r)),
      (''vfs_path'', JStr (tr_VFSPath r)), (''data'', JStr (tr_JSONData r))]"

definition decode_timed :: "json \<Rightarrow> timed_record result" where
  "decode_timed j =
     bindR (get_str ''client_id'' j) (\<lambda>a. bindR (get_str ''flow_id'' j) (\<lambda>b.
     bindR (get_str ''artifact'' j) (\<lambda>c. bindR (get_str ''type'' j) (\<lambda>d.
     bindR (get_int ''timestamp'' j) (\<lambda>e. bindR (get_int ''date'' j) (\<lambda>f.
     bindR (get_str ''vfs_path'' j) (\<lambda>g. bindR (get_str ''data'' j) (\<lambda>h.
       Inr \<lparr>tr_ClientId = a, tr_FlowId = b, tr_Artifact = c, tr_Type = d, tr_Timestamp = e,
            tr_Date = f, tr_VFSPath = g, tr_JSONData = h\<rparr>))))))))"

lemma decode_encode_timed [simp]: "decode_timed (encode_timed r) = Inr r"
  by (simp add: decode_timed_def encode_timed_def get_str_def get_int_def)

text \<open>\<open>now\<close> and \<open>later\<close> are two readings of the clock in nanoseconds.\<close>

definition NewTimedResultSetRecord :: "int \<Rightarrow> int \<Rightarrow> path_manager \<Rightarrow> timed_record" where
  "NewTimedResultSetRecord now later pm =
     (let day = now div 86400000000000 * 86400
      in case pm of
           ArtifactPathManager c f a p \<Rightarrow>
             \<lparr>tr_ClientId = c, tr_FlowId = f, tr_Artifact = a, tr_Type = ''results'',
              tr_Timestamp = now, tr_Date = day, tr_VFSPath = p, tr_JSONData = []\<rparr>
         | ArtifactLogPathManager c f a p \<Rightarrow>
             \<lparr>tr_ClientId = c, tr_FlowId = f, tr_Artifact = a, tr_Type = ''logs'',
              tr_Timestamp = later, tr_Date = day, tr_VFSPath = p, tr_JSONData = []\<rparr>
         | OtherPathManager p \<Rightarrow>
             \<lparr>tr_ClientId = [], tr_FlowId = [], tr_Artifact = [], tr_Type = [],
              tr_Timestamp = later, tr_Date = day, tr_VFSPath = p, tr_JSONData = []\<rparr>)"

definition timed_new_record :: "'s rs_env \<Rightarrow> path_manager \<Rightarrow> 's world \<Rightarrow> timed_record \<times> 's world" where
  "timed_new_record env pm w =
     (let (now, w1) = Now env w
      in case pm of
           ArtifactPathManager c f a p \<Rightarrow> (NewTimedResultSetRecord now now pm, w1)
         | _ \<Rightarrow> (let (later, w2) = Now env w1 in (NewTimedResultSetRecord now later pm, w2)))"

definition timed_WriteJSONL :: "'s rs_env \<Rightarrow> path_manager \<Rightarrow> string \<Rightarrow> 's world \<Rightarrow> 's world" where
  "timed_WriteJSONL env pm serialized w =
     (let (rec, w1) = timed_new_record env pm w;
          (ignored, s) = SetElasticIndex (rs_es env) (rs_org_id env) TRANSIENT []
             (encode_timed (rec\<lparr>tr_JSONData := serialized\<rparr>)) (wd_store w1)
      in w1\<lparr>wd_store := s\<rparr>)"

definition timed_Write :: "'s rs_env \<Rightarrow> path_manager \<Rightarrow> json \<Rightarrow> 's world \<Rightarrow> 's world" where
  "timed_Write env pm row w =
     (case rs_marshal env row of Inl e \<Rightarrow> w | Inr serialized \<Rightarrow> timed_WriteJSONL env pm serialized w)"

record timed_reader =
  tm_start :: "int option"
  tm_end :: "int option"
  tm_path_manager :: path_manager

definition NewTimedResultSetReader :: "path_manager \<Rightarrow> timed_reader" where
  "NewTimedResultSetReader pm = \<lparr>tm_start = None, tm_end = None, tm_path_manager = pm\<rparr>"

definition SeekToTime :: "int \<Rightarrow> timed_reader \<Rightarrow> timed_reader" where
  "SeekToTime t r = r\<lparr>tm_start := Some t\<rparr>"

definition SetMaxTime :: "int \<Rightarrow> timed_reader \<Rightarrow> timed_reader" where
  "SetMaxTime t r = r\<lparr>tm_end := Some t\<rparr>"

definition timed_query :: "timed_record \<Rightarrow> int \<Rightarrow> int \<Rightarrow> search_req" where
  "timed_query r start_time end_time = query_of (Must
     [Match ''client_id'' (JStr (tr_ClientId r)), Match ''flow_id'' (JStr (tr_FlowId r)),
      Match ''artifact'' (JStr (tr_Artifact r)), Match ''type'' (JStr (tr_Type r)),
      Range ''timestamp'' Gte start_time, Range ''timestamp'' Lt end_time])"

text \<open>\<open>row.Set("_ts", ..)\<close>, on rows, which are dicts.\<close>

definition set_ts :: "int \<Rightarrow> json \<Rightarrow> json" where
  "set_ts t j = (case j of JObj kvs \<Rightarrow> JObj (kv_set ''_ts'' (JInt t) kvs) | _ \<Rightarrow> j)"

definition timed_packet_rows :: "(string \<Rightarrow> json option) \<Rightarrow> json \<Rightarrow> json list" where
  "timed_packet_rows unmarsh hit =
     (case decode_timed hit of
        Inl e \<Rightarrow> []
      | Inr r \<Rightarrow> concat (map (\<lambda>l. case unmarsh l of None \<Rightarrow> [] | Some row \<Rightarrow>
                    [set_ts (go_div (tr_Timestamp r) 1000000) row]) (split_lines (tr_JSONData r))))"

definition timed_Rows ::
  "'s rs_env \<Rightarrow> (string \<Rightarrow> json option) \<Rightarrow> nat \<Rightarrow> timed_reader \<Rightarrow> 's world \<Rightarrow> json list" where
  "timed_Rows env unmarsh fuel r w =
     (let (rec, w1) = timed_new_record env (tm_path_manager r) w;
          end_time = (case tm_end r of None \<Rightarrow> 3000000000 * 1000000000 | Some t \<Rightarrow> t);
          start_time = (case tm_start r of None \<Rightarrow> 0 | Some t \<Rightarrow> t);
          rec1 = (if tr_ClientId rec \<noteq> ''server'' then rec\<lparr>tr_FlowId := ''F.Monitoring''\<rparr> else rec)
      in case QueryChan (rs_es env) fuel 1000 (rs_org_id env) TRANSIENT
                (timed_query rec1 start_time end_time) ''timestamp'' (\<lambda>n. wd_store w1) of
           Inl e \<Rightarrow> []
         | Inr hits \<Rightarrow> concat (map (timed_packet_rows unmarsh) hits))"

section \<open>A cached range\<close>

definition sample_te :: transform_env where
  "sample_te =
     \<lparr>unmarshal = (\<lambda>l. Some (JObj [(''v'', JInt (if l = ''one\<newline>'' then 1 else 2))])),
      wrap_rows = (\<lambda>a b rows. if a = 0 \<and> b = 0 then rows else take (nat (b - a)) (drop (nat a) rows)),
      merge_sort = (\<lambda>c asc rows. sort_key (\<lambda>r. jkey_of (jget c r)) rows),
      itoa = (\<lambda>n. replicate (nat n) (CHR ''1'')), timed_out = (\<lambda>n. False)\<rparr>"

definition table_env :: "mem_es_state rs_env" where
  "table_env = sample_rs_env\<lparr>rs_marshal := (\<lambda>j. Inr (if jget ''v'' j = Some (JInt 1) then ''one'' else ''two'')),
     RowsPerResultSet := 100\<rparr>"

definition sorted_opts :: rs_options where
  "sorted_opts = \<lparr>FilterColumn = [], FilterRegex = None, FilterExclude = False, SortColumn = ''v'',
     SortAsc = True, StartIdx = 1, EndIdx = 3\<rparr>"

definition two_sorted_reads :: "(json list \<times> json list) option" where
  "two_sorted_reads =
     (let row = (\<lambda>n. JObj [(''v'', JInt n)])
      in case rs_session table_env 2 ''/t'' True [row 2, row 2, row 1] sample_world of
           None \<Rightarrow> None
         | Some (rw, w1) \<Rightarrow>
             (case NewResultSetReaderWithOptions table_env sample_te 9 ''/t'' sorted_opts w1 of
                (Inr v1, w2) \<Rightarrow>
                  (case NewResultSetReaderWithOptions table_env sample_te 9 ''/t'' sorted_opts w2 of
                     (Inr v2, w3) \<Rightarrow>
                       Some (view_rows table_env sample_te 9 v1 w3, view_rows table_env sample_te 9 v2 w3)
                   | _ \<Rightarrow> None)
              | _ \<Rightarrow> None))"

text \<open>
  The range of a sorted view is applied twice to a cached view: the first read of rows 1
  to 3 of a table, sorted, delivers those two rows; the same read served from the cache takes
  rows 1 to 3 of the two cached rows and delivers one.
\<close>

theorem cached_sorted_range_applied_twice:
  "two_sorted_reads = Some ([JObj [(''v'', JInt 1)], JObj [(''v'', JInt 2)]], [JObj [(''v'', JInt 2)]])"
  by code_simp

end
