(* ===== verification/Caches.thy ===== *)
theory Caches
  imports Prelude "HOL-Library.AList"
begin

text \<open>
  The TTL cache of the library as the services use it: an entry is found until its time to live
  has passed since it was set. A hit extends the life of its entry unless the cache was told not to
  (\<open>SkipTTLExtensionOnHit\<close>). The limit on the number of entries is not modelled.
\<close>

type_synonym 'v ttl_cache = "(string \<times> int \<times> 'v) list"

definition ttl_get :: "int \<Rightarrow> string \<Rightarrow> 'v ttl_cache \<Rightarrow> 'v option" where
  "ttl_get now k c = (case map_of c k of
     None \<Rightarrow> None | Some (until, v) \<Rightarrow> if now < until then Some v else None)"

definition ttl_set :: "int \<Rightarrow> int \<Rightarrow> string \<Rightarrow> 'v \<Rightarrow> 'v ttl_cache \<Rightarrow> 'v ttl_cache" where
  "ttl_set ttl now k v c = AList.update k (now + ttl, v) c"

definition ttl_purge :: "'v ttl_cache \<Rightarrow> 'v ttl_cache" where
  "ttl_purge c = []"

text \<open>A read that extends the life of the entry, and a change of the object an entry holds.\<close>

definition ttl_hit :: "int \<Rightarrow> int \<Rightarrow> string \<Rightarrow> 'v ttl_cache \<Rightarrow> 'v option \<times> 'v ttl_cache" where
  "ttl_hit ttl now k c = (case ttl_get now k c of None \<Rightarrow> (None, c) | Some v \<Rightarrow> (Some v, ttl_set ttl now k v c))"

definition ttl_change :: "string \<Rightarrow> 'v \<Rightarrow> 'v ttl_cache \<Rightarrow> 'v ttl_cache" where
  "ttl_change k x c = map (\<lambda>(k', t, v). (k', t, if k' = k then x else v)) c"

lemma ttl_get_change:
  "ttl_get now k' (ttl_change k x c) =
     (case ttl_get now k' c of None \<Rightarrow> None | Some v \<Rightarrow> Some (if k' = k then x else v))"
proof -
  have "map_of (ttl_change k x c) k' =
      (case map_of c k' of None \<Rightarrow> None | Some (t, v) \<Rightarrow> Some (t, if k' = k then x else v))"
    by (induction c) (auto simp: ttl_change_def split: option.splits)
  then show ?thesis by (simp add: ttl_get_def split: option.splits)
qed

section \<open>What a service relies on\<close>

locale service_cache =
  fixes get :: "int \<Rightarrow> string \<Rightarrow> 'c \<Rightarrow> 'v option"
    and put :: "int \<Rightarrow> string \<Rightarrow> 'v \<Rightarrow> 'c \<Rightarrow> 'c"
    and ttl :: int
  assumes get_put: "t' < t + ttl \<Longrightarrow> get t' k (put t k v c) = Some v"
    and get_other: "k' \<noteq> k \<Longrightarrow> get t' k' (put t k v c) = get t' k' c"
    and expires: "t + ttl \<le> t' \<Longrightarrow> get t' k (put t k v c) = None"
begin

text \<open>Filling the cache from a list: the last value of a key is found.\<close>

lemma get_fill:
  assumes "t' < t + ttl"
  shows "get t' k (foldl (\<lambda>c v. put t (key v) v c) c vs) =
    (case find (\<lambda>v. key v = k) (rev vs) of None \<Rightarrow> get t' k c | Some v \<Rightarrow> Some v)"
  using assms by (induction vs rule: rev_induct) (auto simp: get_put get_other)

end

interpretation ttl: service_cache ttl_get "ttl_set L" L for L
  by unfold_locales (simp_all add: ttl_get_def ttl_set_def update_conv')

text \<open>A cache whose hits extend: an entry that is hit often enough is never lost.\<close>

fun gaps_below :: "int \<Rightarrow> int \<Rightarrow> int list \<Rightarrow> bool" where
  "gaps_below d t [] \<longleftrightarrow> True"
| "gaps_below d t (u # us) \<longleftrightarrow> u < t + d \<and> gaps_below d u us"

locale hit_cache = service_cache get put ttl
  for get :: "int \<Rightarrow> string \<Rightarrow> 'c \<Rightarrow> 'v option" and put :: "int \<Rightarrow> string \<Rightarrow> 'v \<Rightarrow> 'c \<Rightarrow> 'c" and ttl :: int +
  fixes hit :: "int \<Rightarrow> string \<Rightarrow> 'c \<Rightarrow> 'v option \<times> 'c"
  assumes hit_found: "get t k c = Some v \<Longrightarrow> hit t k c = (Some v, put t k v c)"
    and hit_missing: "get t k c = None \<Longrightarrow> hit t k c = (None, c)"
begin

lemma hit_put: "u < t + ttl \<Longrightarrow> hit u k (put t k v c) = (Some v, put u k v (put t k v c))"
  by (rule hit_found) (rule get_put)

lemma kept_while_hit:
  assumes "gaps_below ttl t us" and "u < last (t # us) + ttl"
  shows "get u k (foldl (\<lambda>c u. snd (hit u k c)) (put t k v c) us) = Some v"
  using assms by (induction us arbitrary: t c) (auto simp: get_put hit_put split: if_splits)

end

interpretation lru: hit_cache ttl_get "ttl_set L" L "ttl_hit L" for L
  by unfold_locales (simp_all add: ttl_get_def ttl_set_def ttl_hit_def update_conv')

end
