(* ===== verification/Clients.thy ===== *)
theory Clients
  imports Elastic
begin

text \<open>
  Client records: the documents of a client and their merge (\<open>schema/api/clients.go\<close>), the
  client info manager with its task queue and metadata (\<open>services/client_info\<close>) and the labeler
  (\<open>services/labeler\<close>).
\<close>

section \<open>The record of a client (schema/api/clients.go)\<close>

text \<open>
  One record type serves all documents of a client: each document fills some of the fields,
  and absent fields are zero values.
\<close>

record ClientRecord =
  cr_ClientId :: string
  cr_Hostname :: string
  cr_Release :: string
  cr_Architecture :: string
  cr_ClientVersion :: string
  cr_BuildTime :: string
  cr_System :: string
  cr_FirstSeenAt :: int
  cr_LastInterrogate :: string
  cr_Ping :: int
  cr_MacAddresses :: "string list"
  cr_AssignedHunts :: "string list"
  cr_LastHuntTimestamp :: int
  cr_LastEventTableVersion :: int
  cr_Type :: string
  cr_LastLabelTimestamp :: int
  cr_Labels :: "string list"
  cr_LowerLabels :: "string list"
  cr_DocType :: string
  cr_Timestamp :: int

definition empty_client :: ClientRecord where
  "empty_client =
     \<lparr>cr_ClientId = [], cr_Hostname = [], cr_Release = [], cr_Architecture = [],
      cr_ClientVersion = [], cr_BuildTime = [], cr_System = [], cr_FirstSeenAt = 0,
      cr_LastInterrogate = [], cr_Ping = 0, cr_MacAddresses = [], cr_AssignedHunts = [],
      cr_LastHuntTimestamp = 0, cr_LastEventTableVersion = 0, cr_Type = [],
      cr_LastLabelTimestamp = 0, cr_Labels = [], cr_LowerLabels = [], cr_DocType = [],
      cr_Timestamp = 0\<rparr>"

text \<open>The JSON of a record: the fields marked \<open>omitempty\<close> are left out at their zero value.\<close>

definition opt_str :: "string \<Rightarrow> string \<Rightarrow> (string \<times> json) list" where
  "opt_str f s = (if s = [] then [] else [(f, JStr s)])"

definition opt_int :: "string \<Rightarrow> int \<Rightarrow> (string \<times> json) list" where
  "opt_int f n = (if n = 0 then [] else [(f, JInt n)])"

definition opt_strs :: "string \<Rightarrow> string list \<Rightarrow> (string \<times> json) list" where
  "opt_strs f l = (if l = [] then [] else [(f, jstrs l)])"

definition encode_client :: "ClientRecord \<Rightarrow> json" where
  "encode_client r = JObj
     (opt_str ''client_id'' (cr_ClientId r) @ opt_str ''hostname'' (cr_Hostname r) @
      opt_str ''release'' (cr_Release r) @ opt_str ''architecture'' (cr_Architecture r) @
      opt_str ''client_version'' (cr_ClientVersion r) @ opt_str ''build_time'' (cr_BuildTime r) @
      opt_str ''system'' (cr_System r) @ [(''first_seen_at'', JInt (cr_FirstSeenAt r))] @
      opt_str ''last_interrogate'' (cr_LastInterrogate r) @ opt_int ''ping'' (cr_Ping r) @
      opt_strs ''mac_addresses'' (cr_MacAddresses r) @
      opt_strs ''assigned_hunts'' (cr_AssignedHunts r) @
      opt_int ''last_hunt_timestamp'' (cr_LastHuntTimestamp r) @
      opt_int ''last_event_table_version'' (cr_LastEventTableVersion r) @
      [(''type'', JStr (cr_Type r))] @ opt_int ''labels_timestamp'' (cr_LastLabelTimestamp r) @
      opt_strs ''labels'' (cr_Labels r) @ opt_strs ''lower_labels'' (cr_LowerLabels r) @
      [(''doc_type'', JStr (cr_DocType r)), (''timestamp'', JInt (cr_Timestamp r))])"

text \<open>Decoding into a \<open>uint64\<close> field: a number out of its range is an error.\<close>

definition get_u64 :: "string \<Rightarrow> json \<Rightarrow> int result" where
  "get_u64 f j = bindR (get_int f j) (\<lambda>n. if 0 \<le> n \<and> n < 2 ^ 64 then Inr n else Inl (type_error f))"

definition decode_client :: "json \<Rightarrow> ClientRecord result" where
  "decode_client j =
     bindR (get_str ''client_id'' j) (\<lambda>a1. bindR (get_str ''hostname'' j) (\<lambda>a2.
     bindR (get_str ''release'' j) (\<lambda>a3. bindR (get_str ''architecture'' j) (\<lambda>a4.
     bindR (get_str ''client_version'' j) (\<lambda>a5. bindR (get_str ''build_time'' j) (\<lambda>a6.
     bindR (get_str ''system'' j) (\<lambda>a7. bindR (get_u64 ''first_seen_at'' j) (\<lambda>a8.
     bindR (get_str ''last_interrogate'' j) (\<lambda>a9. bindR (get_u64 ''ping'' j) (\<lambda>a10.
     bindR (get_strs ''mac_addresses'' j) (\<lambda>a11. bindR (get_strs ''assigned_hunts'' j) (\<lambda>a12.
     bindR (get_u64 ''last_hunt_timestamp'' j) (\<lambda>a13.
     bindR (get_u64 ''last_event_table_version'' j) (\<lambda>a14.
     bindR (get_str ''type'' j) (\<lambda>a15. bindR (get_u64 ''labels_timestamp'' j) (\<lambda>a16.
     bindR (get_strs ''labels'' j) (\<lambda>a17. bindR (get_strs ''lower_labels'' j) (\<lambda>a18.
     bindR (get_str ''doc_type'' j) (\<lambda>a19. bindR (get_u64 ''timestamp'' j) (\<lambda>a20.
       Inr \<lparr>cr_ClientId = a1, cr_Hostname = a2, cr_Release = a3, cr_Architecture = a4,
         cr_ClientVersion = a5, cr_BuildTime = a6, cr_System = a7, cr_FirstSeenAt = a8,
         cr_LastInterrogate = a9, cr_Ping = a10, cr_MacAddresses = a11, cr_AssignedHunts = a12,
         cr_LastHuntTimestamp = a13, cr_LastEventTableVersion = a14, cr_Type = a15,
         cr_LastLabelTimestamp = a16, cr_Labels = a17, cr_LowerLabels = a18, cr_DocType = a19,
         cr_Timestamp = a20\<rparr>))))))))))))))))))))"

definition in_u64 :: "int \<Rightarrow> bool" where
  "in_u64 n \<longleftrightarrow> 0 \<le> n \<and> n < 2 ^ 64"

definition client_ok :: "ClientRecord \<Rightarrow> bool" where
  "client_ok r \<longleftrightarrow> in_u64 (cr_FirstSeenAt r) \<and> in_u64 (cr_Ping r) \<and> in_u64 (cr_LastHuntTimestamp r) \<and>
     in_u64 (cr_LastEventTableVersion r) \<and> in_u64 (cr_LastLabelTimestamp r) \<and> in_u64 (cr_Timestamp r)"

text \<open>The fields of an encoded record, one at a time.\<close>

lemma map_of_opt [simp]:
  "map_of (opt_str f s @ kvs) g = (if g = f \<and> s \<noteq> [] then Some (JStr s) else map_of kvs g)"
  "map_of (opt_int f n @ kvs) g = (if g = f \<and> n \<noteq> 0 then Some (JInt n) else map_of kvs g)"
  "map_of (opt_strs f l @ kvs) g = (if g = f \<and> l \<noteq> [] then Some (jstrs l) else map_of kvs g)"
  by (simp_all add: opt_str_def opt_int_def opt_strs_def)

lemma encode_client_strs:
  "get_str ''client_id'' (encode_client r) = Inr (cr_ClientId r)"
  "get_str ''hostname'' (encode_client r) = Inr (cr_Hostname r)"
  "get_str ''release'' (encode_client r) = Inr (cr_Release r)"
  "get_str ''architecture'' (encode_client r) = Inr (cr_Architecture r)"
  "get_str ''client_version'' (encode_client r) = Inr (cr_ClientVersion r)"
  "get_str ''build_time'' (encode_client r) = Inr (cr_BuildTime r)"
  "get_str ''system'' (encode_client r) = Inr (cr_System r)"
  "get_str ''last_interrogate'' (encode_client r) = Inr (cr_LastInterrogate r)"
  "get_str ''type'' (encode_client r) = Inr (cr_Type r)"
  "get_str ''doc_type'' (encode_client r) = Inr (cr_DocType r)"
  by (simp_all add: get_str_def encode_client_def del: map_of_append)

lemma encode_client_ints:
  "get_int ''first_seen_at'' (encode_client r) = Inr (cr_FirstSeenAt r)"
  "get_int ''ping'' (encode_client r) = Inr (cr_Ping r)"
  "get_int ''last_hunt_timestamp'' (encode_client r) = Inr (cr_LastHuntTimestamp r)"
  "get_int ''last_event_table_version'' (encode_client r) = Inr (cr_LastEventTableVersion r)"
  "get_int ''labels_timestamp'' (encode_client r) = Inr (cr_LastLabelTimestamp r)"
  "get_int ''timestamp'' (encode_client r) = Inr (cr_Timestamp r)"
  by (simp_all add: get_int_def encode_client_def del: map_of_append)

lemma encode_client_lists:
  "get_strs ''mac_addresses'' (encode_client r) = Inr (cr_MacAddresses r)"
  "get_strs ''assigned_hunts'' (encode_client r) = Inr (cr_AssignedHunts r)"
  "get_strs ''labels'' (encode_client r) = Inr (cr_Labels r)"
  "get_strs ''lower_labels'' (encode_client r) = Inr (cr_LowerLabels r)"
  by (simp_all add: get_strs_def get_list_def encode_client_def jstrs_def del: map_of_append)

lemma decode_encode_client: "client_ok r \<Longrightarrow> decode_client (encode_client r) = Inr r"
  by (simp add: decode_client_def encode_client_strs encode_client_ints encode_client_lists
      get_u64_def client_ok_def in_u64_def)

section \<open>Merging the documents of a client\<close>

definition set_str :: "string \<Rightarrow> string \<Rightarrow> string" where
  "set_str old new = (if new \<noteq> [] then new else old)"

definition set_int :: "int \<Rightarrow> int \<Rightarrow> int" where
  "set_int old new = (if new \<noteq> 0 then new else old)"

definition mergeClientRecords :: "ClientRecord \<Rightarrow> ClientRecord \<Rightarrow> ClientRecord" where
  "mergeClientRecords a b = a\<lparr>
     cr_Hostname := set_str (cr_Hostname a) (cr_Hostname b),
     cr_Release := set_str (cr_Release a) (cr_Release b),
     cr_Architecture := set_str (cr_Architecture a) (cr_Architecture b),
     cr_BuildTime := set_str (cr_BuildTime a) (cr_BuildTime b),
     cr_System := set_str (cr_System a) (cr_System b),
     cr_FirstSeenAt := set_int (cr_FirstSeenAt a) (cr_FirstSeenAt b),
     cr_LastInterrogate := set_str (cr_LastInterrogate a) (cr_LastInterrogate b),
     cr_Ping := set_int (cr_Ping a) (cr_Ping b),
     cr_Labels := (if cr_Labels b \<noteq> [] then cr_Labels a @ cr_Labels b else cr_Labels a),
     cr_LowerLabels := (if cr_Labels b \<noteq> [] then cr_LowerLabels a @ cr_LowerLabels b else cr_LowerLabels a),
     cr_MacAddresses := (if cr_MacAddresses b \<noteq> [] then cr_MacAddresses a @ cr_MacAddresses b
                         else cr_MacAddresses a),
     cr_LastHuntTimestamp := set_int (cr_LastHuntTimestamp a) (cr_LastHuntTimestamp b),
     cr_LastEventTableVersion := set_int (cr_LastEventTableVersion a) (cr_LastEventTableVersion b),
     cr_AssignedHunts := (if cr_AssignedHunts b \<noteq> [] then cr_AssignedHunts a @ cr_AssignedHunts b
                          else cr_AssignedHunts a),
     cr_LastLabelTimestamp := set_int (cr_LastLabelTimestamp a) (cr_LastLabelTimestamp b)\<rparr>"

text \<open>
  The lookup is an ordered dictionary from client ids to records: the place of a client is
  that of its first document.
\<close>

fun merge_hit :: "ClientRecord \<Rightarrow> (string \<times> ClientRecord) list \<Rightarrow> (string \<times> ClientRecord) list" where
  "merge_hit r [] = [(cr_ClientId r, r)]"
| "merge_hit r ((k, a) # lookup) =
     (if k = cr_ClientId r then (k, mergeClientRecords a r) # lookup else (k, a) # merge_hit r lookup)"

fun merge_hits :: "json list \<Rightarrow> (string \<times> ClientRecord) list \<Rightarrow> (string \<times> ClientRecord) list" where
  "merge_hits [] lookup = lookup"
| "merge_hits (hit # hits) lookup =
     (case decode_client hit of
        Inl e \<Rightarrow> merge_hits hits lookup
      | Inr r \<Rightarrow> if cr_ClientId r = [] then merge_hits hits lookup
                 else merge_hits hits (merge_hit r lookup))"

definition client_doc_ids :: "string \<Rightarrow> string list" where
  "client_doc_ids i = [i, i @ ''_ping'', i @ ''_labels'', i @ ''_hunts'', i @ ''_interrogate'']"

definition GetMultipleClients ::
  "('s, 'z) elastic_scheme \<Rightarrow> string \<Rightarrow> string list \<Rightarrow> 's \<Rightarrow> ClientRecord list result" where
  "GetMultipleClients es org_id client_ids s =
     bindR (GetMultipleElasticRecords es org_id PERSISTED (concat (map client_doc_ids client_ids)) s)
       (\<lambda>hits. Inr (map snd (merge_hits hits [])))"

text \<open>
  \<open>(.+)_(labels|ping)\<close> on a document id without line breaks: the first group is the longest
  non-empty prefix that such a suffix follows.
\<close>

definition doc_id_match :: "string \<Rightarrow> nat \<Rightarrow> bool" where
  "doc_id_match doc_id n \<longleftrightarrow> 0 < n \<and>
     (HasPrefix (drop n doc_id) ''_labels'' \<or> HasPrefix (drop n doc_id) ''_ping'')"

definition GetClientIdFromDocId :: "string \<Rightarrow> string" where
  "GetClientIdFromDocId doc_id =
     (case filter (doc_id_match doc_id) (rev [0..<length doc_id]) of
        [] \<Rightarrow> doc_id
      | n # _ \<Rightarrow> take n doc_id)"

text \<open>The records the merge takes, and the merge of the records of one client.\<close>

definition valid_clients :: "json list \<Rightarrow> ClientRecord list" where
  "valid_clients hits = concat (map (\<lambda>h. case decode_client h of
     Inl e \<Rightarrow> [] | Inr r \<Rightarrow> if cr_ClientId r = [] then [] else [r]) hits)"

definition merged_client :: "ClientRecord list \<Rightarrow> string \<Rightarrow> ClientRecord" where
  "merged_client rs k = (let g = filter (\<lambda>r. cr_ClientId r = k) rs
                         in foldl mergeClientRecords (hd g) (tl g))"

lemma merge_hits_foldl: "merge_hits hits L = foldl (\<lambda>l r. merge_hit r l) L (valid_clients hits)"
  by (induction hits arbitrary: L) (auto simp: valid_clients_def split: sum.splits)

lemma merge_hit_map:
  "distinct ks \<Longrightarrow> merge_hit r (map (\<lambda>k. (k, M k)) ks) =
     map (\<lambda>k. (k, if k = cr_ClientId r then (if k \<in> set ks then mergeClientRecords (M k) r else r) else M k))
       (append_new ks (cr_ClientId r))"
  by (induction ks) (auto simp: append_new_def)

lemma merged_client_snoc:
  "merged_client (rs @ [r]) k =
     (if cr_ClientId r = k then
        (if k \<in> set (map cr_ClientId rs) then mergeClientRecords (merged_client rs k) r else r)
      else merged_client rs k)"
proof (cases "filter (\<lambda>r. cr_ClientId r = k) rs")
  case Nil
  then show ?thesis by (auto simp: merged_client_def filter_empty_conv)
next
  case (Cons a g)
  then have "a \<in> set (filter (\<lambda>r. cr_ClientId r = k) rs)" by simp
  then have "\<exists>r \<in> set rs. cr_ClientId r = k" by auto
  then show ?thesis using Cons by (auto simp: merged_client_def)
qed

lemma merge_hit_all:
  "foldl (\<lambda>l r. merge_hit r l) [] rs =
     map (\<lambda>k. (k, merged_client rs k)) (foldl append_new [] (map cr_ClientId rs))"
proof (induction rs rule: rev_induct)
  case (snoc r rs)
  then show ?case
    by (simp add: merge_hit_map distinct_fold_append_new merged_client_snoc set_fold_append_new
        cong: map_cong)
qed simp

lemma merged_client_id:
  "k \<in> set (map cr_ClientId rs) \<Longrightarrow> cr_ClientId (merged_client rs k) = k"
  by (induction rs rule: rev_induct) (auto simp: merged_client_snoc mergeClientRecords_def)

section \<open>The client info manager (services/client_info)\<close>

text \<open>The fields of \<open>services.ClientInfo\<close> the program uses.\<close>

record ClientInfo =
  ci_ClientId :: string
  ci_Hostname :: string
  ci_Fqdn :: string
  ci_System :: string
  ci_Release :: string
  ci_Architecture :: string
  ci_MacAddresses :: "string list"
  ci_FirstSeenAt :: int
  ci_Ping :: int
  ci_LastHuntTimestamp :: int
  ci_LastEventTableVersion :: int
  ci_BuildTime :: string
  ci_Labels :: "string list"
  ci_LastInterrogateFlowId :: string

definition ToClientInfo :: "ClientRecord \<Rightarrow> ClientInfo" where
  "ToClientInfo r =
     \<lparr>ci_ClientId = cr_ClientId r, ci_Hostname = cr_Hostname r, ci_Fqdn = [], ci_System = cr_System r,
      ci_Release = [], ci_Architecture = [], ci_MacAddresses = cr_MacAddresses r,
      ci_FirstSeenAt = cr_FirstSeenAt r, ci_Ping = cr_Ping r,
      ci_LastHuntTimestamp = cr_LastHuntTimestamp r,
      ci_LastEventTableVersion = cr_LastEventTableVersion r, ci_BuildTime = [],
      ci_Labels = cr_Labels r, ci_LastInterrogateFlowId = cr_LastInterrogate r\<rparr>"

text \<open>\<open>(?i)^(C\.[a-z0-9]+|server)\<close>: only the beginning of the id is looked at.\<close>

definition is_alnum_ci :: "char \<Rightarrow> bool" where
  "is_alnum_ci c = (let n = of_char (lower_char c) :: nat in (97 \<le> n \<and> n \<le> 122) \<or> (48 \<le> n \<and> n \<le> 57))"

definition client_id_matches :: "string \<Rightarrow> bool" where
  "client_id_matches s \<longleftrightarrow>
     (case ToLower s of
        a # b # c # _ \<Rightarrow> (a = CHR ''c'' \<and> b = CHR ''.'' \<and> is_alnum_ci c) \<or> HasPrefix (ToLower s) ''server''
      | _ \<Rightarrow> False)"

definition ValidateClientId :: "string \<Rightarrow> go_error option" where
  "ValidateClientId client_id =
     (if client_id = [] then Some (Err ''ClientId not provided'')
      else if \<not> client_id_matches client_id then Some (Err ''ClientId is not valid'')
      else None)"

text \<open>
  \<open>now\<close> is the clock in seconds. The record of \<open>Set\<close> is the whole new document of the client.
\<close>

definition client_set_record :: "int \<Rightarrow> ClientInfo \<Rightarrow> ClientRecord" where
  "client_set_record now info = empty_client
     \<lparr>cr_ClientId := ci_ClientId info, cr_Hostname := ci_Hostname info, cr_System := ci_System info,
      cr_FirstSeenAt := ci_FirstSeenAt info, cr_Type := ''main'',
      cr_MacAddresses := ci_MacAddresses info, cr_LastHuntTimestamp := ci_LastHuntTimestamp info,
      cr_LastEventTableVersion := ci_LastEventTableVersion info, cr_DocType := ''clients'',
      cr_Timestamp := u64 now\<rparr>"

definition client_Set ::
  "('s, 'z) elastic_scheme \<Rightarrow> string \<Rightarrow> int \<Rightarrow> ClientInfo \<Rightarrow> 's \<Rightarrow> go_error option \<times> 's" where
  "client_Set es org_id now info s =
     SetElasticIndex es org_id PERSISTED (ci_ClientId info) (encode_client (client_set_record now info)) s"

text \<open>
  \<open>_makeApiClient\<close> and \<open>Get\<close> together (\<open>services/indexing/indexing.go\<close>): the times pass through
  seconds on the way, so they lose their last three digits.
\<close>

definition client_info_of :: "ClientRecord \<Rightarrow> ClientInfo" where
  "client_info_of r =
     \<lparr>ci_ClientId = cr_ClientId r, ci_Hostname = cr_Hostname r, ci_Fqdn = cr_Hostname r,
      ci_System = cr_System r, ci_Release = cr_Release r, ci_Architecture = cr_Architecture r,
      ci_MacAddresses = cr_MacAddresses r,
      ci_FirstSeenAt = u64 (cr_FirstSeenAt r div 1000 * 1000), ci_Ping = u64 (cr_Ping r div 1000 * 1000),
      ci_LastHuntTimestamp = cr_LastHuntTimestamp r,
      ci_LastEventTableVersion = cr_LastEventTableVersion r, ci_BuildTime = cr_BuildTime r,
      ci_Labels = [], ci_LastInterrogateFlowId = []\<rparr>"

text \<open>
  \<open>FastGetApiClient\<close> keeps the records it has read in a cache of five minutes; \<open>cached\<close> is the
  record the cache still holds for the client.
\<close>

definition client_Get ::
  "('s, 'z) elastic_scheme \<Rightarrow> string \<Rightarrow> ClientRecord option \<Rightarrow> string \<Rightarrow> 's \<Rightarrow> ClientInfo result" where
  "client_Get es org_id cached client_id s =
     (case cached of
        Some r \<Rightarrow> Inr (client_info_of r)
      | None \<Rightarrow>
          bindR (GetMultipleClients es org_id [client_id] s) (\<lambda>records.
            case records of [] \<Rightarrow> Inl NotFoundError | r # _ \<Rightarrow> Inr (client_info_of r)))"

definition client_Modify ::
  "('s, 'z) elastic_scheme \<Rightarrow> string \<Rightarrow> ClientRecord option \<Rightarrow> int \<Rightarrow> string
     \<Rightarrow> (ClientInfo \<Rightarrow> ClientInfo option result) \<Rightarrow> 's \<Rightarrow> go_error option \<times> 's" where
  "client_Modify es org_id cached now client_id modifier s =
     (case client_Get es org_id cached client_id s of
        Inl e \<Rightarrow> (Some e, s)
      | Inr r \<Rightarrow>
          (case modifier r of
             Inl e \<Rightarrow> (Some e, s)
           | Inr None \<Rightarrow> (None, s)
           | Inr (Some new) \<Rightarrow> client_Set es org_id now new s))"

text \<open>The errors of the four deletes are dropped.\<close>

fun delete_docs :: "('s, 'z) elastic_scheme \<Rightarrow> string \<Rightarrow> string list \<Rightarrow> 's \<Rightarrow> 's" where
  "delete_docs es org_id [] s = s"
| "delete_docs es org_id (i # ids) s =
     delete_docs es org_id ids (snd (DeleteDocument es org_id PERSISTED i True s))"

definition client_Remove :: "('s, 'z) elastic_scheme \<Rightarrow> string \<Rightarrow> string \<Rightarrow> 's \<Rightarrow> 's" where
  "client_Remove es org_id client_id s =
     delete_docs es org_id
       (map (\<lambda>suffix. client_id @ suffix) [[], ''_ping'', ''_hunts'', ''_labels'']) s"

section \<open>The task queue (client_info_common.go)\<close>

text \<open>
  Messages: the fields the program reads or writes by name, the others as a document. The
  message codec (\<open>protojson\<close>) is a parameter.
\<close>

record vql_args =
  va_MaxWait :: int
  va_Timeout :: int
  va_Query :: json

record event_table =
  et_Version :: int
  et_Event :: "vql_args list"

record velo_message =
  vm_SessionId :: string
  vm_UpdateEventTable :: "event_table option"
  vm_Other :: json

record msg_codec =
  mc_Marshal :: "velo_message \<Rightarrow> string result"
  mc_Unmarshal :: "string \<Rightarrow> velo_message result"

record ClientTask =
  ct_ClientId :: string
  ct_FlowId :: string
  ct_Timestamp :: int
  ct_JSONData :: string
  ct_DocType :: string

definition encode_task :: "ClientTask \<Rightarrow> json" where
  "encode_task t = JObj [(''client_id'', JStr (ct_ClientId t)), (''flow_id'', JStr (ct_FlowId t)),
     (''timestamp'', JInt (ct_Timestamp t)), (''data'', JStr (ct_JSONData t)),
     (''doc_type'', JStr (ct_DocType t))]"

definition decode_task :: "json \<Rightarrow> ClientTask result" where
  "decode_task j =
     bindR (get_str ''client_id'' j) (\<lambda>a. bindR (get_str ''flow_id'' j) (\<lambda>b.
     bindR (get_int ''timestamp'' j) (\<lambda>c. bindR (get_str ''data'' j) (\<lambda>d.
     bindR (get_str ''doc_type'' j) (\<lambda>e.
       Inr \<lparr>ct_ClientId = a, ct_FlowId = b, ct_Timestamp = c, ct_JSONData = d, ct_DocType = e\<rparr>)))))"

lemma decode_encode_task [simp]: "decode_task (encode_task t) = Inr t"
  by (simp add: decode_task_def encode_task_def get_str_def get_int_def)

definition QueueMessageForClient ::
  "('s, 'z) elastic_scheme \<Rightarrow> string \<Rightarrow> msg_codec \<Rightarrow> int \<Rightarrow> string \<Rightarrow> velo_message \<Rightarrow> 's
     \<Rightarrow> go_error option \<times> 's" where
  "QueueMessageForClient es org_id codec now client_id req s =
     (case mc_Marshal codec req of
        Inl e \<Rightarrow> (Some e, s)
      | Inr serialized \<Rightarrow>
          SetElasticIndex es org_id PERSISTED [] (encode_task
            \<lparr>ct_ClientId = client_id, ct_FlowId = vm_SessionId req, ct_Timestamp = now,
             ct_JSONData = serialized, ct_DocType = ''task''\<rparr>) s)"

text \<open>The clock of the n-th message of a batch is \<open>clock n\<close>.\<close>

fun QueueMessagesForClient ::
  "('s, 'z) elastic_scheme \<Rightarrow> string \<Rightarrow> msg_codec \<Rightarrow> (nat \<Rightarrow> int) \<Rightarrow> string \<Rightarrow> velo_message list \<Rightarrow> 's
     \<Rightarrow> go_error option \<times> 's" where
  "QueueMessagesForClient es org_id codec clock client_id [] s = (None, s)"
| "QueueMessagesForClient es org_id codec clock client_id (m # ms) s =
     orElse (QueueMessageForClient es org_id codec (clock 0) client_id m s)
       (QueueMessagesForClient es org_id codec (\<lambda>n. clock (Suc n)) client_id ms)"

fun QueueMessageForMultipleClients ::
  "('s, 'z) elastic_scheme \<Rightarrow> string \<Rightarrow> msg_codec \<Rightarrow> (nat \<Rightarrow> int) \<Rightarrow> string list \<Rightarrow> velo_message \<Rightarrow> 's
     \<Rightarrow> go_error option \<times> 's" where
  "QueueMessageForMultipleClients es org_id codec clock [] req s = (None, s)"
| "QueueMessageForMultipleClients es org_id codec clock (c # client_ids) req s =
     orElse (QueueMessageForClient es org_id codec (clock 0) c req s)
       (QueueMessageForMultipleClients es org_id codec (\<lambda>n. clock (Suc n)) client_ids req)"

definition client_tasks_query :: "string \<Rightarrow> search_req" where
  "client_tasks_query client_id =
     (query_of (Must [Match ''doc_type'' (JStr ''task''), Match ''client_id'' (JStr client_id)]))
       \<lparr>sq_sort := Some (''timestamp'', False)\<rparr>"

text \<open>The message of a task document; what does not decode is skipped.\<close>

definition task_message :: "msg_codec \<Rightarrow> json \<Rightarrow> velo_message result" where
  "task_message codec j = bindR (decode_task j) (\<lambda>item. mc_Unmarshal codec (ct_JSONData item))"

fun take_tasks ::
  "('s, 'z) elastic_scheme \<Rightarrow> string \<Rightarrow> msg_codec \<Rightarrow> elastic_hit list \<Rightarrow> velo_message list \<Rightarrow> 's
     \<Rightarrow> velo_message list result \<times> 's" where
  "take_tasks es org_id codec [] results s = (Inr results, s)"
| "take_tasks es org_id codec (hit # hits) results s =
     (case DeleteDocument es org_id PERSISTED (hit_Id hit) False s of
        (Some e, s1) \<Rightarrow> (Inl e, s1)
      | (None, s1) \<Rightarrow>
          (case task_message codec (hit_Source hit) of
             Inl e \<Rightarrow> take_tasks es org_id codec hits results s1
           | Inr m \<Rightarrow> take_tasks es org_id codec hits (results @ [m]) s1))"

definition GetClientTasks ::
  "('s, 'z) elastic_scheme \<Rightarrow> string \<Rightarrow> msg_codec \<Rightarrow> string \<Rightarrow> 's \<Rightarrow> velo_message list result \<times> 's" where
  "GetClientTasks es org_id codec client_id s =
     (case QueryElastic es org_id PERSISTED (client_tasks_query client_id) s of
        Inl e \<Rightarrow> (Inl e, s)
      | Inr hits \<Rightarrow> take_tasks es org_id codec hits [] s)"

fun peek_tasks :: "msg_codec \<Rightarrow> elastic_hit list \<Rightarrow> velo_message list" where
  "peek_tasks codec [] = []"
| "peek_tasks codec (hit # hits) =
     (case task_message codec (hit_Source hit) of
        Inl e \<Rightarrow> peek_tasks codec hits
      | Inr m \<Rightarrow> m # peek_tasks codec hits)"

definition PeekClientTasks ::
  "('s, 'z) elastic_scheme \<Rightarrow> string \<Rightarrow> msg_codec \<Rightarrow> string \<Rightarrow> 's \<Rightarrow> velo_message list result" where
  "PeekClientTasks es org_id codec client_id s =
     bindR (QueryElastic es org_id PERSISTED (client_tasks_query client_id) s) (\<lambda>hits.
       Inr (peek_tasks codec hits))"

section \<open>Metadata (metadata.go)\<close>

text \<open>
  The metadata of a client is a document that holds a dictionary as JSON text; \<open>parse\<close> and
  \<open>marshal\<close> are the dictionary's JSON codec.
\<close>

definition GetMetadata ::
  "('s, 'z) elastic_scheme \<Rightarrow> string \<Rightarrow> (string \<Rightarrow> (string \<times> json) list result) \<Rightarrow> string \<Rightarrow> 's
     \<Rightarrow> (string \<times> json) list" where
  "GetMetadata es org_id parse client_id s =
     (case GetElasticRecord es org_id PERSISTED (client_id @ ''_metadata'') s of
        Inl e \<Rightarrow> []
      | Inr message \<Rightarrow>
          (case bindR (get_str ''client_id'' message) (\<lambda>a. get_str ''metadata'' message) of
             Inl e \<Rightarrow> []
           | Inr m \<Rightarrow> (case parse m of Inl e \<Rightarrow> [] | Inr kvs \<Rightarrow> kvs)))"

definition valueIsRemove :: "json \<Rightarrow> bool" where
  "valueIsRemove v \<longleftrightarrow> v = JNull \<or> v = JStr []"

text \<open>The two loops of \<open>SetMetadata\<close>, over the keys of the old and of the new dictionary.\<close>

fun update_old ::
  "string list \<Rightarrow> (string \<times> json) list \<Rightarrow> (string \<times> json) list \<Rightarrow> (string \<times> json) list" where
  "update_old [] new old = old"
| "update_old (k # ks) new old =
     (case map_of new k of
        None \<Rightarrow> update_old ks new old
      | Some v \<Rightarrow> if valueIsRemove v then update_old ks new (kv_del k old)
                  else update_old ks new (kv_set k v old))"

fun add_missing ::
  "string list \<Rightarrow> (string \<times> json) list \<Rightarrow> (string \<times> json) list \<Rightarrow> (string \<times> json) list" where
  "add_missing [] new old = old"
| "add_missing (k # ks) new old =
     (case map_of old k of
        Some v \<Rightarrow> add_missing ks new old
      | None \<Rightarrow> add_missing ks new
          (kv_set k (case map_of new k of None \<Rightarrow> JNull | Some v \<Rightarrow> v) old))"

definition merge_metadata ::
  "(string \<times> json) list \<Rightarrow> (string \<times> json) list \<Rightarrow> (string \<times> json) list" where
  "merge_metadata old new = add_missing (map fst new) new (update_old (map fst old) new old)"

definition SetMetadata ::
  "('s, 'z) elastic_scheme \<Rightarrow> string \<Rightarrow> (string \<Rightarrow> (string \<times> json) list result)
     \<Rightarrow> ((string \<times> json) list \<Rightarrow> string result) \<Rightarrow> string \<Rightarrow> (string \<times> json) list \<Rightarrow> 's
     \<Rightarrow> go_error option \<times> 's" where
  "SetMetadata es org_id parse marshal client_id metadata s =
     (case marshal (merge_metadata (GetMetadata es org_id parse client_id s) metadata) of
        Inl e \<Rightarrow> (Some e, s)
      | Inr serialized \<Rightarrow>
          SetElasticIndex es org_id PERSISTED (client_id @ ''_metadata'')
            (JObj [(''client_id'', JStr client_id), (''metadata'', JStr serialized)]) s)"

section \<open>The labeler (services/labeler/labeler.go)\<close>

definition label_char :: "char \<Rightarrow> bool" where
  "label_char c = (is_alnum_ci c \<or> c \<in> {CHR ''_'', CHR ''$'', CHR ''-''})"

text \<open>\<open>^[a-zA-Z0-9_$-]+$\<close>.\<close>

definition label_regex :: "string \<Rightarrow> bool" where
  "label_regex l \<longleftrightarrow> l \<noteq> [] \<and> list_all label_char l"

text \<open>Assigning a field of the source of a document.\<close>

fun jset :: "string \<Rightarrow> json \<Rightarrow> json \<Rightarrow> json" where
  "jset f v (JObj kvs) = JObj (kv_set f v kvs)"
| "jset f v j = j"

text \<open>
  \<open>all_label_painless\<close>; the script throws when a list it works on is missing.
\<close>

definition add_label_script :: "string \<Rightarrow> string \<Rightarrow> int \<Rightarrow> json \<Rightarrow> json option" where
  "add_label_script label lower_label now d =
     (case jget ''lower_labels'' d of
        Some (JList lows) \<Rightarrow>
          (if JStr lower_label \<in> set lows then Some d
           else (case jget ''labels'' d of
                   Some (JList labs) \<Rightarrow>
                     Some (jset ''last_event_table_version'' (JInt 0)
                          (jset ''last_hunt_timestamp'' (JInt 0)
                          (jset ''labels_timestamp'' (JInt now)
                          (jset ''lower_labels'' (JList (lows @ [JStr lower_label]))
                          (jset ''labels'' (JList (labs @ [JStr label])) d)))))
                 | _ \<Rightarrow> None))
      | _ \<Rightarrow> None)"

text \<open>
  \<open>remove_label_painless\<close>: the loop runs from the last index down and removes the entry from
  both lists; removing an index a list does not have throws.
\<close>

definition list_remove :: "nat \<Rightarrow> 'a list \<Rightarrow> 'a list" where
  "list_remove i xs = take i xs @ drop (Suc i) xs"

fun remove_loop ::
  "string \<Rightarrow> nat \<Rightarrow> json list \<Rightarrow> json list \<Rightarrow> bool \<Rightarrow> (json list \<times> json list \<times> bool) option" where
  "remove_loop lower 0 labs lows changed = Some (labs, lows, changed)"
| "remove_loop lower (Suc i) labs lows changed =
     (if lows ! i = JStr lower then
        (if i < length labs then remove_loop lower i (list_remove i labs) (list_remove i lows) True
         else None)
      else remove_loop lower i labs lows changed)"

definition remove_label_script :: "string \<Rightarrow> int \<Rightarrow> json \<Rightarrow> json option" where
  "remove_label_script lower_label now d =
     (case jget ''lower_labels'' d of
        Some (JList lows) \<Rightarrow>
          (case jget ''labels'' d of
             Some (JList labs) \<Rightarrow>
               (case remove_loop lower_label (length lows) labs lows False of
                  None \<Rightarrow> None
                | Some (labs', lows', changed) \<Rightarrow>
                    Some (let d' = jset ''lower_labels'' (JList lows') (jset ''labels'' (JList labs') d)
                          in if changed then jset ''labels_timestamp'' (JInt now) d' else d'))
           | _ \<Rightarrow> (if JStr lower_label \<in> set lows then None else Some d))
      | _ \<Rightarrow> None)"

definition label_record :: "int \<Rightarrow> string \<Rightarrow> string \<Rightarrow> ClientRecord" where
  "label_record now client_id label = empty_client
     \<lparr>cr_ClientId := client_id, cr_Labels := [label], cr_LowerLabels := [ToLower label],
      cr_LastLabelTimestamp := u64 now, cr_DocType := ''clients'',
      cr_Timestamp := u64 (now div 1000000000)\<rparr>"

text \<open>\<open>now\<close> is the clock in nanoseconds.\<close>

definition SetClientLabel ::
  "('s, 'z) elastic_scheme \<Rightarrow> string \<Rightarrow> int \<Rightarrow> string \<Rightarrow> string \<Rightarrow> 's \<Rightarrow> go_error option \<times> 's" where
  "SetClientLabel es org_id now client_id raw_label s =
     (let label = TrimSpace raw_label
      in if \<not> label_regex label then (Some (Err ''Invalid Label should use only A-Z and 0-9''), s)
         else (case UpdateIndex es org_id PERSISTED (client_id @ ''_labels'')
                      \<lparr>up_script = add_label_script label (ToLower label) now, up_upsert = None\<rparr> s of
                 (None, s1) \<Rightarrow> (None, s1)
               | (Some e, s1) \<Rightarrow>
                   if \<not> Contains (err_text e) ''document_missing_exception'' then (Some e, s1)
                   else SetElasticIndex es org_id PERSISTED (client_id @ ''_labels'')
                          (encode_client (label_record now client_id label)) s1))"

definition RemoveClientLabel ::
  "('s, 'z) elastic_scheme \<Rightarrow> string \<Rightarrow> int \<Rightarrow> string \<Rightarrow> string \<Rightarrow> 's \<Rightarrow> go_error option \<times> 's" where
  "RemoveClientLabel es org_id now client_id raw_label s =
     UpdateIndex es org_id PERSISTED (client_id @ ''_labels'')
       \<lparr>up_script = remove_label_script (ToLower (TrimSpace raw_label)) now, up_upsert = None\<rparr> s"

definition IsLabelSet ::
  "('s, 'z) elastic_scheme \<Rightarrow> string \<Rightarrow> ClientRecord option \<Rightarrow> string \<Rightarrow> string \<Rightarrow> 's \<Rightarrow> bool" where
  "IsLabelSet es org_id cached client_id label s =
     (case client_Get es org_id cached client_id s of
        Inl e \<Rightarrow> False
      | Inr info \<Rightarrow> InString (ci_Labels info) label)"

definition GetClientLabels ::
  "('s, 'z) elastic_scheme \<Rightarrow> string \<Rightarrow> ClientRecord option \<Rightarrow> string \<Rightarrow> 's \<Rightarrow> string list" where
  "GetClientLabels es org_id cached client_id s =
     (case client_Get es org_id cached client_id s of Inl e \<Rightarrow> [] | Inr info \<Rightarrow> ci_Labels info)"

section \<open>Labels: the document against the list of labels\<close>

text \<open>
  What a label document says: the labels and, position by position, their lower case forms,
  no two of them equal.
\<close>

definition label_doc :: "json \<Rightarrow> string list \<Rightarrow> bool" where
  "label_doc d labs \<longleftrightarrow> (\<exists>kvs. d = JObj kvs) \<and> jget ''labels'' d = Some (jstrs labs) \<and>
     jget ''lower_labels'' d = Some (jstrs (map ToLower labs)) \<and> distinct (map ToLower labs)"

lemma jget_jset [simp]:
  "(\<exists>kvs. d = JObj kvs) \<Longrightarrow> jget g (jset f v d) = (if g = f then Some v else jget g d)"
  by (auto simp: map_of_kv_set)

lemma jset_obj [simp]: "(\<exists>kvs. d = JObj kvs) \<Longrightarrow> \<exists>kvs. jset f v d = JObj kvs"
  by auto

text \<open>The two operations on the list of labels.\<close>

definition add_label :: "string \<Rightarrow> string list \<Rightarrow> string list" where
  "add_label l labs = (if ToLower l \<in> set (map ToLower labs) then labs else labs @ [l])"

definition remove_label :: "string \<Rightarrow> string list \<Rightarrow> string list" where
  "remove_label l labs = filter (\<lambda>x. ToLower x \<noteq> ToLower l) labs"

lemma add_label_script_doc:
  assumes "label_doc d labs"
  shows "\<exists>d'. add_label_script l (ToLower l) now d = Some d' \<and> label_doc d' (add_label l labs)"
  using assms by (auto simp: add_label_script_def label_doc_def add_label_def jstrs_def image_iff)

lemma remove_loop_filter:
  assumes "length labs = length lows" and "n \<le> length lows"
  shows "\<exists>ch. remove_loop lower n labs lows changed = Some
    (map fst (filter (\<lambda>p. snd p \<noteq> JStr lower) (zip (take n labs) (take n lows))) @ drop n labs,
     map snd (filter (\<lambda>p. snd p \<noteq> JStr lower) (zip (take n labs) (take n lows))) @ drop n lows, ch)"
  using assms
proof (induction n arbitrary: labs lows changed)
  case (Suc i)
  have i: "i < length labs" "i < length lows" using Suc.prems by auto
  show ?case
  proof (cases "lows ! i = JStr lower")
    case True
    have "remove_loop lower (Suc i) labs lows changed =
        remove_loop lower i (list_remove i labs) (list_remove i lows) True"
      using True i by simp
    moreover have "length (list_remove i labs) = length (list_remove i lows)"
      "i \<le> length (list_remove i lows)" using Suc.prems i by (simp_all add: list_remove_def)
    ultimately show ?thesis
      using Suc.IH [of "list_remove i labs" "list_remove i lows" True] True i Suc.prems
      by (auto simp: take_Suc_conv_app_nth list_remove_def)
  next
    case False
    then show ?thesis
      using Suc.IH [of labs lows changed] i Suc.prems
      by (auto simp: take_Suc_conv_app_nth Cons_nth_drop_Suc)
  qed
qed simp

lemma zip_filter_map:
  "map fst (filter (\<lambda>p. snd p \<noteq> JStr l) (zip (map JStr xs) (map (\<lambda>x. JStr (f x)) xs))) =
     map JStr (filter (\<lambda>x. f x \<noteq> l) xs)"
  "map snd (filter (\<lambda>p. snd p \<noteq> JStr l) (zip (map JStr xs) (map (\<lambda>x. JStr (f x)) xs))) =
     map JStr (map f (filter (\<lambda>x. f x \<noteq> l) xs))"
  by (induction xs) auto

lemma remove_label_script_doc:
  assumes "label_doc d labs"
  shows "\<exists>d'. remove_label_script (ToLower l) now d = Some d' \<and> label_doc d' (remove_label l labs)"
proof -
  obtain ch where "remove_loop (ToLower l) (length labs) (map JStr labs) (map JStr (map ToLower labs)) False =
      Some (map JStr (remove_label l labs), map JStr (map ToLower (remove_label l labs)), ch)"
    using remove_loop_filter [of "map JStr labs" "map JStr (map ToLower labs)" "length labs" "ToLower l" False]
      zip_filter_map [of "ToLower l" labs ToLower]
    by (auto simp: remove_label_def comp_def)
  moreover have "distinct (map ToLower (remove_label l labs))"
    using assms by (auto simp: label_doc_def remove_label_def distinct_map intro: inj_on_subset)
  ultimately show ?thesis
    using assms by (auto simp: remove_label_script_def label_doc_def jstrs_def Let_def)
qed

lemma label_record_doc: "label_doc (encode_client (label_record now client_id l)) [l]"
  by (simp add: label_doc_def encode_client_def label_record_def empty_client_def jstrs_def
      del: map_of_append)

text \<open>Sequences of label operations on one client, and what they mean.\<close>

datatype label_op = SetLabel string | UnsetLabel string

fun run_label_op ::
  "('s, 'z) elastic_scheme \<Rightarrow> string \<Rightarrow> (nat \<Rightarrow> int) \<Rightarrow> string \<Rightarrow> label_op \<Rightarrow> 's \<Rightarrow> 's" where
  "run_label_op es org_id clock client_id (SetLabel l) s =
     snd (SetClientLabel es org_id (clock 0) client_id l s)"
| "run_label_op es org_id clock client_id (UnsetLabel l) s =
     snd (RemoveClientLabel es org_id (clock 0) client_id l s)"

fun run_label_ops ::
  "('s, 'z) elastic_scheme \<Rightarrow> string \<Rightarrow> (nat \<Rightarrow> int) \<Rightarrow> string \<Rightarrow> label_op list \<Rightarrow> 's \<Rightarrow> 's" where
  "run_label_ops es org_id clock client_id [] s = s"
| "run_label_ops es org_id clock client_id (x # ops) s =
     run_label_ops es org_id (\<lambda>n. clock (Suc n)) client_id ops (run_label_op es org_id clock client_id x s)"

fun label_op_spec :: "label_op \<Rightarrow> string list \<Rightarrow> string list" where
  "label_op_spec (SetLabel l) labs =
     (if label_regex (TrimSpace l) then add_label (TrimSpace l) labs else labs)"
| "label_op_spec (UnsetLabel l) labs = remove_label (TrimSpace l) labs"

text \<open>The labels the store holds for a client; without a document there are none.\<close>

definition stored_labels :: "string \<Rightarrow> index_docs \<Rightarrow> string list \<Rightarrow> bool" where
  "stored_labels client_id ds labs \<longleftrightarrow>
     (case map_of ds (client_id @ ''_labels'') of None \<Rightarrow> labs = [] | Some d \<Rightarrow> label_doc d labs)"

lemma label_op_step:
  assumes "store_contract es docs" and "GetElasticClient es org = Inr c"
    and "stored_labels client_id (docs s c (GetIndex org PERSISTED)) labs"
  shows "stored_labels client_id
    (docs (run_label_op es org clock client_id x s) c (GetIndex org PERSISTED)) (label_op_spec x labs)"
proof (cases "map_of (docs s c (GetIndex org PERSISTED)) (client_id @ ''_labels'')")
  case (Some d)
  then have d: "label_doc d labs" using assms(3) by (simp add: stored_labels_def)
  have upd: "\<exists>s'. UpdateIndex es org PERSISTED (client_id @ ''_labels'') \<lparr>up_script = f, up_upsert = None\<rparr> s
      = (None, s') \<and> docs s' c (GetIndex org PERSISTED) =
        doc_put (client_id @ ''_labels'') d' (docs s c (GetIndex org PERSISTED))"
    if "f d = Some d'" for f d'
    by (rule UpdateIndex_script [OF assms(1,2) Some]) (simp add: that)
  show ?thesis
  proof (cases x)
    case (SetLabel l)
    obtain d' where d': "add_label_script (TrimSpace l) (ToLower (TrimSpace l)) (clock 0) d = Some d'"
      "label_doc d' (add_label (TrimSpace l) labs)"
      using add_label_script_doc [OF d] by blast
    obtain s' where "UpdateIndex es org PERSISTED (client_id @ ''_labels'')
        \<lparr>up_script = add_label_script (TrimSpace l) (ToLower (TrimSpace l)) (clock 0), up_upsert = None\<rparr> s =
        (None, s')"
      "docs s' c (GetIndex org PERSISTED) =
        doc_put (client_id @ ''_labels'') d' (docs s c (GetIndex org PERSISTED))"
      using upd [of "add_label_script (TrimSpace l) (ToLower (TrimSpace l)) (clock 0)" d'] d'(1) by blast
    then show ?thesis
      using SetLabel Some d d' assms(3)
      by (simp add: SetClientLabel_def Let_def stored_labels_def map_of_doc_put)
  next
    case (UnsetLabel l)
    obtain d' where d': "remove_label_script (ToLower (TrimSpace l)) (clock 0) d = Some d'"
      "label_doc d' (remove_label (TrimSpace l) labs)"
      using remove_label_script_doc [OF d] by blast
    obtain s' where "UpdateIndex es org PERSISTED (client_id @ ''_labels'')
        \<lparr>up_script = remove_label_script (ToLower (TrimSpace l)) (clock 0), up_upsert = None\<rparr> s = (None, s')"
      "docs s' c (GetIndex org PERSISTED) =
        doc_put (client_id @ ''_labels'') d' (docs s c (GetIndex org PERSISTED))"
      using upd [of "remove_label_script (ToLower (TrimSpace l)) (clock 0)" d'] d'(1) by blast
    then show ?thesis
      using UnsetLabel d' by (simp add: RemoveClientLabel_def stored_labels_def map_of_doc_put)
  qed
next
  case None
  then have l0: "labs = []" using assms(3) by (simp add: stored_labels_def)
  have miss: "\<exists>e s'. UpdateIndex es org PERSISTED (client_id @ ''_labels'') \<lparr>up_script = f, up_upsert = None\<rparr> s
      = (Some e, s') \<and> Contains (err_text e) ''document_missing_exception'' \<and>
      docs s' c (GetIndex org PERSISTED) = docs s c (GetIndex org PERSISTED)" for f
    by (rule UpdateIndex_missing [OF assms(1,2) None]) simp
  show ?thesis
  proof (cases x)
    case (SetLabel l)
    obtain e s1 where u: "UpdateIndex es org PERSISTED (client_id @ ''_labels'')
        \<lparr>up_script = add_label_script (TrimSpace l) (ToLower (TrimSpace l)) (clock 0), up_upsert = None\<rparr> s
        = (Some e, s1)" "Contains (err_text e) ''document_missing_exception''"
      using miss by blast
    obtain s2 where s2: "SetElasticIndex es org PERSISTED (client_id @ ''_labels'')
        (encode_client (label_record (clock 0) client_id (TrimSpace l))) s1 = (None, s2)"
      "docs s2 c (GetIndex org PERSISTED) = doc_put (client_id @ ''_labels'')
        (encode_client (label_record (clock 0) client_id (TrimSpace l))) (docs s1 c (GetIndex org PERSISTED))"
      using SetElasticIndex_put [OF assms(1,2), of "client_id @ ''_labels''" PERSISTED
          "encode_client (label_record (clock 0) client_id (TrimSpace l))" s1] by auto
    show ?thesis
      using SetLabel None l0 u s2 label_record_doc [of "clock 0" client_id "TrimSpace l"]
      by (simp add: SetClientLabel_def Let_def stored_labels_def map_of_doc_put add_label_def)
  next
    case (UnsetLabel l)
    then show ?thesis
      using miss [of "remove_label_script (ToLower (TrimSpace l)) (clock 0)"] None l0
      by (auto simp: RemoveClientLabel_def stored_labels_def remove_label_def)
  qed
qed

section \<open>The task queue of a client is first in, first out\<close>

text \<open>
  What the store holds of a queue: the task documents of the client in the order they were
  queued, with their ids, times and texts; \<open>t\<close> is not before any of the times.
\<close>

abbreviation task_time :: "'i \<times> 'n \<times> 'x \<times> 'm \<Rightarrow> 'n" where "task_time \<equiv> \<lambda>p. fst (snd p)"
abbreviation task_text :: "'i \<times> 'n \<times> 'x \<times> 'm \<Rightarrow> 'x" where "task_text \<equiv> \<lambda>p. fst (snd (snd p))"
abbreviation task_msg :: "'i \<times> 'n \<times> 'x \<times> 'm \<Rightarrow> 'm" where "task_msg \<equiv> \<lambda>p. snd (snd (snd p))"

definition task_doc :: "string \<Rightarrow> string \<times> int \<times> string \<times> velo_message \<Rightarrow> string \<times> json" where
  "task_doc client_id p = (case p of (i, n, x, m) \<Rightarrow>
     (i, encode_task \<lparr>ct_ClientId = client_id, ct_FlowId = vm_SessionId m, ct_Timestamp = n,
           ct_JSONData = x, ct_DocType = ''task''\<rparr>))"

definition queued :: "string \<Rightarrow> index_docs \<Rightarrow> index_docs" where
  "queued client_id ds = match_docs (sq_query (client_tasks_query client_id)) ds"

definition task_queue :: "msg_codec \<Rightarrow> string \<Rightarrow> index_docs \<Rightarrow> velo_message list \<Rightarrow> int \<Rightarrow> bool" where
  "task_queue codec client_id ds q t \<longleftrightarrow> distinct (map fst ds) \<and>
     (\<exists>ps. queued client_id ds = map (task_doc client_id) ps \<and> sorted (map task_time ps) \<and>
        (\<forall>p \<in> set ps. task_time p \<le> t \<and> mc_Unmarshal codec (task_text p) = Inr (task_msg p)) \<and>
        map task_msg ps = q)"

lemma encode_task_fields:
  "jget ''client_id'' (encode_task t) = Some (JStr (ct_ClientId t))"
  "jget ''doc_type'' (encode_task t) = Some (JStr (ct_DocType t))"
  "jget ''timestamp'' (encode_task t) = Some (JInt (ct_Timestamp t))"
  by (simp_all add: encode_task_def)

lemma task_query_matches:
  "matches (sq_query (client_tasks_query client_id)) (snd (task_doc client_id p))"
  by (cases p) (simp add: client_tasks_query_def query_of_def task_doc_def field_values_def
      encode_task_fields)

lemma task_message_doc:
  "mc_Unmarshal codec x = Inr m \<Longrightarrow> task_message codec (snd (task_doc client_id (i, n, x, m))) = Inr m"
  by (simp add: task_message_def task_doc_def)

text \<open>Queueing appends.\<close>

lemma queue_message:
  assumes "store_contract es docs" and "GetElasticClient es org = Inr c"
    and "task_queue codec client_id (docs s c (GetIndex org PERSISTED)) q t"
    and "mc_Marshal codec m = Inr x" and "mc_Unmarshal codec x = Inr m" and "t \<le> now"
  shows "\<exists>s'. QueueMessageForClient es org codec now client_id m s = (None, s') \<and>
    task_queue codec client_id (docs s' c (GetIndex org PERSISTED)) (q @ [m]) now"
proof -
  define j where "j = encode_task \<lparr>ct_ClientId = client_id, ct_FlowId = vm_SessionId m,
    ct_Timestamp = now, ct_JSONData = x, ct_DocType = ''task''\<rparr>"
  obtain ps where ps: "queued client_id (docs s c (GetIndex org PERSISTED)) = map (task_doc client_id) ps"
    "sorted (map task_time ps)"
    "\<forall>p \<in> set ps. task_time p \<le> t \<and> mc_Unmarshal codec (task_text p) = Inr (task_msg p)"
    "map task_msg ps = q" and d: "distinct (map fst (docs s c (GetIndex org PERSISTED)))"
    using assms(3) by (auto simp: task_queue_def)
  obtain i s' where s': "SetElasticIndex es org PERSISTED [] j s = (None, s')"
    "i \<notin> fst ` set (docs s c (GetIndex org PERSISTED))"
    "docs s' c (GetIndex org PERSISTED) = docs s c (GetIndex org PERSISTED) @ [(i, j)]"
    using SetElasticIndex_fresh [OF assms(1,2)] by blast
  have "(i, j) = task_doc client_id (i, now, x, m)" by (simp add: task_doc_def j_def)
  then have "queued client_id (docs s' c (GetIndex org PERSISTED)) =
      map (task_doc client_id) (ps @ [(i, now, x, m)])"
    using ps(1) s'(3) task_query_matches [of client_id "(i, now, x, m)"]
    by (simp add: queued_def match_docs_def)
  moreover have "sorted (map task_time (ps @ [(i, now, x, m)]))"
    using ps(2,3) assms(6) by (force simp: sorted_append)
  moreover have "\<forall>p \<in> set (ps @ [(i, now, x, m)]). task_time p \<le> now \<and> mc_Unmarshal codec (task_text p) = Inr (task_msg p)"
    using ps(3) assms(5,6) by auto
  moreover have "distinct (map fst (docs s' c (GetIndex org PERSISTED)))" using d s'(2,3) by auto
  ultimately have "task_queue codec client_id (docs s' c (GetIndex org PERSISTED)) (q @ [m]) now"
    using ps(4) unfolding task_queue_def by (intro conjI exI [of _ "ps @ [(i, now, x, m)]"]) auto
  then show ?thesis
    using s'(1) assms(4) by (auto simp: QueueMessageForClient_def j_def)
qed

text \<open>Taking removes what it delivers.\<close>

lemma take_tasks_all:
  assumes "store_contract es docs" and "GetElasticClient es org = Inr c"
    and "\<forall>p \<in> set ps. mc_Unmarshal codec (task_text p) = Inr (task_msg p)"
  shows "\<exists>s'. take_tasks es org codec
      (map (\<lambda>p. \<lparr>hit_Source = snd (task_doc client_id p), hit_Id = fst p\<rparr>) ps) acc s =
      (Inr (acc @ map task_msg ps), s') \<and>
    docs s' c (GetIndex org PERSISTED) =
      filter (\<lambda>d. fst d \<notin> fst ` set ps) (docs s c (GetIndex org PERSISTED))"
  using assms(3)
proof (induction ps arbitrary: acc s)
  case (Cons p ps)
  obtain i n x m where p: "p = (i, n, x, m)" by (cases p) auto
  obtain s1 where s1: "DeleteDocument es org PERSISTED i False s = (None, s1)"
    "docs s1 c (GetIndex org PERSISTED) = filter (\<lambda>d. fst d \<noteq> i) (docs s c (GetIndex org PERSISTED))"
    using DeleteDocument_removes [OF assms(1,2)] by blast
  have m: "task_message codec (snd (task_doc client_id p)) = Inr m"
    using Cons.prems p task_message_doc by auto
  obtain s' where s': "take_tasks es org codec
      (map (\<lambda>p. \<lparr>hit_Source = snd (task_doc client_id p), hit_Id = fst p\<rparr>) ps) (acc @ [m]) s1 =
      (Inr ((acc @ [m]) @ map task_msg ps), s')"
    "docs s' c (GetIndex org PERSISTED) =
      filter (\<lambda>d. fst d \<notin> fst ` set ps) (docs s1 c (GetIndex org PERSISTED))"
    using Cons.IH [of "acc @ [m]" s1] Cons.prems by auto
  have "filter (\<lambda>d. fst d \<notin> fst ` set ps) (filter (\<lambda>d. fst d \<noteq> i) l) =
      filter (\<lambda>d. fst d \<notin> fst ` set (p # ps)) l" for l :: index_docs
    by (auto simp: p intro: filter_cong)
  then show ?case using s1 s' m p by simp
qed simp

lemma filter_drop_prefix:
  assumes "distinct (map f (xs @ ys))"
  shows "filter (\<lambda>d. f d \<notin> f ` set xs) (xs @ ys) = ys"
  using assms by (auto simp: filter_empty_conv filter_id_conv)

lemma task_doc_fst [simp]: "fst (task_doc client_id p) = fst p"
  by (cases p) (simp add: task_doc_def)

lemma task_hits:
  assumes "queued client_id ds = map (task_doc client_id) ps" and "sorted (map task_time ps)"
  shows "search_hits (client_tasks_query client_id) ds = map (task_doc client_id) (take 10 ps)"
proof -
  have k: "key_of ''timestamp'' (task_doc client_id p) = KInt (task_time p)" for p
    by (cases p) (simp add: key_of_def task_doc_def encode_task_fields)
  have "sorted (map (\<lambda>p. KInt (task_time p)) ps)"
    using assms(2) by (simp add: sorted_map)
  then have "sorted (map (key_of ''timestamp'') (map (task_doc client_id) ps))"
    by (simp add: comp_def k)
  then have "sort_key (key_of ''timestamp'') (map (task_doc client_id) ps) = map (task_doc client_id) ps"
    by (rule sort_key_id_if_sorted)
  then show ?thesis
    using assms(1)
    by (simp add: search_hits_def sorted_hits_def after_hits_def client_tasks_query_def query_of_def
        queued_def match_docs_def take_map)
qed

lemma take_queue:
  assumes "store_contract es docs" and "GetElasticClient es org = Inr c"
    and "task_queue codec client_id (docs s c (GetIndex org PERSISTED)) q t"
  shows "\<exists>s'. GetClientTasks es org codec client_id s = (Inr (take 10 q), s') \<and>
    task_queue codec client_id (docs s' c (GetIndex org PERSISTED)) (drop 10 q) t"
proof -
  obtain ps where ps: "queued client_id (docs s c (GetIndex org PERSISTED)) = map (task_doc client_id) ps"
    "sorted (map task_time ps)"
    "\<forall>p \<in> set ps. task_time p \<le> t \<and> mc_Unmarshal codec (task_text p) = Inr (task_msg p)"
    "map task_msg ps = q" and d: "distinct (map fst (docs s c (GetIndex org PERSISTED)))"
    using assms(3) by (auto simp: task_queue_def)
  have un: "\<forall>p \<in> set (take 10 ps). mc_Unmarshal codec (task_text p) = Inr (task_msg p)"
    using ps(3) by (auto dest: in_set_takeD)
  have "QueryElastic es org PERSISTED (client_tasks_query client_id) s =
      Inr (map (\<lambda>p. \<lparr>hit_Source = snd (task_doc client_id p), hit_Id = fst p\<rparr>) (take 10 ps))"
    using QueryElastic_hits [OF store_contractD(1) [OF assms(1)] assms(2),
        of "client_tasks_query client_id" PERSISTED s] task_hits [OF ps(1,2)]
    by (simp add: client_tasks_query_def query_of_def comp_def split_def)
  moreover obtain s' where s': "take_tasks es org codec
      (map (\<lambda>p. \<lparr>hit_Source = snd (task_doc client_id p), hit_Id = fst p\<rparr>) (take 10 ps)) [] s =
      (Inr ([] @ map task_msg (take 10 ps)), s')"
    "docs s' c (GetIndex org PERSISTED) =
      filter (\<lambda>d. fst d \<notin> fst ` set (take 10 ps)) (docs s c (GetIndex org PERSISTED))"
    using take_tasks_all [OF assms(1,2) un, of client_id "[]" s] by blast
  moreover have "queued client_id (docs s' c (GetIndex org PERSISTED)) = map (task_doc client_id) (drop 10 ps)"
  proof -
    have "distinct (map fst (queued client_id (docs s c (GetIndex org PERSISTED))))"
      using d by (simp add: queued_def match_docs_def distinct_map_filter)
    then have "distinct (map fst (map (task_doc client_id) (take 10 ps @ drop 10 ps)))"
      using ps(1) by simp
    then have "distinct (map fst (map (task_doc client_id) (take 10 ps) @ map (task_doc client_id) (drop 10 ps)))"
      by (simp only: map_append)
    then have "filter (\<lambda>d. fst d \<notin> fst ` set (map (task_doc client_id) (take 10 ps)))
        (map (task_doc client_id) (take 10 ps) @ map (task_doc client_id) (drop 10 ps)) =
        map (task_doc client_id) (drop 10 ps)"
      by (rule filter_drop_prefix)
    moreover have "queued client_id (docs s' c (GetIndex org PERSISTED)) =
        filter (\<lambda>d. fst d \<notin> fst ` set (take 10 ps)) (queued client_id (docs s c (GetIndex org PERSISTED)))"
      unfolding s'(2) queued_def match_docs_def filter_filter by (rule filter_cong) auto
    ultimately show ?thesis
      using ps(1) by (simp add: image_image comp_def flip: map_append)
  qed
  moreover have "sorted (map task_time (drop 10 ps))"
    using ps(2) by (simp add: drop_map [symmetric] sorted_wrt_drop)
  moreover have "\<forall>p \<in> set (drop 10 ps). task_time p \<le> t \<and> mc_Unmarshal codec (task_text p) = Inr (task_msg p)"
    using ps(3) by (meson in_set_dropD)
  ultimately show ?thesis
    using d ps(4) by (auto simp: GetClientTasks_def task_queue_def distinct_map_filter take_map drop_map)
qed

section \<open>Properties\<close>

text \<open>
  C38. The labels of a client are a list without two labels of the same lower case form: any
  sequence of \<open>SetClientLabel\<close> and \<open>RemoveClientLabel\<close> calls on a healthy store leaves the
  label document of the client with exactly the labels the operations describe, each with its
  lower case form at the same position, whatever the case of the labels and starting with or
  without a document.
\<close>

theorem label_ops_refine:
  assumes "store_contract es docs" and "GetElasticClient es org = Inr c"
    and "stored_labels client_id (docs s c (GetIndex org PERSISTED)) labs"
  shows "stored_labels client_id (docs (run_label_ops es org clock client_id ops s) c (GetIndex org PERSISTED))
           (fold label_op_spec ops labs)"
  using assms(3)
proof (induction ops arbitrary: clock s labs)
  case (Cons x ops)
  then show ?case using label_op_step [OF assms(1,2)] by simp
qed simp

theorem label_ops_refine_witness:
  "stored_labels ''C.1'' (mem_docs (run_label_ops mem_es ''root'' (\<lambda>n. int n) ''C.1''
      [SetLabel ''Red'', SetLabel '' blue'', SetLabel ''red'', SetLabel ''a b'', UnsetLabel ''BLUE''] [])
      ''persisted'') [''Red'']"
proof -
  have e: "fold label_op_spec
      [SetLabel ''Red'', SetLabel '' blue'', SetLabel ''red'', SetLabel ''a b'', UnsetLabel ''BLUE''] [] = [''Red'']"
    by code_simp
  have g: "GetIndex ''root'' PERSISTED = ''persisted''" by code_simp
  show ?thesis
    using label_ops_refine [OF mem_store_contract mem_client, of "''C.1''" "[]" "''root''" "[]" "\<lambda>n. int n"
        "[SetLabel ''Red'', SetLabel '' blue'', SetLabel ''red'', SetLabel ''a b'', UnsetLabel ''BLUE'']"]
    by (simp only: e g) (simp add: stored_labels_def mem_docs_def)
qed


definition plain_message :: "string \<Rightarrow> velo_message" where
  "plain_message i = \<lparr>vm_SessionId = i, vm_UpdateEventTable = None, vm_Other = JNull\<rparr>"

definition plain_codec :: msg_codec where
  "plain_codec = \<lparr>mc_Marshal = (\<lambda>m. Inr (vm_SessionId m)), mc_Unmarshal = (\<lambda>x. Inr (plain_message x))\<rparr>"


definition stuck_es :: "mem_es_state elastic" where
  "stuck_es = mem_es\<lparr>os_Delete := (\<lambda>c idx i st. if i = ''2'' then (Inl IOError, st)
     else os_Delete mem_es c idx i st)\<rparr>"

definition two_tasks :: mem_es_state where
  "two_tasks = [(''persisted'', map (\<lambda>(i, n). task_doc ''C.1'' (i, n, i, plain_message i))
     [(''1'', 1), (''2'', 2)])]"

text \<open>
  A delete that fails half way loses the tasks before it: the call returns the error and no
  message, although the first documents are gone from the queue.
\<close>

theorem failed_delete_loses_tasks:
  "PeekClientTasks stuck_es ''root'' plain_codec ''C.1'' two_tasks =
     Inr [plain_message ''1'', plain_message ''2''] \<and>
   fst (GetClientTasks stuck_es ''root'' plain_codec ''C.1'' two_tasks) = Inl IOError \<and>
   fst (GetClientTasks mem_es ''root'' plain_codec ''C.1''
     (snd (GetClientTasks stuck_es ''root'' plain_codec ''C.1'' two_tasks))) = Inr [plain_message ''2'']"
  by code_simp

lemma update_old_get:
  "map_of (update_old ks new old) k =
     (if k \<in> set ks then (case map_of new k of None \<Rightarrow> map_of old k
        | Some v \<Rightarrow> if valueIsRemove v then None else Some v)
      else map_of old k)"
  by (induction ks arbitrary: old) (auto simp: map_of_kv_set map_of_kv_del split: option.splits)

lemma add_missing_get:
  "map_of (add_missing ks new old) k =
     (case map_of old k of Some v \<Rightarrow> Some v
      | None \<Rightarrow> if k \<in> set ks then Some (case map_of new k of None \<Rightarrow> JNull | Some v \<Rightarrow> v) else None)"
  by (induction ks arbitrary: old) (auto simp: map_of_kv_set split: option.splits)

lemma merge_metadata_get: "map_of (merge_metadata old new) = map_of old ++ map_of new"
proof
  fix k
  have dom: "k \<in> fst ` set l \<longleftrightarrow> map_of l k \<noteq> None" for l :: "(string \<times> json) list"
    by (simp add: map_of_eq_None_iff)
  show "map_of (merge_metadata old new) k = (map_of old ++ map_of new) k"
    by (cases "map_of old k"; cases "map_of new k")
      (simp_all add: merge_metadata_def update_old_get add_missing_get map_add_def dom)
qed

text \<open>
  Setting metadata overrides the stored dictionary by the new one, on a healthy store and
  with a codec that reads what it writes: every key of the call has afterwards the value of
  the call, the others keep theirs. In particular the empty value that is meant to remove a key
  is stored as the value of the key.
\<close>

theorem set_metadata_overrides:
  assumes "store_contract es docs" and "GetElasticClient es org = Inr c"
    and "marshal (merge_metadata (GetMetadata es org parse client_id s) new) = Inr x"
    and "parse x = Inr (merge_metadata (GetMetadata es org parse client_id s) new)"
  shows "\<exists>s'. SetMetadata es org parse marshal client_id new s = (None, s') \<and>
    map_of (GetMetadata es org parse client_id s') =
      map_of (GetMetadata es org parse client_id s) ++ map_of new"
proof -
  define j where "j = JObj [(''client_id'', JStr client_id), (''metadata'', JStr x)]"
  obtain s' where s': "SetElasticIndex es org PERSISTED (client_id @ ''_metadata'') j s = (None, s')"
    "docs s' c (GetIndex org PERSISTED) =
      doc_put (client_id @ ''_metadata'') j (docs s c (GetIndex org PERSISTED))"
    using SetElasticIndex_put [OF assms(1,2), of "client_id @ ''_metadata''" PERSISTED j s] by auto
  have "GetElasticRecord es org PERSISTED (client_id @ ''_metadata'') s' = Inr j"
    by (rule GetElasticRecord_found [OF assms(1,2)]) (simp add: s'(2) map_of_doc_put)
  then have "GetMetadata es org parse client_id s' =
      merge_metadata (GetMetadata es org parse client_id s) new"
    by (simp add: GetMetadata_def j_def get_str_def assms(4))
  then show ?thesis
    using s'(1) assms(3) by (simp add: SetMetadata_def j_def merge_metadata_get)
qed

text \<open>The documents a lookup of several clients reads, in the order it reads them.\<close>

definition client_docs :: "index_docs \<Rightarrow> string list \<Rightarrow> json list" where
  "client_docs ds client_ids = map (\<lambda>i. case map_of ds i of None \<Rightarrow> JNull | Some j \<Rightarrow> j)
     (concat (map client_doc_ids client_ids))"

lemma GetMultipleClients_merged:
  assumes "store_contract es docs" and "GetElasticClient es org = Inr c"
    and "rs = valid_clients (client_docs (docs s c (GetIndex org PERSISTED)) client_ids)"
  shows "GetMultipleClients es org client_ids s =
    Inr (map (merged_client rs) (foldl append_new [] (map cr_ClientId rs)))"
  using GetMultipleElasticRecords_docs [OF assms(1,2), of PERSISTED "concat (map client_doc_ids client_ids)" s]
  by (simp add: GetMultipleClients_def merge_hits_foldl merge_hit_all assms(3) client_docs_def comp_def)

text \<open>
  A lookup of clients gives one record for each client that has a readable document, in
  the order in which the clients come first among the documents read, and that record is the
  merge of all its documents in reading order: the ordered dictionary of the loop computes
  the fold of the merge over each client's documents.
\<close>

theorem client_documents_merged:
  assumes "store_contract es docs" and "GetElasticClient es org = Inr c"
    and "rs = valid_clients (client_docs (docs s c (GetIndex org PERSISTED)) client_ids)"
  shows "\<exists>out. GetMultipleClients es org client_ids s = Inr out \<and>
    distinct (map cr_ClientId out) \<and> set (map cr_ClientId out) = set (map cr_ClientId rs) \<and>
    (\<forall>r \<in> set out. r = (let g = filter (\<lambda>x. cr_ClientId x = cr_ClientId r) rs
                       in foldl mergeClientRecords (hd g) (tl g)))"
proof -
  let ?ks = "foldl append_new [] (map cr_ClientId rs)"
  have ks: "set ?ks = set (map cr_ClientId rs)" by (simp add: set_fold_append_new)
  have id: "cr_ClientId (merged_client rs k) = k" if "k \<in> set ?ks" for k
    by (rule merged_client_id) (use that ks in blast)
  then have m: "map cr_ClientId (map (merged_client rs) ?ks) = ?ks"
    by (simp add: map_idI)
  have "distinct ?ks" by (simp add: distinct_fold_append_new)
  moreover have "r = (let g = filter (\<lambda>x. cr_ClientId x = cr_ClientId r) rs
      in foldl mergeClientRecords (hd g) (tl g))" if "r \<in> set (map (merged_client rs) ?ks)" for r
  proof -
    have "r \<in> merged_client rs ` set ?ks" using that by (simp only: set_map)
    then obtain k where k: "k \<in> set ?ks" "r = merged_client rs k" by blast
    show ?thesis using id [OF k(1)] k(2) by (simp add: merged_client_def)
  qed
  ultimately show ?thesis
    using GetMultipleClients_merged [OF assms] m ks by metis
qed

definition two_docs :: mem_es_state where
  "two_docs = [(''persisted'',
     [(''C.1_ping'', encode_client (empty_client\<lparr>cr_ClientId := ''C.1'', cr_Ping := 7\<rparr>)),
      (''C.1'', encode_client (empty_client\<lparr>cr_ClientId := ''C.1'', cr_Hostname := ''host''\<rparr>))])]"

theorem client_documents_merged_witness:
  "\<exists>out. GetMultipleClients mem_es ''root'' [''C.2'', ''C.1''] two_docs = Inr out \<and>
     map cr_ClientId out = [''C.1''] \<and> map cr_Ping out = [7] \<and> map cr_Hostname out = [''host'']"
proof -
  define rs where "rs = valid_clients (client_docs (mem_docs two_docs (GetIndex ''root'' PERSISTED))
    [''C.2'', ''C.1''])"
  have rs: "rs = [empty_client\<lparr>cr_ClientId := ''C.1'', cr_Hostname := ''host''\<rparr>,
      empty_client\<lparr>cr_ClientId := ''C.1'', cr_Ping := 7\<rparr>]"
    unfolding rs_def by code_simp
  obtain out where out: "GetMultipleClients mem_es ''root'' [''C.2'', ''C.1''] two_docs = Inr out"
    "distinct (map cr_ClientId out)" "set (map cr_ClientId out) = set (map cr_ClientId rs)"
    "\<forall>r \<in> set out. r = (let g = filter (\<lambda>x. cr_ClientId x = cr_ClientId r) rs
       in foldl mergeClientRecords (hd g) (tl g))"
    using client_documents_merged [OF mem_store_contract mem_client rs_def] by blast
  have ids: "set (map cr_ClientId out) = {''C.1''}" using out(3) by (simp add: rs empty_client_def)
  then obtain r where r: "out = [r]" "cr_ClientId r = ''C.1''"
    using out(2) by (cases out; cases "tl out") auto
  then have "r = mergeClientRecords (hd rs) (rs ! 1)"
    using out(4) by (simp add: rs empty_client_def Let_def)
  then show ?thesis
    using out(1) r by (simp add: rs mergeClientRecords_def empty_client_def set_str_def set_int_def)
qed

lemma decode_null_client: "decode_client JNull = Inr empty_client"
  by (simp add: decode_client_def get_str_def get_u64_def get_int_def get_strs_def get_list_def
      empty_client_def)

lemma u64_thousands: "in_u64 n \<Longrightarrow> u64 (n div 1000 * 1000) = n div 1000 * 1000"
proof -
  assume n: "in_u64 n"
  have "0 \<le> n mod 1000" "n div 1000 * 1000 = n - n mod 1000" by (simp_all add: minus_mod_eq_div_mult)
  moreover have "0 \<le> n div 1000" using n by (simp add: in_u64_def pos_imp_zdiv_nonneg_iff)
  ultimately show ?thesis using n by (intro u64_id) (auto simp: in_u64_def)
qed

lemma u64_in: "in_u64 (u64 n)"
  using u64_range [of n] by (simp add: in_u64_def)

text \<open>
  What \<open>Set\<close> keeps of a client: reading back a client that has only its main document gives
  the host name, the system, the addresses and the versions, but the release, the
  architecture and the build time that \<open>Get\<close> had filled are gone, and so \<open>Modify\<close> with a
  modifier that changes nothing erases them; the times come back in whole thousands.
\<close>

theorem client_set_then_get:
  assumes "store_contract es docs" and "GetElasticClient es org = Inr c"
    and "client_id \<noteq> []" and "ci_ClientId info = client_id"
    and "\<forall>suffix \<in> {''_ping'', ''_labels'', ''_hunts'', ''_interrogate''}.
           map_of (docs s c (GetIndex org PERSISTED)) (client_id @ suffix) = None"
    and "in_u64 (ci_FirstSeenAt info)" and "in_u64 (ci_LastHuntTimestamp info)"
    and "in_u64 (ci_LastEventTableVersion info)"
  shows "\<exists>s'. client_Set es org now info s = (None, s') \<and>
    client_Get es org None client_id s' = Inr (info
      \<lparr>ci_Fqdn := ci_Hostname info, ci_Release := [], ci_Architecture := [], ci_BuildTime := [],
       ci_FirstSeenAt := ci_FirstSeenAt info div 1000 * 1000, ci_Ping := 0, ci_Labels := [],
       ci_LastInterrogateFlowId := []\<rparr>)"
proof -
  let ?r = "client_set_record now info"
  obtain s' where s': "SetElasticIndex es org PERSISTED client_id (encode_client ?r) s = (None, s')"
    "docs s' c (GetIndex org PERSISTED) =
      doc_put client_id (encode_client ?r) (docs s c (GetIndex org PERSISTED))"
    using SetElasticIndex_put [OF assms(1,2,3)] by blast
  have ok: "client_ok ?r"
    using assms(6-8) u64_in by (simp add: client_ok_def client_set_record_def empty_client_def in_u64_def)
  have id: "cr_ClientId ?r = client_id" by (simp add: client_set_record_def assms(4))
  have rs: "valid_clients (client_docs (docs s' c (GetIndex org PERSISTED)) [client_id]) = [?r]"
    using assms(3,5) id decode_encode_client [OF ok]
    by (simp add: client_docs_def s'(2) map_of_doc_put client_doc_ids_def valid_clients_def
        decode_null_client) (simp add: empty_client_def)
  have "GetMultipleClients es org [client_id] s' = Inr [?r]"
    using GetMultipleClients_merged [OF assms(1,2) refl, where s = s' and client_ids = "[client_id]"] rs id
    by (simp add: merged_client_def append_new_def)
  then have "client_Get es org None client_id s' = Inr (client_info_of ?r)"
    by (simp add: client_Get_def)
  moreover have "u64 (ci_FirstSeenAt info div 1000 * 1000) = ci_FirstSeenAt info div 1000 * 1000"
    by (rule u64_thousands [OF assms(6)])
  ultimately show ?thesis
    using s'(1) assms(4)
    by (simp add: client_Set_def client_info_of_def client_set_record_def empty_client_def u64_def)
qed

definition sample_client :: ClientInfo where
  "sample_client =
     \<lparr>ci_ClientId = ''C.1'', ci_Hostname = ''h'', ci_Fqdn = ''h'', ci_System = ''linux'',
      ci_Release = ''12'', ci_Architecture = ''amd64'', ci_MacAddresses = [''aa''],
      ci_FirstSeenAt = 5000, ci_Ping = 0, ci_LastHuntTimestamp = 1, ci_LastEventTableVersion = 2,
      ci_BuildTime = ''b'', ci_Labels = [], ci_LastInterrogateFlowId = []\<rparr>"

theorem client_set_then_get_witness:
  "\<exists>s'. client_Set mem_es ''root'' 9 sample_client [] = (None, s') \<and>
     client_Get mem_es ''root'' None ''C.1'' s' =
       Inr (sample_client\<lparr>ci_Release := [], ci_Architecture := [], ci_BuildTime := []\<rparr>)"
  using client_set_then_get [OF mem_store_contract mem_client, of "''C.1''" sample_client "[]" "''root''" 9]
  by (simp add: sample_client_def in_u64_def mem_docs_def)

lemma client_Get_info:
  assumes "client_Get es org cached client_id s = Inr i"
  shows "\<exists>r. i = client_info_of r"
proof (cases cached)
  case None
  then obtain rs where "(case rs of [] \<Rightarrow> Inl NotFoundError | r # _ \<Rightarrow> Inr (client_info_of r)) = Inr i"
    using assms by (auto simp: client_Get_def bindR_Inr_iff)
  then show ?thesis by (cases rs) auto
qed (use assms in \<open>auto simp: client_Get_def\<close>)

text \<open>
  Labels are written but never read back: after a successful \<open>SetClientLabel\<close> the store has
  the label, and still \<open>IsLabelSet\<close> denies it and \<open>GetClientLabels\<close> lists nothing, since
  \<open>Get\<close> does not copy the labels of the record.
\<close>

theorem labels_written_but_never_read:
  assumes "store_contract es docs" and "GetElasticClient es org = Inr c"
    and "stored_labels client_id (docs s c (GetIndex org PERSISTED)) labs"
    and "label_regex (TrimSpace l)"
  shows "\<exists>labs'. stored_labels client_id
      (docs (snd (SetClientLabel es org now client_id l s)) c (GetIndex org PERSISTED)) labs' \<and>
      ToLower (TrimSpace l) \<in> set (map ToLower labs') \<and>
      \<not> IsLabelSet es org cached client_id l (snd (SetClientLabel es org now client_id l s)) \<and>
      GetClientLabels es org cached client_id (snd (SetClientLabel es org now client_id l s)) = []"
proof -
  have "ci_Labels i = []" if "client_Get es org cached client_id s' = Inr i" for i s'
    using client_Get_info [OF that] by (auto simp: client_info_of_def)
  then have "\<not> IsLabelSet es org cached client_id l s' \<and> GetClientLabels es org cached client_id s' = []" for s'
    by (auto simp: IsLabelSet_def GetClientLabels_def split: sum.splits)
  moreover have "ToLower (TrimSpace l) \<in> set (map ToLower (label_op_spec (SetLabel l) labs))"
    using assms(4) by (auto simp: add_label_def)
  ultimately show ?thesis
    using label_op_step [OF assms(1-3), of "\<lambda>n. now" "SetLabel l"] by auto
qed

theorem labels_written_but_never_read_witness:
  "\<not> IsLabelSet mem_es ''root'' None ''C.1'' ''red'' (snd (SetClientLabel mem_es ''root'' 5 ''C.1'' ''red'' []))"
proof -
  have "label_regex (TrimSpace ''red'')" by code_simp
  moreover have "stored_labels ''C.1'' (mem_docs [] (GetIndex ''root'' PERSISTED)) []"
    by (simp add: stored_labels_def mem_docs_def)
  ultimately show ?thesis
    using labels_written_but_never_read [OF mem_store_contract mem_client, of "''C.1''" "[]" "''root''" "[]"
        "''red''" 5 None] by blast
qed

definition stored_metadata :: mem_es_state where
  "stored_metadata = [(''persisted'', [(''C.1_metadata'',
     JObj [(''client_id'', JStr ''C.1''), (''metadata'', JStr ''y'')])])]"

theorem set_metadata_overrides_witness:
  "\<exists>s'. SetMetadata mem_es ''root'' (\<lambda>x. Inr (if x = ''x'' then [(''a'', JInt 2), (''b'', JNull)]
        else [(''b'', JInt 1)])) (\<lambda>kvs. Inr ''x'') ''C.1'' [(''a'', JInt 2), (''b'', JNull)] stored_metadata = (None, s') \<and>
     map_of (GetMetadata mem_es ''root'' (\<lambda>x. Inr (if x = ''x'' then [(''a'', JInt 2), (''b'', JNull)]
        else [(''b'', JInt 1)])) ''C.1'' s') ''b'' = Some JNull"
proof -
  define parse where "parse = (\<lambda>x. Inr (if x = ''x'' then [(''a'', JInt 2), (''b'', JNull)]
    else [(''b'', JInt 1)]) :: (string \<times> json) list result)"
  have "parse ''x'' = Inr (merge_metadata (GetMetadata mem_es ''root'' parse ''C.1'' stored_metadata)
      [(''a'', JInt 2), (''b'', JNull)])"
    unfolding parse_def by code_simp
  then show ?thesis
    using set_metadata_overrides [OF mem_store_contract mem_client, of "\<lambda>kvs. Inr ''x''" "''root''" parse
        "''C.1''" stored_metadata "[(''a'', JInt 2), (''b'', JNull)]" "''x''"]
    by (auto simp: parse_def)
qed

end
