(* ===== verification/Indexing.thy ===== *)
theory Indexing
  imports Clients Caches
begin

text \<open>
  The client search (\<open>services/indexing\<close>): the search terms of the GUI and of VQL, the queries
  they become, paging over all clients, the suggestion box and the cache of client records.
\<close>

section \<open>Search terms\<close>

definition verbs :: "string list" where
  "verbs = [''label:'', ''host:'', ''os:'', ''client:'']"

definition splitIntoOperatorAndTerms :: "string \<Rightarrow> string \<times> string" where
  "splitIntoOperatorAndTerms term =
     (if term = ''all'' then (''all'', [])
      else if HasPrefix term ''C.'' \<or> HasPrefix term ''c.'' then (''client'', term)
      else case SplitN2 (CHR '':'') term of
             [op, t] \<Rightarrow> (op, t)
           | part # _ \<Rightarrow> ([], part)
           | [] \<Rightarrow> ([], []))"

text \<open>
  The filter of a term with wild cards is a regular expression the library makes of the glob;
  \<open>compile\<close> is its test of a text, absent when it does not compile.
\<close>

definition splitSearchTermIntoPrefixAndFilter ::
  "(string \<Rightarrow> (string \<Rightarrow> bool) option) \<Rightarrow> string \<Rightarrow> string \<times> (string \<Rightarrow> bool) option" where
  "splitSearchTermIntoPrefixAndFilter compile term =
     (case Split (CHR ''*'') term of
        [] \<Rightarrow> (term, None)
      | [p] \<Rightarrow> (term, None)
      | [p, []] \<Rightarrow> (p, None)
      | p # parts \<Rightarrow> (p, compile term))"

section \<open>Queries\<close>

definition allClientsQuery :: clause where
  "allClientsQuery = Range ''first_seen_at'' Gte 0"

definition recentClientsQuery :: "int \<Rightarrow> clause" where
  "recentClientsQuery ping = Range ''ping'' Gt ping"

definition fieldSearchQuery :: "string \<Rightarrow> string \<Rightarrow> clause" where
  "fieldSearchQuery field v = PrefixCI field v"

text \<open>\<open>limitQueryPart\<close> asks for one row more than the limit, on 64 bits.\<close>

definition page_of :: "nat \<Rightarrow> nat \<Rightarrow> search_req \<Rightarrow> search_req" where
  "page_of offset limit q = q\<lparr>sq_from := Some offset, sq_size := Some (nat (u64 (int limit + 1)))\<rparr>"

definition getAllClientsQuery :: "clause list \<Rightarrow> search_req" where
  "getAllClientsQuery terms =
     (query_of (Must (terms @ [Match ''type'' (JStr ''main'')])))
       \<lparr>sq_sort := Some (''client_id'', False), sq_source := False\<rparr>"

definition getAllClientsNamesQuery :: "clause list \<Rightarrow> nat \<Rightarrow> nat \<Rightarrow> search_req" where
  "getAllClientsNamesQuery terms offset limit = page_of offset limit
     ((query_of (Must (terms @ [Match ''type'' (JStr ''main'')])))\<lparr>sq_sort := Some (''client_id'', False)\<rparr>)"

definition getSortedClientsQuery :: "string \<times> bool \<Rightarrow> clause list \<Rightarrow> nat \<Rightarrow> nat \<Rightarrow> search_req" where
  "getSortedClientsQuery sorter terms offset limit = page_of offset limit
     ((query_of (Must terms))\<lparr>sq_sort := Some sorter, sq_source := False\<rparr>)"

definition getAllClientsAgg :: "string \<Rightarrow> string \<Rightarrow> search_req" where
  "getAllClientsAgg field v =
     (query_of (PrefixCI field v))\<lparr>sq_size := Some 0, sq_agg := Some field\<rparr>"

definition getClientsQuery :: "clause list \<Rightarrow> search_req" where
  "getClientsQuery terms = query_of (Must terms)"

definition clientsMRUQuery :: "string \<Rightarrow> nat \<Rightarrow> nat \<Rightarrow> search_req" where
  "clientsMRUQuery user from_row n =
     (query_of (Match ''username'' (JStr user)))
       \<lparr>sq_sort := Some (''timestamp'', True), sq_from := Some from_row, sq_size := Some n\<rparr>"

section \<open>Searching with requests (search.go)\<close>

datatype sort_order = UNSORTED | SORT_UP | SORT_DOWN
datatype client_filter = UNFILTERED | ONLINE

record search_request =
  sc_Query :: string
  sc_Offset :: nat
  sc_Limit :: nat
  sc_Sort :: sort_order
  sc_Filter :: client_filter
  sc_NameOnly :: bool

text \<open>
  The environment: the cluster, the organisation, the clock, the text of a value of an
  aggregation and the compiler of globs.
\<close>

record 's index_env =
  ix_es :: "'s elastic"
  ix_org :: string
  ix_now :: int
  ix_marshal :: "json \<Rightarrow> string"
  ix_compile :: "string \<Rightarrow> (string \<Rightarrow> bool) option"
  ix_fuel :: nat

definition filterClientInfo :: "ClientRecord \<Rightarrow> string \<Rightarrow> (string \<Rightarrow> bool) option \<Rightarrow> bool" where
  "filterClientInfo r field f = True"

definition searchClientsFromHits ::
  "'s index_env \<Rightarrow> string list \<Rightarrow> string \<Rightarrow> (string \<Rightarrow> bool) option \<Rightarrow> 's \<Rightarrow> ClientRecord list result" where
  "searchClientsFromHits env hits field f s =
     (let ids = foldl append_new [] (map GetClientIdFromDocId hits)
      in if ids = [] then Inr []
         else bindR (GetMultipleClients (ix_es env) (ix_org env) ids s) (\<lambda>rs.
                Inr (filter (\<lambda>r. filterClientInfo r field f) rs)))"

text \<open>Clients that pinged in the last ten minutes.\<close>

definition online_terms :: "'s index_env \<Rightarrow> client_filter \<Rightarrow> clause list \<Rightarrow> clause list" where
  "online_terms env f terms =
     (if f = ONLINE then [recentClientsQuery (ix_now env - 600000000000)] else terms)"

definition searchWithSortTerms ::
  "'s index_env \<Rightarrow> string \<times> bool \<Rightarrow> client_filter \<Rightarrow> clause list \<Rightarrow> nat \<Rightarrow> nat \<Rightarrow> 's
     \<Rightarrow> (ClientRecord list \<times> int) result" where
  "searchWithSortTerms env sorter f terms offset limit s =
     bindR (QueryElasticIds (ix_es env) (ix_org env) PERSISTED
              (getSortedClientsQuery sorter (online_terms env f terms) offset limit) s) (\<lambda>(hits, tot).
     bindR (searchClientsFromHits env hits [] None s) (\<lambda>rs. Inr (rs, tot)))"

definition CountWithTerms :: "'s index_env \<Rightarrow> client_filter \<Rightarrow> clause list \<Rightarrow> 's \<Rightarrow> int result" where
  "CountWithTerms env f terms s =
     QueryCountAPI (ix_es env) (ix_org env) PERSISTED (getClientsQuery (online_terms env f terms)) s"

definition searchWithTerms ::
  "'s index_env \<Rightarrow> client_filter \<Rightarrow> clause list \<Rightarrow> nat \<Rightarrow> nat \<Rightarrow> 's \<Rightarrow> (ClientRecord list \<times> int) result" where
  "searchWithTerms env f terms offset limit s =
     bindR (searchWithSortTerms env (''client_id'', False) f terms offset limit s) (\<lambda>(rs, ignored).
     bindR (CountWithTerms env f terms s) (\<lambda>tot. Inr (rs, tot)))"

definition searchWithPrefixedNames ::
  "'s index_env \<Rightarrow> string \<Rightarrow> string \<Rightarrow> string \<Rightarrow> nat \<Rightarrow> nat \<Rightarrow> 's \<Rightarrow> (ClientRecord list \<times> int) result" where
  "searchWithPrefixedNames env field operator term offset limit s =
     (case splitSearchTermIntoPrefixAndFilter (ix_compile env) term of (prefix, f) \<Rightarrow>
        bindR (QueryElasticRaw (ix_es env) (ix_org env) PERSISTED
                 (getAllClientsNamesQuery [fieldSearchQuery field prefix] offset limit) s) (\<lambda>(hits, tot).
          Inr (filter (\<lambda>r. filterClientInfo r field f) (valid_clients hits), tot)))"

text \<open>The limit these functions get as an argument is not used: they take the one of the request.\<close>

definition searchClientsByHost ::
  "'s index_env \<Rightarrow> string \<Rightarrow> string \<Rightarrow> search_request \<Rightarrow> nat \<Rightarrow> 's \<Rightarrow> (ClientRecord list \<times> int) result" where
  "searchClientsByHost env operator hostname req limit s =
     (if sc_NameOnly req then
        searchWithPrefixedNames env ''hostname'' operator hostname (sc_Offset req) (sc_Limit req) s
      else
        (let terms = (if hostname = ''*'' then [allClientsQuery] else [fieldSearchQuery ''hostname'' hostname])
         in searchWithSortTerms env (''hostname'', sc_Sort req = SORT_DOWN) (sc_Filter req) terms
              (sc_Offset req) (sc_Limit req) s))"

definition searchClientsByLabel ::
  "'s index_env \<Rightarrow> string \<Rightarrow> string \<Rightarrow> search_request \<Rightarrow> nat \<Rightarrow> 's \<Rightarrow> (ClientRecord list \<times> int) result" where
  "searchClientsByLabel env operator label req limit s =
     searchWithTerms env (sc_Filter req) [fieldSearchQuery ''labels'' label] (sc_Offset req) (sc_Limit req) s"

definition searchClientsByMac ::
  "'s index_env \<Rightarrow> string \<Rightarrow> string \<Rightarrow> search_request \<Rightarrow> nat \<Rightarrow> 's \<Rightarrow> (ClientRecord list \<times> int) result" where
  "searchClientsByMac env operator mac req limit s =
     searchWithTerms env (sc_Filter req) [fieldSearchQuery ''mac_addresses'' mac] (sc_Offset req) (sc_Limit req) s"

definition searchClientsByOs ::
  "'s index_env \<Rightarrow> string \<Rightarrow> string \<Rightarrow> search_request \<Rightarrow> nat \<Rightarrow> 's \<Rightarrow> (ClientRecord list \<times> int) result" where
  "searchClientsByOs env operator sys req limit s =
     searchWithTerms env (sc_Filter req) [fieldSearchQuery ''system'' sys] (sc_Offset req) (sc_Limit req) s"

definition getAllClients ::
  "'s index_env \<Rightarrow> search_request \<Rightarrow> nat \<Rightarrow> 's \<Rightarrow> (ClientRecord list \<times> int) result" where
  "getAllClients env req limit s =
     (if sc_Sort req = SORT_DOWN \<or> sc_Sort req = SORT_UP then searchClientsByHost env ''host'' [] req limit s
      else searchWithTerms env (sc_Filter req) [allClientsQuery] (sc_Offset req) (sc_Limit req) s)"

definition searchClientsByClientId ::
  "'s index_env \<Rightarrow> string \<Rightarrow> string \<Rightarrow> search_request \<Rightarrow> 's \<Rightarrow> (ClientRecord list \<times> int) result" where
  "searchClientsByClientId env operator client_id req s =
     bindR (GetMultipleClients (ix_es env) (ix_org env) [client_id] s) (\<lambda>rs. Inr (rs, 1))"

text \<open>The most recently used clients of a user (mru.go).\<close>

record mru_item =
  mr_Username :: string
  mr_ClientId :: string
  mr_Timestamp :: int
  mr_DocType :: string

definition encode_mru :: "mru_item \<Rightarrow> json" where
  "encode_mru i = JObj [(''username'', JStr (mr_Username i)), (''client_id'', JStr (mr_ClientId i)),
     (''timestamp'', JInt (mr_Timestamp i)), (''doc_type'', JStr (mr_DocType i))]"

definition decode_mru :: "json \<Rightarrow> mru_item result" where
  "decode_mru j =
     bindR (get_str ''username'' j) (\<lambda>a1. bindR (get_str ''client_id'' j) (\<lambda>a2.
     bindR (get_int ''timestamp'' j) (\<lambda>a3. bindR (get_str ''doc_type'' j) (\<lambda>a4.
       Inr \<lparr>mr_Username = a1, mr_ClientId = a2, mr_Timestamp = a3, mr_DocType = a4\<rparr>))))"

definition UpdateMRU :: "'s index_env \<Rightarrow> int \<Rightarrow> string \<Rightarrow> string \<Rightarrow> 's \<Rightarrow> go_error option \<times> 's" where
  "UpdateMRU env now_seconds user_name client_id s =
     SetElasticIndex (ix_es env) (ix_org env) PERSISTED (user_name @ '':'' @ client_id)
       (encode_mru \<lparr>mr_Username = user_name, mr_ClientId = client_id, mr_Timestamp = now_seconds,
                    mr_DocType = ''user_mru''\<rparr>) s"

definition searchRecents ::
  "'s index_env \<Rightarrow> string \<Rightarrow> string \<Rightarrow> nat \<Rightarrow> nat \<Rightarrow> 's \<Rightarrow> (ClientRecord list \<times> int) result" where
  "searchRecents env user term from_row limit s =
     bindR (QueryElasticRaw (ix_es env) (ix_org env) PERSISTED (clientsMRUQuery user from_row limit) s)
       (\<lambda>(hits, tot).
     bindR (GetMultipleClients (ix_es env) (ix_org env)
              (concat (map (\<lambda>h. case decode_mru h of Inl e \<Rightarrow> [] | Inr i \<Rightarrow> [mr_ClientId i]) hits)) s)
       (\<lambda>rs. Inr (rs, tot)))"

text \<open>
  A free form term: a host name, then a label, then a client id, as long as there are fewer
  items than the limit of the request; errors of a search are dropped, their total stays.
\<close>

definition add_search ::
  "(ClientRecord list \<times> int) result \<Rightarrow> ClientRecord list \<Rightarrow> ClientRecord list \<times> int" where
  "add_search r items = (case r of Inl e \<Rightarrow> (items, 0) | Inr (rs, tot) \<Rightarrow> (items @ rs, tot))"

definition searchVerbs :: "'s index_env \<Rightarrow> search_request \<Rightarrow> nat \<Rightarrow> 's \<Rightarrow> (ClientRecord list \<times> int) result" where
  "searchVerbs env req limit s =
     (let (i1, t1) = (if 0 < sc_Limit req
            then add_search (searchClientsByHost env ''host'' (sc_Query req) req (sc_Limit req) s) []
            else ([], 0));
          (i2, t2) = (if length i1 < sc_Limit req \<and> t1 = 0
            then add_search (searchClientsByLabel env ''label'' (sc_Query req) req (sc_Limit req) s) i1
            else (i1, t1))
      in Inr (if length i2 < sc_Limit req
              then add_search (searchClientsByClientId env ''client'' (sc_Query req) req s) i2
              else (i2, t2)))"

definition SearchClientRecords ::
  "'s index_env \<Rightarrow> search_request \<Rightarrow> string \<Rightarrow> 's \<Rightarrow> (ClientRecord list \<times> int) result" where
  "SearchClientRecords env req user s =
     (let limit = (if sc_Limit req > 0 then sc_Limit req else 50);
          (operator, term) = splitIntoOperatorAndTerms (sc_Query req)
      in if operator = ''all'' then getAllClients env req limit s
         else if operator = ''label'' then searchClientsByLabel env operator term req limit s
         else if operator = ''host'' then searchClientsByHost env operator term req limit s
         else if operator = ''mac'' then searchClientsByMac env operator term req limit s
         else if operator = ''os'' then searchClientsByOs env operator term req limit s
         else if operator = ''client'' then searchClientsByClientId env operator term req s
         else if operator = ''recent'' then searchRecents env user term (sc_Offset req) limit s
         else searchVerbs env req limit s)"

text \<open>The form of a record the API returns (indexing.go).\<close>

record api_client =
  ac_ClientId :: string
  ac_Labels :: "string list"
  ac_BuildTime :: string
  ac_Version :: string
  ac_Name :: string
  ac_System :: string
  ac_Hostname :: string
  ac_Release :: string
  ac_Machine :: string
  ac_Fqdn :: string
  ac_MacAddresses :: "string list"
  ac_FirstSeenAt :: int
  ac_LastSeenAt :: int
  ac_LastHuntTimestamp :: int
  ac_LastEventTableVersion :: int
  ac_LastInterrogateFlowId :: string

definition makeApiClient :: "ClientRecord \<Rightarrow> api_client" where
  "makeApiClient r =
     \<lparr>ac_ClientId = cr_ClientId r, ac_Labels = cr_Labels r, ac_BuildTime = cr_BuildTime r,
      ac_Version = cr_ClientVersion r, ac_Name = ''Velociraptor'', ac_System = cr_System r,
      ac_Hostname = cr_Hostname r, ac_Release = cr_Release r, ac_Machine = cr_Architecture r,
      ac_Fqdn = cr_Hostname r, ac_MacAddresses = cr_MacAddresses r,
      ac_FirstSeenAt = cr_FirstSeenAt r div 1000, ac_LastSeenAt = cr_Ping r div 1000,
      ac_LastHuntTimestamp = cr_LastHuntTimestamp r,
      ac_LastEventTableVersion = cr_LastEventTableVersion r, ac_LastInterrogateFlowId = cr_LastInterrogate r\<rparr>"

section \<open>The suggestion box (names.go)\<close>

definition searchVerbsWithNames :: "string \<Rightarrow> string list" where
  "searchVerbsWithNames term =
     (let t = ToLower term in filter (\<lambda>verb. t = ''?'' \<or> HasPrefix verb t) verbs)"

definition searchWithNames ::
  "'s index_env \<Rightarrow> string \<Rightarrow> string \<Rightarrow> string \<Rightarrow> nat \<Rightarrow> nat \<Rightarrow> 's \<Rightarrow> string list result" where
  "searchWithNames env field operator label offset limit s =
     bindR (QueryElasticAggregations (ix_es env) (ix_marshal env) (ix_org env) PERSISTED
              (getAllClientsAgg field label) s) (\<lambda>hits.
       case splitSearchTermIntoPrefixAndFilter (ix_compile env) label of (prefix, f) \<Rightarrow>
         Inr (map (\<lambda>hit. if operator \<noteq> [] then operator @ '':'' @ hit else hit)
           (filter (\<lambda>hit. HasPrefix hit prefix \<and> (case f of None \<Rightarrow> True | Some m \<Rightarrow> m hit)) hits)))"

definition searchClientNameOnly :: "'s index_env \<Rightarrow> search_request \<Rightarrow> 's \<Rightarrow> string list result" where
  "searchClientNameOnly env req s =
     (let (operator, t0) = splitIntoOperatorAndTerms (sc_Query req);
          term = (if t0 = ''*'' then [] else t0);
          names = (\<lambda>field. searchWithNames env field operator term (sc_Offset req) (sc_Limit req) s)
      in if operator = ''label'' then names ''labels''
         else if operator = ''os'' then names ''system''
         else if operator = ''client'' then names ''client_id''
         else if operator = ''host'' then names ''hostname''
         else if operator = ''mac'' then names ''mac_addresses''
         else Inr (searchVerbsWithNames term))"

record search_response =
  sp_Names :: "string list"
  sp_Items :: "api_client list"
  sp_Total :: int

definition SearchClients ::
  "'s index_env \<Rightarrow> search_request \<Rightarrow> string \<Rightarrow> 's \<Rightarrow> search_response result" where
  "SearchClients env req user s =
     (if sc_NameOnly req then
        bindR (searchClientNameOnly env req s) (\<lambda>names. Inr \<lparr>sp_Names = names, sp_Items = [], sp_Total = 0\<rparr>)
      else
        bindR (SearchClientRecords env req user s) (\<lambda>(rs, tot).
          Inr \<lparr>sp_Names = [], sp_Items = map makeApiClient rs, sp_Total = u64 tot\<rparr>))"

section \<open>Searching over channels (search\_chan.go)\<close>

text \<open>
  The clients put on the channel when its reader takes them all; one unit of fuel is a page.
  The next page starts after the id of the last client found.
\<close>

fun chan_clients ::
  "'s index_env \<Rightarrow> nat \<Rightarrow> nat \<Rightarrow> search_req \<Rightarrow> string list \<Rightarrow> 's \<Rightarrow> ClientRecord list" where
  "chan_clients env 0 page_size q hits s = []"
| "chan_clients env (Suc fuel) page_size q hits s =
     (case searchClientsFromHits env hits [] None s of
        Inl e \<Rightarrow> []
      | Inr clients \<Rightarrow> clients @
          (if length hits < page_size then []
           else (case QueryElasticIds (ix_es env) (ix_org env) PERSISTED
                        (q\<lparr>sq_search_after := Some (KStr (if clients = [] then [] else cr_ClientId (last clients)))\<rparr>) s of
                   Inl e \<Rightarrow> []
                 | Inr (next_hits, tot) \<Rightarrow>
                     if next_hits = [] then [] else chan_clients env fuel page_size q next_hits s)))"

definition searchWithTermsChan :: "'s index_env \<Rightarrow> nat \<Rightarrow> clause list \<Rightarrow> 's \<Rightarrow> ClientRecord list" where
  "searchWithTermsChan env page_size terms s =
     (let q = (getAllClientsQuery terms)\<lparr>sq_size := Some page_size\<rparr>
      in case QueryElasticIds (ix_es env) (ix_org env) PERSISTED q s of
           Inl e \<Rightarrow> []
         | Inr (hits, tot) \<Rightarrow> if hits = [] then [] else chan_clients env (ix_fuel env) page_size q hits s)"

definition getAllClientsChan :: "'s index_env \<Rightarrow> 's \<Rightarrow> ClientRecord list" where
  "getAllClientsChan env s = searchWithTermsChan env 1000 [allClientsQuery] s"

definition searchClientsByMacChan :: "'s index_env \<Rightarrow> string \<Rightarrow> 's \<Rightarrow> ClientRecord list" where
  "searchClientsByMacChan env mac s = searchWithTermsChan env 1000 [fieldSearchQuery ''mac_addresses'' mac] s"

definition searchClientsByHostChan :: "'s index_env \<Rightarrow> string \<Rightarrow> 's \<Rightarrow> ClientRecord list" where
  "searchClientsByHostChan env hostname s = searchWithTermsChan env 1000 [fieldSearchQuery ''hostname'' hostname] s"

definition searchClientsByLabelChan :: "'s index_env \<Rightarrow> string \<Rightarrow> 's \<Rightarrow> ClientRecord list" where
  "searchClientsByLabelChan env label s = searchWithTermsChan env 1000 [fieldSearchQuery ''labels'' label] s"

definition SearchAfterClients :: "'s index_env \<Rightarrow> int \<Rightarrow> 's \<Rightarrow> ClientRecord list" where
  "SearchAfterClients env ping s = searchWithTermsChan env 1000 [recentClientsQuery ping] s"

text \<open>\<open>parse\<close> is \<open>strconv.ParseUint\<close> in base ten with its error ignored.\<close>

definition SearchClientRecordsChan ::
  "'s index_env \<Rightarrow> (string \<Rightarrow> int) \<Rightarrow> string \<Rightarrow> 's \<Rightarrow> ClientRecord list result" where
  "SearchClientRecordsChan env parse search_term s =
     (let (operator, term) = splitIntoOperatorAndTerms search_term
      in if operator = ''all'' then Inr (getAllClientsChan env s)
         else if operator = ''after'' then Inr (SearchAfterClients env (parse term) s)
         else if operator = ''label'' then Inr (searchClientsByLabelChan env term s)
         else if operator = [] \<or> operator = ''host'' then Inr (searchClientsByHostChan env term s)
         else if operator = ''mac'' then Inr (searchClientsByMacChan env term s)
         else Inl (Err (''Invalid search operator '' @ operator)))"

text \<open>The clients found are cached on the way; \<open>now\<close> is the time of the walk.\<close>

type_synonym client_cache = "ClientRecord ttl_cache"

definition client_ttl :: int where "client_ttl = 5 * 60 * 1000000000"

definition cache_clients :: "int \<Rightarrow> ClientRecord list \<Rightarrow> client_cache \<Rightarrow> client_cache" where
  "cache_clients now rs c = foldl (\<lambda>c r. ttl_set client_ttl now (cr_ClientId r) r c) c rs"

definition SearchClientsChan ::
  "'s index_env \<Rightarrow> (string \<Rightarrow> int) \<Rightarrow> string \<Rightarrow> client_cache \<Rightarrow> 's \<Rightarrow> api_client list result \<times> client_cache" where
  "SearchClientsChan env parse search_term c s =
     (case SearchClientRecordsChan env parse search_term s of
        Inl e \<Rightarrow> (Inl e, c)
      | Inr rs \<Rightarrow> (Inr (map makeApiClient rs), cache_clients (ix_now env) rs c))"

definition PopulateClientInfoCache ::
  "'s index_env \<Rightarrow> (string \<Rightarrow> int) \<Rightarrow> client_cache \<Rightarrow> 's \<Rightarrow> go_error option \<times> client_cache" where
  "PopulateClientInfoCache env parse c s =
     (case SearchClientsChan env parse ''all'' c s of (Inl e, c1) \<Rightarrow> (Some e, c1) | (Inr rs, c1) \<Rightarrow> (None, c1))"

definition FastGetApiClient ::
  "'s index_env \<Rightarrow> string \<Rightarrow> client_cache \<Rightarrow> 's \<Rightarrow> api_client result \<times> client_cache" where
  "FastGetApiClient env client_id c s =
     (case ttl_get (ix_now env) client_id c of
        Some r \<Rightarrow> (Inr (makeApiClient r), c)
      | None \<Rightarrow>
          (case GetMultipleClients (ix_es env) (ix_org env) [client_id] s of
             Inl e \<Rightarrow> (Inl e, c)
           | Inr [] \<Rightarrow> (Inl NotFoundError, c)
           | Inr (r # rs) \<Rightarrow> (Inr (makeApiClient r), ttl_set client_ttl (ix_now env) client_id r c)))"

section \<open>Index records (indexing.go)\<close>

definition encode_index_record :: "string \<Rightarrow> string \<Rightarrow> json" where
  "encode_index_record term client_id = JObj
     [(''term'', JStr term), (''client_id'', JStr client_id), (''doc_type'', JStr ''index'')]"

definition SetIndex :: "'s index_env \<Rightarrow> string \<Rightarrow> string \<Rightarrow> 's \<Rightarrow> go_error option \<times> 's" where
  "SetIndex env client_id term s =
     SetElasticIndex (ix_es env) (ix_org env) PERSISTED [] (encode_index_record term client_id) s"

definition UnsetIndex :: "string \<Rightarrow> string \<Rightarrow> go_error option" where
  "UnsetIndex client_id term = Some (Err ''Indexer.UnsetIndex Not implemented'')"

definition RebuildIndex :: "go_error option" where
  "RebuildIndex = None"

definition SetSimpleIndex :: "string list \<Rightarrow> go_error option" where
  "SetSimpleIndex keywords = Some (Err ''Indexer.SetSimpleIndex Not implemented'')"

definition UnsetSimpleIndex :: "string list \<Rightarrow> go_error option" where
  "UnsetSimpleIndex keywords = Some (Err ''Indexer.UnsetSimpleIndex Not implemented'')"

definition CheckSimpleIndex :: "string list \<Rightarrow> go_error option" where
  "CheckSimpleIndex keywords = Some (Err ''Indexer.CheckSimpleIndex Not implemented'')"

text \<open>The client ids put on the channel; the search has no sort field.\<close>

definition getIndexRecords :: "'s index_env \<Rightarrow> search_req \<Rightarrow> 's \<Rightarrow> string list" where
  "getIndexRecords env q s =
     (case QueryChan (ix_es env) (ix_fuel env) 1000 (ix_org env) PERSISTED q [] (\<lambda>n. s) of
        Inl e \<Rightarrow> []
      | Inr hits \<Rightarrow> concat (map (\<lambda>h. case get_str ''client_id'' h of Inl e \<Rightarrow> [] | Inr i \<Rightarrow> [i]) hits))"

definition SearchIndexWithPrefix :: "'s index_env \<Rightarrow> string \<Rightarrow> 's \<Rightarrow> string list" where
  "SearchIndexWithPrefix env prefix s =
     (let (operator, term) = splitIntoOperatorAndTerms prefix
      in if operator = ''all'' then
           getIndexRecords env (query_of (Must [Match ''doc_type'' (JStr ''clients'')])) s
         else if operator = ''label'' then
           getIndexRecords env ((query_of (Must [fieldSearchQuery ''labels'' term,
             Match ''doc_type'' (JStr ''clients'')]))\<lparr>sq_sort := Some (''client_id'', False)\<rparr>) s
         else [])"

section \<open>What the searches read\<close>

text \<open>
  A client of the index: its main document, found by its id and sorted by it, decodes to its
  record, and the other documents of its name are not another client's.
\<close>

definition own_record :: "string \<Rightarrow> json \<Rightarrow> bool" where
  "own_record i j = (case decode_client j of Inl e \<Rightarrow> True | Inr r \<Rightarrow> cr_ClientId r = [] \<or> cr_ClientId r = i)"

definition indexed_client :: "index_docs \<Rightarrow> string \<times> json \<Rightarrow> bool" where
  "indexed_client ds d \<longleftrightarrow> fst d \<noteq> [] \<and> GetClientIdFromDocId (fst d) = fst d \<and>
     map_of ds (fst d) = Some (snd d) \<and> key_of ''client_id'' d = KStr (fst d) \<and>
     (case decode_client (snd d) of Inl e \<Rightarrow> False | Inr r \<Rightarrow> cr_ClientId r = fst d) \<and>
     list_all (\<lambda>k. case map_of ds k of None \<Rightarrow> True | Some j \<Rightarrow> own_record (fst d) j) (client_doc_ids (fst d))"

definition client_of :: "index_docs \<Rightarrow> string \<Rightarrow> ClientRecord" where
  "client_of ds i = merged_client (valid_clients (client_docs ds [i])) i"

lemma client_docs_split: "client_docs ds is = concat (map (\<lambda>i. client_docs ds [i]) is)"
  by (induction "is") (auto simp: client_docs_def)

lemma valid_clients_concat: "valid_clients (concat jss) = concat (map valid_clients jss)"
  by (induction jss) (auto simp: valid_clients_def)

lemma in_valid_clients:
  "x \<in> set (valid_clients hits) \<longleftrightarrow> (\<exists>h \<in> set hits. decode_client h = Inr x \<and> cr_ClientId x \<noteq> [])"
proof (induction hits)
  case (Cons h hits)
  then show ?case
    by (cases "decode_client h") (auto simp: valid_clients_def)
qed (simp add: valid_clients_def)

lemma indexed_client_ids:
  assumes "indexed_client ds d"
  shows "set (map cr_ClientId (valid_clients (client_docs ds [fst d]))) = {fst d}"
proof -
  obtain r where r: "decode_client (snd d) = Inr r" "cr_ClientId r = fst d" "fst d \<noteq> []" "map_of ds (fst d) = Some (snd d)"
    using assms by (auto simp: indexed_client_def split: sum.splits)
  have "r \<in> set (valid_clients (client_docs ds [fst d]))"
    using r by (simp add: valid_clients_def client_docs_def client_doc_ids_def)
  moreover have "cr_ClientId x = fst d" if x: "x \<in> set (valid_clients (client_docs ds [fst d]))" for x
  proof -
    obtain k where k: "k \<in> set (client_doc_ids (fst d))" and ne: "cr_ClientId x \<noteq> []"
      and dec: "decode_client (case map_of ds k of None \<Rightarrow> JNull | Some j \<Rightarrow> j) = Inr x"
      using x unfolding in_valid_clients client_docs_def
      by (simp only: set_map list.map concat.simps append_Nil2) blast
    have own: "case map_of ds k of None \<Rightarrow> True | Some j \<Rightarrow> own_record (fst d) j"
      using assms k by (simp add: indexed_client_def list_all_iff)
    show ?thesis
    proof (cases "map_of ds k")
      case None
      then have "x = empty_client" using dec decode_null_client by simp
      then show ?thesis using ne by (simp add: empty_client_def)
    next
      case (Some j)
      then show ?thesis using dec ne own by (simp add: own_record_def)
    qed
  qed
  ultimately show ?thesis using r(2) by auto
qed

text \<open>A document filed under a client of the index: its main document, its ping or its labels.\<close>

definition filed :: "index_docs \<Rightarrow> string \<times> json \<Rightarrow> bool" where
  "filed ds d = (let i = GetClientIdFromDocId (fst d)
                 in case map_of ds i of None \<Rightarrow> False | Some j \<Rightarrow> indexed_client ds (i, j))"

definition clients_of_docs :: "index_docs \<Rightarrow> string list" where
  "clients_of_docs L = foldl append_new [] (map (\<lambda>d. GetClientIdFromDocId (fst d)) L)"

lemma clients_from_hits:
  assumes "store_contract (ix_es env) docs" and "GetElasticClient (ix_es env) (ix_org env) = Inr c"
    and "ds = docs s c (GetIndex (ix_org env) PERSISTED)"
    and "list_all (filed ds) L"
  shows "searchClientsFromHits env (map fst L) [] None s = Inr (map (client_of ds) (clients_of_docs L))"
proof -
  let ?is = "clients_of_docs L"
  let ?V = "\<lambda>i. valid_clients (client_docs ds [i])"
  let ?rs = "valid_clients (client_docs ds ?is)"
  have dist: "distinct ?is" by (simp add: clients_of_docs_def distinct_fold_append_new)
  have V: "set (map cr_ClientId (?V i)) = {i}" if i: "i \<in> set ?is" for i
  proof -
    obtain d where "d \<in> set L" "i = GetClientIdFromDocId (fst d)"
      using i by (auto simp: clients_of_docs_def set_fold_append_new)
    then obtain j where "indexed_client ds (i, j)"
      using assms(4) by (auto simp: list_all_iff filed_def Let_def split: option.splits)
    then show ?thesis using indexed_client_ids [of ds "(i, j)"] by simp
  qed
  have rs: "?rs = concat (map ?V ?is)"
    unfolding client_docs_split [of ds ?is] by (simp add: valid_clients_concat comp_def)
  have keys: "foldl append_new [] (map cr_ClientId ?rs) = ?is"
    using append_new_groups [of "[]" ?is "\<lambda>i. map cr_ClientId (?V i)"] V dist
    by (simp add: rs map_concat comp_def)
  have "merged_client ?rs i = client_of ds i" if "i \<in> set ?is" for i
  proof -
    have "filter (\<lambda>r. cr_ClientId r = i) ?rs = ?V i"
      unfolding rs by (rule filter_groups [OF dist that V])
    moreover have "filter (\<lambda>r. cr_ClientId r = i) (?V i) = ?V i"
      using V [OF that] by (metis (mono_tags, lifting) filter_True image_eqI list.set_map singletonD)
    ultimately show ?thesis by (simp add: merged_client_def client_of_def)
  qed
  then have "map (merged_client ?rs) ?is = map (client_of ds) ?is" by (simp cong: map_cong)
  then show ?thesis
    using GetMultipleClients_merged [OF assms(1,2), of ?rs s ?is] keys
    by (auto simp: searchClientsFromHits_def filterClientInfo_def assms(3) clients_of_docs_def Let_def comp_def)
qed

lemma main_documents:
  assumes "list_all (indexed_client ds) L" and "distinct (map fst L)"
  shows "list_all (filed ds) L" and "clients_of_docs L = map fst L"
proof -
  have i: "GetClientIdFromDocId (fst d) = fst d" "map_of ds (fst d) = Some (snd d)" "indexed_client ds d"
    if "d \<in> set L" for d
    using assms(1) that by (simp_all add: list_all_iff indexed_client_def)
  then show "list_all (filed ds) L" by (simp add: list_all_iff filed_def)
  have eq: "map (\<lambda>d. GetClientIdFromDocId (fst d)) L = map fst L" using i(1) by simp
  show "clients_of_docs L = map fst L"
    unfolding clients_of_docs_def eq using append_new_distinct [of "[]" "map fst L"] assms(2) by simp
qed

section \<open>Walking all clients\<close>

lemma chan_clients_complete:
  assumes st: "store_contract (ix_es env) docs" and ids: "ids_contract (ix_es env) docs"
    and cl: "GetElasticClient (ix_es env) (ix_org env) = Inr c"
    and ds: "ds = docs s c (GetIndex (ix_org env) PERSISTED)"
    and q: "sq_from q \<in> {None, Some 0}" "\<not> sq_source q" "sq_sort q = Some (''client_id'', False)" "sq_size q = Some p"
    and L: "L = sort_key (key_of ''client_id'') (match_docs (sq_query q) ds)"
    and srt: "sorted_wrt (<) (map (key_of ''client_id'') L)"
    and good: "list_all (indexed_client ds) L" and dist: "distinct (map fst L)" and p: "0 < p"
  shows "m < length L \<Longrightarrow> length L - m < fuel \<Longrightarrow>
    chan_clients env fuel p q (map fst (take p (drop m L))) s = map (client_of ds) (map fst (drop m L))"
proof (induction fuel arbitrary: m)
  case (Suc fuel)
  define part where "part = take p (drop m L)"
  obtain j where j: "j < length L" "last part = L ! j" "Suc j = m + length part"
    using page_end [OF Suc.prems(1) p] unfolding part_def by metis
  have ne: "part \<noteq> []" using Suc.prems(1) p by (simp add: part_def)
  have sub: "set part \<subseteq> set L" using set_take_subset set_drop_subset unfolding part_def by fastforce
  have "list_all (indexed_client ds) part" using good sub by (auto simp: list_all_iff)
  moreover have "distinct (map fst part)"
    using dist by (simp add: part_def flip: take_map drop_map)
  ultimately have found: "searchClientsFromHits env (map fst part) [] None s = Inr (map (client_of ds) (map fst part))"
    using clients_from_hits [OF st cl ds, of part] main_documents by metis
  have rest: "part @ drop (Suc j) L = drop m L" unfolding j(3) part_def by (rule page_rest)
  show ?case
  proof (cases "length part < p")
    case True
    then have "drop (Suc j) L = []" using j(3) by (simp add: part_def min_def split: if_splits)
    then show ?thesis using found True rest by (simp add: part_def [symmetric])
  next
    case False
    have lastc: "cr_ClientId (last (map (client_of ds) (map fst part))) = fst (L ! j)"
    proof -
      have "indexed_client ds (L ! j)" using good j(1) by (simp add: list_all_length)
      then have "fst (L ! j) \<in> set (map cr_ClientId (valid_clients (client_docs ds [fst (L ! j)])))"
        using indexed_client_ids [of ds "L ! j"] by simp
      then show ?thesis
        using merged_client_id ne j(2) by (simp add: last_map client_of_def)
    qed
    have key: "KStr (fst (L ! j)) = key_of ''client_id'' (L ! j)"
      using good j(1) by (simp add: list_all_length indexed_client_def)
    have "q\<lparr>sq_search_after := Some (KStr (fst (L ! j)))\<rparr> = q\<lparr>sq_sort := Some (''client_id'', False),
        sq_size := Some p, sq_search_after := Some (key_of ''client_id'' (L ! j))\<rparr>"
      using q(3,4) key by (cases q) simp
    then have more: "\<exists>n. QueryElasticIds (ix_es env) (ix_org env) PERSISTED
        (q\<lparr>sq_search_after := Some (KStr (fst (L ! j)))\<rparr>) s = Inr (map fst (take p (drop (Suc j) L)), n)"
      using QueryElasticIds_hits [OF ids cl, of "q\<lparr>sq_sort := Some (''client_id'', False),
        sq_size := Some p, sq_search_after := Some (key_of ''client_id'' (L ! j))\<rparr>" PERSISTED s] q(2)
        search_hits_after [OF q(1) L srt j(1)] by (simp add: ds)
    have next_page: "chan_clients env fuel p q (map fst (take p (drop (Suc j) L))) s =
        map (client_of ds) (map fst (drop (Suc j) L))" if "drop (Suc j) L \<noteq> []"
      using Suc.IH [of "Suc j"] that j(3) Suc.prems ne by (cases part) auto
    have "map (client_of ds) (map fst (drop m L)) =
        map (client_of ds) (map fst part) @ map (client_of ds) (map fst (drop (Suc j) L))"
      by (simp flip: rest)
    then show ?thesis
      using found False more lastc next_page ne p
      by (cases "drop (Suc j) L = []") (auto simp: part_def [symmetric] simp del: map_map)
  qed
qed simp

section \<open>Properties\<close>

text \<open>
  C17. The walk over all clients (the search \<open>all\<close> over a channel, which fills the cache of
  clients) delivers every client of the index exactly once, in the order of the client ids,
  each as the merge of its documents, however many pages that takes.
\<close>

theorem client_walk_complete:
  assumes "store_contract (ix_es env) docs" and "ids_contract (ix_es env) docs"
    and "GetElasticClient (ix_es env) (ix_org env) = Inr c"
    and "ds = docs s c (GetIndex (ix_org env) PERSISTED)"
    and "L = match_docs (Must [allClientsQuery, Match ''type'' (JStr ''main'')]) ds"
    and "list_all (indexed_client ds) L" and "distinct (map fst L)" and "length L < ix_fuel env"
  shows "SearchClientRecordsChan env parse ''all'' s = Inr (map (client_of ds) (sort (map fst L)))"
proof -
  let ?q = "(getAllClientsQuery [allClientsQuery])\<lparr>sq_size := Some 1000\<rparr>"
  let ?S = "sort_key (key_of ''client_id'') L"
  have keys: "map (key_of ''client_id'') L = map KStr (map fst L)"
    using assms(6) by (auto simp: list_all_iff indexed_client_def)
  have ids: "map fst ?S = sort (map fst L)" using sort_by_str_key [OF keys] .
  have q: "sq_from ?q \<in> {None, Some 0}" "\<not> sq_source ?q" "sq_sort ?q = Some (''client_id'', False)"
    "sq_size ?q = Some 1000" "sq_search_after ?q = None"
    "sq_query ?q = Must [allClientsQuery, Match ''type'' (JStr ''main'')]"
    by (simp_all add: getAllClientsQuery_def query_of_def)
  have "search_hits ?q ds = take 1000 ?S"
    using from_start [OF q(1)] q(3-) by (simp add: search_hits_def sorted_hits_def after_hits_def assms(5) match_docs_def)
  then have first: "\<exists>n. QueryElasticIds (ix_es env) (ix_org env) PERSISTED ?q s = Inr (map fst (take 1000 ?S), n)"
    using QueryElasticIds_hits [OF assms(2,3), of ?q PERSISTED s] q(2) by (simp add: assms(4))
  have good: "list_all (indexed_client ds) ?S" and dist: "distinct (map fst ?S)"
    using assms(6,7) by (simp_all add: list_all_iff ids)
  have srt: "sorted_wrt (<) (map (key_of ''client_id'') ?S)"
    by (rule strict_sort_key) (simp add: keys distinct_map [where f = KStr] assms(7) inj_on_def del: map_map)
  have "chan_clients env (ix_fuel env) 1000 ?q (map fst (take 1000 (drop 0 ?S))) s = map (client_of ds) (map fst (drop 0 ?S))"
    if "L \<noteq> []"
    by (rule chan_clients_complete [OF assms(1-4) q(1-4) _ srt good dist])
      (use that assms(5,8) q(6) in auto)
  then have "getAllClientsChan env s = map (client_of ds) (map fst ?S)"
    using first by (cases "L = []") (auto simp: getAllClientsChan_def searchWithTermsChan_def Let_def simp del: map_map)
  then show ?thesis
    unfolding ids by (simp add: SearchClientRecordsChan_def splitIntoOperatorAndTerms_def)
qed

text \<open>
  A page of the search for all clients is cut from the documents in the order of the client
  ids, pings and labels included since every document of a client has a time of first sight:
  one more document than the limit of the request, from the offset on. The clients are those
  of the documents, each once, and the total counts documents. A request without a limit
  gets at most one client: the default of fifty is not used.
\<close>

theorem search_all_page:
  assumes "store_contract (ix_es env) docs" and "ids_contract (ix_es env) docs"
    and "count_contract (ix_es env) docs"
    and "GetElasticClient (ix_es env) (ix_org env) = Inr c"
    and "ds = docs s c (GetIndex (ix_org env) PERSISTED)"
    and "L = sort_key (key_of ''client_id'') (match_docs (Must [allClientsQuery]) ds)"
    and "list_all (filed ds) L"
    and "sc_Query req = ''all''" and "sc_Sort req = UNSORTED" and "sc_Filter req = UNFILTERED"
    and "int (sc_Limit req) + 1 < 2 ^ 64"
  shows "SearchClientRecords env req user s =
    Inr (map (client_of ds) (clients_of_docs (take (sc_Limit req + 1) (drop (sc_Offset req) L))), int (length L))"
proof -
  let ?q = "getSortedClientsQuery (''client_id'', False) [allClientsQuery] (sc_Offset req) (sc_Limit req)"
  let ?page = "take (sc_Limit req + 1) (drop (sc_Offset req) L)"
  have lim: "nat (u64 (int (sc_Limit req) + 1)) = sc_Limit req + 1"
    using assms(11) by (simp add: u64_def)
  have page: "search_hits ?q ds = ?page"
    by (simp add: search_hits_def sorted_hits_def after_hits_def getSortedClientsQuery_def page_of_def
        query_of_def lim assms(6) match_docs_def)
  have "\<not> sq_source ?q" by (simp add: getSortedClientsQuery_def page_of_def)
  then have hits: "QueryElasticIds (ix_es env) (ix_org env) PERSISTED ?q s =
      Inr (map fst ?page, int (length (match_docs (sq_query ?q) ds)))"
    unfolding page [symmetric] assms(5) by (rule QueryElasticIds_hits [OF assms(2,4)])
  have "list_all (filed ds) ?page"
    using assms(7) set_take_subset [of _ "drop (sc_Offset req) L"] set_drop_subset [of _ L]
    by (fastforce simp: list_all_iff)
  then have "searchClientsFromHits env (map fst ?page) [] None s =
      Inr (map (client_of ds) (clients_of_docs ?page))"
    by (rule clients_from_hits [OF assms(1,4,5)])
  moreover have "CountWithTerms env UNFILTERED [allClientsQuery] s = Inr (int (length L))"
    using QueryCountAPI_count [OF assms(3,4)]
    by (simp add: CountWithTerms_def online_terms_def getClientsQuery_def query_of_def assms(5,6))
  ultimately show ?thesis
    using hits assms(8-10)
    by (simp add: SearchClientRecords_def splitIntoOperatorAndTerms_def getAllClients_def
        searchWithTerms_def searchWithSortTerms_def online_terms_def Let_def)
qed

text \<open>
  The searches \<open>after:\<close> and \<open>label:\<close> over a channel never find a client: they ask for
  documents of type \<open>main\<close>, and the program keeps the pings and the labels of clients in
  documents of their own.
\<close>

theorem chan_search_misses_side_documents:
  assumes "ids_contract (ix_es env) docs" and "GetElasticClient (ix_es env) (ix_org env) = Inr c"
    and "ds = docs s c (GetIndex (ix_org env) PERSISTED)"
    and "list_all (\<lambda>d. field_values ''ping'' (snd d) = [] \<and> field_values ''labels'' (snd d) = [])
      (match_docs (Match ''type'' (JStr ''main'')) ds)"
  shows "SearchClientRecordsChan env parse (''after:'' @ t) s = Inr [] \<and>
    SearchClientRecordsChan env parse (''label:'' @ t) s = Inr []"
proof -
  have none: "searchWithTermsChan env 1000 [q] s = []"
    if "match_docs (Must [q, Match ''type'' (JStr ''main'')]) ds = []" for q
  proof -
    let ?q = "(getAllClientsQuery [q])\<lparr>sq_size := Some 1000\<rparr>"
    have "search_hits ?q ds = []"
      using that by (simp add: search_hits_def sorted_hits_def after_hits_def getAllClientsQuery_def
          query_of_def match_docs_def)
    then have "\<exists>n. QueryElasticIds (ix_es env) (ix_org env) PERSISTED ?q s = Inr ([], n)"
      using QueryElasticIds_hits [OF assms(1,2), of ?q PERSISTED s]
      by (simp add: assms(3) getAllClientsQuery_def)
    then show ?thesis by (auto simp: searchWithTermsChan_def Let_def)
  qed
  have "match_docs (Must [recentClientsQuery n, Match ''type'' (JStr ''main'')]) ds = []"
    "match_docs (Must [fieldSearchQuery ''labels'' l, Match ''type'' (JStr ''main'')]) ds = []" for n l
    using assms(4) by (auto simp: match_docs_def list_all_iff filter_empty_conv recentClientsQuery_def
        fieldSearchQuery_def)
  then show ?thesis
    using none by (simp add: SearchClientRecordsChan_def splitIntoOperatorAndTerms_def
        SearchAfterClients_def searchClientsByLabelChan_def Let_def HasPrefix_def)
qed

text \<open>
  For five minutes after the cache of clients was filled, every client the walk found is
  answered as it was found, without reading the store and whatever the store holds by then.
\<close>

theorem populated_cache_serves_clients:
  assumes "SearchClientRecordsChan env parse ''all'' s = Inr rs" and "distinct (map cr_ClientId rs)"
    and "r \<in> set rs" and "later < ix_now env + client_ttl"
    and "PopulateClientInfoCache env parse c s = (err, c')"
  shows "err = None \<and>
    FastGetApiClient (env\<lparr>ix_now := later\<rparr>) (cr_ClientId r) c' s' = (Inr (makeApiClient r), c')"
proof -
  have c': "err = None" "c' = foldl (\<lambda>c r. ttl_set client_ttl (ix_now env) (cr_ClientId r) r c) c rs"
    using assms(1,5) by (simp_all add: PopulateClientInfoCache_def SearchClientsChan_def cache_clients_def)
  have "find (\<lambda>v. cr_ClientId v = cr_ClientId r) (rev rs) = Some r"
    using assms(2,3) by (rule find_unique)
  then have "ttl_get later (cr_ClientId r) c' = Some r"
    using ttl.get_fill [OF assms(4), of "cr_ClientId r" cr_ClientId c rs] by (simp add: c'(2))
  then show ?thesis by (simp add: FastGetApiClient_def c'(1))
qed

section \<open>Witnesses\<close>

definition sample_clients :: mem_es_state where
  "sample_clients = [(''persisted'',
     [(''C.2'', encode_client (client_set_record 0 (sample_client\<lparr>ci_ClientId := ''C.2''\<rparr>))),
      (''C.1'', encode_client (client_set_record 0 (sample_client\<lparr>ci_ClientId := ''C.1''\<rparr>))),
      (''C.1_ping'', encode_client (empty_client\<lparr>cr_ClientId := ''C.1'', cr_Type := ''ping'', cr_Ping := 7\<rparr>)),
      (''C.1_labels'', encode_client (label_record 5 ''C.1'' ''x''))])]"

definition sample_index_env :: "mem_es_state index_env" where
  "sample_index_env = \<lparr>ix_es = mem_es, ix_org = ''root'', ix_now = 0, ix_marshal = (\<lambda>j. []),
     ix_compile = (\<lambda>g. None), ix_fuel = 3\<rparr>"

definition search_for_all :: search_request where
  "search_for_all = \<lparr>sc_Query = ''all'', sc_Offset = 0, sc_Limit = 0, sc_Sort = UNSORTED,
     sc_Filter = UNFILTERED, sc_NameOnly = False\<rparr>"

lemma sample_main:
  "match_docs (Must [allClientsQuery, Match ''type'' (JStr ''main'')]) (mem_docs sample_clients ''persisted'') =
     take 2 (mem_docs sample_clients ''persisted'')"
  "list_all (indexed_client (mem_docs sample_clients ''persisted'')) (take 2 (mem_docs sample_clients ''persisted''))"
  "sort (map fst (take 2 (mem_docs sample_clients ''persisted''))) = [''C.1'', ''C.2'']"
  by code_simp+

lemma sample_env [simp]:
  "ix_es sample_index_env = mem_es" "ix_org sample_index_env = ''root''" "ix_fuel sample_index_env = 3"
  "ix_now sample_index_env = 0" "GetIndex ''root'' PERSISTED = ''persisted''"
  by (simp_all add: sample_index_env_def GetIndex_def PERSISTED_def)

theorem client_walk_complete_witness:
  "SearchClientRecordsChan sample_index_env (\<lambda>t. 0) ''all'' sample_clients =
     Inr (map (client_of (mem_docs sample_clients ''persisted'')) [''C.1'', ''C.2''])"
proof -
  let ?ds = "mem_docs sample_clients ''persisted''"
  have "distinct (map fst (take 2 ?ds))" by code_simp
  moreover have "length (take 2 ?ds) < 3" by simp
  ultimately show ?thesis
    using client_walk_complete [where env = sample_index_env and c = PrimaryOpenSearch and L = "take 2 ?ds",
        of "\<lambda>st c idx. mem_docs st idx" ?ds sample_clients "\<lambda>t. 0"]
      mem_store_contract mem_ids_contract sample_main
    by simp
qed

text \<open>Two clients, four documents: the request gets one client and the total is four.\<close>

theorem search_all_page_witness:
  "SearchClientRecords sample_index_env search_for_all ''admin'' sample_clients =
     Inr ([client_of (mem_docs sample_clients ''persisted'') ''C.1''], 4)"
proof -
  let ?ds = "mem_docs sample_clients ''persisted''"
  let ?L = "sort_key (key_of ''client_id'') (match_docs (Must [allClientsQuery]) ?ds)"
  have "list_all (filed ?ds) ?L" by code_simp
  moreover have "clients_of_docs (take 1 (drop 0 ?L)) = [''C.1'']" by code_simp
  moreover have "length ?L = 4" by code_simp
  ultimately show ?thesis
    using search_all_page [where env = sample_index_env and c = PrimaryOpenSearch and req = search_for_all,
        of "\<lambda>st c idx. mem_docs st idx" ?ds sample_clients ?L "''admin''"]
      mem_store_contract mem_ids_contract mem_count_contract
    by (simp add: search_for_all_def del: length_sort)
qed

text \<open>The client with a ping at 7 and the label \<open>x\<close> is found by neither search.\<close>

theorem chan_search_misses_side_documents_witness:
  "SearchClientRecordsChan sample_index_env (\<lambda>t. 0) ''after:0'' sample_clients = Inr [] \<and>
   SearchClientRecordsChan sample_index_env (\<lambda>t. 0) ''label:x'' sample_clients = Inr []"
proof -
  let ?ds = "mem_docs sample_clients ''persisted''"
  have "list_all (\<lambda>d. field_values ''ping'' (snd d) = [] \<and> field_values ''labels'' (snd d) = [])
      (match_docs (Match ''type'' (JStr ''main'')) ?ds)"
    by code_simp
  then show ?thesis
    using chan_search_misses_side_documents [where env = sample_index_env and c = PrimaryOpenSearch,
        of "\<lambda>st c idx. mem_docs st idx" ?ds sample_clients "\<lambda>t. 0" "''0''"]
      chan_search_misses_side_documents [where env = sample_index_env and c = PrimaryOpenSearch,
        of "\<lambda>st c idx. mem_docs st idx" ?ds sample_clients "\<lambda>t. 0" "''x''"]
      mem_ids_contract
    by simp
qed

theorem populated_cache_serves_clients_witness:
  "\<exists>rs c'. map cr_ClientId rs = [''C.1'', ''C.2''] \<and>
     FastGetApiClient (sample_index_env\<lparr>ix_now := 299999999999\<rparr>) ''C.1'' c' [] = (Inr (makeApiClient (hd rs)), c')"
proof -
  let ?ds = "mem_docs sample_clients ''persisted''"
  let ?rs = "[client_of ?ds ''C.1'', client_of ?ds ''C.2'']"
  have found: "SearchClientRecordsChan sample_index_env (\<lambda>t. 0) ''all'' sample_clients = Inr ?rs"
    by code_simp
  have ids: "map cr_ClientId ?rs = [''C.1'', ''C.2'']" by code_simp
  obtain err c' where "PopulateClientInfoCache sample_index_env (\<lambda>t. 0) [] sample_clients = (err, c')"
    by (meson surj_pair)
  from populated_cache_serves_clients [OF found _ _ _ this, of "hd ?rs" 299999999999 "[]"] ids
  show ?thesis by (intro exI [of _ ?rs] exI [of _ c']) (simp add: client_ttl_def)
qed

end
