(* ===== verification/Foreman.thy ===== *)
theory Foreman
  imports Clients "HOL-Library.AList" "HOL-Library.Multiset"
begin

text \<open>
  The foreman (\<open>foreman/foreman.go\<close>, \<open>foreman/plan.go\<close>, \<open>foreman/event_monitoring.go\<close>): a batch
  job that looks at the clients seen since its last run, plans the hunts and event tables
  they still need, and schedules them.
\<close>

section \<open>Data\<close>

datatype hunt_os = OS_ALL | OS_WINDOWS | OS_LINUX | OS_OSX | OS_other int

record collector_args =
  ca_ClientId :: string
  ca_Artifacts :: "string list"
  ca_CompiledCollectorArgs :: "vql_args list"
  ca_Other :: json

definition empty_args :: collector_args where
  "empty_args = \<lparr>ca_ClientId = [], ca_Artifacts = [], ca_CompiledCollectorArgs = [], ca_Other = JNull\<rparr>"

text \<open>Message fields that may be nil are options.\<close>

record hunt_condition =
  hc_Labels :: "string list option"
  hc_ExcludedLabels :: "string list option"
  hc_Os :: "hunt_os option"

record hunt =
  h_HuntId :: string
  h_StartTime :: int
  h_Expires :: int
  h_Condition :: "hunt_condition option"
  h_StartRequest :: "collector_args option"

record label_table =
  lt_Label :: string
  lt_Artifacts :: "collector_args option"

record client_event_table =
  cet_Version :: int
  cet_Artifacts :: "collector_args option"
  cet_LabelEvents :: "label_table list"

text \<open>The maps of a plan are association lists with the newest key at the end.\<close>

record plan =
  HuntsToClients :: "(string \<times> string list) list"
  HuntsByHuntId :: "(string \<times> hunt) list"
  ClientIdToHunts :: "(string \<times> hunt list) list"
  ClientIdToClientRecords :: "(string \<times> ClientRecord) list"
  MonitoringTables :: "(string \<times> velo_message) list"
  MonitoringTablesToClients :: "(string \<times> string list) list"
  current_monitoring_state :: client_event_table

text \<open>Reading a map of lists: an absent key gives the empty list.\<close>

definition lists_get :: "(string \<times> 'v list) list \<Rightarrow> string \<Rightarrow> 'v list" where
  "lists_get m k = (case map_of m k of None \<Rightarrow> [] | Some l \<Rightarrow> l)"

lemma lists_get_update [simp]:
  "lists_get (AList.update k v m) k' = (if k' = k then v else lists_get m k')"
  by (simp add: lists_get_def update_conv')

lemma lists_get_Nil [simp]: "lists_get [] k = []"
  by (simp add: lists_get_def)

record foreman =
  last_run_time :: int
  next_run_time :: int

section \<open>Environment\<close>

text \<open>
  The launcher and the client info manager of an organisation may offer an operation on many
  clients at once. The service registry returns them or an error. The launcher calls back with
  the task it has made.
\<close>

record 's launcher_api =
  la_Multi :: "(collector_args \<Rightarrow> string list \<Rightarrow> 's \<Rightarrow> go_error option \<times> 's) option"
  la_Write :: "collector_args \<Rightarrow> vql_args list \<Rightarrow> (velo_message \<Rightarrow> 's \<Rightarrow> 's) \<Rightarrow> 's \<Rightarrow> go_error option \<times> 's"

record 's client_api =
  cl_Multi :: "(string list \<Rightarrow> velo_message \<Rightarrow> bool \<Rightarrow> 's \<Rightarrow> go_error option \<times> 's) option"
  cl_Queue :: "string \<Rightarrow> velo_message \<Rightarrow> bool \<Rightarrow> 's \<Rightarrow> go_error option \<times> 's"

text \<open>
  \<open>fe_running_hunts\<close> is \<open>ApplyFuncOnHunts\<close> with \<open>OnlyRunningHunts\<close> of the hunt dispatcher,
  \<open>fe_order\<close> the order in which Go walks the keys of a map, and \<open>fe_job_first\<close> says whether the
  goroutine of \<open>scheduleClientsWithBacklog\<close> runs when it is started or when it is waited for;
  \<open>fe_monitoring_flow\<close> is the library's \<open>MONITORING_WELL_KNOWN_FLOW\<close>.
\<close>

record 's fenv =
  fe_es :: "'s elastic"
  fe_fuel :: nat
  fe_now :: "nat \<Rightarrow> int"
  fe_order :: "string list \<Rightarrow> string list"
  fe_job_first :: bool
  fe_EventMaxWait :: int
  fe_monitoring_flow :: string
  fe_running_hunts :: "string \<Rightarrow> 's \<Rightarrow> hunt list result"
  fe_monitoring :: "string \<Rightarrow> client_event_table result"
  fe_launcher :: "string \<Rightarrow> 's launcher_api result"
  fe_clients :: "string \<Rightarrow> 's client_api result"
  fe_OrgManager :: "go_error option"
  fe_ListOrgs :: "string list"
  fe_GetOrg :: "string \<Rightarrow> string result"
  fe_GetOrgConfig :: "string \<Rightarrow> string result"

record foreman_config =
  DedicatedForeman :: bool
  DedicatedForemanOrg :: string
  ForemanExcludedOrgs :: "string list"

text \<open>The world: the store, the bulk indexer, the clock and the goroutines not yet run.\<close>

record 's fworld =
  fw_store :: 's
  fw_bulk :: "bulk_indexer option"
  fw_ticks :: nat
  fw_jobs :: "(string \<times> hunt list \<times> plan) list"

definition fnow :: "'s fenv \<Rightarrow> 's fworld \<Rightarrow> int \<times> 's fworld" where
  "fnow env w = (fe_now env (fw_ticks w), w\<lparr>fw_ticks := Suc (fw_ticks w)\<rparr>)"

text \<open>An operation on the store alone.\<close>

definition on_store :: "('s \<Rightarrow> 'a \<times> 's) \<Rightarrow> 's fworld \<Rightarrow> 'a \<times> 's fworld" where
  "on_store f w = (case f (fw_store w) of (r, s) \<Rightarrow> (r, w\<lparr>fw_store := s\<rparr>))"

text \<open>
  \<open>SetElasticIndexAsync\<close> with its error ignored; only the missing bulk indexer is a panic.
\<close>

definition async_write :: "'s fenv \<Rightarrow> string \<Rightarrow> string \<Rightarrow> ClientRecord \<Rightarrow> 's fworld \<Rightarrow> go_error option \<times> 's fworld"
where
  "async_write env org i rec w =
     (case SetElasticIndexAsync (fe_es env) org PERSISTED i ''index'' (encode_client rec) (fw_bulk w)
             (fw_store w) of
        (e, b, s) \<Rightarrow> ((if fw_bulk w = None then Some NilDereference else None),
                      w\<lparr>fw_bulk := b, fw_store := s\<rparr>))"

section \<open>Client information (foreman.go)\<close>

definition stopHunt :: "'s fenv \<Rightarrow> string \<Rightarrow> hunt \<Rightarrow> 's fworld \<Rightarrow> go_error option \<times> 's fworld" where
  "stopHunt env org h w =
     on_store (UpdateIndex (fe_es env) org PERSISTED (h_HuntId h)
       \<lparr>up_script = (\<lambda>d. Some (jset ''state'' (JStr ''STOPPED'') d)), up_upsert = None\<rparr>) w"

definition minimal_info_query :: "string \<Rightarrow> search_req" where
  "minimal_info_query client_id = query_of (Must
     [Match ''client_id'' (JStr client_id),
      Should [Exists ''last_event_table_version'', Exists ''assigned_hunts'', Exists ''labels_timestamp'',
              Exists ''labels'', Exists ''system'', Exists ''last_label_timestamp''],
      Match ''doc_type'' (JStr ''clients'')])"

text \<open>A label and its lower case form are added together.\<close>

definition add_client_label :: "ClientRecord \<Rightarrow> string \<Rightarrow> ClientRecord" where
  "add_client_label r l =
     (if InString (cr_Labels r) l then r
      else r\<lparr>cr_Labels := cr_Labels r @ [l], cr_LowerLabels := cr_LowerLabels r @ [ToLower l]\<rparr>)"

definition merge_minimal :: "ClientRecord \<Rightarrow> json \<Rightarrow> ClientRecord" where
  "merge_minimal r hit =
     (case decode_client hit of
        Inl e \<Rightarrow> r
      | Inr h \<Rightarrow>
          let r1 = (if cr_LastLabelTimestamp h > 0
                    then r\<lparr>cr_LastLabelTimestamp := cr_LastLabelTimestamp h\<rparr> else r);
              r2 = (if cr_LastEventTableVersion h > 0
                    then r1\<lparr>cr_LastEventTableVersion := cr_LastEventTableVersion h\<rparr> else r1);
              r3 = foldl add_client_label r2 (cr_Labels h);
              r4 = r3\<lparr>cr_AssignedHunts := foldl append_new (cr_AssignedHunts r3) (cr_AssignedHunts h)\<rparr>
          in if cr_System h \<noteq> [] then r4\<lparr>cr_System := cr_System h\<rparr> else r4)"

definition getMinimalClientInfo :: "'s fenv \<Rightarrow> string \<Rightarrow> string \<Rightarrow> 's \<Rightarrow> ClientRecord result" where
  "getMinimalClientInfo env org client_id s =
     bindR (QueryChan (fe_es env) (fe_fuel env) 1000 org PERSISTED (minimal_info_query client_id)
              ''client_id'' (\<lambda>n. s))
       (\<lambda>hits. Inr (foldl merge_minimal
          (empty_client\<lparr>cr_ClientId := client_id, cr_DocType := ''clients''\<rparr>) hits))"

definition membership_query :: "string \<Rightarrow> string list \<Rightarrow> search_req" where
  "membership_query client_id hunts = query_of (Must
     [Terms ''assigned_hunts'' hunts, Match ''client_id'' (JStr client_id),
      Match ''doc_type'' (JStr ''clients'')])"

text \<open>The set of hunts, as the list of the keys of the map.\<close>

definition seen_hunts :: "json list \<Rightarrow> string list" where
  "seen_hunts hits = concat (map (\<lambda>hit. case decode_client hit of
     Inl e \<Rightarrow> [] | Inr r \<Rightarrow> cr_AssignedHunts r) hits)"

definition getClientHuntMembership ::
  "'s fenv \<Rightarrow> string \<Rightarrow> string \<Rightarrow> string list \<Rightarrow> 's \<Rightarrow> string list result" where
  "getClientHuntMembership env org client_id hunts s =
     bindR (QueryChan (fe_es env) (fe_fuel env) 1000 org PERSISTED (membership_query client_id hunts)
              ''client_id'' (\<lambda>n. s))
       (\<lambda>hits. Inr (seen_hunts hits))"

definition recent_clients_query :: "int \<Rightarrow> search_req" where
  "recent_clients_query early = query_of (Must
     [Range ''ping'' Gt early, Match ''doc_type'' (JStr ''clients'')])"

definition getClientsSeenAfter :: "'s fenv \<Rightarrow> string \<Rightarrow> int \<Rightarrow> 's \<Rightarrow> string list" where
  "getClientsSeenAfter env org early s =
     (case QueryChan (fe_es env) (fe_fuel env) 1000 org PERSISTED (recent_clients_query early) ''ping''
             (\<lambda>n. s) of
        Inl e \<Rightarrow> []
      | Inr hits \<Rightarrow> concat (map (\<lambda>hit. case decode_client hit of
          Inl e \<Rightarrow> [] | Inr r \<Rightarrow> if cr_ClientId r = [] then [] else [cr_ClientId r]) hits))"

section \<open>The monitoring message (event\_monitoring.go)\<close>

definition fix_event :: "int \<Rightarrow> vql_args \<Rightarrow> vql_args" where
  "fix_event event_max_wait e =
     (let e1 = (if va_MaxWait e = 0 then e\<lparr>va_MaxWait := event_max_wait\<rparr> else e);
          e2 = (if va_MaxWait e1 = 0 then e1\<lparr>va_MaxWait := 120\<rparr> else e1)
      in e2\<lparr>va_Timeout := 99999999\<rparr>)"

text \<open>The events of the tables whose label the client has; a table without artifacts is a panic.\<close>

fun label_events :: "label_table list \<Rightarrow> string list \<Rightarrow> vql_args list result" where
  "label_events [] labels = Inr []"
| "label_events (t # ts) labels =
     (if InString labels (lt_Label t) then
        (case lt_Artifacts t of
           None \<Rightarrow> Inl NilDereference
         | Some a \<Rightarrow> bindR (label_events ts labels) (\<lambda>es. Inr (ca_CompiledCollectorArgs a @ es)))
      else label_events ts labels)"

definition all_events :: "client_event_table \<Rightarrow> vql_args list" where
  "all_events state = (case cet_Artifacts state of None \<Rightarrow> [] | Some a \<Rightarrow> ca_CompiledCollectorArgs a)"

definition GetClientUpdateEventTableMessage ::
  "'s fenv \<Rightarrow> client_event_table \<Rightarrow> string list \<Rightarrow> 's fworld \<Rightarrow> velo_message result \<times> 's fworld" where
  "GetClientUpdateEventTableMessage env state labels w =
     (case fnow env w of (now, w1) \<Rightarrow>
        (bindR (label_events (cet_LabelEvents state) labels) (\<lambda>es.
           Inr \<lparr>vm_SessionId = fe_monitoring_flow env,
                vm_UpdateEventTable = Some \<lparr>et_Version = u64 now,
                  et_Event = map (fix_event (fe_EventMaxWait env)) (all_events state @ es)\<rparr>,
                vm_Other = JNull\<rparr>), w1))"

definition labelsKey :: "string list \<Rightarrow> client_event_table \<Rightarrow> string" where
  "labelsKey labels state =
     Join ''|'' (map lt_Label (filter (\<lambda>t. InString labels (lt_Label t)) (cet_LabelEvents state)))"

section \<open>Planning (foreman.go, plan.go)\<close>

text \<open>Without the client event manager there is no plan.\<close>

definition NewPlan :: "'s fenv \<Rightarrow> string \<Rightarrow> plan result" where
  "NewPlan env org = bindR (fe_monitoring env org) (\<lambda>state.
     Inr \<lparr>HuntsToClients = [], HuntsByHuntId = [], ClientIdToHunts = [], ClientIdToClientRecords = [],
          MonitoringTables = [], MonitoringTablesToClients = [], current_monitoring_state = state\<rparr>)"

definition huntsContain :: "hunt list \<Rightarrow> string \<Rightarrow> bool" where
  "huntsContain hunts hunt_id \<longleftrightarrow> list_ex (\<lambda>h. h_HuntId h = hunt_id) hunts"

definition assignClientToHunt :: "ClientRecord \<Rightarrow> hunt \<Rightarrow> plan \<Rightarrow> plan" where
  "assignClientToHunt info h p =
     (let client_id = cr_ClientId info;
          planned = lists_get (ClientIdToHunts p) client_id;
          p1 = (if \<not> huntsContain planned (h_HuntId h)
                then p\<lparr>ClientIdToHunts := AList.update client_id (planned @ [h]) (ClientIdToHunts p)\<rparr> else p)
      in p1\<lparr>ClientIdToClientRecords := AList.update client_id info (ClientIdToClientRecords p1)\<rparr>)"

definition clientHasLabels :: "ClientRecord \<Rightarrow> string list \<Rightarrow> bool" where
  "clientHasLabels info labels \<longleftrightarrow> list_ex (\<lambda>l. InString (cr_LowerLabels info) (ToLower l)) labels"

definition os_name :: "hunt_os \<Rightarrow> string" where
  "os_name os = (case os of OS_WINDOWS \<Rightarrow> ''windows'' | OS_LINUX \<Rightarrow> ''linux'' | OS_OSX \<Rightarrow> ''darwin'' | _ \<Rightarrow> [])"

definition planHuntForClient :: "ClientRecord \<Rightarrow> hunt \<Rightarrow> plan \<Rightarrow> plan" where
  "planHuntForClient info h p =
     (if InString (cr_AssignedHunts info) (h_HuntId h) then p
      else case h_Condition h of
        None \<Rightarrow> assignClientToHunt info h p
      | Some cond \<Rightarrow>
          if (case hc_Labels cond of None \<Rightarrow> False
              | Some ls \<Rightarrow> ls \<noteq> [] \<and> \<not> clientHasLabels info ls) then p
          else if (case hc_ExcludedLabels cond of None \<Rightarrow> False
              | Some ls \<Rightarrow> ls \<noteq> [] \<and> clientHasLabels info ls) then p
          else if (case hc_Os cond of None \<Rightarrow> False
              | Some os \<Rightarrow> os \<noteq> OS_ALL \<and> os_name os \<noteq> [] \<and> cr_System info \<noteq> os_name os) then p
          else assignClientToHunt info h p)"

text \<open>
  The client record is updated in place and remembered; the message of a label combination is
  made once.
\<close>

definition planMonitoringForClient ::
  "'s fenv \<Rightarrow> foreman \<Rightarrow> ClientRecord \<Rightarrow> plan \<Rightarrow> 's fworld \<Rightarrow> plan result \<times> 's fworld" where
  "planMonitoringForClient env fm info p w =
     (let state = current_monitoring_state p
      in if \<not> (cr_LastLabelTimestamp info \<ge> u64 (last_run_time fm) \<or>
               cr_LastEventTableVersion info < cet_Version state) then (Inr p, w)
         else
           (let key = labelsKey (cr_Labels info) state
            in case (case map_of (MonitoringTables p) key of
                       Some m \<Rightarrow> (Inr p, w)
                     | None \<Rightarrow>
                         (case GetClientUpdateEventTableMessage env state (cr_Labels info) w of
                            (Inl e, w1) \<Rightarrow> (Inl e, w1)
                          | (Inr m, w1) \<Rightarrow>
                              (Inr (p\<lparr>MonitoringTables := AList.update key m (MonitoringTables p)\<rparr>), w1))) of
                 (Inl e, w1) \<Rightarrow> (Inl e, w1)
               | (Inr p1, w1) \<Rightarrow>
                   (let clients = lists_get (MonitoringTablesToClients p1) key;
                        p2 = (if InString clients (cr_ClientId info) then p1
                              else p1\<lparr>MonitoringTablesToClients := AList.update key
                                     (cr_ClientId info # clients) (MonitoringTablesToClients p1)\<rparr>);
                        info' = info\<lparr>cr_LastEventTableVersion := cet_Version state\<rparr>
                    in (Inr (p2\<lparr>ClientIdToClientRecords :=
                          AList.update (cr_ClientId info') info' (ClientIdToClientRecords p2)\<rparr>), w1))))"

section \<open>Executing a plan (plan.go)\<close>

text \<open>
  The callback of the launcher queues the task for the client; its errors are dropped.
\<close>

definition queue_task :: "'s fenv \<Rightarrow> string \<Rightarrow> string \<Rightarrow> velo_message \<Rightarrow> 's \<Rightarrow> 's" where
  "queue_task env org client_id task s =
     (case fe_clients env org of
        Inl e \<Rightarrow> s
      | Inr c \<Rightarrow> snd (cl_Queue c client_id task True s))"

fun write_records ::
  "'s fenv \<Rightarrow> string \<Rightarrow> 's launcher_api \<Rightarrow> collector_args \<Rightarrow> string list \<Rightarrow> 's \<Rightarrow> go_error option \<times> 's" where
  "write_records env org la request [] s = (None, s)"
| "write_records env org la request (c # clients) s =
     orElse (la_Write la (request\<lparr>ca_ClientId := c\<rparr>) (ca_CompiledCollectorArgs request)
               (queue_task env org c) s)
       (write_records env org la request clients)"

definition scheduleRequestOnClients ::
  "'s fenv \<Rightarrow> string \<Rightarrow> collector_args \<Rightarrow> string list \<Rightarrow> 's \<Rightarrow> go_error option \<times> 's" where
  "scheduleRequestOnClients env org request clients s =
     (case fe_launcher env org of
        Inl e \<Rightarrow> (Some e, s)
      | Inr la \<Rightarrow> (case la_Multi la of
                     Some multi \<Rightarrow> multi request clients s
                   | None \<Rightarrow> write_records env org la request clients s))"

fun queue_each ::
  "'s client_api \<Rightarrow> velo_message \<Rightarrow> string list \<Rightarrow> 's \<Rightarrow> go_error option \<times> 's" where
  "queue_each cl message [] s = (None, s)"
| "queue_each cl message (c # clients) s =
     orElse (cl_Queue cl c message False s) (queue_each cl message clients)"

definition sendMessageToClients ::
  "'s fenv \<Rightarrow> string \<Rightarrow> velo_message \<Rightarrow> string list \<Rightarrow> 's \<Rightarrow> go_error option \<times> 's" where
  "sendMessageToClients env org message clients s =
     (case fe_clients env org of
        Inl e \<Rightarrow> (Some e, s)
      | Inr cl \<Rightarrow> (case cl_Multi cl of
                     Some multi \<Rightarrow> multi clients message False s
                   | None \<Rightarrow> queue_each cl message clients s))"

fun write_versions :: "'s fenv \<Rightarrow> string \<Rightarrow> string list \<Rightarrow> 's fworld \<Rightarrow> go_error option \<times> 's fworld" where
  "write_versions env org [] w = (None, w)"
| "write_versions env org (c # clients) w =
     (case fnow env w of (now, w1) \<Rightarrow>
        orElse (async_write env org (c @ ''_last_event_version'')
                  (empty_client\<lparr>cr_ClientId := c, cr_LastEventTableVersion := u64 now,
                                cr_DocType := ''clients''\<rparr>) w1)
          (write_versions env org clients))"

fun execute_monitoring ::
  "'s fenv \<Rightarrow> string \<Rightarrow> plan \<Rightarrow> string list \<Rightarrow> 's fworld \<Rightarrow> go_error option \<times> 's fworld" where
  "execute_monitoring env org p [] w = (None, w)"
| "execute_monitoring env org p (key # keys) w =
     (case map_of (MonitoringTables p) key of
        None \<Rightarrow> execute_monitoring env org p keys w
      | Some message \<Rightarrow>
          (let clients = lists_get (MonitoringTablesToClients p) key
           in case write_versions env org clients w of
                (Some e, w1) \<Rightarrow> (Some e, w1)
              | (None, w1) \<Rightarrow>
                  (case on_store (sendMessageToClients env org message clients) w1 of
                     (Some e, w2) \<Rightarrow> (Some e, w2)
                   | (None, w2) \<Rightarrow> execute_monitoring env org p keys w2)))"

definition ExecuteClientMonitoringUpdate ::
  "'s fenv \<Rightarrow> string \<Rightarrow> plan \<Rightarrow> 's fworld \<Rightarrow> go_error option \<times> 's fworld" where
  "ExecuteClientMonitoringUpdate env org p w =
     execute_monitoring env org p (fe_order env (map fst (MonitoringTablesToClients p))) w"

text \<open>The inverse of the plan: from hunts to clients.\<close>

definition invert_step :: "string \<Rightarrow> plan \<Rightarrow> hunt \<Rightarrow> plan" where
  "invert_step client_id p h =
     (let clients = lists_get (HuntsToClients p) (h_HuntId h);
          p1 = (if InString clients client_id then p
                else p\<lparr>HuntsToClients := AList.update (h_HuntId h) (client_id # clients) (HuntsToClients p)\<rparr>)
      in p1\<lparr>HuntsByHuntId := AList.update (h_HuntId h) h (HuntsByHuntId p1)\<rparr>)"

definition invert_plan :: "string list \<Rightarrow> plan \<Rightarrow> plan" where
  "invert_plan client_ids p =
     foldl (\<lambda>q c. foldl (invert_step c) q (lists_get (ClientIdToHunts p) c))
       (p\<lparr>HuntsToClients := []\<rparr>) client_ids"

fun write_assigned :: "'s fenv \<Rightarrow> string \<Rightarrow> string \<Rightarrow> string list \<Rightarrow> 's fworld \<Rightarrow> go_error option \<times> 's fworld"
where
  "write_assigned env org hunt_id [] w = (None, w)"
| "write_assigned env org hunt_id (c # clients) w =
     orElse (async_write env org []
               (empty_client\<lparr>cr_ClientId := c, cr_AssignedHunts := [hunt_id], cr_DocType := ''clients''\<rparr>) w)
       (write_assigned env org hunt_id clients)"

fun execute_hunts ::
  "'s fenv \<Rightarrow> string \<Rightarrow> plan \<Rightarrow> string list \<Rightarrow> 's fworld \<Rightarrow> go_error option \<times> 's fworld" where
  "execute_hunts env org p [] w = (None, w)"
| "execute_hunts env org p (hunt_id # ids) w =
     (let clients = lists_get (HuntsToClients p) hunt_id
      in if clients = [] then execute_hunts env org p ids w
         else case map_of (HuntsByHuntId p) hunt_id of
           None \<Rightarrow> execute_hunts env org p ids w
         | Some h \<Rightarrow>
             (case h_StartRequest h of
                None \<Rightarrow> execute_hunts env org p ids w
              | Some request \<Rightarrow>
                  (case on_store (scheduleRequestOnClients env org request clients) w of
                     (Some e, w1) \<Rightarrow> (Some e, w1)
                   | (None, w1) \<Rightarrow>
                       (case write_assigned env org (h_HuntId h) clients w1 of
                          (Some e, w2) \<Rightarrow> (Some e, w2)
                        | (None, w2) \<Rightarrow> execute_hunts env org p ids w2))))"

definition ExecuteHuntUpdate ::
  "'s fenv \<Rightarrow> string \<Rightarrow> plan \<Rightarrow> 's fworld \<Rightarrow> go_error option \<times> plan \<times> 's fworld" where
  "ExecuteHuntUpdate env org p w =
     (let p1 = invert_plan (fe_order env (map fst (ClientIdToHunts p))) p
      in case execute_hunts env org p1 (fe_order env (map fst (HuntsToClients p1))) w of
           (e, w1) \<Rightarrow> (e, p1, w1))"

section \<open>Calculating the update (foreman.go)\<close>

text \<open>Three hours, in nanoseconds.\<close>

definition MAXIMUM_PING_BACKLOG :: int where
  "MAXIMUM_PING_BACKLOG = 3 * 3600 * 1000000000"

text \<open>
  The goroutine of \<open>scheduleClientsWithBacklog\<close>: all clients of the last three hours are looked
  at for the hunts that were just started. An error of a membership lookup ends the job
  without executing what it has planned; an error of a client lookup skips the hunt.
\<close>

fun backlog_hunts :: "'s fenv \<Rightarrow> string \<Rightarrow> string \<Rightarrow> string list \<Rightarrow> hunt list \<Rightarrow> plan \<Rightarrow> 's \<Rightarrow> plan" where
  "backlog_hunts env org c seen [] p s = p"
| "backlog_hunts env org c seen (h # hunts) p s =
     (if InString seen (h_HuntId h) then backlog_hunts env org c seen hunts p s
      else (case getMinimalClientInfo env org c s of
              Inl e \<Rightarrow> backlog_hunts env org c seen hunts p s
            | Inr info \<Rightarrow> backlog_hunts env org c seen hunts (planHuntForClient info h p) s))"

fun backlog_clients ::
  "'s fenv \<Rightarrow> string \<Rightarrow> hunt list \<Rightarrow> string list \<Rightarrow> plan \<Rightarrow> 's \<Rightarrow> plan result" where
  "backlog_clients env org hunts [] p s = Inr p"
| "backlog_clients env org hunts (c # cs) p s =
     (case getClientHuntMembership env org c (map h_HuntId hunts) s of
        Inl e \<Rightarrow> Inl e
      | Inr seen \<Rightarrow> backlog_clients env org hunts cs (backlog_hunts env org c seen hunts p s) s)"

definition backlog_job :: "'s fenv \<Rightarrow> string \<times> hunt list \<times> plan \<Rightarrow> 's fworld \<Rightarrow> 's fworld" where
  "backlog_job env job w =
     (case job of (org, hunts, p) \<Rightarrow>
        (case fnow env w of (now, w1) \<Rightarrow>
           (let early = max 0 (now - MAXIMUM_PING_BACKLOG)
            in case backlog_clients env org hunts (getClientsSeenAfter env org early (fw_store w1)) p
                      (fw_store w1) of
                 Inl e \<Rightarrow> w1
               | Inr p1 \<Rightarrow> snd (snd (ExecuteHuntUpdate env org p1 w1)))))"

definition scheduleClientsWithBacklog :: "'s fenv \<Rightarrow> string \<Rightarrow> hunt list \<Rightarrow> 's fworld \<Rightarrow> 's fworld" where
  "scheduleClientsWithBacklog env org hunts w =
     (if hunts = [] then w
      else case NewPlan env org of
             Inl e \<Rightarrow> w
           | Inr p \<Rightarrow> (if fe_job_first env then backlog_job env (org, hunts, p) w
                       else w\<lparr>fw_jobs := fw_jobs w @ [(org, hunts, p)]\<rparr>))"

text \<open>Start times of hunts are microseconds; both conversions are on 64 bits.\<close>

definition hunt_start :: "hunt \<Rightarrow> int" where
  "hunt_start h = i64 (i64 (h_StartTime h) * 1000)"

definition just_started :: "int \<Rightarrow> int \<Rightarrow> hunt \<Rightarrow> bool" where
  "just_started early now h \<longleftrightarrow> hunt_start h \<ge> early \<and> hunt_start h < now"

definition plan_running :: "ClientRecord \<Rightarrow> string list \<Rightarrow> hunt list \<Rightarrow> plan \<Rightarrow> plan" where
  "plan_running info seen running p =
     foldl (\<lambda>q h. if InString seen (h_HuntId h) then q else planHuntForClient info h q) p running"

fun update_clients ::
  "'s fenv \<Rightarrow> foreman \<Rightarrow> string \<Rightarrow> hunt list \<Rightarrow> string list \<Rightarrow> plan \<Rightarrow> 's fworld \<Rightarrow> plan result \<times> 's fworld"
where
  "update_clients env fm org running [] p w = (Inr p, w)"
| "update_clients env fm org running (c # cs) p w =
     (case getMinimalClientInfo env org c (fw_store w) of
        Inl e \<Rightarrow> (Inl e, w)
      | Inr info \<Rightarrow>
          (case (if running = [] then Inr p
                 else bindR (getClientHuntMembership env org c (map h_HuntId running) (fw_store w))
                        (\<lambda>seen. Inr (plan_running info seen running p))) of
             Inl e \<Rightarrow> (Inl e, w)
           | Inr p1 \<Rightarrow>
               andThen (planMonitoringForClient env fm info p1 w)
                 (update_clients env fm org running cs)))"

definition CalculateUpdate ::
  "'s fenv \<Rightarrow> foreman \<Rightarrow> string \<Rightarrow> hunt list \<Rightarrow> plan \<Rightarrow> 's fworld \<Rightarrow> plan result \<times> 's fworld" where
  "CalculateUpdate env fm org hunts p w =
     (case fnow env w of (now, w1) \<Rightarrow>
        (let early = max 0 (last_run_time fm);
             started = filter (just_started early now) hunts;
             running = filter (\<lambda>h. \<not> just_started early now h) hunts;
             w2 = (if started \<noteq> [] then scheduleClientsWithBacklog env org started w1 else w1)
         in update_clients env fm org running (getClientsSeenAfter env org early (fw_store w2)) p w2))"

section \<open>A run of the foreman\<close>

fun active_hunts :: "'s fenv \<Rightarrow> string \<Rightarrow> hunt list \<Rightarrow> 's fworld \<Rightarrow> hunt list result \<times> 's fworld" where
  "active_hunts env org [] w = (Inr [], w)"
| "active_hunts env org (h # hunts) w =
     (case fnow env w of (now, w1) \<Rightarrow>
        if h_Expires h < u64 (go_div now 1000) then
          (case stopHunt env org h w1 of
             (Some e, w2) \<Rightarrow> (Inl e, w2)
           | (None, w2) \<Rightarrow> active_hunts env org hunts w2)
        else andThen (active_hunts env org hunts w1) (\<lambda>hs w2. (Inr (h # hs), w2)))"

definition GetActiveHunts :: "'s fenv \<Rightarrow> string \<Rightarrow> 's fworld \<Rightarrow> hunt list result \<times> 's fworld" where
  "GetActiveHunts env org w =
     (case fe_running_hunts env org (fw_store w) of
        Inl e \<Rightarrow> (Inl e, w)
      | Inr hunts \<Rightarrow> active_hunts env org hunts w)"

definition UpdatePlan :: "'s fenv \<Rightarrow> foreman \<Rightarrow> string \<Rightarrow> plan \<Rightarrow> 's fworld \<Rightarrow> go_error option \<times> 's fworld" where
  "UpdatePlan env fm org p w =
     (case GetActiveHunts env org w of
        (Inl e, w1) \<Rightarrow> (Some e, w1)
      | (Inr hunts, w1) \<Rightarrow>
          (case CalculateUpdate env fm org hunts p w1 of
             (Inl e, w2) \<Rightarrow> (Some e, w2)
           | (Inr p1, w2) \<Rightarrow>
               (case ExecuteHuntUpdate env org p1 w2 of
                  (Some e, p2, w3) \<Rightarrow> (Some e, w3)
                | (None, p2, w3) \<Rightarrow> ExecuteClientMonitoringUpdate env org p2 w3)))"

definition runForOrg :: "'s fenv \<Rightarrow> foreman \<Rightarrow> string \<Rightarrow> 's fworld \<Rightarrow> go_error option \<times> 's fworld" where
  "runForOrg env fm org_id w =
     (case bindR (fe_GetOrgConfig env org_id) (\<lambda>org. bindR (NewPlan env org) (\<lambda>p. Inr (org, p))) of
        Inl e \<Rightarrow> (Some e, w)
      | Inr (org, p) \<Rightarrow> UpdatePlan env fm org p w)"

definition sliceContainsKey :: "string list \<Rightarrow> string \<Rightarrow> bool" where
  "sliceContainsKey l x \<longleftrightarrow> x \<in> set l"

text \<open>The first error of an organisation ends the loop.\<close>

fun run_orgs ::
  "'s fenv \<Rightarrow> foreman \<Rightarrow> string list \<Rightarrow> string list \<Rightarrow> 's fworld \<Rightarrow> go_error option \<times> 's fworld" where
  "run_orgs env fm excluded [] w = (None, w)"
| "run_orgs env fm excluded (org # orgs) w =
     (if sliceContainsKey excluded org then run_orgs env fm excluded orgs w
      else orElse (runForOrg env fm org w) (run_orgs env fm excluded orgs))"

text \<open>\<open>FlushBulkIndexer\<close> on the world, and the deferred wait for the goroutines.\<close>

definition flush_bulk :: "'s fenv \<Rightarrow> 's fworld \<Rightarrow> go_error option \<times> 's fworld" where
  "flush_bulk env w =
     (case FlushBulkIndexer (fe_es env) (fw_bulk w) (fw_store w) of
        (e, b, s) \<Rightarrow> (e, w\<lparr>fw_bulk := b, fw_store := s\<rparr>))"

definition wait_jobs :: "'s fenv \<Rightarrow> 's fworld \<Rightarrow> 's fworld" where
  "wait_jobs env w = foldl (\<lambda>v job. backlog_job env job v) (w\<lparr>fw_jobs := []\<rparr>) (fw_jobs w)"

text \<open>
  A dedicated foreman that does not find its organisation dereferences the nil record in its
  log message. Its other errors are logged only.
\<close>

definition RunOnce ::
  "'s fenv \<Rightarrow> foreman_config \<Rightarrow> foreman \<Rightarrow> 's fworld \<Rightarrow> go_error option \<times> 's fworld" where
  "RunOnce env cfg fm w =
     (case fe_OrgManager env of
        Some e \<Rightarrow> (Some e, w)
      | None \<Rightarrow>
          (case (if DedicatedForeman cfg then
                   (case fe_GetOrg env (DedicatedForemanOrg cfg) of
                      Inl e \<Rightarrow> (Some NilDereference, w)
                    | Inr org \<Rightarrow>
                        (case runForOrg env fm org w of
                           (e, w1) \<Rightarrow> (if e = Some NilDereference then e else None, w1)))
                 else run_orgs env fm (ForemanExcludedOrgs cfg) (fe_ListOrgs env) w) of
             (Some e, w1) \<Rightarrow> (Some e, wait_jobs env w1)
           | (None, w1) \<Rightarrow> (case flush_bulk env w1 of (e, w2) \<Rightarrow> (e, wait_jobs env w2))))"

definition NewForeman :: "'s fenv \<Rightarrow> 's fworld \<Rightarrow> foreman \<times> 's fworld" where
  "NewForeman env w = (case fnow env w of (now, w1) \<Rightarrow>
     (\<lparr>last_run_time = now, next_run_time = 0\<rparr>, w1))"

text \<open>The first run of \<open>Start\<close>, and one turn of its loop.\<close>

definition Start_first ::
  "'s fenv \<Rightarrow> foreman_config \<Rightarrow> foreman \<Rightarrow> 's fworld \<Rightarrow> go_error option \<times> foreman \<times> 's fworld" where
  "Start_first env cfg fm w =
     (case fnow env w of (now, w1) \<Rightarrow>
        (let fm1 = \<lparr>last_run_time = now, next_run_time = now\<rparr>
         in case RunOnce env cfg fm1 w1 of (e, w2) \<Rightarrow> (e, fm1, w2)))"

definition Start_turn :: "'s fenv \<Rightarrow> foreman_config \<Rightarrow> foreman \<Rightarrow> 's fworld \<Rightarrow> foreman \<times> 's fworld" where
  "Start_turn env cfg fm w =
     (case fnow env w of (now, w1) \<Rightarrow>
        (let fm1 = fm\<lparr>next_run_time := now\<rparr>
         in case RunOnce env cfg fm1 w1 of (e, w2) \<Rightarrow> (fm1\<lparr>last_run_time := next_run_time fm1\<rparr>, w2)))"

section \<open>Which clients a hunt applies to\<close>

text \<open>
  The specification of a hunt's condition: every part that is present must hold, labels are
  compared in lower case, and an operating system the foreman has no name for is no
  restriction.
\<close>

definition has_label :: "ClientRecord \<Rightarrow> string list \<Rightarrow> bool" where
  "has_label info ls \<longleftrightarrow> (\<exists>l \<in> set ls. ToLower l \<in> set (cr_LowerLabels info))"

definition hunt_applies :: "ClientRecord \<Rightarrow> hunt \<Rightarrow> bool" where
  "hunt_applies info h \<longleftrightarrow> h_HuntId h \<notin> set (cr_AssignedHunts info) \<and>
     (\<forall>cond. h_Condition h = Some cond \<longrightarrow>
        (\<forall>ls. hc_Labels cond = Some ls \<longrightarrow> ls = [] \<or> has_label info ls) \<and>
        (\<forall>ls. hc_ExcludedLabels cond = Some ls \<longrightarrow> \<not> has_label info ls) \<and>
        (\<forall>os. hc_Os cond = Some os \<longrightarrow>
           os \<in> {OS_WINDOWS, OS_LINUX, OS_OSX} \<longrightarrow> cr_System info = os_name os))"

lemma hunt_applies_code [code]:
  "hunt_applies info h \<longleftrightarrow> \<not> InString (cr_AssignedHunts info) (h_HuntId h) \<and>
     (case h_Condition h of None \<Rightarrow> True
      | Some cond \<Rightarrow>
          (case hc_Labels cond of None \<Rightarrow> True | Some ls \<Rightarrow> ls = [] \<or> has_label info ls) \<and>
          (case hc_ExcludedLabels cond of None \<Rightarrow> True | Some ls \<Rightarrow> \<not> has_label info ls) \<and>
          (case hc_Os cond of None \<Rightarrow> True
           | Some os \<Rightarrow> os \<in> {OS_WINDOWS, OS_LINUX, OS_OSX} \<longrightarrow> cr_System info = os_name os))"
  by (simp add: hunt_applies_def split: option.split)

lemma clientHasLabels_iff: "clientHasLabels info ls = has_label info ls"
  by (simp add: clientHasLabels_def has_label_def list_ex_iff)

lemma os_skip: "(os \<noteq> OS_ALL \<and> os_name os \<noteq> [] \<and> sys \<noteq> os_name os) \<longleftrightarrow>
    (os \<in> {OS_WINDOWS, OS_LINUX, OS_OSX} \<and> sys \<noteq> os_name os)"
  by (cases os) (simp_all add: os_name_def)

lemma planHunt_applies:
  "planHuntForClient info h p = (if hunt_applies info h then assignClientToHunt info h p else p)"
proof (cases "h_Condition h")
  case (Some cond)
  have l: "(case hc_Labels cond of None \<Rightarrow> False | Some ls \<Rightarrow> ls \<noteq> [] \<and> \<not> clientHasLabels info ls) \<longleftrightarrow>
      \<not> (\<forall>ls. hc_Labels cond = Some ls \<longrightarrow> ls = [] \<or> has_label info ls)"
    by (cases "hc_Labels cond") (auto simp: clientHasLabels_iff)
  have x: "(case hc_ExcludedLabels cond of None \<Rightarrow> False | Some ls \<Rightarrow> ls \<noteq> [] \<and> clientHasLabels info ls) \<longleftrightarrow>
      \<not> (\<forall>ls. hc_ExcludedLabels cond = Some ls \<longrightarrow> \<not> has_label info ls)"
    by (cases "hc_ExcludedLabels cond") (auto simp: clientHasLabels_iff has_label_def)
  have os: "(case hc_Os cond of None \<Rightarrow> False
      | Some os \<Rightarrow> os \<noteq> OS_ALL \<and> os_name os \<noteq> [] \<and> cr_System info \<noteq> os_name os) \<longleftrightarrow>
      \<not> (\<forall>os. hc_Os cond = Some os \<longrightarrow>
           os \<in> {OS_WINDOWS, OS_LINUX, OS_OSX} \<longrightarrow> cr_System info = os_name os)"
    by (cases "hc_Os cond") (simp_all only: os_skip, auto)
  have a: "hunt_applies info h \<longleftrightarrow> h_HuntId h \<notin> set (cr_AssignedHunts info) \<and>
      (\<forall>ls. hc_Labels cond = Some ls \<longrightarrow> ls = [] \<or> has_label info ls) \<and>
      (\<forall>ls. hc_ExcludedLabels cond = Some ls \<longrightarrow> \<not> has_label info ls) \<and>
      (\<forall>os. hc_Os cond = Some os \<longrightarrow>
         os \<in> {OS_WINDOWS, OS_LINUX, OS_OSX} \<longrightarrow> cr_System info = os_name os)"
    by (simp add: hunt_applies_def Some)
  show ?thesis
    unfolding planHuntForClient_def Some option.case l x os a by (simp split: if_split)
qed (simp add: planHuntForClient_def hunt_applies_def)

text \<open>The hunts a client gets, in order and each once.\<close>

definition add_hunt :: "hunt list \<Rightarrow> hunt \<Rightarrow> hunt list" where
  "add_hunt hs h = (if huntsContain hs (h_HuntId h) then hs else hs @ [h])"

lemma huntsContain_iff: "huntsContain hs i \<longleftrightarrow> i \<in> h_HuntId ` set hs"
  by (auto simp: huntsContain_def list_ex_iff)

lemma assign_get:
  "lists_get (ClientIdToHunts (assignClientToHunt info h p)) c =
     (if c = cr_ClientId info then add_hunt (lists_get (ClientIdToHunts p) c) h
      else lists_get (ClientIdToHunts p) c)"
  by (simp add: assignClientToHunt_def add_hunt_def Let_def)

lemma plan_running_get:
  "lists_get (ClientIdToHunts (plan_running info seen running p)) c =
     (if c = cr_ClientId info
      then foldl add_hunt (lists_get (ClientIdToHunts p) c)
             (filter (\<lambda>h. h_HuntId h \<notin> set seen \<and> hunt_applies info h) running)
      else lists_get (ClientIdToHunts p) c)"
  by (induction running arbitrary: p)
    (auto simp: plan_running_def planHunt_applies assign_get)

lemma add_hunts_ids: "h_HuntId ` set (foldl add_hunt hs l) = h_HuntId ` set hs \<union> h_HuntId ` set l"
  by (induction l arbitrary: hs) (auto simp: add_hunt_def huntsContain_iff)

lemma add_hunts_contained: "h_HuntId ` set l \<subseteq> h_HuntId ` set hs \<Longrightarrow> foldl add_hunt hs l = hs"
  by (induction l) (auto simp: add_hunt_def huntsContain_iff)

lemma add_hunts_fresh:
  "distinct (map h_HuntId l) \<Longrightarrow> h_HuntId ` set l \<inter> h_HuntId ` set hs = {} \<Longrightarrow> foldl add_hunt hs l = hs @ l"
  by (induction l arbitrary: hs) (auto simp: add_hunt_def huntsContain_iff)

lemma merge_minimal_id: "cr_ClientId (merge_minimal r hit) = cr_ClientId r"
proof -
  have "cr_ClientId (foldl add_client_label r ls) = cr_ClientId r" for r ls
    by (induction ls arbitrary: r) (auto simp: add_client_label_def)
  then show ?thesis by (auto simp: merge_minimal_def Let_def split: sum.split)
qed

lemma foldl_merge_minimal_id: "cr_ClientId (foldl merge_minimal r hits) = cr_ClientId r"
  by (induction hits arbitrary: r) (auto simp: merge_minimal_id)

lemma minimal_info_id: "getMinimalClientInfo env org c s = Inr info \<Longrightarrow> cr_ClientId info = c"
  by (auto simp: getMinimalClientInfo_def bindR_Inr_iff foldl_merge_minimal_id empty_client_def)

lemma planMonitoring_keeps:
  assumes "planMonitoringForClient env fm info p w = (Inr p', w')"
  shows "ClientIdToHunts p' = ClientIdToHunts p \<and> fw_store w' = fw_store w \<and>
    current_monitoring_state p' = current_monitoring_state p"
  using assms
  by (auto simp: planMonitoringForClient_def GetClientUpdateEventTableMessage_def Let_def fnow_def
      split: if_splits option.splits sum.splits prod.splits)

text \<open>What a client of the sweep gets from the running hunts.\<close>

definition members :: "'s fenv \<Rightarrow> string \<Rightarrow> string \<Rightarrow> hunt list \<Rightarrow> 's \<Rightarrow> string list" where
  "members env org c running s =
     (case getClientHuntMembership env org c (map h_HuntId running) s of Inl e \<Rightarrow> [] | Inr l \<Rightarrow> l)"

definition hunts_for :: "'s fenv \<Rightarrow> string \<Rightarrow> hunt list \<Rightarrow> string \<Rightarrow> 's \<Rightarrow> hunt list" where
  "hunts_for env org running c s =
     (case getMinimalClientInfo env org c s of
        Inl e \<Rightarrow> []
      | Inr info \<Rightarrow>
          filter (\<lambda>h. h_HuntId h \<notin> set (members env org c running s) \<and> hunt_applies info h) running)"

lemma update_clients_plan:
  assumes "update_clients env fm org running cs p w = (Inr p', w')"
    and "distinct (map h_HuntId running)"
    and "\<forall>c. lists_get (ClientIdToHunts p) c = (if c \<in> done then hunts_for env org running c (fw_store w) else [])"
  shows "fw_store w' = fw_store w \<and>
    (\<forall>c. lists_get (ClientIdToHunts p') c =
      (if c \<in> done \<union> set cs then hunts_for env org running c (fw_store w) else []))"
  using assms(1,3)
proof (induction cs arbitrary: p w "done")
  case (Cons c cs)
  obtain info where info: "getMinimalClientInfo env org c (fw_store w) = Inr info"
    using Cons.prems(1) by (auto split: sum.splits)
  obtain p1 where p1: "(if running = [] then Inr p
      else bindR (getClientHuntMembership env org c (map h_HuntId running) (fw_store w))
        (\<lambda>seen. Inr (plan_running info seen running p))) = Inr p1"
    "andThen (planMonitoringForClient env fm info p1 w) (update_clients env fm org running cs) = (Inr p', w')"
    using Cons.prems(1) info by (auto split: sum.splits)
  obtain p2 w2 where p2: "planMonitoringForClient env fm info p1 w = (Inr p2, w2)"
    "update_clients env fm org running cs p2 w2 = (Inr p', w')"
    using p1(2) by (auto simp: andThen_Inr_iff)
  have keeps: "ClientIdToHunts p2 = ClientIdToHunts p1" "fw_store w2 = fw_store w"
    using planMonitoring_keeps [OF p2(1)] by simp_all
  have id: "cr_ClientId info = c" by (rule minimal_info_id [OF info])
  have p1': "p1 = plan_running info (members env org c running (fw_store w)) running p"
    using p1(1) by (auto simp: members_def plan_running_def bindR_Inr_iff split: if_splits)
  let ?L = "hunts_for env org running c (fw_store w)"
  have "distinct (map h_HuntId ?L)"
    using assms(2) by (simp add: hunts_for_def info distinct_map_filter)
  then have "foldl add_hunt (lists_get (ClientIdToHunts p) c) ?L = ?L"
    using Cons.prems(2) by (cases "c \<in> done") (simp_all add: add_hunts_contained add_hunts_fresh)
  moreover have "lists_get (ClientIdToHunts p2) d = (if d = c
      then foldl add_hunt (lists_get (ClientIdToHunts p) d) ?L else lists_get (ClientIdToHunts p) d)" for d
    by (simp add: keeps p1' plan_running_get id hunts_for_def info)
  ultimately have "\<forall>d. lists_get (ClientIdToHunts p2) d =
      (if d \<in> insert c done then hunts_for env org running d (fw_store w2) else [])"
    using Cons.prems(2) keeps(2) by (auto split: if_splits)
  from Cons.IH [OF p2(2) this] show ?case using keeps by auto
qed auto

section \<open>The inverse of a plan\<close>

abbreviation invert_hunts :: "hunt list \<Rightarrow> string \<Rightarrow> plan \<Rightarrow> plan" where
  "invert_hunts hs c q \<equiv> foldl (invert_step c) q hs"

lemma inner_invert:
  shows "ClientIdToHunts (invert_hunts hs c q) = ClientIdToHunts q"
    and "set (lists_get (HuntsToClients (invert_hunts hs c q)) i) =
           set (lists_get (HuntsToClients q) i) \<union> (if i \<in> h_HuntId ` set hs then {c} else {})"
    and "distinct (lists_get (HuntsToClients q) i) \<Longrightarrow> distinct (lists_get (HuntsToClients (invert_hunts hs c q)) i)"
    and "distinct (map fst (HuntsToClients q)) \<Longrightarrow> distinct (map fst (HuntsToClients (invert_hunts hs c q)))"
    and "map_of (HuntsByHuntId (invert_hunts hs c q)) i = Some x \<Longrightarrow>
           (x \<in> set hs \<and> h_HuntId x = i) \<or> map_of (HuntsByHuntId q) i = Some x"
    and "i \<in> h_HuntId ` set hs \<or> map_of (HuntsByHuntId q) i \<noteq> None \<Longrightarrow>
           map_of (HuntsByHuntId (invert_hunts hs c q)) i \<noteq> None"
proof -
  have step: "ClientIdToHunts (invert_step c q h) = ClientIdToHunts q"
    "set (lists_get (HuntsToClients (invert_step c q h)) i) =
       set (lists_get (HuntsToClients q) i) \<union> (if i = h_HuntId h then {c} else {})"
    "distinct (lists_get (HuntsToClients q) i) \<Longrightarrow> distinct (lists_get (HuntsToClients (invert_step c q h)) i)"
    "distinct (map fst (HuntsToClients q)) \<Longrightarrow> distinct (map fst (HuntsToClients (invert_step c q h)))"
    "map_of (HuntsByHuntId (invert_step c q h)) i =
       (if i = h_HuntId h then Some h else map_of (HuntsByHuntId q) i)" for q h
    by (auto simp: invert_step_def Let_def update_conv' intro: distinct_update)
  show "ClientIdToHunts (invert_hunts hs c q) = ClientIdToHunts q"
    by (induction hs arbitrary: q) (simp_all add: step)
  show "set (lists_get (HuntsToClients (invert_hunts hs c q)) i) =
      set (lists_get (HuntsToClients q) i) \<union> (if i \<in> h_HuntId ` set hs then {c} else {})"
    by (induction hs arbitrary: q) (auto simp: step)
  show "distinct (lists_get (HuntsToClients q) i) \<Longrightarrow> distinct (lists_get (HuntsToClients (invert_hunts hs c q)) i)"
    by (induction hs arbitrary: q) (auto simp: step)
  show "distinct (map fst (HuntsToClients q)) \<Longrightarrow> distinct (map fst (HuntsToClients (invert_hunts hs c q)))"
    by (induction hs arbitrary: q) (auto simp: step)
  show "map_of (HuntsByHuntId (invert_hunts hs c q)) i = Some x \<Longrightarrow>
      (x \<in> set hs \<and> h_HuntId x = i) \<or> map_of (HuntsByHuntId q) i = Some x"
  proof (induction hs arbitrary: q)
    case (Cons a hs)
    then have "(x \<in> set hs \<and> h_HuntId x = i) \<or> map_of (HuntsByHuntId (invert_step c q a)) i = Some x"
      by simp
    then show ?case by (auto simp: step split: if_splits)
  qed simp
  show "i \<in> h_HuntId ` set hs \<or> map_of (HuntsByHuntId q) i \<noteq> None \<Longrightarrow>
      map_of (HuntsByHuntId (invert_hunts hs c q)) i \<noteq> None"
  proof (induction hs arbitrary: q)
    case (Cons a hs)
    then have "i \<in> h_HuntId ` set hs \<or> map_of (HuntsByHuntId (invert_step c q a)) i \<noteq> None"
      by (auto simp: step)
    from Cons.IH [OF this] show ?case by simp
  qed simp
qed

text \<open>All clients of an order, from a state that has already done some.\<close>

definition inverted :: "plan \<Rightarrow> string set \<Rightarrow> plan \<Rightarrow> bool" where
  "inverted p C q \<longleftrightarrow> ClientIdToHunts q = ClientIdToHunts p \<and> distinct (map fst (HuntsToClients q)) \<and>
     (\<forall>i. distinct (lists_get (HuntsToClients q) i) \<and>
        set (lists_get (HuntsToClients q) i) =
          {c \<in> C. i \<in> h_HuntId ` set (lists_get (ClientIdToHunts p) c)}) \<and>
     (\<forall>i x. map_of (HuntsByHuntId q) i = Some x \<longrightarrow>
        h_HuntId x = i \<and> (\<exists>c \<in> C. x \<in> set (lists_get (ClientIdToHunts p) c))) \<and>
     (\<forall>c \<in> C. \<forall>h \<in> set (lists_get (ClientIdToHunts p) c). map_of (HuntsByHuntId q) (h_HuntId h) \<noteq> None)"

lemma inverted_step:
  assumes "inverted p C q"
  shows "inverted p (insert c C) (foldl (invert_step c) q (lists_get (ClientIdToHunts q) c))"
proof -
  let ?hs = "lists_get (ClientIdToHunts p) c"
  let ?q = "foldl (invert_step c) q ?hs"
  have q: "ClientIdToHunts q = ClientIdToHunts p" using assms by (simp add: inverted_def)
  have "set (lists_get (HuntsToClients ?q) i) =
      {d \<in> insert c C. i \<in> h_HuntId ` set (lists_get (ClientIdToHunts p) d)}" for i
    using assms by (auto simp: inner_invert(2) inverted_def)
  moreover have "distinct (lists_get (HuntsToClients ?q) i)" for i
    using assms by (auto simp: inverted_def intro: inner_invert(3))
  moreover have "distinct (map fst (HuntsToClients ?q))"
    using assms by (auto simp: inverted_def intro: inner_invert(4))
  moreover have "h_HuntId x = i \<and> (\<exists>d \<in> insert c C. x \<in> set (lists_get (ClientIdToHunts p) d))"
    if "map_of (HuntsByHuntId ?q) i = Some x" for i x
    using inner_invert(5) [OF that] assms by (auto simp: inverted_def)
  moreover have "map_of (HuntsByHuntId ?q) (h_HuntId h) \<noteq> None"
    if "d \<in> insert c C" "h \<in> set (lists_get (ClientIdToHunts p) d)" for d h
    by (rule inner_invert(6)) (use that assms in \<open>auto simp: inverted_def\<close>)
  ultimately show ?thesis by (simp add: inverted_def q inner_invert(1))
qed

lemma inverted_fold:
  "inverted p C q \<Longrightarrow>
     inverted p (C \<union> set cs) (foldl (\<lambda>q c. foldl (invert_step c) q (lists_get (ClientIdToHunts q) c)) q cs)"
proof (induction cs arbitrary: C q)
  case (Cons c cs)
  then show ?case using Cons.IH [OF inverted_step [OF Cons.prems, of c]] by simp
qed simp

text \<open>The plan's list of hunts is not changed on the way, so it may be read from either state.\<close>

lemma invert_plan_inverted:
  assumes "HuntsByHuntId p = []"
  shows "inverted p (set cs) (invert_plan cs p)"
proof -
  let ?q = "p\<lparr>HuntsToClients := []\<rparr>"
  have "foldl (\<lambda>q c. foldl (invert_step c) q (lists_get (ClientIdToHunts p) c)) q cs =
      foldl (\<lambda>q c. foldl (invert_step c) q (lists_get (ClientIdToHunts q) c)) q cs"
    if "ClientIdToHunts q = ClientIdToHunts p" for q
    using that by (induction cs arbitrary: q) (simp_all add: inner_invert(1))
  moreover have "inverted p {} ?q" using assms by (simp add: inverted_def)
  ultimately show ?thesis using inverted_fold [of p "{}" ?q cs] by (simp add: invert_plan_def)
qed

text \<open>The schedule of a plan: a hunt, its request and its clients.\<close>

definition schedule_entry :: "plan \<Rightarrow> string \<Rightarrow> (hunt \<times> collector_args \<times> string list) list" where
  "schedule_entry p i =
     (case map_of (HuntsByHuntId p) i of
        None \<Rightarrow> []
      | Some h \<Rightarrow> (case h_StartRequest h of
          None \<Rightarrow> []
        | Some r \<Rightarrow> if lists_get (HuntsToClients p) i = [] then [] else [(h, r, lists_get (HuntsToClients p) i)]))"

definition schedule :: "plan \<Rightarrow> string list \<Rightarrow> (hunt \<times> collector_args \<times> string list) list" where
  "schedule p ids = concat (map (schedule_entry p) ids)"

fun run_schedule ::
  "'s fenv \<Rightarrow> string \<Rightarrow> (hunt \<times> collector_args \<times> string list) list \<Rightarrow> 's fworld
     \<Rightarrow> go_error option \<times> 's fworld" where
  "run_schedule env org [] w = (None, w)"
| "run_schedule env org ((h, r, cs) # sched) w =
     (case on_store (scheduleRequestOnClients env org r cs) w of
        (Some e, w1) \<Rightarrow> (Some e, w1)
      | (None, w1) \<Rightarrow>
          (case write_assigned env org (h_HuntId h) cs w1 of
             (Some e, w2) \<Rightarrow> (Some e, w2)
           | (None, w2) \<Rightarrow> run_schedule env org sched w2))"

lemma execute_hunts_schedule: "execute_hunts env org p ids w = run_schedule env org (schedule p ids) w"
proof (induction ids arbitrary: w)
  case (Cons i ids)
  have "schedule p (i # ids) = schedule_entry p i @ schedule p ids" by (simp add: schedule_def)
  then show ?case
    by (auto simp: Cons.IH schedule_entry_def Let_def split: option.split prod.split)
qed (simp add: schedule_def)

lemma schedule_members:
  assumes "inverted p C q" and "C = dom (map_of (ClientIdToHunts p))" and "set ids = dom (map_of (HuntsToClients q))"
    and "distinct ids"
    and "\<forall>c d. \<forall>x \<in> set (lists_get (ClientIdToHunts p) c). \<forall>y \<in> set (lists_get (ClientIdToHunts p) d).
           h_HuntId x = h_HuntId y \<longrightarrow> x = y"
  shows "distinct (map (h_HuntId \<circ> fst) (schedule q ids))"
    and "(h, r, cs) \<in> set (schedule q ids) \<Longrightarrow> h_StartRequest h = Some r \<and> distinct cs"
    and "(\<exists>r cs. (h, r, cs) \<in> set (schedule q ids) \<and> c \<in> set cs) \<longleftrightarrow>
           h \<in> set (lists_get (ClientIdToHunts p) c) \<and> h_StartRequest h \<noteq> None"
proof -
  have byid: "h_HuntId x = i \<and> (\<exists>c \<in> C. x \<in> set (lists_get (ClientIdToHunts p) c))"
    if "map_of (HuntsByHuntId q) i = Some x" for i x using assms(1) that by (auto simp: inverted_def)
  have entry: "(h, r, cs) \<in> set (schedule_entry q i) \<longleftrightarrow> map_of (HuntsByHuntId q) i = Some h \<and>
      h_StartRequest h = Some r \<and> cs = lists_get (HuntsToClients q) i \<and> cs \<noteq> []" for h r cs i
    by (cases "map_of (HuntsByHuntId q) i") (auto simp: schedule_entry_def split: option.split)
  have mem: "(h, r, cs) \<in> set (schedule q ids) \<longleftrightarrow> (\<exists>i \<in> set ids. map_of (HuntsByHuntId q) i = Some h \<and>
      h_StartRequest h = Some r \<and> cs = lists_get (HuntsToClients q) i \<and> cs \<noteq> [])" for h r cs
    by (simp add: schedule_def entry)
  have "map (h_HuntId \<circ> fst) (schedule_entry q i) = (if schedule_entry q i = [] then [] else [i])" for i
    by (auto simp: schedule_entry_def byid split: option.split)
  then have "map (h_HuntId \<circ> fst) (schedule q l) = filter (\<lambda>i. schedule_entry q i \<noteq> []) l" for l
    by (induction l) (simp_all add: schedule_def)
  then show "distinct (map (h_HuntId \<circ> fst) (schedule q ids))" using assms(4) by simp
  show "(h, r, cs) \<in> set (schedule q ids) \<Longrightarrow> h_StartRequest h = Some r \<and> distinct cs"
    using assms(1) by (auto simp: mem inverted_def)
  have cl: "set (lists_get (HuntsToClients q) i) =
      {c \<in> C. i \<in> h_HuntId ` set (lists_get (ClientIdToHunts p) c)}" for i
    using assms(1) by (simp add: inverted_def)
  show "(\<exists>r cs. (h, r, cs) \<in> set (schedule q ids) \<and> c \<in> set cs) \<longleftrightarrow>
      h \<in> set (lists_get (ClientIdToHunts p) c) \<and> h_StartRequest h \<noteq> None" (is "?l \<longleftrightarrow> ?r")
  proof
    assume ?l
    then obtain r i where i: "map_of (HuntsByHuntId q) i = Some h" "h_StartRequest h = Some r"
      "c \<in> set (lists_get (HuntsToClients q) i)" by (auto simp: mem)
    then have "i \<in> h_HuntId ` set (lists_get (ClientIdToHunts p) c)" using cl by blast
    then obtain y where y: "y \<in> set (lists_get (ClientIdToHunts p) c)" "h_HuntId y = i" by auto
    have "h = y" using byid [OF i(1)] y assms(5) by blast
    then show ?r using y i(2) by simp
  next
    assume r: ?r
    then obtain req where req: "h_StartRequest h = Some req" by auto
    have c: "c \<in> C" using r assms(2) by (auto simp: lists_get_def split: option.splits)
    then have "map_of (HuntsByHuntId q) (h_HuntId h) \<noteq> None" using assms(1) r by (auto simp: inverted_def)
    then obtain x where x: "map_of (HuntsByHuntId q) (h_HuntId h) = Some x" by blast
    have "x = h" using byid [OF x] r assms(5) by blast
    moreover have cc: "c \<in> set (lists_get (HuntsToClients q) (h_HuntId h))" using cl c r by auto
    moreover have "h_HuntId h \<in> set ids"
      using cc assms(3) by (auto simp: lists_get_def split: option.splits)
    ultimately have "(h, req, lists_get (HuntsToClients q) (h_HuntId h)) \<in> set (schedule q ids)"
      unfolding mem using x req by (intro bexI [of _ "h_HuntId h"]) (simp, force)
    then show ?l using cc by blast
  qed
qed

lemma Terms_iff: "matches (Terms f vs) d \<longleftrightarrow> (\<exists>x \<in> set vs. JStr x \<in> set (field_values f d))"
proof -
  have "(case v of JStr x \<Rightarrow> x \<in> set vs | _ \<Rightarrow> False) \<longleftrightarrow> (\<exists>x \<in> set vs. v = JStr x)" for v
    by (cases v) auto
  then show ?thesis by (auto simp: list_ex_iff)
qed

text \<open>The documents of a client: those whose client id is that one string.\<close>

definition client_keyed :: "string \<Rightarrow> index_docs \<Rightarrow> bool" where
  "client_keyed c ds \<longleftrightarrow> (\<forall>d \<in> set ds. matches (Match ''client_id'' (JStr c)) (snd d) \<longrightarrow>
     jget ''client_id'' (snd d) = Some (JStr c))"

lemma minimal_query_keyed:
  "client_keyed c ds \<Longrightarrow> \<forall>d \<in> set (match_docs (sq_query (minimal_info_query c)) ds).
     jget ''client_id'' (snd d) = Some (JStr c)"
  by (auto simp: match_docs_def minimal_info_query_def query_of_def client_keyed_def)

lemma membership_query_keyed:
  "client_keyed c ds \<Longrightarrow> \<forall>d \<in> set (match_docs (sq_query (membership_query c hunts)) ds).
     jget ''client_id'' (snd d) = Some (JStr c)"
  by (auto simp: match_docs_def membership_query_def query_of_def client_keyed_def)

lemma getClientHuntMembership_docs:
  assumes "search_contract (fe_es env) docs" and "GetElasticClient (fe_es env) org = Inr cl"
    and "client_keyed c (docs s cl (GetIndex org PERSISTED))" and "0 < fe_fuel env"
  shows "getClientHuntMembership env org c hunts s = Inr (seen_hunts (map snd (take 1000
    (match_docs (sq_query (membership_query c hunts)) (docs s cl (GetIndex org PERSISTED))))))"
  using QueryChan_same_key [OF assms(1,2) _ _ _ refl membership_query_keyed [OF assms(3), of hunts],
      where fuel = "fe_fuel env" and page_size = 1000]
    assms(4)
  by (simp add: getClientHuntMembership_def membership_query_def query_of_def)

section \<open>Properties\<close>

text \<open>
  What the foreman knows of a client is the merge of the first thousand of its documents:
  for a client with at most a thousand documents the information is complete, and a later
  document (a hunt assigned, a label, the system) is never taken into account, since the
  paging goes by the client id that all of them share.
\<close>

theorem minimal_info_first_page:
  assumes "search_contract (fe_es env) docs" and "GetElasticClient (fe_es env) org = Inr cl"
    and "client_keyed c (docs s cl (GetIndex org PERSISTED))" and "0 < fe_fuel env"
  shows "getMinimalClientInfo env org c s =
    Inr (foldl merge_minimal (empty_client\<lparr>cr_ClientId := c, cr_DocType := ''clients''\<rparr>)
      (map snd (take 1000 (match_docs (sq_query (minimal_info_query c)) (docs s cl (GetIndex org PERSISTED))))))"
  using QueryChan_same_key [OF assms(1,2) _ _ _ refl minimal_query_keyed [OF assms(3)],
      where fuel = "fe_fuel env" and page_size = 1000]
    assms(4)
  by (simp add: getMinimalClientInfo_def minimal_info_query_def query_of_def)

lemma CalculateUpdate_hunts:
  assumes "CalculateUpdate env fm org hunts p w = (Inr p', w')"
    and "ClientIdToHunts p = []" and "distinct (map h_HuntId hunts)"
    and "now = fe_now env (fw_ticks w)" and "early = max 0 (last_run_time fm)"
    and "running = filter (\<lambda>h. \<not> just_started early now h) hunts"
  shows "lists_get (ClientIdToHunts p') c =
    (if c \<in> set (getClientsSeenAfter env org early (fw_store w')) then hunts_for env org running c (fw_store w')
     else [])"
proof -
  obtain w2 where u: "update_clients env fm org running
      (getClientsSeenAfter env org early (fw_store w2)) p w2 = (Inr p', w')"
    using assms(1,4,5,6) by (auto simp: CalculateUpdate_def fnow_def Let_def split: if_splits)
  have "distinct (map h_HuntId running)"
    using assms(3,6) by (simp add: distinct_map_filter)
  then have st: "fw_store w' = fw_store w2" and pl: "\<forall>c. lists_get (ClientIdToHunts p') c =
      (if c \<in> set (getClientsSeenAfter env org early (fw_store w2)) then hunts_for env org running c (fw_store w2)
       else [])"
    using update_clients_plan [OF u, of "{}"] assms(2) by simp_all
  show ?thesis unfolding st using pl by simp
qed

text \<open>
  C12. The plan of a sweep is right: after a successful \<open>CalculateUpdate\<close> on a fresh plan, a
  client that was seen since the last run has exactly the hunts, in the order of the
  dispatcher, that did not start within this sweep, that it is not recorded as a member of and
  whose conditions its merged record meets; every other client has none.
\<close>

theorem calculate_update_plans:
  assumes "CalculateUpdate env fm org hunts p w = (Inr p', w')"
    and "ClientIdToHunts p = []" and "distinct (map h_HuntId hunts)"
    and "now = fe_now env (fw_ticks w)" and "early = max 0 (last_run_time fm)"
    and "running = filter (\<lambda>h. \<not> just_started early now h) hunts"
  shows "lists_get (ClientIdToHunts p') c =
    (if c \<in> set (getClientsSeenAfter env org early (fw_store w')) then
       (case getMinimalClientInfo env org c (fw_store w') of
          Inl e \<Rightarrow> []
        | Inr info \<Rightarrow> filter (\<lambda>h. h_HuntId h \<notin> set (members env org c running (fw_store w')) \<and>
                                hunt_applies info h) running)
     else [])"
  unfolding CalculateUpdate_hunts [OF assms] hunts_for_def ..


text \<open>
  C18. A plan is executed exactly: for any order in which Go walks the maps, \<open>ExecuteHuntUpdate\<close>
  schedules and records every planned pair of a hunt with a request and a client once, each
  hunt in one launch for all its clients, and nothing else; it stops at the first launch that
  fails.
\<close>

theorem execute_schedules_plan:
  assumes "\<forall>ks. mset (fe_order env ks) = mset ks" and "HuntsByHuntId p = []"
    and "\<forall>c d. \<forall>x \<in> set (lists_get (ClientIdToHunts p) c). \<forall>y \<in> set (lists_get (ClientIdToHunts p) d).
           h_HuntId x = h_HuntId y \<longrightarrow> x = y"
  shows "\<exists>sched p'. ExecuteHuntUpdate env org p w =
      (fst (run_schedule env org sched w), p', snd (run_schedule env org sched w)) \<and>
    ClientIdToHunts p' = ClientIdToHunts p \<and>
    distinct (map (h_HuntId \<circ> fst) sched) \<and>
    (\<forall>(h, r, cs) \<in> set sched. h_StartRequest h = Some r \<and> distinct cs) \<and>
    (\<forall>h c. (\<exists>r cs. (h, r, cs) \<in> set sched \<and> c \<in> set cs) \<longleftrightarrow>
       h \<in> set (lists_get (ClientIdToHunts p) c) \<and> h_StartRequest h \<noteq> None)"
proof -
  let ?cs = "fe_order env (map fst (ClientIdToHunts p))"
  define p' where "p' = invert_plan ?cs p"
  let ?ids = "fe_order env (map fst (HuntsToClients p'))"
  have set_order: "set (fe_order env ks) = set ks" for ks
    using assms(1) mset_eq_setD by blast
  have "inverted p (set ?cs) p'" unfolding p'_def by (rule invert_plan_inverted [OF assms(2)])
  then have inv: "inverted p (dom (map_of (ClientIdToHunts p))) p'"
    by (simp add: set_order dom_map_of_conv_image_fst)
  have ids: "set ?ids = dom (map_of (HuntsToClients p'))"
    by (simp add: set_order dom_map_of_conv_image_fst)
  have "distinct (map fst (HuntsToClients p'))" using inv by (simp add: inverted_def)
  then have dist: "distinct ?ids" using assms(1) by (metis mset_eq_imp_distinct_iff)
  note sm = schedule_members [OF inv refl ids dist assms(3)]
  have "ExecuteHuntUpdate env org p w =
      (fst (run_schedule env org (schedule p' ?ids) w), p', snd (run_schedule env org (schedule p' ?ids) w))"
    by (simp add: ExecuteHuntUpdate_def p'_def Let_def execute_hunts_schedule split_def)
  moreover have "\<forall>(h, r, cs) \<in> set (schedule p' ?ids). h_StartRequest h = Some r \<and> distinct cs"
    using sm(2) by blast
  moreover have "ClientIdToHunts p' = ClientIdToHunts p" using inv by (simp add: inverted_def)
  ultimately show ?thesis using sm(1,3) by blast
qed

text \<open>
  The events of a client depend on its labels only through its key: the key lists the labels of
  the tables that apply.
\<close>

lemma same_key_same_tables:
  assumes "labelsKey l1 state = labelsKey l2 state"
    and "\<forall>t \<in> set (cet_LabelEvents state). lt_Label t \<noteq> [] \<and> CHR ''|'' \<notin> set (lt_Label t)"
    and "t \<in> set (cet_LabelEvents state)"
  shows "InString l1 (lt_Label t) \<longleftrightarrow> InString l2 (lt_Label t)"
proof -
  let ?used = "\<lambda>l. map lt_Label (filter (\<lambda>t. InString l (lt_Label t)) (cet_LabelEvents state))"
  have eq: "?used l1 = ?used l2"
    by (rule Join_inject_nonempty [of "CHR ''|''"]) (use assms(1,2) in \<open>auto simp: labelsKey_def\<close>)
  have "InString l (lt_Label t) \<longleftrightarrow> lt_Label t \<in> set (?used l)" for l using assms(3) by auto
  then show ?thesis using eq by metis
qed

lemma label_events_cong:
  "\<forall>t \<in> set ts. InString l1 (lt_Label t) \<longleftrightarrow> InString l2 (lt_Label t) \<Longrightarrow>
     label_events ts l1 = label_events ts l2"
  by (induction ts) (auto split: option.split)

lemma same_key_same_events:
  assumes "labelsKey l1 state = labelsKey l2 state"
    and "\<forall>t \<in> set (cet_LabelEvents state). lt_Label t \<noteq> [] \<and> CHR ''|'' \<notin> set (lt_Label t)"
  shows "label_events (cet_LabelEvents state) l1 = label_events (cet_LabelEvents state) l2"
  using same_key_same_tables [OF assms] by (intro label_events_cong) blast

text \<open>What a plan says about event tables: each client of a group gets the events of its labels.\<close>

definition client_events :: "'s fenv \<Rightarrow> client_event_table \<Rightarrow> string list \<Rightarrow> vql_args list result" where
  "client_events env state labels = bindR (label_events (cet_LabelEvents state) labels)
     (\<lambda>es. Inr (map (fix_event (fe_EventMaxWait env)) (all_events state @ es)))"

definition message_events :: "velo_message \<Rightarrow> vql_args list" where
  "message_events m = (case vm_UpdateEventTable m of None \<Rightarrow> [] | Some t \<Rightarrow> et_Event t)"

definition tables_ok :: "'s fenv \<Rightarrow> foreman \<Rightarrow> string \<Rightarrow> 's \<Rightarrow> string set \<Rightarrow> plan \<Rightarrow> bool" where
  "tables_ok env fm org s C p \<longleftrightarrow>
     (\<forall>key m. map_of (MonitoringTables p) key = Some m \<longrightarrow>
        (\<exists>l. key = labelsKey l (current_monitoring_state p) \<and>
             client_events env (current_monitoring_state p) l = Inr (message_events m))) \<and>
     (\<forall>key c. c \<in> set (lists_get (MonitoringTablesToClients p) key) \<longrightarrow>
        c \<in> C \<and> map_of (MonitoringTables p) key \<noteq> None \<and>
        (\<exists>info. getMinimalClientInfo env org c s = Inr info \<and>
           key = labelsKey (cr_Labels info) (current_monitoring_state p) \<and>
           (cr_LastLabelTimestamp info \<ge> u64 (last_run_time fm) \<or>
            cr_LastEventTableVersion info < cet_Version (current_monitoring_state p)))) \<and>
     (\<forall>c \<in> C. \<forall>info. getMinimalClientInfo env org c s = Inr info \<longrightarrow>
        cr_LastLabelTimestamp info \<ge> u64 (last_run_time fm) \<or>
        cr_LastEventTableVersion info < cet_Version (current_monitoring_state p) \<longrightarrow>
        c \<in> set (lists_get (MonitoringTablesToClients p)
               (labelsKey (cr_Labels info) (current_monitoring_state p))))"

lemma planMonitoring_tables:
  assumes "planMonitoringForClient env fm info p w = (Inr p', w')" and "tables_ok env fm org s C p"
    and "getMinimalClientInfo env org c s = Inr info"
  shows "tables_ok env fm org s (insert c C) p'"
proof -
  let ?st = "current_monitoring_state p"
  let ?need = "cr_LastLabelTimestamp info \<ge> u64 (last_run_time fm) \<or> cr_LastEventTableVersion info < cet_Version ?st"
  have id: "cr_ClientId info = c" by (rule minimal_info_id [OF assms(3)])
  show ?thesis
  proof (cases ?need)
    case False
    then have "p' = p" using assms(1) by (simp add: planMonitoringForClient_def Let_def)
    then show ?thesis using assms(2,3) False unfolding tables_ok_def by (simp; blast)
  next
    case True
    define key where "key = labelsKey (cr_Labels info) ?st"
    obtain p1 w1 where p1: "(case map_of (MonitoringTables p) key of
        Some m \<Rightarrow> (Inr p, w)
      | None \<Rightarrow> (case GetClientUpdateEventTableMessage env ?st (cr_Labels info) w of
            (Inl e, w1) \<Rightarrow> (Inl e, w1)
          | (Inr m, w1) \<Rightarrow> (Inr (p\<lparr>MonitoringTables := AList.update key m (MonitoringTables p)\<rparr>), w1))) =
        (Inr p1, w1)"
      and p': "MonitoringTables p' = MonitoringTables p1"
        "current_monitoring_state p' = current_monitoring_state p1"
        "MonitoringTablesToClients p' =
          (if c \<in> set (lists_get (MonitoringTablesToClients p1) key) then MonitoringTablesToClients p1
           else AList.update key (c # lists_get (MonitoringTablesToClients p1) key) (MonitoringTablesToClients p1))"
      using assms(1) True id unfolding planMonitoringForClient_def Let_def key_def
      by (auto split: if_splits sum.splits prod.splits)
    have t1: "tables_ok env fm org s C p1 \<and> map_of (MonitoringTables p1) key \<noteq> None \<and>
        current_monitoring_state p1 = ?st \<and> MonitoringTablesToClients p1 = MonitoringTablesToClients p"
    proof (cases "map_of (MonitoringTables p) key")
      case (Some m)
      then show ?thesis using p1 assms(2) by auto
    next
      case None
      obtain m where m: "p1 = p\<lparr>MonitoringTables := AList.update key m (MonitoringTables p)\<rparr>"
        "client_events env ?st (cr_Labels info) = Inr (message_events m)"
      proof -
        obtain m w2 where g: "GetClientUpdateEventTableMessage env ?st (cr_Labels info) w = (Inr m, w2)"
          "p1 = p\<lparr>MonitoringTables := AList.update key m (MonitoringTables p)\<rparr>"
          using p1 None by (auto split: sum.splits prod.splits)
        then have "client_events env ?st (cr_Labels info) = Inr (message_events m)"
          by (auto simp: GetClientUpdateEventTableMessage_def fnow_def client_events_def message_events_def
              bindR_Inr_iff)
        then show ?thesis using that g(2) by blast
      qed
      then show ?thesis
        using assms(2) by (auto simp: tables_ok_def update_conv' key_def split: if_splits)
    qed
    have "c \<in> insert c C \<and> map_of (MonitoringTables p') key \<noteq> None \<and>
        (\<exists>info. getMinimalClientInfo env org c s = Inr info \<and> key = labelsKey (cr_Labels info) ?st \<and>
          (cr_LastLabelTimestamp info \<ge> u64 (last_run_time fm) \<or> cr_LastEventTableVersion info < cet_Version ?st))"
      using True t1 assms(3) p'(1) by (auto simp: key_def)
    moreover have "set (lists_get (MonitoringTablesToClients p') k) =
        (if k = key then insert c (set (lists_get (MonitoringTablesToClients p) k))
         else set (lists_get (MonitoringTablesToClients p) k))" for k
      using t1 p'(3) by auto
    ultimately show ?thesis
      using t1 p'(1,2) assms(3) unfolding tables_ok_def by (auto simp: key_def split: if_splits)
  qed
qed

lemma plan_running_monitoring:
  "MonitoringTables (plan_running info seen running p) = MonitoringTables p \<and>
   MonitoringTablesToClients (plan_running info seen running p) = MonitoringTablesToClients p \<and>
   current_monitoring_state (plan_running info seen running p) = current_monitoring_state p"
proof -
  have "MonitoringTables (assignClientToHunt info h p) = MonitoringTables p \<and>
      MonitoringTablesToClients (assignClientToHunt info h p) = MonitoringTablesToClients p \<and>
      current_monitoring_state (assignClientToHunt info h p) = current_monitoring_state p" for h p
    by (simp add: assignClientToHunt_def Let_def)
  then show ?thesis
    by (induction running arbitrary: p) (auto simp: plan_running_def planHunt_applies)
qed

lemma tables_ok_running:
  "tables_ok env fm org s C p \<Longrightarrow> tables_ok env fm org s C (plan_running info seen running p)"
  by (simp add: tables_ok_def plan_running_monitoring)

lemma update_clients_tables:
  assumes "update_clients env fm org running cs p w = (Inr p', w')"
    and "tables_ok env fm org (fw_store w) C p"
  shows "tables_ok env fm org (fw_store w) (C \<union> set cs) p' \<and>
    current_monitoring_state p' = current_monitoring_state p \<and> fw_store w' = fw_store w"
  using assms
proof (induction cs arbitrary: p w C)
  case (Cons c cs)
  obtain info where info: "getMinimalClientInfo env org c (fw_store w) = Inr info"
    using Cons.prems(1) by (auto split: sum.splits)
  obtain p1 where p1: "(if running = [] then Inr p
      else bindR (getClientHuntMembership env org c (map h_HuntId running) (fw_store w))
        (\<lambda>seen. Inr (plan_running info seen running p))) = Inr p1"
    "andThen (planMonitoringForClient env fm info p1 w) (update_clients env fm org running cs) = (Inr p', w')"
    using Cons.prems(1) info by (auto split: sum.splits)
  obtain p2 w2 where p2: "planMonitoringForClient env fm info p1 w = (Inr p2, w2)"
    "update_clients env fm org running cs p2 w2 = (Inr p', w')"
    using p1(2) by (auto simp: andThen_Inr_iff)
  have ok1: "tables_ok env fm org (fw_store w) C p1 \<and> current_monitoring_state p1 = current_monitoring_state p"
    using p1(1) Cons.prems(2) tables_ok_running [OF Cons.prems(2)] plan_running_monitoring
    by (auto simp: bindR_Inr_iff split: if_splits)
  have keeps: "fw_store w2 = fw_store w" "current_monitoring_state p2 = current_monitoring_state p1"
    using planMonitoring_keeps [OF p2(1)] by simp_all
  have "tables_ok env fm org (fw_store w2) (insert c C) p2"
    using planMonitoring_tables [OF p2(1) _ info] ok1 keeps by simp
  from Cons.IH [OF p2(2) this] show ?case using keeps ok1 by simp
qed simp

text \<open>
  C20. Event tables reach the right clients: after a successful \<open>CalculateUpdate\<close> on a fresh plan
  a client is in a group exactly when it was seen since the last run and its labels or its
  table are out of date, it is in the group of its labels only, and the message of the group
  holds the events of all clients and of the client's own labels, in the order of the tables
  (for label names that are not empty and have no vertical bar).
\<close>

theorem event_tables_reach_clients:
  assumes "CalculateUpdate env fm org hunts p w = (Inr p', w')"
    and "MonitoringTables p = []" and "MonitoringTablesToClients p = []"
    and "state = current_monitoring_state p"
    and "\<forall>t \<in> set (cet_LabelEvents state). lt_Label t \<noteq> [] \<and> CHR ''|'' \<notin> set (lt_Label t)"
    and "c \<in> set (getClientsSeenAfter env org (max 0 (last_run_time fm)) (fw_store w'))"
    and "getMinimalClientInfo env org c (fw_store w') = Inr info"
  shows "(c \<in> set (lists_get (MonitoringTablesToClients p') key) \<longleftrightarrow>
      key = labelsKey (cr_Labels info) state \<and>
      (cr_LastLabelTimestamp info \<ge> u64 (last_run_time fm) \<or>
       cr_LastEventTableVersion info < cet_Version state)) \<and>
    (c \<in> set (lists_get (MonitoringTablesToClients p') key) \<longrightarrow>
      (\<exists>m. map_of (MonitoringTables p') key = Some m \<and>
           client_events env state (cr_Labels info) = Inr (message_events m)))"
proof -
  obtain running w2 where u: "update_clients env fm org running
      (getClientsSeenAfter env org (max 0 (last_run_time fm)) (fw_store w2)) p w2 = (Inr p', w')"
    using assms(1) by (auto simp: CalculateUpdate_def fnow_def Let_def split: if_splits)
  have "tables_ok env fm org (fw_store w2) {} p" using assms(2,3) by (simp add: tables_ok_def)
  note ok = update_clients_tables [OF u this]
  let ?C = "set (getClientsSeenAfter env org (max 0 (last_run_time fm)) (fw_store w'))"
  have st: "current_monitoring_state p' = state" and tab: "tables_ok env fm org (fw_store w') ?C p'"
    using ok assms(4) by simp_all
  have grp: "map_of (MonitoringTables p') key \<noteq> None \<and> key = labelsKey (cr_Labels info) state \<and>
      (cr_LastLabelTimestamp info \<ge> u64 (last_run_time fm) \<or> cr_LastEventTableVersion info < cet_Version state)"
    if "c \<in> set (lists_get (MonitoringTablesToClients p') key)"
    using tab that assms(7) st unfolding tables_ok_def by fastforce
  have bwd: "c \<in> set (lists_get (MonitoringTablesToClients p') (labelsKey (cr_Labels info) state))"
    if "cr_LastLabelTimestamp info \<ge> u64 (last_run_time fm) \<or> cr_LastEventTableVersion info < cet_Version state"
    using tab that assms(6,7) st unfolding tables_ok_def by blast
  have "\<exists>m. map_of (MonitoringTables p') key = Some m \<and>
      client_events env state (cr_Labels info) = Inr (message_events m)"
    if "c \<in> set (lists_get (MonitoringTablesToClients p') key)"
  proof -
    note g = grp [OF that]
    then obtain m where m: "map_of (MonitoringTables p') key = Some m" by blast
    obtain l where "key = labelsKey l state" "client_events env state l = Inr (message_events m)"
      using tab m st unfolding tables_ok_def by blast
    moreover have "key = labelsKey (cr_Labels info) state" using g by blast
    ultimately show ?thesis
      using m same_key_same_events [OF _ assms(5), of l "cr_Labels info"] by (simp add: client_events_def)
  qed
  then show ?thesis using grp bwd by blast
qed

text \<open>What the runs of \<open>Start\<close> measure from: the first its own start, the others the run before.\<close>

fun sweep_start :: "(nat \<Rightarrow> int) \<Rightarrow> nat \<Rightarrow> int" where
  "sweep_start T 0 = T 0"
| "sweep_start T (Suc k) = T k"

lemma hunt_start_micros:
  "0 \<le> h_StartTime h \<Longrightarrow> h_StartTime h * 1000 < 2 ^ 63 \<Longrightarrow> hunt_start h = h_StartTime h * 1000"
  by (simp add: hunt_start_def i64_id)

text \<open>
  No hunt start falls between two sweeps: with the readings of the clock that \<open>Start\<close> makes
  (the first run measures from its own start, each later one from the start of the run before)
  every hunt that starts after the foreman and before a run looks at the hunts has been a
  freshly started hunt of that run or of an earlier one, for start times up to the year 2262,
  where the conversion to nanoseconds overflows.
\<close>

theorem hunt_starts_covered:
  fixes T N :: "nat \<Rightarrow> int"
  assumes "0 \<le> T 0" and "\<forall>k. T k \<le> N k" and "\<forall>k. N k \<le> T (Suc k)"
    and "0 \<le> h_StartTime h" and "h_StartTime h * 1000 < 2 ^ 63"
    and "T 0 \<le> h_StartTime h * 1000" and "h_StartTime h * 1000 < N k"
  shows "\<exists>j \<le> k. just_started (max 0 (sweep_start T j)) (N j) h"
proof -
  have nonneg: "0 \<le> T j" for j
  proof (induction j)
    case (Suc j)
    then show ?case using assms(2) [rule_format, of j] assms(3) [rule_format, of j] by simp
  qed (use assms(1) in simp)
  have st: "hunt_start h = h_StartTime h * 1000" by (rule hunt_start_micros [OF assms(4,5)])
  show ?thesis
    using assms(7)
  proof (induction k)
    case 0
    then show ?case using assms(6) st nonneg [of 0] by (auto simp: just_started_def)
  next
    case (Suc k)
    show ?case
    proof (cases "h_StartTime h * 1000 < N k")
      case True
      then show ?thesis using Suc.IH le_SucI by blast
    next
      case False
      then have "T k \<le> h_StartTime h * 1000" using assms(2) [rule_format, of k] by simp
      then show ?thesis
        using Suc.prems st nonneg [of k] by (intro exI [of _ "Suc k"]) (simp add: just_started_def)
    qed
  qed
qed

theorem hunt_starts_covered_witness:
  "\<exists>j \<le> 2. just_started (max 0 (sweep_start (\<lambda>k. int k * 60000) j)) (int j * 60000 + 5)
     \<lparr>h_HuntId = ''H.1'', h_StartTime = 60, h_Expires = 0, h_Condition = None, h_StartRequest = None\<rparr>"
  by (rule hunt_starts_covered) simp_all

lemma two_pow_64 [code_unfold]: "(2::int) ^ 64 = 18446744073709551616" by simp

lemma i64_code [code]: "i64 x = (x + 9223372036854775808) mod 18446744073709551616 - 9223372036854775808"
  by (simp add: i64_def sint_sbintrunc' signed_take_bit_eq_take_bit_shift take_bit_eq_mod)

section \<open>An example organisation\<close>

text \<open>
  One client with a label that was assigned one of two running hunts before; the launcher keeps a
  log of its launches in the store.
\<close>

definition one_client :: ClientRecord where
  "one_client = empty_client\<lparr>cr_ClientId := ''C.1'', cr_DocType := ''clients''\<rparr>"

definition client_store :: mem_es_state where
  "client_store = [(''persisted'',
     [(''C.1_ping'', encode_client (one_client\<lparr>cr_Ping := 5000\<rparr>)),
      (''C.1_labels'', encode_client (one_client\<lparr>cr_Labels := [''Red''], cr_LowerLabels := [''red''],
         cr_LastLabelTimestamp := 2000\<rparr>)),
      (''r'', encode_client (one_client\<lparr>cr_AssignedHunts := [''H.2'']\<rparr>))])]"

definition sample_args :: collector_args where
  "sample_args = empty_args\<lparr>ca_CompiledCollectorArgs := [\<lparr>va_MaxWait = 0, va_Timeout = 0, va_Query = JInt 7\<rparr>]\<rparr>"

definition red_hunt :: hunt where
  "red_hunt = \<lparr>h_HuntId = ''H.1'', h_StartTime = 0, h_Expires = 100,
     h_Condition = Some \<lparr>hc_Labels = Some [''RED''], hc_ExcludedLabels = None, hc_Os = None\<rparr>,
     h_StartRequest = Some sample_args\<rparr>"

definition old_hunt :: hunt where
  "old_hunt = \<lparr>h_HuntId = ''H.2'', h_StartTime = 0, h_Expires = 100, h_Condition = None,
     h_StartRequest = Some sample_args\<rparr>"

definition sample_table :: client_event_table where
  "sample_table = \<lparr>cet_Version = 3, cet_Artifacts = None,
     cet_LabelEvents = [\<lparr>lt_Label = ''Red'', lt_Artifacts = Some sample_args\<rparr>]\<rparr>"

definition log_launch :: "collector_args \<Rightarrow> string list \<Rightarrow> mem_es_state \<Rightarrow> go_error option \<times> mem_es_state" where
  "log_launch r cs st = (None, mem_put ''launched'' (mem_docs st ''launched'' @ map (\<lambda>c. (c, JNull)) cs) st)"

definition sample_fenv :: "mem_es_state fenv" where
  "sample_fenv =
     \<lparr>fe_es = mem_es, fe_fuel = 3, fe_now = (\<lambda>n. 10000), fe_order = rev, fe_job_first = True,
      fe_EventMaxWait = 0, fe_monitoring_flow = ''F.M'',
      fe_running_hunts = (\<lambda>org s. Inr [red_hunt, old_hunt]), fe_monitoring = (\<lambda>org. Inr sample_table),
      fe_launcher = (\<lambda>org. Inr \<lparr>la_Multi = Some log_launch, la_Write = (\<lambda>r v f s. (None, s))\<rparr>),
      fe_clients = (\<lambda>org. Inr \<lparr>cl_Multi = None, cl_Queue = (\<lambda>c m b s. (None, s))\<rparr>),
      fe_OrgManager = None, fe_ListOrgs = [''root''], fe_GetOrg = Inr, fe_GetOrgConfig = Inr\<rparr>"

definition sample_foreman :: foreman where
  "sample_foreman = \<lparr>last_run_time = 1000, next_run_time = 1000\<rparr>"

definition sample_fworld :: "mem_es_state fworld" where
  "sample_fworld = \<lparr>fw_store = client_store,
     fw_bulk = Some \<lparr>bulk_instance_type = PrimaryOpenSearch, bulk_indexes = []\<rparr>, fw_ticks = 0, fw_jobs = []\<rparr>"

definition fresh_plan :: plan where
  "fresh_plan = \<lparr>HuntsToClients = [], HuntsByHuntId = [], ClientIdToHunts = [], ClientIdToClientRecords = [],
     MonitoringTables = [], MonitoringTablesToClients = [], current_monitoring_state = sample_table\<rparr>"

definition sample_update :: "plan result \<times> mem_es_state fworld" where
  "sample_update = CalculateUpdate sample_fenv sample_foreman ''root'' [red_hunt, old_hunt] fresh_plan sample_fworld"

definition planned :: plan where
  "planned = (case fst sample_update of Inl e \<Rightarrow> fresh_plan | Inr p \<Rightarrow> p)"

lemma sample_update_ok:
  "CalculateUpdate sample_fenv sample_foreman ''root'' [red_hunt, old_hunt] fresh_plan sample_fworld =
     (Inr planned, snd sample_update)"
proof -
  have "(case fst sample_update of Inl e \<Rightarrow> False | Inr p \<Rightarrow> True)" by code_simp
  then show ?thesis
    unfolding planned_def by (cases "fst sample_update") (auto simp: sample_update_def prod_eq_iff)
qed

lemma sample_store: "fw_store (snd sample_update) = client_store"
  by code_simp

lemma fresh_plan_empty:
  "ClientIdToHunts fresh_plan = []" "HuntsByHuntId fresh_plan = []" "MonitoringTables fresh_plan = []"
  "MonitoringTablesToClients fresh_plan = []" "current_monitoring_state fresh_plan = sample_table"
  by (simp_all add: fresh_plan_def)

lemma sample_hunts_distinct: "distinct (map h_HuntId [red_hunt, old_hunt])"
  by (simp add: red_hunt_def old_hunt_def)

lemma sample_contract:
  "search_contract (fe_es sample_fenv) (\<lambda>st c idx. mem_docs st idx)"
  "GetElasticClient (fe_es sample_fenv) ''root'' = Inr PrimaryOpenSearch" "0 < fe_fuel sample_fenv"
  using mem_search_contract by (simp_all add: sample_fenv_def)

lemma sample_docs_of: "mem_docs client_store (GetIndex ''root'' PERSISTED) = snd (hd client_store)"
  by code_simp

lemma sample_keyed: "client_keyed ''C.1'' (mem_docs client_store (GetIndex ''root'' PERSISTED))"
  unfolding sample_docs_of
  by (simp add: client_store_def client_keyed_def encode_client_def one_client_def empty_client_def
      opt_str_def opt_int_def opt_strs_def)

theorem minimal_info_first_page_witness:
  "\<exists>info. getMinimalClientInfo sample_fenv ''root'' ''C.1'' client_store = Inr info \<and>
     cr_Labels info = [''Red''] \<and> cr_AssignedHunts info = [''H.2'']"
proof -
  have "cr_Labels (foldl merge_minimal (empty_client\<lparr>cr_ClientId := ''C.1'', cr_DocType := ''clients''\<rparr>)
      (map snd (take 1000 (match_docs (sq_query (minimal_info_query ''C.1''))
        (mem_docs client_store (GetIndex ''root'' PERSISTED)))))) = [''Red'']"
    "cr_AssignedHunts (foldl merge_minimal (empty_client\<lparr>cr_ClientId := ''C.1'', cr_DocType := ''clients''\<rparr>)
      (map snd (take 1000 (match_docs (sq_query (minimal_info_query ''C.1''))
        (mem_docs client_store (GetIndex ''root'' PERSISTED)))))) = [''H.2'']"
    by code_simp+
  then show ?thesis
    using minimal_info_first_page [OF sample_contract(1,2) sample_keyed sample_contract(3)] by blast
qed

theorem calculate_update_plans_witness:
  "lists_get (ClientIdToHunts planned) ''C.1'' = [red_hunt]"
  unfolding calculate_update_plans [OF sample_update_ok fresh_plan_empty(1) sample_hunts_distinct refl refl refl]
    sample_store
  by code_simp


theorem event_tables_reach_clients_witness:
  "''C.1'' \<in> set (lists_get (MonitoringTablesToClients planned) ''Red'')"
proof -
  have "(case getMinimalClientInfo sample_fenv ''root'' ''C.1'' client_store of Inl e \<Rightarrow> False
      | Inr info \<Rightarrow> labelsKey (cr_Labels info) sample_table = ''Red'' \<and> cr_LastLabelTimestamp info = 2000)"
    by code_simp
  then obtain info where info: "getMinimalClientInfo sample_fenv ''root'' ''C.1'' client_store = Inr info"
    and i: "labelsKey (cr_Labels info) sample_table = ''Red''" "cr_LastLabelTimestamp info = 2000"
    by (auto split: sum.splits)
  have seen: "''C.1'' \<in> set (getClientsSeenAfter sample_fenv ''root'' (max 0 (last_run_time sample_foreman)) client_store)"
    by code_simp
  show ?thesis
    using event_tables_reach_clients [OF sample_update_ok fresh_plan_empty(3,4) refl, of "''C.1''" info "''Red''"]
      info i seen
    by (simp add: sample_store fresh_plan_empty(5)) (simp add: sample_table_def sample_foreman_def u64_def)
qed

theorem execute_schedules_plan_witness:
  "\<exists>sched p'. ExecuteHuntUpdate sample_fenv ''root'' planned sample_fworld =
      (fst (run_schedule sample_fenv ''root'' sched sample_fworld), p',
       snd (run_schedule sample_fenv ''root'' sched sample_fworld)) \<and>
    (\<exists>r cs. (red_hunt, r, cs) \<in> set sched \<and> ''C.1'' \<in> set cs)"
proof -
  have ord: "\<forall>ks. mset (fe_order sample_fenv ks) = mset ks" by (simp add: sample_fenv_def)
  have ids: "HuntsByHuntId planned = []" by code_simp
  have "ClientIdToHunts planned = [(''C.1'', [red_hunt])]" by code_simp
  then have get: "lists_get (ClientIdToHunts planned) c = (if c = ''C.1'' then [red_hunt] else [])" for c
    by (simp add: lists_get_def)
  have "h_StartRequest red_hunt \<noteq> None" by (simp add: red_hunt_def)
  moreover have "red_hunt \<in> set (lists_get (ClientIdToHunts planned) ''C.1'')" by (simp add: get)
  moreover have "\<forall>c d. \<forall>x \<in> set (lists_get (ClientIdToHunts planned) c).
      \<forall>y \<in> set (lists_get (ClientIdToHunts planned) d). h_HuntId x = h_HuntId y \<longrightarrow> x = y"
    by (simp add: get)
  ultimately show ?thesis
    using execute_schedules_plan [OF ord ids, of "''root''" sample_fworld] by blast
qed

text \<open>
  A store whose bulk indexer keeps what it was given until it is flushed: the state is the
  documents and the pending items. The operations the foreman does not use here fail.
\<close>

type_synonym late_state = "mem_es_state \<times> bulk_item list"

definition late_search :: "cluster \<Rightarrow> string \<Rightarrow> search_req \<Rightarrow> late_state \<Rightarrow> os_reply result" where
  "late_search c idx q st = (let ds = mem_docs (fst st) idx
     in ok_reply (render_hits (search_hits q ds) (length (match_docs (sq_query q) ds))))"

definition late_refresh :: "cluster \<Rightarrow> string list \<Rightarrow> late_state \<Rightarrow> os_reply result \<times> late_state" where
  "late_refresh c idxs st = (ok_reply JNull, st)"

definition late_bulk_new :: "cluster \<Rightarrow> late_state \<Rightarrow> go_error option \<times> late_state" where
  "late_bulk_new c st = (None, st)"

definition late_bulk_add :: "bulk_item \<Rightarrow> late_state \<Rightarrow> go_error option \<times> late_state" where
  "late_bulk_add item st = (None, fst st, snd st @ [item])"

definition apply_item :: "mem_es_state \<Rightarrow> bulk_item \<Rightarrow> mem_es_state" where
  "apply_item m item = mem_put (bi_Index item)
     (doc_add (bi_DocumentID item) (bi_Body item) (mem_docs m (bi_Index item))) m"

definition late_bulk_close :: "late_state \<Rightarrow> go_error option \<times> late_state" where
  "late_bulk_close st = (None, foldl apply_item (fst st) (snd st), [])"

definition no_list :: "cluster \<Rightarrow> late_state \<Rightarrow> os_reply result" where
  "no_list c st = Inl IOError"
definition no_name :: "cluster \<Rightarrow> string \<Rightarrow> late_state \<Rightarrow> os_reply result" where
  "no_name c n st = Inl IOError"
definition no_read :: "cluster \<Rightarrow> string \<Rightarrow> 'q \<Rightarrow> late_state \<Rightarrow> os_reply result" where
  "no_read c idx q st = Inl IOError"
definition no_write :: "cluster \<Rightarrow> string \<Rightarrow> 'q \<Rightarrow> late_state \<Rightarrow> os_reply result \<times> late_state" where
  "no_write c idx q st = (Inl IOError, st)"
definition no_change :: "cluster \<Rightarrow> string \<Rightarrow> string \<Rightarrow> 'q \<Rightarrow> late_state \<Rightarrow> os_reply result \<times> late_state" where
  "no_change c idx i q st = (Inl IOError, st)"

definition late_es :: "late_state elastic" where
  "late_es =
     \<lparr>elasticClients = [PrimaryOpenSearch], primary_orgs = [], os_CatIndices = no_list, os_Get = no_read,
      os_Mget = no_read, os_Search = late_search, os_Count = no_read, os_Index = no_change,
      os_Update = no_change, os_Delete = no_write, os_DeleteByQuery = no_write, os_Refresh = late_refresh,
      os_ExistsTemplate = no_name, os_PutTemplate = no_write, os_BulkNew = late_bulk_new,
      os_BulkAdd = late_bulk_add, os_BulkClose = late_bulk_close\<rparr>"

definition new_hunt :: hunt where
  "new_hunt = \<lparr>h_HuntId = ''H.3'', h_StartTime = 20, h_Expires = 1000000, h_Condition = None,
     h_StartRequest = Some sample_args\<rparr>"

definition late_now :: "nat \<Rightarrow> int" where
  "late_now n = 10000 + 10000 * int n"

definition same_order :: "string list \<Rightarrow> string list" where
  "same_order ks = ks"

definition late_hunts :: "string \<Rightarrow> late_state \<Rightarrow> hunt list result" where
  "late_hunts org st = Inr [new_hunt]"

definition late_monitoring :: "string \<Rightarrow> client_event_table result" where
  "late_monitoring org = Inr \<lparr>cet_Version = 0, cet_Artifacts = None, cet_LabelEvents = []\<rparr>"

definition late_launch :: "collector_args \<Rightarrow> string list \<Rightarrow> late_state \<Rightarrow> go_error option \<times> late_state" where
  "late_launch r cs st = (case log_launch r cs (fst st) of (e, m) \<Rightarrow> (e, m, snd st))"

definition no_launch :: "collector_args \<Rightarrow> vql_args list \<Rightarrow> (velo_message \<Rightarrow> late_state \<Rightarrow> late_state)
    \<Rightarrow> late_state \<Rightarrow> go_error option \<times> late_state" where
  "no_launch r v f st = (Some IOError, st)"

definition late_launcher :: "string \<Rightarrow> late_state launcher_api result" where
  "late_launcher org = Inr \<lparr>la_Multi = Some late_launch, la_Write = no_launch\<rparr>"

definition late_queue :: "string \<Rightarrow> velo_message \<Rightarrow> bool \<Rightarrow> late_state \<Rightarrow> go_error option \<times> late_state" where
  "late_queue c m b st = (None, st)"

definition late_clients :: "string \<Rightarrow> late_state client_api result" where
  "late_clients org = Inr \<lparr>cl_Multi = None, cl_Queue = late_queue\<rparr>"

definition same_org :: "string \<Rightarrow> string result" where
  "same_org org = Inr org"

definition late_env :: "bool \<Rightarrow> late_state fenv" where
  "late_env job_first =
     \<lparr>fe_es = late_es, fe_fuel = 3, fe_now = late_now, fe_order = same_order,
      fe_job_first = job_first, fe_EventMaxWait = 0, fe_monitoring_flow = ''F.M'',
      fe_running_hunts = late_hunts, fe_monitoring = late_monitoring, fe_launcher = late_launcher,
      fe_clients = late_clients, fe_OrgManager = None, fe_ListOrgs = [''root''], fe_GetOrg = same_org,
      fe_GetOrgConfig = same_org\<rparr>"

definition late_world :: "late_state fworld" where
  "late_world = \<lparr>fw_store = ([(''persisted'', [(''C.1_ping'', encode_client (one_client\<lparr>cr_Ping := 50000\<rparr>))])], []),
     fw_bulk = Some \<lparr>bulk_instance_type = PrimaryOpenSearch, bulk_indexes = []\<rparr>, fw_ticks = 0, fw_jobs = []\<rparr>"

text \<open>
  The world after a run whose background job ended after the flush: the launch is done, the
  record of the assignment is still pending.
\<close>

definition late_config :: foreman_config where
  "late_config = \<lparr>DedicatedForeman = False, DedicatedForemanOrg = [], ForemanExcludedOrgs = []\<rparr>"

definition after_late_job :: "late_state fworld" where
  "after_late_job = late_world
     \<lparr>fw_store := (mem_put ''launched'' [(''C.1'', JNull)] (fst (fw_store late_world)),
                  [\<lparr>bi_Index = ''persisted'', bi_Action = ''index'', bi_DocumentID = [],
                    bi_Body = encode_client (empty_client\<lparr>cr_ClientId := ''C.1'',
                      cr_AssignedHunts := [''H.3''], cr_DocType := ''clients''\<rparr>)\<rparr>]),
      fw_bulk := Some \<lparr>bulk_instance_type = PrimaryOpenSearch, bulk_indexes = [''persisted'']\<rparr>,
      fw_ticks := 4\<rparr>"

definition launched :: "late_state fworld \<Rightarrow> string list" where
  "launched w = map fst (mem_docs (fst (fw_store w)) ''launched'')"

lemma late_first_run:
  "Start_first (late_env False) late_config \<lparr>last_run_time = 0, next_run_time = 0\<rparr> late_world =
     (None, \<lparr>last_run_time = 10000, next_run_time = 10000\<rparr>, after_late_job)"
  by code_simp

text \<open>
  A new hunt can be launched twice on the same client: the run flushes the bulk indexer
  before it waits for its background job, so the records of a job that ends late are not in
  the index when the next run looks for them.
\<close>

theorem late_job_launches_twice:
  "case Start_first (late_env False) late_config \<lparr>last_run_time = 0, next_run_time = 0\<rparr> late_world of
     (e, fm, w) \<Rightarrow> e = None \<and> launched w = [''C.1''] \<and>
       launched (snd (Start_turn (late_env True) late_config fm w)) = [''C.1'', ''C.1'']"
  unfolding late_first_run by code_simp

end
