(* ===== verification/Flows.thy ===== *)
theory Flows
  imports Clients TransformedResultSets Caches "HOL-Library.Multiset"
begin

text \<open>
  The storage of flows (\<open>schema/api/collections.go\<close>, \<open>services/launcher\<close>): a flow is written as
  several collection documents over its life, which are merged in the order of their time
  stamps into an index of the flows of a client; the index is a result set that is rebuilt
  when it is out of date, and the flows read from it are cached.
\<close>

section \<open>Data\<close>

text \<open>
  The context of a collection (a message of the library): the fields the package reads, the
  rest is \<open>fc_Other\<close>. Only the states and statuses it compares are told apart.
\<close>

datatype flow_state = FLOW_ERROR | FLOW_other int

datatype query_status = STATUS_PROGRESS | STATUS_other int

record query_stat =
  qs_Status :: query_status
  qs_Other :: json

record flow_request =
  fq_Artifacts :: "string list"
  fq_Creator :: string
  fq_Other :: json

record flow_context =
  fc_ClientId :: string
  fc_SessionId :: string
  fc_Request :: "flow_request option"
  fc_State :: flow_state
  fc_Status :: string
  fc_QueryStats :: "query_stat list"
  fc_TotalUploadedFiles :: int
  fc_TotalExpectedUploadedBytes :: int
  fc_TotalUploadedBytes :: int
  fc_TotalCollectedRows :: int
  fc_TotalLogs :: int
  fc_ActiveTime :: int
  fc_CreateTime :: int
  fc_StartTime :: int
  fc_TotalRequests :: int
  fc_OutstandingRequests :: int
  fc_ArtifactsWithResults :: "string list"
  fc_Other :: json

definition empty_flow :: flow_context where
  "empty_flow =
     \<lparr>fc_ClientId = [], fc_SessionId = [], fc_Request = None, fc_State = FLOW_other 0, fc_Status = [],
      fc_QueryStats = [], fc_TotalUploadedFiles = 0, fc_TotalExpectedUploadedBytes = 0,
      fc_TotalUploadedBytes = 0, fc_TotalCollectedRows = 0, fc_TotalLogs = 0, fc_ActiveTime = 0,
      fc_CreateTime = 0, fc_StartTime = 0, fc_TotalRequests = 0, fc_OutstandingRequests = 0,
      fc_ArtifactsWithResults = [], fc_Other = JNull\<rparr>"

text \<open>The document of a collection (collections.go).\<close>

record collector_record =
  ar_ClientId :: string
  ar_SessionId :: string
  ar_Raw :: string
  ar_Tasks :: string
  ar_Type :: string
  ar_Timestamp :: int
  ar_Doc_Type :: string
  ar_ID :: string

definition encode_collection :: "collector_record \<Rightarrow> json" where
  "encode_collection r = JObj
     ([(''client_id'', JStr (ar_ClientId r)), (''session_id'', JStr (ar_SessionId r))] @
      opt_str ''context'' (ar_Raw r) @ opt_str ''tasks'' (ar_Tasks r) @
      [(''type'', JStr (ar_Type r)), (''timestamp'', JInt (ar_Timestamp r)),
       (''doc_type'', JStr (ar_Doc_Type r)), (''id'', JStr (ar_ID r))])"

definition decode_collection :: "json \<Rightarrow> collector_record result" where
  "decode_collection j =
     bindR (get_str ''client_id'' j) (\<lambda>a1. bindR (get_str ''session_id'' j) (\<lambda>a2.
     bindR (get_str ''context'' j) (\<lambda>a3. bindR (get_str ''tasks'' j) (\<lambda>a4.
     bindR (get_str ''type'' j) (\<lambda>a5. bindR (get_int ''timestamp'' j) (\<lambda>a6.
     bindR (get_str ''doc_type'' j) (\<lambda>a7. bindR (get_str ''id'' j) (\<lambda>a8.
       Inr \<lparr>ar_ClientId = a1, ar_SessionId = a2, ar_Raw = a3, ar_Tasks = a4, ar_Type = a5,
         ar_Timestamp = a6, ar_Doc_Type = a7, ar_ID = a8\<rparr>))))))))"

lemma encode_collection_fields [simp]:
  "jget ''client_id'' (encode_collection r) = Some (JStr (ar_ClientId r))"
  "jget ''session_id'' (encode_collection r) = Some (JStr (ar_SessionId r))"
  "jget ''type'' (encode_collection r) = Some (JStr (ar_Type r))"
  "jget ''timestamp'' (encode_collection r) = Some (JInt (ar_Timestamp r))"
  "jget ''doc_type'' (encode_collection r) = Some (JStr (ar_Doc_Type r))"
  "jget ''id'' (encode_collection r) = Some (JStr (ar_ID r))"
  by (simp_all add: encode_collection_def del: map_of_append)

lemma decode_encode_collection: "decode_collection (encode_collection r) = Inr r"
proof -
  have "get_str ''context'' (encode_collection r) = Inr (ar_Raw r)"
    "get_str ''tasks'' (encode_collection r) = Inr (ar_Tasks r)"
    by (simp_all add: encode_collection_def get_str_def del: map_of_append)
  then show ?thesis by (simp add: decode_collection_def get_str_def get_int_def)
qed

section \<open>Environment\<close>

text \<open>
  The result sets and the store, and the library's part: the text form of a context, the
  statistics \<open>UpdateFlowStats\<close> fills in, the JSON of a context in the index, the path of the
  index of a client, the order Go walks a map in, what a reader wrapped for a range delivers
  of the lines below it (or the error of its seek) and how many rows it has.
\<close>

record 's flow_env =
  fl_rs :: "'s rs_env"
  fl_te :: transform_env
  fl_fuel :: nat
  fl_parse :: "string \<Rightarrow> flow_context result"
  fl_render :: "flow_context \<Rightarrow> string"
  fl_stats :: "flow_context \<Rightarrow> flow_context"
  fl_flow_json :: "flow_context \<Rightarrow> json"
  fl_flow_of :: "json \<Rightarrow> flow_context result"
  fl_index_path :: "string \<Rightarrow> string"
  fl_order :: "string list \<Rightarrow> string list"
  fl_wrap_lines :: "int \<Rightarrow> int \<Rightarrow> int \<Rightarrow> string list \<Rightarrow> string list result"
  fl_wrap_total :: "int \<Rightarrow> int \<Rightarrow> int \<Rightarrow> int"
  fl_MinFlowCacheTimeMin :: "int option"

section \<open>Records and protos (collections.go)\<close>

definition ToProto :: "'s flow_env \<Rightarrow> collector_record \<Rightarrow> flow_context result" where
  "ToProto env r =
     bindR (fl_parse env (ar_Raw r)) (\<lambda>c.
       let c1 = (if fc_ClientId c = [] then c\<lparr>fc_ClientId := ar_ClientId r\<rparr> else c)
       in Inr (if fc_SessionId c1 = [] then c1\<lparr>fc_SessionId := ar_SessionId r\<rparr> else c1))"

definition ArtifactCollectorRecordFromProto ::
  "'s flow_env \<Rightarrow> flow_context \<Rightarrow> string \<Rightarrow> 's world \<Rightarrow> collector_record \<times> 's world" where
  "ArtifactCollectorRecordFromProto env c i w =
     (case Now (fl_rs env) w of (t, w1) \<Rightarrow>
        (\<lparr>ar_ClientId = fc_ClientId c, ar_SessionId = fc_SessionId c, ar_Raw = fl_render env c,
          ar_Tasks = [], ar_Type = [], ar_Timestamp = t, ar_Doc_Type = ''collection'', ar_ID = i\<rparr>, w1))"

definition GetDocumentIdForCollection :: "string \<Rightarrow> string \<Rightarrow> string \<Rightarrow> string" where
  "GetDocumentIdForCollection session_id client_id doc_type =
     (if doc_type \<noteq> [] then client_id @ ''_'' @ session_id @ ''_'' @ doc_type
      else client_id @ ''_'' @ session_id)"

section \<open>Merging (flows.go)\<close>

definition is_running :: "flow_context \<Rightarrow> bool" where
  "is_running c \<longleftrightarrow> fc_State c \<noteq> FLOW_ERROR \<and> list_ex (\<lambda>s. qs_Status s = STATUS_PROGRESS) (fc_QueryStats c)"

definition newer :: "int \<Rightarrow> int \<Rightarrow> int" where
  "newer old new = (if new > 0 then new else old)"

definition mergeRecords :: "flow_context \<Rightarrow> flow_context \<Rightarrow> flow_context" where
  "mergeRecords c st =
     (let c1 = c
        \<lparr>fc_Request := (if fc_Request st \<noteq> None then fc_Request st else fc_Request c),
         fc_TotalUploadedFiles := newer (fc_TotalUploadedFiles c) (fc_TotalUploadedFiles st),
         fc_TotalExpectedUploadedBytes :=
           newer (fc_TotalExpectedUploadedBytes c) (fc_TotalExpectedUploadedBytes st),
         fc_TotalUploadedBytes := newer (fc_TotalUploadedBytes c) (fc_TotalUploadedBytes st),
         fc_TotalCollectedRows := newer (fc_TotalCollectedRows c) (fc_TotalCollectedRows st),
         fc_TotalLogs := newer (fc_TotalLogs c) (fc_TotalLogs st),
         fc_ActiveTime := newer (fc_ActiveTime c) (fc_ActiveTime st),
         fc_CreateTime := newer (fc_CreateTime c) (fc_CreateTime st)\<rparr>;
       c2 = (if fc_QueryStats st \<noteq> [] \<and>
                (fc_QueryStats c1 = [] \<or> is_running c1 \<and> \<not> is_running st)
             then c1\<lparr>fc_QueryStats := fc_QueryStats st\<rparr> else c1)
      in if fc_State st = FLOW_ERROR then c2\<lparr>fc_State := fc_State st, fc_Status := fc_Status st\<rparr> else c2)"

definition processIds :: "(string \<Rightarrow> string) \<Rightarrow> string list \<Rightarrow> string" where
  "processIds queryTemplate ids = Join '','' (map queryTemplate ids)"

section \<open>The index of flows (index.go)\<close>

definition collections_query :: "string \<Rightarrow> search_req" where
  "collections_query client_id = query_of
     (Must [Match ''doc_type'' (JStr ''collection''), Match ''client_id'' (JStr client_id)])"

text \<open>The loop over the documents: \<open>seen\<close> is a map from sessions to merged contexts.\<close>

definition index_step ::
  "'s flow_env \<Rightarrow> (string \<times> flow_context) list \<Rightarrow> json \<Rightarrow> (string \<times> flow_context) list" where
  "index_step env seen hit =
     (case bindR (decode_collection hit) (\<lambda>r. bindR (ToProto env r) (\<lambda>i. Inr (r, i))) of
        Inl e \<Rightarrow> seen
      | Inr (record, item) \<Rightarrow>
          (let existing = (case map_of seen (fc_SessionId item) of
                 Some r \<Rightarrow> r
               | None \<Rightarrow> empty_flow
                   \<lparr>fc_ClientId := ar_ClientId record, fc_SessionId := ar_SessionId record,
                    fc_State := fc_State item, fc_TotalRequests := fc_TotalRequests item,
                    fc_OutstandingRequests := fc_OutstandingRequests item\<rparr>)
           in AList.update (fc_SessionId item) (mergeRecords existing item) seen))"

text \<open>The map is walked in the order Go chooses and sorted by descending session id.\<close>

definition index_flows :: "'s flow_env \<Rightarrow> json list \<Rightarrow> flow_context list" where
  "index_flows env hits =
     (let seen = foldl (index_step env) [] hits;
          flows = concat (map (\<lambda>k. case map_of seen k of None \<Rightarrow> [] | Some c \<Rightarrow> [fl_stats env c])
                    (fl_order env (map fst seen)))
      in rev (sort_key fc_SessionId flows))"

text \<open>A row of the index: \<open>FlowSummary\<close> is its decoded form.\<close>

record flow_summary =
  fs_FlowId :: string
  fs_Artifacts :: "string list"
  fs_Created :: int
  fs_Creator :: string
  fs_Flow :: "flow_context option"

definition summary_row :: "'s flow_env \<Rightarrow> flow_context \<Rightarrow> json" where
  "summary_row env c =
     (let (artifacts, creator) = (case fc_Request c of
            Some r \<Rightarrow> (fq_Artifacts r, fq_Creator r)
          | None \<Rightarrow> (fc_ArtifactsWithResults c, []))
      in JObj [(''FlowId'', JStr (fc_SessionId c)), (''Artifacts'', jstrs artifacts),
               (''Created'', JInt (fc_StartTime c)), (''Creator'', JStr creator),
               (''_Flow'', fl_flow_json env c)])"

definition decode_summary :: "'s flow_env \<Rightarrow> json \<Rightarrow> flow_summary result" where
  "decode_summary env j =
     bindR (get_str ''FlowId'' j) (\<lambda>a1. bindR (get_strs ''Artifacts'' j) (\<lambda>a2.
     bindR (get_u64 ''Created'' j) (\<lambda>a3. bindR (get_str ''Creator'' j) (\<lambda>a4.
     bindR (case jget ''_Flow'' j of None \<Rightarrow> Inr None | Some JNull \<Rightarrow> Inr None
            | Some v \<Rightarrow> bindR (fl_flow_of env v) (\<lambda>c. Inr (Some c))) (\<lambda>a5.
       Inr \<lparr>fs_FlowId = a1, fs_Artifacts = a2, fs_Created = a3, fs_Creator = a4, fs_Flow = a5\<rparr>)))))"

text \<open>\<open>None\<close> is a run of the writer that did not return within the fuel.\<close>

definition buildIndex :: "'s flow_env \<Rightarrow> string \<Rightarrow> 's world \<Rightarrow> (go_error option \<times> 's world) option" where
  "buildIndex env client_id w =
     (let rs = fl_rs env
      in case QueryChan (rs_es rs) (fl_fuel env) 1000 (rs_org_id rs) TRANSIENT (collections_query client_id)
                ''timestamp'' (\<lambda>n. wd_store w) of
           Inl e \<Rightarrow> Some (Some e, w)
         | Inr hits \<Rightarrow>
             (case NewResultSetWriter rs (fl_index_path env client_id) True True w of
                (Inl e, w1) \<Rightarrow> Some (Some e, w1)
              | (Inr rw, w1) \<Rightarrow>
                  (case rs_Writes rs (fl_fuel env) (map (summary_row env) (index_flows env hits)) rw w1 of
                     None \<Rightarrow> None
                   | Some (rw2, w2) \<Rightarrow>
                       (case rs_Close rs (fl_fuel env) rw2 w2 of
                          None \<Rightarrow> None
                        | Some (rw3, w3) \<Rightarrow> Some (None, w3)))))"

definition WriteFlowIndex ::
  "'s flow_env \<Rightarrow> flow_context \<Rightarrow> 's world \<Rightarrow> (go_error option \<times> 's world) option" where
  "WriteFlowIndex env flow w = buildIndex env (fc_ClientId flow) w"

definition latest_flow_query :: "string \<Rightarrow> search_req" where
  "latest_flow_query client_id =
     (query_of (Must [Match ''client_id'' (JStr client_id), Match ''doc_type'' (JStr ''collection'')]))
       \<lparr>sq_sort := Some (''timestamp'', True), sq_size := Some 1\<rparr>"

fun view_TotalRows :: "'s flow_env \<Rightarrow> view \<Rightarrow> int" where
  "view_TotalRows env (BaseView r) = rd_TotalRows r"
| "view_TotalRows env (RangeView v a b) = fl_wrap_total env a b (view_TotalRows env v)"

fun view_lines :: "'s flow_env \<Rightarrow> view \<Rightarrow> int \<Rightarrow> 's world \<Rightarrow> string list result" where
  "view_lines env (BaseView r) row w = Inr (rd_JSON (fl_rs env) (fl_fuel env) (rd_SeekToRow row r) w)"
| "view_lines env (RangeView v a b) row w =
     bindR (view_lines env v 0 w) (\<lambda>ls. fl_wrap_lines env a b row ls)"

definition minute :: int where "minute = 60000000000"

definition min_cache_time :: "'s flow_env \<Rightarrow> int" where
  "min_cache_time env = (case fl_MinFlowCacheTimeMin env of
     None \<Rightarrow> minute | Some n \<Rightarrow> if n \<noteq> 0 then i64 (minute * n) else minute)"

definition shouldRebuildIndex :: "'s flow_env \<Rightarrow> string \<Rightarrow> view option \<Rightarrow> 's world \<Rightarrow> bool \<times> 's world" where
  "shouldRebuildIndex env client_id reader w =
     (case reader of
        None \<Rightarrow> (True, w)
      | Some v \<Rightarrow>
          if view_TotalRows env v \<le> 0 then (True, w)
          else (case Now (fl_rs env) w of (now, w1) \<Rightarrow>
            if now - view_MTime v < min_cache_time env then (False, w1)
            else (case GetElasticRecordByQuery (rs_es (fl_rs env)) (rs_org_id (fl_rs env)) TRANSIENT
                         (latest_flow_query client_id) (wd_store w1) of
                    Inl e \<Rightarrow> (False, w1)
                  | Inr None \<Rightarrow> (False, w1)
                  | Inr (Some hit) \<Rightarrow>
                      (case decode_collection hit of
                         Inl e \<Rightarrow> (True, w1)
                       | Inr item \<Rightarrow> (\<not> view_MTime v > ar_Timestamp item, w1)))))"

section \<open>Listing and loading (storage.go)\<close>

text \<open>
  \<open>\<open>_ListFlows\<close>\<close>: an error of the rebuild is answered with the text of the first error, which is
  absent when the index could be opened. At least one row is read, whatever the length asked
  for.
\<close>

definition no_options :: rs_options where
  "no_options = \<lparr>FilterColumn = [], FilterRegex = None, FilterExclude = False, SortColumn = [],
     SortAsc = False, StartIdx = 0, EndIdx = 0\<rparr>"

fun take_summaries :: "'s flow_env \<Rightarrow> int \<Rightarrow> string list \<Rightarrow> flow_summary list \<Rightarrow> flow_summary list" where
  "take_summaries env n [] acc = acc"
| "take_summaries env n (l # ls) acc =
     (let acc1 = (case unmarshal (fl_te env) l of
            None \<Rightarrow> acc
          | Some j \<Rightarrow> (case decode_summary env j of Inl e \<Rightarrow> acc | Inr s \<Rightarrow> acc @ [s]))
      in if int (length acc1) \<ge> n then acc1 else take_summaries env n ls acc1)"

definition open_index ::
  "'s flow_env \<Rightarrow> string \<Rightarrow> rs_options \<Rightarrow> 's world \<Rightarrow> view result \<times> 's world" where
  "open_index env client_id opts w =
     NewResultSetReaderWithOptions (fl_rs env) (fl_te env) (fl_fuel env) (fl_index_path env client_id) opts w"

definition read_index ::
  "'s flow_env \<Rightarrow> int \<Rightarrow> int \<Rightarrow> view result \<Rightarrow> 's world \<Rightarrow> (flow_summary list \<times> int) result" where
  "read_index env offset n reader w =
     (case reader of
        Inl e \<Rightarrow> Inr ([], 0)
      | Inr v \<Rightarrow>
          if view_TotalRows env v \<le> 0 then Inr ([], 0)
          else (case view_lines env v offset w of
                  Inl e \<Rightarrow> if e = EOF_err then Inr ([], 0) else Inl e
                | Inr ls \<Rightarrow> Inr (take_summaries env n ls [], view_TotalRows env v)))"

definition ListFlows_once ::
  "'s flow_env \<Rightarrow> string \<Rightarrow> rs_options \<Rightarrow> int \<Rightarrow> int \<Rightarrow> 's world
     \<Rightarrow> ((flow_summary list \<times> int) result \<times> 's world) option" where
  "ListFlows_once env client_id opts offset n w =
     (case open_index env client_id opts w of
        (r, w1) \<Rightarrow>
          (case (case r of Inl e \<Rightarrow> (True, w1) | Inr v \<Rightarrow> shouldRebuildIndex env client_id (Some v) w1) of
             (False, w2) \<Rightarrow> Some (read_index env offset n r w2, w2)
           | (True, w2) \<Rightarrow>
               (case buildIndex env client_id w2 of
                  None \<Rightarrow> None
                | Some (Some e1, w3) \<Rightarrow>
                    Some (Inl (Err (''buildIndex: '' @ (case r of Inl e \<Rightarrow> err_text e | Inr v \<Rightarrow> []))), w3)
                | Some (None, w3) \<Rightarrow>
                    (case open_index env client_id opts w3 of
                       (r2, w4) \<Rightarrow> Some (read_index env offset n r2 w4, w4)))))"

text \<open>The cache of the manager has the flows of a client by their ids.\<close>

type_synonym flow_cache = "(string \<times> flow_context option) list ttl_cache"

definition flow_ttl :: int where "flow_ttl = 5 * minute"

definition cache_Flush :: "flow_cache \<Rightarrow> flow_cache" where
  "cache_Flush c = ttl_purge c"

text \<open>Later rows of the same flow replace earlier ones in the cache item.\<close>

definition cache_item :: "flow_summary list \<Rightarrow> (string \<times> flow_context option) list" where
  "cache_item flows = foldl (\<lambda>m i. AList.update (fs_FlowId i) (fs_Flow i) m) [] flows"

definition ListFlows ::
  "'s flow_env \<Rightarrow> string \<Rightarrow> rs_options \<Rightarrow> int \<Rightarrow> int \<Rightarrow> flow_cache \<times> 's world
     \<Rightarrow> ((flow_summary list \<times> int) result \<times> flow_cache \<times> 's world) option" where
  "ListFlows env client_id opts offset n cw =
     (case ListFlows_once env client_id opts offset n (snd cw) of
        None \<Rightarrow> None
      | Some (Inl e, w1) \<Rightarrow> Some (Inl e, fst cw, w1)
      | Some (Inr (flows, tot), w1) \<Rightarrow>
          (case Now (fl_rs env) w1 of
             (now, w2) \<Rightarrow> Some (Inr (flows, tot), ttl_set flow_ttl now client_id (cache_item flows) (fst cw), w2)))"

definition cached_flow ::
  "(string \<times> flow_context option) list option \<Rightarrow> string \<Rightarrow> flow_context option result" where
  "cached_flow item flow_id =
     (case item of None \<Rightarrow> Inl NotFoundError
      | Some m \<Rightarrow> (case map_of m flow_id of None \<Rightarrow> Inl NotFoundError | Some hit \<Rightarrow> Inr hit))"

definition LoadCollectionContext ::
  "'s flow_env \<Rightarrow> string \<Rightarrow> string \<Rightarrow> flow_cache \<times> 's world
     \<Rightarrow> (flow_context option result \<times> flow_cache \<times> 's world) option" where
  "LoadCollectionContext env client_id flow_id cw =
     (if flow_id = [] \<or> client_id = [] then Some (Inr (Some empty_flow), cw)
      else case Now (fl_rs env) (snd cw) of
        (now, w1) \<Rightarrow>
          (case ttl_get now client_id (fst cw) of
             Some item \<Rightarrow> Some (cached_flow (Some item) flow_id, fst cw, w1)
           | None \<Rightarrow>
               (case ListFlows env client_id no_options 0 10000 (fst cw, w1) of
                  None \<Rightarrow> None
                | Some (Inl e, cw1) \<Rightarrow> Some (Inl e, cw1)
                | Some (Inr r, c1, w2) \<Rightarrow>
                    (case Now (fl_rs env) w2 of
                       (now2, w3) \<Rightarrow>
                         Some (cached_flow (ttl_get now2 client_id c1) flow_id, c1, w3)))))"

definition flow_details_query :: "string \<Rightarrow> string \<Rightarrow> search_req" where
  "flow_details_query client_id flow_id = query_of (Must [Match ''client_id'' (JStr client_id),
     Match ''session_id'' (JStr flow_id), Match ''doc_type'' (JStr ''collection'')])"

fun merge_collections :: "'s flow_env \<Rightarrow> json list \<Rightarrow> flow_context option \<Rightarrow> flow_context option result" where
  "merge_collections env [] acc = Inr acc"
| "merge_collections env (hit # hits) acc =
     (case decode_collection hit of
        Inl e \<Rightarrow> Inl e
      | Inr r \<Rightarrow> (case ToProto env r of
          Inl e \<Rightarrow> merge_collections env hits acc
        | Inr c \<Rightarrow> merge_collections env hits
            (Some (case acc of None \<Rightarrow> c | Some c0 \<Rightarrow> mergeRecords c0 c))))"

definition LoadCollectionContextSlow ::
  "'s flow_env \<Rightarrow> string \<Rightarrow> string \<Rightarrow> 's world \<Rightarrow> flow_context result" where
  "LoadCollectionContextSlow env client_id flow_id w =
     bindR (QueryChan (rs_es (fl_rs env)) (fl_fuel env) 1000 (rs_org_id (fl_rs env)) TRANSIENT
              (flow_details_query client_id flow_id) ''timestamp'' (\<lambda>n. wd_store w)) (\<lambda>hits.
     bindR (merge_collections env hits None) (\<lambda>c.
       case c of None \<Rightarrow> Inl (Err ''Not found'') | Some c \<Rightarrow> Inr (fl_stats env c)))"

section \<open>Writing flows and tasks (storage.go)\<close>

text \<open>
  The document id computed for a record is only a field of it: the documents get random ids.
  The completion is called whatever the outcome.
\<close>

definition WriteFlow :: "'s flow_env \<Rightarrow> flow_context \<Rightarrow> 's world \<Rightarrow> go_error option \<times> 's world" where
  "WriteFlow env flow w =
     (case ArtifactCollectorRecordFromProto env flow
             (GetDocumentIdForCollection (fc_ClientId flow) (fc_SessionId flow) []) w of
        (r, w1) \<Rightarrow>
          (case Now (fl_rs env) w1 of
             (t, w2) \<Rightarrow>
               (case SetElasticIndex (rs_es (fl_rs env)) (rs_org_id (fl_rs env)) TRANSIENT []
                       (encode_collection (r\<lparr>ar_Type := ''main'', ar_Timestamp := t\<rparr>)) (wd_store w2) of
                  (e, s) \<Rightarrow> (e, w2\<lparr>wd_store := s\<rparr>))))"

text \<open>The text form of a list of messages is the library's.\<close>

definition WriteTask ::
  "'s flow_env \<Rightarrow> ('m list \<Rightarrow> string) \<Rightarrow> ('m \<Rightarrow> string) \<Rightarrow> string \<Rightarrow> 'm \<Rightarrow> 's world \<Rightarrow> go_error option \<times> 's world"
where
  "WriteTask env render_msgs session_of client_id msg w =
     (case Now (fl_rs env) w of
        (t, w1) \<Rightarrow>
          (case SetElasticIndex (rs_es (fl_rs env)) (rs_org_id (fl_rs env)) TRANSIENT []
                  (encode_collection
                    \<lparr>ar_ClientId = client_id, ar_SessionId = session_of msg, ar_Raw = [],
                     ar_Tasks = render_msgs [msg], ar_Type = ''task'', ar_Timestamp = t,
                     ar_Doc_Type = ''task'',
                     ar_ID = GetDocumentIdForCollection client_id (session_of msg) ''task''\<rparr>)
                  (wd_store w1) of
             (e, s) \<Rightarrow> (e, w1\<lparr>wd_store := s\<rparr>)))"

definition flow_tasks_query :: "string \<Rightarrow> string \<Rightarrow> search_req" where
  "flow_tasks_query client_id flow_id =
     (query_of (Must [Match ''client_id'' (JStr client_id), Match ''session_id'' (JStr flow_id),
        Match ''doc_type'' (JStr ''task'')]))\<lparr>sq_sort := Some (''timestamp'', False)\<rparr>"

text \<open>
  Each document is decoded into the same record and the same message list: an absent field
  keeps the value of the document before, and \<open>parse_into\<close> is what decoding a text into a list
  that has content leaves in it. All documents have the type \<open>task\<close>, so the sort by type
  before the time stamp is left out of the request.
\<close>

fun decode_tasks ::
  "('m list \<Rightarrow> string \<Rightarrow> 'm list result) \<Rightarrow> json list \<Rightarrow> string \<Rightarrow> 'm list \<Rightarrow> 'm list result" where
  "decode_tasks parse_into [] tasks ms = Inr ms"
| "decode_tasks parse_into (hit # hits) tasks ms =
     (case decode_collection hit of
        Inl e \<Rightarrow> Inl e
      | Inr item \<Rightarrow>
          (let tasks1 = (if jget ''tasks'' hit = None then tasks else ar_Tasks item)
           in case parse_into ms tasks1 of
                Inl e \<Rightarrow> Inl e
              | Inr ms1 \<Rightarrow> decode_tasks parse_into hits tasks1 ms1))"

definition GetFlowRequests ::
  "'s flow_env \<Rightarrow> ('m list \<Rightarrow> string \<Rightarrow> 'm list result) \<Rightarrow> string \<Rightarrow> string \<Rightarrow> 's world \<Rightarrow> 'm list result"
where
  "GetFlowRequests env parse_into client_id flow_id w =
     (if flow_id = [] \<or> client_id = [] then Inr []
      else bindR (QueryElasticRaw (rs_es (fl_rs env)) (rs_org_id (fl_rs env)) TRANSIENT
                    (flow_tasks_query client_id flow_id) (wd_store w)) (\<lambda>(hits, n).
             if hits = [] then Inl (Err ''Not found'') else decode_tasks parse_into hits [] []))"

section \<open>Deleting a flow (delete.go)\<close>

text \<open>
  The library's part: the details of a flow, the paths of its result sets and of its uploads,
  and the removal of a file. The reporter collects one response for each deletion, or for each
  document that would be deleted.
\<close>

record delete_response =
  dr_Type :: string
  dr_Data :: json
  dr_Error :: string

record 's delete_env =
  de_GetFlowDetails :: "string \<Rightarrow> string \<Rightarrow> 's \<Rightarrow> flow_context option result"
  de_UploadMetadata :: "string \<Rightarrow> string \<Rightarrow> string"
  de_Log :: "string \<Rightarrow> string \<Rightarrow> string"
  de_ResultPath :: "string \<Rightarrow> string \<Rightarrow> string \<Rightarrow> string result"
  de_ClientPath :: "string \<Rightarrow> string"
  de_DeleteFile :: "string \<Rightarrow> 's \<Rightarrow> go_error option \<times> 's"

definition deletion_query :: "string \<Rightarrow> string \<Rightarrow> search_req" where
  "deletion_query k v = query_of (Must [Match k (JStr v)])"

type_synonym 's reporter = "delete_response list \<times> 's world"

definition target_row :: "string \<Rightarrow> string \<Rightarrow> string \<Rightarrow> json" where
  "target_row idx k v = JObj [(''index'', JStr idx), (k, JStr v)]"

definition really_delete ::
  "'s flow_env \<Rightarrow> string \<Rightarrow> string \<Rightarrow> string \<Rightarrow> string \<Rightarrow> 's reporter \<Rightarrow> 's reporter" where
  "really_delete env ty idx k v r =
     (case DeleteByQuery (rs_es (fl_rs env)) (rs_org_id (fl_rs env)) idx (deletion_query k v)
             (wd_store (snd r)) of
        (e, s) \<Rightarrow> (fst r @ [\<lparr>dr_Type = ty, dr_Data = target_row idx k v,
                     dr_Error = (case e of None \<Rightarrow> [] | Some err \<Rightarrow> err_text err)\<rparr>],
                   (snd r)\<lparr>wd_store := s\<rparr>))"

definition delete_index ::
  "'s flow_env \<Rightarrow> bool \<Rightarrow> string \<Rightarrow> string \<Rightarrow> string \<Rightarrow> string \<Rightarrow> 's reporter \<Rightarrow> 's reporter" where
  "delete_index env really ty idx k v r =
     (if really then really_delete env ty idx k v r
      else case QueryElasticRaw (rs_es (fl_rs env)) (rs_org_id (fl_rs env)) idx (deletion_query k v)
                  (wd_store (snd r)) of
             Inl e \<Rightarrow> (fst r @ [\<lparr>dr_Type = ty, dr_Data = target_row idx k v, dr_Error = err_text e\<rparr>], snd r)
           | Inr (hits, n) \<Rightarrow>
               (fst r @ map (\<lambda>hit. \<lparr>dr_Type = ty, dr_Data = hit, dr_Error = []\<rparr>) hits, snd r))"

text \<open>The uploads listed in the metadata; the error of a file ends the deletion.\<close>

fun delete_uploads ::
  "'s flow_env \<Rightarrow> 's delete_env \<Rightarrow> bool \<Rightarrow> json list \<Rightarrow> 's reporter \<Rightarrow> go_error option \<times> 's reporter" where
  "delete_uploads env de really [] r = (None, r)"
| "delete_uploads env de really (row # rows) r =
     (case jget ''vfs_path'' row of
        Some (JStr upload) \<Rightarrow>
          (let p = de_ClientPath de upload;
               r1 = delete_index env really ''Upload'' ''vfs'' ''vfs_path'' p r
           in if really then
                (case de_DeleteFile de p (wd_store (snd r1)) of
                   (Some e, s) \<Rightarrow> (Some e, fst r1, (snd r1)\<lparr>wd_store := s\<rparr>)
                 | (None, s) \<Rightarrow> delete_uploads env de really rows (fst r1, (snd r1)\<lparr>wd_store := s\<rparr>))
              else delete_uploads env de really rows r1)
      | _ \<Rightarrow> delete_uploads env de really rows r)"

fun delete_results ::
  "'s flow_env \<Rightarrow> 's delete_env \<Rightarrow> bool \<Rightarrow> string \<Rightarrow> string \<Rightarrow> string list \<Rightarrow> 's reporter \<Rightarrow> 's reporter" where
  "delete_results env de really client_id flow_id [] r = r"
| "delete_results env de really client_id flow_id (name # names) r =
     delete_results env de really client_id flow_id names
       (case de_ResultPath de client_id flow_id name of
          Inl e \<Rightarrow> r
        | Inr p \<Rightarrow> delete_index env really ''Result'' ''transient'' ''vfs_path'' p r)"

definition DeleteFlow ::
  "'s flow_env \<Rightarrow> 's delete_env \<Rightarrow> bool \<Rightarrow> string \<Rightarrow> string \<Rightarrow> 's world
     \<Rightarrow> delete_response list result \<times> 's world" where
  "DeleteFlow env de really client_id flow_id w =
     (case de_GetFlowDetails de client_id flow_id (wd_store w) of
        Inl e \<Rightarrow> (Inl e, w)
      | Inr None \<Rightarrow> (Inr [], w)
      | Inr (Some c) \<Rightarrow>
          (let meta = de_UploadMetadata de client_id flow_id;
               rows = (case NewResultSetReader (fl_rs env) meta w of
                         Inl e \<Rightarrow> []
                       | Inr rd \<Rightarrow> rd_Rows (fl_rs env) (unmarshal (fl_te env)) (fl_fuel env) rd w)
           in case delete_uploads env de really rows ([], w) of
                (Some e, r1) \<Rightarrow> (Inl e, snd r1)
              | (None, r1) \<Rightarrow>
                  (let r2 = delete_index env really ''UploadMetadata'' ''transient'' ''vfs_path'' meta r1;
                       r3 = delete_results env de really client_id flow_id (fc_ArtifactsWithResults c) r2;
                       r4 = delete_index env really ''Log'' ''transient'' ''vfs_path'' (de_Log de client_id flow_id) r3;
                       r5 = delete_index env really ''CollectionContext'' ''transient'' ''session_id'' flow_id r4;
                       r6 = delete_index env really ''Notebook'' ''persisted'' ''notebook_id''
                              (''N.'' @ flow_id @ ''-'' @ client_id) r5
                   in (Inr (fst r6), snd r6))))"

section \<open>Merging records\<close>

text \<open>The merge, field by field.\<close>

lemma mergeRecords_fields:
  "fc_ClientId (mergeRecords c st) = fc_ClientId c"
  "fc_SessionId (mergeRecords c st) = fc_SessionId c"
  "fc_Request (mergeRecords c st) = (if fc_Request st \<noteq> None then fc_Request st else fc_Request c)"
  "fc_State (mergeRecords c st) = (if fc_State st = FLOW_ERROR then FLOW_ERROR else fc_State c)"
  "fc_Status (mergeRecords c st) = (if fc_State st = FLOW_ERROR then fc_Status st else fc_Status c)"
  "fc_QueryStats (mergeRecords c st) =
     (if fc_QueryStats st \<noteq> [] \<and> (fc_QueryStats c = [] \<or> is_running c \<and> \<not> is_running st)
      then fc_QueryStats st else fc_QueryStats c)"
  "fc_TotalUploadedBytes (mergeRecords c st) = newer (fc_TotalUploadedBytes c) (fc_TotalUploadedBytes st)"
  "fc_TotalCollectedRows (mergeRecords c st) = newer (fc_TotalCollectedRows c) (fc_TotalCollectedRows st)"
  by (simp_all add: mergeRecords_def Let_def is_running_def)

text \<open>Whether a record is a completion: it has statistics and none of them is in progress.\<close>

definition completes :: "flow_context \<Rightarrow> bool" where
  "completes c \<longleftrightarrow> fc_QueryStats c \<noteq> [] \<and> \<not> list_ex (\<lambda>s. qs_Status s = STATUS_PROGRESS) (fc_QueryStats c)"

lemma merge_stats:
  assumes "\<forall>c \<in> set l. fc_State c \<noteq> FLOW_ERROR" and "fc_State c0 \<noteq> FLOW_ERROR"
  shows "fc_State (foldl mergeRecords c0 l) \<noteq> FLOW_ERROR \<and>
    fc_QueryStats (foldl mergeRecords c0 l) =
      (case find completes (c0 # l) of
         Some c \<Rightarrow> fc_QueryStats c
       | None \<Rightarrow> (case find (\<lambda>c. fc_QueryStats c \<noteq> []) (c0 # l) of Some c \<Rightarrow> fc_QueryStats c | None \<Rightarrow> []))"
  using assms
proof (induction l arbitrary: c0)
  case (Cons st l)
  let ?c = "mergeRecords c0 st"
  have err: "fc_State ?c \<noteq> FLOW_ERROR" using Cons.prems by (simp add: mergeRecords_fields)
  have run: "is_running c0 \<longleftrightarrow> fc_QueryStats c0 \<noteq> [] \<and> \<not> completes c0"
    "is_running st \<longleftrightarrow> fc_QueryStats st \<noteq> [] \<and> \<not> completes st"
    using Cons.prems by (auto simp: is_running_def completes_def list_ex_iff)
  have q: "fc_QueryStats ?c = (if completes c0 then fc_QueryStats c0 else if completes st then fc_QueryStats st
      else if fc_QueryStats c0 \<noteq> [] then fc_QueryStats c0 else fc_QueryStats st)"
    using run by (auto simp: mergeRecords_fields) (auto simp: completes_def)
  have c: "completes ?c \<longleftrightarrow> completes c0 \<or> completes st"
    unfolding completes_def q by (auto simp: completes_def)
  show ?case
    using Cons.IH [of ?c] Cons.prems err q c by (auto simp: completes_def split: option.split)
qed (auto simp: completes_def)

section \<open>The index\<close>

text \<open>The documents that decode, with the contexts in them, and the merge of one flow.\<close>

definition decoded :: "'s flow_env \<Rightarrow> json list \<Rightarrow> (collector_record \<times> flow_context) list" where
  "decoded env hits = concat (map (\<lambda>h.
     case bindR (decode_collection h) (\<lambda>r. bindR (ToProto env r) (\<lambda>i. Inr (r, i))) of
       Inl e \<Rightarrow> [] | Inr ri \<Rightarrow> [ri]) hits)"

definition first_context :: "collector_record \<times> flow_context \<Rightarrow> flow_context" where
  "first_context ri = empty_flow
     \<lparr>fc_ClientId := ar_ClientId (fst ri), fc_SessionId := ar_SessionId (fst ri),
      fc_State := fc_State (snd ri), fc_TotalRequests := fc_TotalRequests (snd ri),
      fc_OutstandingRequests := fc_OutstandingRequests (snd ri)\<rparr>"

definition merged_flow :: "'s flow_env \<Rightarrow> json list \<Rightarrow> string \<Rightarrow> flow_context option" where
  "merged_flow env hits f =
     (case filter (\<lambda>ri. fc_SessionId (snd ri) = f) (decoded env hits) of
        [] \<Rightarrow> None
      | ri # ris \<Rightarrow> Some (foldl mergeRecords (first_context ri) (map snd (ri # ris))))"

fun merge_items :: "flow_context option \<Rightarrow> (collector_record \<times> flow_context) list \<Rightarrow> flow_context option" where
  "merge_items acc [] = acc"
| "merge_items acc (ri # ris) = merge_items
     (Some (mergeRecords (case acc of None \<Rightarrow> first_context ri | Some c \<Rightarrow> c) (snd ri))) ris"

lemma merge_items_Some: "merge_items (Some c) ris = Some (foldl mergeRecords c (map snd ris))"
  by (induction ris arbitrary: c) simp_all

lemma index_seen:
  "map_of (foldl (index_step env) seen hits) f =
     merge_items (map_of seen f) (filter (\<lambda>ri. fc_SessionId (snd ri) = f) (decoded env hits))"
proof (induction hits arbitrary: seen)
  case (Cons h hits)
  let ?d = "bindR (decode_collection h) (\<lambda>r. bindR (ToProto env r) (\<lambda>i. Inr (r, i)))"
  have d: "decoded env (h # hits) = (case ?d of Inl e \<Rightarrow> [] | Inr ri \<Rightarrow> [ri]) @ decoded env hits"
    by (simp add: decoded_def)
  show ?case
  proof (cases ?d)
    case (Inl e)
    then show ?thesis using Cons.IH [of seen] by (simp add: d index_step_def)
  next
    case (Inr ri)
    then show ?thesis using Cons.IH [of "index_step env seen h"]
      by (cases ri; cases "map_of seen (fc_SessionId (snd ri))")
        (auto simp: d index_step_def Let_def update_conv' first_context_def)
  qed
qed (simp add: decoded_def)

lemma index_seen_merged: "map_of (foldl (index_step env) [] hits) f = merged_flow env hits f"
  by (simp add: index_seen merged_flow_def merge_items_Some split: list.split)

lemma index_seen_distinct: "distinct (map fst seen) \<Longrightarrow> distinct (map fst (foldl (index_step env) seen hits))"
  by (induction hits arbitrary: seen)
    (auto simp: index_step_def Let_def distinct_update split: sum.split prod.split)

lemma foldl_merge_session: "fc_SessionId (foldl mergeRecords c l) = fc_SessionId c"
  by (induction l arbitrary: c) (simp_all add: mergeRecords_fields)

definition sessions_agree :: "'s flow_env \<Rightarrow> json list \<Rightarrow> bool" where
  "sessions_agree env hits \<longleftrightarrow> (\<forall>ri \<in> set (decoded env hits). fc_SessionId (snd ri) = ar_SessionId (fst ri))"

lemma merged_session:
  assumes "sessions_agree env hits" and "merged_flow env hits f = Some c"
  shows "fc_SessionId c = f"
proof -
  obtain ri ris where l: "filter (\<lambda>ri. fc_SessionId (snd ri) = f) (decoded env hits) = ri # ris"
    and c: "c = foldl mergeRecords (first_context ri) (map snd (ri # ris))"
    using assms(2) by (auto simp: merged_flow_def split: list.splits)
  have "ri \<in> set (filter (\<lambda>ri. fc_SessionId (snd ri) = f) (decoded env hits))" using l by simp
  then show ?thesis using assms(1) 
    by (auto simp: c foldl_merge_session mergeRecords_fields first_context_def sessions_agree_def)
qed

text \<open>
  The index of a list of documents: one row for each flow, its contexts merged, in descending
  order of the session ids.
\<close>

lemma index_flows_rows:
  assumes order: "\<forall>ks. mset (fl_order env ks) = mset ks"
    and stats: "\<forall>c. fc_SessionId (fl_stats env c) = fc_SessionId c"
    and agree: "sessions_agree env hits"
  shows "sorted_wrt (>) (map fc_SessionId (index_flows env hits))"
    and "c \<in> set (index_flows env hits) \<longleftrightarrow>
           (\<exists>f c0. merged_flow env hits f = Some c0 \<and> c = fl_stats env c0)"
    and "length (index_flows env hits) \<le> length hits"
proof -
  define seen where "seen = foldl (index_step env) [] hits"
  define ks where "ks = fl_order env (map fst seen)"
  define fs where "fs = concat (map (\<lambda>k. case map_of seen k of None \<Rightarrow> [] | Some c \<Rightarrow> [fl_stats env c]) ks)"
  have ix: "index_flows env hits = rev (sort_key fc_SessionId fs)"
    by (simp add: index_flows_def Let_def seen_def ks_def fs_def)
  have seen: "map_of seen f = merged_flow env hits f" for f
    by (simp add: seen_def index_seen_merged)
  have d: "distinct (map fst seen)" by (simp add: seen_def index_seen_distinct)
  have ks: "set ks = dom (map_of seen)" "distinct ks"
    using order [rule_format, of "map fst seen"] d mset_eq_setD [of ks "map fst seen"]
      mset_eq_imp_distinct_iff [of ks "map fst seen"]
    by (auto simp: ks_def dom_map_of_conv_image_fst)
  have "map fc_SessionId (concat (map (\<lambda>k. case map_of seen k of None \<Rightarrow> [] | Some c \<Rightarrow> [fl_stats env c]) l)) =
      filter (\<lambda>k. map_of seen k \<noteq> None) l" for l
    using merged_session [OF agree] by (induction l) (auto simp: seen stats split: option.split)
  then have ids: "map fc_SessionId fs = filter (\<lambda>k. map_of seen k \<noteq> None) ks" by (simp add: fs_def)
  then have "distinct (map fc_SessionId fs)" using ks(2) by simp
  moreover have "mset (map fc_SessionId (sort_key fc_SessionId fs)) = mset (map fc_SessionId fs)" by simp
  ultimately have "distinct (map fc_SessionId (sort_key fc_SessionId fs))"
    using mset_eq_imp_distinct_iff by blast
  then have "sorted_wrt (<) (map fc_SessionId (sort_key fc_SessionId fs))"
    by (simp add: strict_sorted_iff)
  then show "sorted_wrt (>) (map fc_SessionId (index_flows env hits))"
    unfolding ix rev_map [symmetric] sorted_wrt_rev .
  show "c \<in> set (index_flows env hits) \<longleftrightarrow>
      (\<exists>f c0. merged_flow env hits f = Some c0 \<and> c = fl_stats env c0)"
    using ks(1) by (auto simp: ix fs_def seen dom_def split: option.splits; blast)
  have "length fs = length (filter (\<lambda>k. map_of seen k \<noteq> None) ks)" using ids by (metis length_map)
  also have "\<dots> \<le> length seen"
    using order [rule_format, of "map fst seen"] mset_eq_length [of ks "map fst seen"]
    by (metis ks_def length_filter_le length_map)
  also have "\<dots> \<le> length hits"
  proof -
    have "length (foldl (index_step env) m l) \<le> length m + length l" for m l
    proof (induction l arbitrary: m)
      case (Cons h l)
      have "length (AList.update k v m) \<le> Suc (length m)" for k v m
        by (induction m) auto
      then have "length (index_step env m h) \<le> Suc (length m)"
        by (auto simp: index_step_def Let_def split: sum.split)
      then show ?case using Cons.IH [of "index_step env m h"] by simp
    qed simp
    from this [of "[]" hits] show ?thesis by (simp add: seen_def)
  qed
  finally show "length (index_flows env hits) \<le> length hits" by (simp add: ix)
qed

section \<open>Reading the index back\<close>

text \<open>
  What the composition relies on: the healthy store and the advancing clock of the result
  sets, rows that encode to a line, the statistics keeping the id, an order that is one of the
  keys, and a wrapper without a range that delivers what is below it; and of the contexts in
  the index, that their rows and their JSON form decode again and that the start time has 64
  bits.
\<close>

definition flows_ok ::
  "'s flow_env \<Rightarrow> ('s \<Rightarrow> cluster \<Rightarrow> string \<Rightarrow> index_docs) \<Rightarrow> cluster \<Rightarrow> (json \<Rightarrow> string) \<Rightarrow> bool" where
  "flows_ok env docs cl enc \<longleftrightarrow>
     reliable_store (rs_es (fl_rs env)) docs \<and>
     GetElasticClient (rs_es (fl_rs env)) (rs_org_id (fl_rs env)) = Inr cl \<and>
     (\<forall>m n. m < n \<longrightarrow> rs_now (fl_rs env) m < rs_now (fl_rs env) n) \<and>
     (\<forall>row. rs_marshal (fl_rs env) row = Inr (enc row)) \<and>
     (\<forall>row. CHR ''\<newline>'' \<notin> set (enc row)) \<and>
     (\<forall>c. fc_SessionId (fl_stats env c) = fc_SessionId c) \<and>
     (\<forall>ks. mset (fl_order env ks) = mset ks) \<and>
     (\<forall>row ls. fl_wrap_lines env 0 0 row ls = Inr (drop (nat row) ls)) \<and>
     (\<forall>n. fl_wrap_total env 0 0 n = n)"

definition row_ok :: "'s flow_env \<Rightarrow> (json \<Rightarrow> string) \<Rightarrow> flow_context \<Rightarrow> bool" where
  "row_ok env enc c \<longleftrightarrow>
     unmarshal (fl_te env) (enc (summary_row env c) @ ''\<newline>'') = Some (summary_row env c) \<and>
     fl_flow_of env (fl_flow_json env c) = Inr c \<and> fl_flow_json env c \<noteq> JNull \<and> in_u64 (fc_StartTime c)"

lemma decode_summary_row:
  assumes "row_ok env enc c"
  shows "\<exists>s. decode_summary env (summary_row env c) = Inr s \<and> fs_FlowId s = fc_SessionId c \<and> fs_Flow s = Some c"
proof -
  have "fl_flow_of env (fl_flow_json env c) = Inr c" "fl_flow_json env c \<noteq> JNull"
    "0 \<le> fc_StartTime c" "fc_StartTime c < 2 ^ 64"
    using assms by (auto simp: row_ok_def in_u64_def)
  then show ?thesis
    by (cases "fc_Request c"; cases "fl_flow_json env c")
      (simp_all add: decode_summary_def summary_row_def get_str_def get_strs_def get_list_def get_u64_def
        get_int_def jstrs_def)
qed

lemma take_summaries_all:
  assumes "\<forall>c \<in> set cs. row_ok env enc c" and "length acc + length cs \<le> nat n" and "cs \<noteq> []"
  shows "\<exists>ss. take_summaries env n (map (\<lambda>c. enc (summary_row env c) @ ''\<newline>'') cs) acc = acc @ ss \<and>
    list_all2 (\<lambda>c s. fs_FlowId s = fc_SessionId c \<and> fs_Flow s = Some c) cs ss"
  using assms
proof (induction cs arbitrary: acc)
  case (Cons c cs)
  obtain s where s: "decode_summary env (summary_row env c) = Inr s" "fs_FlowId s = fc_SessionId c"
    "fs_Flow s = Some c"
    using decode_summary_row [of env enc c] Cons.prems(1) by auto
  have u: "unmarshal (fl_te env) (enc (summary_row env c) @ ''\<newline>'') = Some (summary_row env c)"
    using Cons.prems(1) by (simp add: row_ok_def)
  show ?case
  proof (cases "cs = []")
    case True
    then show ?thesis using s u by (intro exI [of _ "[s]"]) (simp add: Let_def)
  next
    case False
    then have "\<not> int (length (acc @ [s])) \<ge> n" using Cons.prems(2) by (cases cs) auto
    moreover obtain ss where "take_summaries env n (map (\<lambda>c. enc (summary_row env c) @ ''\<newline>'') cs) (acc @ [s]) =
        (acc @ [s]) @ ss" "list_all2 (\<lambda>c s. fs_FlowId s = fc_SessionId c \<and> fs_Flow s = Some c) cs ss"
      using Cons.IH [of "acc @ [s]"] Cons.prems False by auto
    ultimately show ?thesis using s u by (intro exI [of _ "s # ss"]) simp
  qed
qed simp

lemma cache_item_lookup:
  assumes "list_all2 (\<lambda>c s. fs_FlowId s = fc_SessionId c \<and> fs_Flow s = Some c) cs ss"
    and "distinct (map fc_SessionId cs)"
  shows "map_of (cache_item ss) f =
    (case find (\<lambda>c. fc_SessionId c = f) cs of None \<Rightarrow> None | Some c \<Rightarrow> Some (Some c))"
proof -
  have "map_of (foldl (\<lambda>m i. AList.update (fs_FlowId i) (fs_Flow i) m) m ss) f =
      (case find (\<lambda>c. fc_SessionId c = f) cs of None \<Rightarrow> map_of m f | Some c \<Rightarrow> Some (Some c))" for m
    using assms
  proof (induction cs ss arbitrary: m rule: list_all2_induct)
    case (Cons c cs s ss)
    have "find (\<lambda>d. fc_SessionId d = f) cs = None" if "fc_SessionId c = f"
      using Cons.prems that by (auto simp: find_None_iff) (metis image_eqI)
    then show ?case using Cons.IH [of "AList.update (fs_FlowId s) (fs_Flow s) m"] Cons.hyps(1) Cons.prems
      by (auto simp: update_conv' split: option.split)
  qed simp
  then show ?thesis by (simp add: cache_item_def split: option.split)
qed

text \<open>Opening the index without options gives a reader wrapped without a range.\<close>

lemma open_index_plain:
  "open_index env client_id no_options w =
     (case NewResultSetReader (fl_rs env) (fl_index_path env client_id) w of
        Inl e \<Rightarrow> (Inl e, w) | Inr rd \<Rightarrow> (Inr (RangeView (BaseView rd) 0 0), w))"
  by (simp add: open_index_def NewResultSetReaderWithOptions_def getFilteredReader_def
      getSortedReader_def no_options_def split: sum.split)

lemma read_index_stored:
  assumes ok: "flows_ok env docs cl enc" and P: "fl_index_path env client_id \<noteq> []"
    and st: "stores_rows (fl_index_path env client_id) V (map (\<lambda>c. enc (summary_row env c) @ ''\<newline>'') cs) md
      (all_docs (fl_rs env) docs cl w)"
    and cs: "\<forall>c \<in> set cs. row_ok env enc c" and n: "length cs \<le> 10000" "length cs < fl_fuel env"
  shows "\<exists>v ss. open_index env client_id no_options w = (Inr v, w) \<and>
    read_index env 0 10000 (Inr v) w = Inr (ss, int (length cs)) \<and>
    list_all2 (\<lambda>c s. fs_FlowId s = fc_SessionId c \<and> fs_Flow s = Some c) cs ss"
proof -
  let ?rows = "map (\<lambda>c. enc (summary_row env c) @ ''\<newline>'') cs"
  have rs: "reliable_store (rs_es (fl_rs env)) docs"
    "GetElasticClient (rs_es (fl_rs env)) (rs_org_id (fl_rs env)) = Inr cl"
    using ok by (simp_all add: flows_ok_def)
  have lines: "\<forall>l \<in> set ?rows. is_line l" using ok by (auto simp: is_line_def flows_ok_def)
  obtain rd where rd: "NewResultSetReader (fl_rs env) (fl_index_path env client_id) w = Inr rd"
    "rd_TotalRows rd = int (length ?rows)"
    "\<forall>k fuel. k \<le> length ?rows \<longrightarrow> length ?rows < fuel \<longrightarrow>
       rd_JSON (fl_rs env) fuel (rd_SeekToRow (int k) rd) w = drop k ?rows"
    using Reader_ok [OF rs P st lines] by blast
  have ls: "view_lines env (RangeView (BaseView rd) 0 0) 0 w = Inr ?rows"
    using rd(3) [rule_format, of 0 "fl_fuel env"] n(2) ok by (simp add: flows_ok_def)
  have tot: "view_TotalRows env (RangeView (BaseView rd) 0 0) = int (length cs)"
    using rd(2) ok by (simp add: flows_ok_def)
  obtain ss where ss: "cs \<noteq> [] \<Longrightarrow> take_summaries env 10000 ?rows [] = ss"
    "list_all2 (\<lambda>c s. fs_FlowId s = fc_SessionId c \<and> fs_Flow s = Some c) cs ss"
    using take_summaries_all [OF cs, of "[]" 10000] n(1) by (cases "cs = []") auto
  show ?thesis
    using rd(1) ls tot ss by (intro exI [of _ "RangeView (BaseView rd) 0 0"] exI [of _ ss])
      (auto simp: open_index_plain read_index_def)
qed

lemma distinct_map_sorted_gt: "sorted_wrt (>) (xs :: 'a :: linorder list) \<Longrightarrow> distinct xs"
  by (induction xs) auto

definition collection_docs ::
  "'s flow_env \<Rightarrow> ('s \<Rightarrow> cluster \<Rightarrow> string \<Rightarrow> index_docs) \<Rightarrow> cluster \<Rightarrow> string \<Rightarrow> 's world \<Rightarrow> index_docs" where
  "collection_docs env docs cl client_id w =
     filter (\<lambda>d. matches (sq_query (collections_query client_id)) (snd d)) (all_docs (fl_rs env) docs cl w)"

definition collection_hits ::
  "'s flow_env \<Rightarrow> ('s \<Rightarrow> cluster \<Rightarrow> string \<Rightarrow> index_docs) \<Rightarrow> cluster \<Rightarrow> string \<Rightarrow> 's world \<Rightarrow> json list" where
  "collection_hits env docs cl client_id w =
     map snd (sort_key (key_of ''timestamp'') (collection_docs env docs cl client_id w))"

text \<open>The documents can be walked in the order of their time stamps: each has its own.\<close>

definition walkable :: "'s flow_env \<Rightarrow> index_docs \<Rightarrow> bool" where
  "walkable env L \<longleftrightarrow> distinct (map (key_of ''timestamp'') L) \<and>
     (\<forall>d \<in> set L. jget ''timestamp'' (snd d) \<noteq> None) \<and> length L < fl_fuel env"

lemma buildIndex_stores:
  assumes ok: "flows_ok env docs cl enc" and walk: "walkable env (collection_docs env docs cl client_id w)"
    and fresh: "packets_of (fl_index_path env client_id) (rs_guid (fl_rs env) (wd_guids w))
      (all_docs (fl_rs env) docs cl w) = []"
    and older: "\<forall>x \<in> set (mds_of (fl_index_path env client_id) (all_docs (fl_rs env) docs cl w)).
      key_of ''timestamp'' x < KInt (rs_now (fl_rs env) (wd_ticks w))"
    and cs: "cs = index_flows env (collection_hits env docs cl client_id w)"
  shows "\<exists>w1 (rw :: rs_writer). buildIndex env client_id w = Some (None, w1) \<and>
    stores_rows (fl_index_path env client_id) (rw_version rw)
      (map (\<lambda>c. enc (summary_row env c) @ ''\<newline>'') cs) (rw_md rw) (all_docs (fl_rs env) docs cl w1)"
proof -
  note okD = ok [unfolded flows_ok_def]
  have rs: "reliable_store (rs_es (fl_rs env)) docs"
    "GetElasticClient (rs_es (fl_rs env)) (rs_org_id (fl_rs env)) = Inr cl"
    and m: "\<And>row. rs_marshal (fl_rs env) row = Inr (enc row)"
    and mono: "\<And>m n. m < n \<Longrightarrow> rs_now (fl_rs env) m < rs_now (fl_rs env) n" using okD by simp_all
  note walk = walk [unfolded walkable_def, THEN conjunct1] walk [unfolded walkable_def, THEN conjunct2, THEN conjunct1]
    walk [unfolded walkable_def, THEN conjunct2, THEN conjunct2]
  obtain k where k: "fl_fuel env = Suc k" using walk(3) by (cases "fl_fuel env") auto
  have L: "collection_docs env docs cl client_id w = match_docs (sq_query (collections_query client_id))
      (docs (wd_store w) cl (GetIndex (rs_org_id (fl_rs env)) TRANSIENT))"
    by (simp add: collection_docs_def all_docs_def match_docs_def)
  have q: "QueryChan (rs_es (fl_rs env)) (fl_fuel env) 1000 (rs_org_id (fl_rs env)) TRANSIENT
      (collections_query client_id) ''timestamp'' (\<lambda>n. wd_store w) =
      Inr (collection_hits env docs cl client_id w)"
    unfolding collection_hits_def
    by (rule QueryChan_complete [where docs = docs and s = "wd_store w", OF _ rs(2) _ _ _ L walk(1,2) _ _ _ walk(3)])
      (use rs(1) in \<open>simp_all add: reliable_store_def collections_query_def query_of_def\<close>)
  obtain rw0 w0 where new: "NewResultSetWriter (fl_rs env) (fl_index_path env client_id) True True w = (Inr rw0, w0)"
    "writer_ok (fl_rs env) docs cl (fl_index_path env client_id) rw0 w0 [] []"
    using New_trunc [OF rs mono fresh older] by blast
  obtain rw w1 where run: "rs_session (fl_rs env) (Suc k) (fl_index_path env client_id) True
      (map (summary_row env) cs) w = Some (rw, w1)"
    "writer_ok (fl_rs env) docs cl (fl_index_path env client_id) rw w1
      ([] @ map (\<lambda>r. enc r @ ''\<newline>'') (map (summary_row env) cs)) []"
    using session_from [OF rs mono m new] by blast
  have "buildIndex env client_id w = Some (None, w1)"
    using run(1) new(1) q by (auto simp: buildIndex_def Let_def rs_session_def k cs split: option.splits)
  then show ?thesis using run(2)
    by (intro exI [of _ w1] exI [of _ rw]) (simp add: writer_ok_def comp_def)
qed

lemma find_session:
  assumes "\<And>c. c \<in> set cs \<longleftrightarrow> (\<exists>f c0. merged_flow env hits f = Some c0 \<and> c = fl_stats env c0)"
    and "\<And>f c0. merged_flow env hits f = Some c0 \<Longrightarrow> fc_SessionId (fl_stats env c0) = f"
  shows "find (\<lambda>c. fc_SessionId c = f) cs =
    (case merged_flow env hits f of None \<Rightarrow> None | Some c0 \<Rightarrow> Some (fl_stats env c0))"
proof (cases "merged_flow env hits f")
  case None
  then show ?thesis using assms by (fastforce simp: find_None_iff)
next
  case (Some c0)
  then have "fl_stats env c0 \<in> set cs" "fc_SessionId (fl_stats env c0) = f" using assms by auto
  then obtain c where c: "find (\<lambda>c. fc_SessionId c = f) cs = Some c"
    by (cases "find (\<lambda>c. fc_SessionId c = f) cs") (auto simp: find_None_iff)
  then have "c \<in> set cs" "fc_SessionId c = f" by (auto simp: find_Some_iff)
  then have "c = fl_stats env c0" using assms Some by (metis option.inject)
  then show ?thesis using c Some by simp
qed

section \<open>Properties\<close>


text \<open>
  C27. Completion messages win: when no record of a flow is an error, the statistics of the
  merge are those of its first record whose queries have all ended, whatever came before and
  after it, and else those of the first record that has any; so the merge is complete exactly
  when some record is, in every order of the records.
\<close>

theorem completion_replaces_progress:
  assumes "\<forall>c \<in> set l. fc_State c \<noteq> FLOW_ERROR" and "fc_State c0 \<noteq> FLOW_ERROR" and "fc_QueryStats c0 = []"
  shows "fc_QueryStats (foldl mergeRecords c0 l) =
      (case find completes l of
         Some c \<Rightarrow> fc_QueryStats c
       | None \<Rightarrow> (case find (\<lambda>c. fc_QueryStats c \<noteq> []) l of Some c \<Rightarrow> fc_QueryStats c | None \<Rightarrow> [])) \<and>
    (completes (foldl mergeRecords c0 l) \<longleftrightarrow> (\<exists>c \<in> set l. completes c))"
proof -
  have c0: "\<not> completes c0" using assms(3) by (simp add: completes_def)
  have q: "fc_QueryStats (foldl mergeRecords c0 l) =
      (case find completes l of
         Some c \<Rightarrow> fc_QueryStats c
       | None \<Rightarrow> (case find (\<lambda>c. fc_QueryStats c \<noteq> []) l of Some c \<Rightarrow> fc_QueryStats c | None \<Rightarrow> []))"
    using merge_stats [OF assms(1,2)] c0 assms(3) by (simp split: option.split)
  show ?thesis
  proof (cases "find completes l")
    case None
    then have n: "\<not> completes c" if "c \<in> set l" for c using that by (auto simp: find_None_iff)
    have "\<not> completes (foldl mergeRecords c0 l)"
    proof (cases "find (\<lambda>c. fc_QueryStats c \<noteq> []) l")
      case (Some c)
      then have "c \<in> set l" by (auto simp: find_Some_iff)
      then show ?thesis using q None Some n [of c] by (simp add: completes_def)
    qed (use q \<open>find completes l = None\<close> in \<open>simp add: completes_def\<close>)
    then show ?thesis using q n by blast
  next
    case (Some c)
    then have "c \<in> set l" "completes c" by (auto simp: find_Some_iff)
    then show ?thesis using q Some by (auto simp: completes_def)
  qed
qed

text \<open>Records as the client sends them: a query in progress, an ended one, an error without statistics.\<close>

definition progress_record :: flow_context where
  "progress_record = empty_flow\<lparr>fc_SessionId := ''F.1'',
     fc_QueryStats := [\<lparr>qs_Status = STATUS_PROGRESS, qs_Other = JNull\<rparr>]\<rparr>"

definition completed_record :: flow_context where
  "completed_record = empty_flow\<lparr>fc_SessionId := ''F.1'',
     fc_QueryStats := [\<lparr>qs_Status = STATUS_other 1, qs_Other = JNull\<rparr>]\<rparr>"

theorem completion_replaces_progress_witness:
  "completes (foldl mergeRecords empty_flow [progress_record, completed_record, progress_record])"
  using completion_replaces_progress [of "[progress_record, completed_record, progress_record]" empty_flow]
  by (simp add: progress_record_def completed_record_def empty_flow_def completes_def)

text \<open>
  An error record breaks this: once a record in the error state has been merged the flow
  does not count as running, so when the statistics before it were in progress those of a
  completion after it are dropped, while a completion merged before it is kept.
\<close>

theorem error_record_freezes_progress:
  assumes "fc_QueryStats p \<noteq> []" and "\<not> completes p" and "fc_State p \<noteq> FLOW_ERROR"
    and "fc_State e = FLOW_ERROR" and "fc_QueryStats e = []" and "completes d" and "fc_State d \<noteq> FLOW_ERROR"
    and "fc_State c0 \<noteq> FLOW_ERROR" and "fc_QueryStats c0 = []"
  shows "fc_QueryStats (foldl mergeRecords c0 [p, e, d]) = fc_QueryStats p \<and>
    fc_QueryStats (foldl mergeRecords c0 [p, d, e]) = fc_QueryStats d"
  using assms by (auto simp: mergeRecords_fields is_running_def completes_def)

theorem error_record_freezes_progress_witness:
  "fc_QueryStats (foldl mergeRecords empty_flow
     [progress_record, empty_flow\<lparr>fc_State := FLOW_ERROR\<rparr>, completed_record]) = fc_QueryStats progress_record"
  using error_record_freezes_progress [of progress_record "empty_flow\<lparr>fc_State := FLOW_ERROR\<rparr>" completed_record
      empty_flow]
  by (simp add: progress_record_def completed_record_def empty_flow_def completes_def)

lemma delete_index_dry: "snd (delete_index env False ty idx k v r) = snd r"
  by (simp add: delete_index_def split: sum.split prod.split)

lemma delete_uploads_dry:
  "fst (delete_uploads env de False rows r) = None \<and> snd (snd (delete_uploads env de False rows r)) = snd r"
  by (induction rows arbitrary: r)
    (auto simp: Let_def delete_index_dry split: option.split json.split)

lemma delete_results_dry: "snd (delete_results env de False c f names r) = snd r"
  by (induction names arbitrary: r) (auto simp: delete_index_dry split: sum.split)

text \<open>
  Looking at what a deletion would remove removes nothing: without \<open>ReallyDoIt\<close> the
  deletion of a flow leaves the store and the files as they are and ends without an error of
  its own once the details of the flow are known.
\<close>

theorem dry_run_deletes_nothing:
  "snd (DeleteFlow env de False client_id flow_id w) = w \<and>
   (case fst (DeleteFlow env de False client_id flow_id w) of
      Inl e \<Rightarrow> de_GetFlowDetails de client_id flow_id (wd_store w) = Inl e | Inr responses \<Rightarrow> True)"
proof -
  have "fst (delete_uploads env de False rows ([], w)) = None"
    "snd (snd (delete_uploads env de False rows ([], w))) = w" for rows
    using delete_uploads_dry [of env de rows "([], w)"] by simp_all
  then have up: "\<exists>r. delete_uploads env de False rows ([], w) = (None, r, w)" for rows
    by (metis prod.collapse)
  show ?thesis
  proof (cases "de_GetFlowDetails de client_id flow_id (wd_store w)")
    case (Inr details)
    show ?thesis
    proof (cases details)
      case (Some c)
      let ?rows = "case NewResultSetReader (fl_rs env) (de_UploadMetadata de client_id flow_id) w of
          Inl e \<Rightarrow> [] | Inr rd \<Rightarrow> rd_Rows (fl_rs env) (unmarshal (fl_te env)) (fl_fuel env) rd w"
      obtain r where "delete_uploads env de False ?rows ([], w) = (None, r, w)" using up by blast
      then show ?thesis
        by (simp add: DeleteFlow_def Let_def Inr Some delete_index_dry delete_results_dry)
    qed (simp add: DeleteFlow_def Inr)
  qed (simp add: DeleteFlow_def)
qed

lemma latest_flow_hit:
  assumes "search_contract (rs_es (fl_rs env)) docs"
    and "GetElasticClient (rs_es (fl_rs env)) (rs_org_id (fl_rs env)) = Inr cl"
    and "collection_docs env docs cl client_id w = L" and "L \<noteq> []"
  shows "\<exists>d \<in> set L. GetElasticRecordByQuery (rs_es (fl_rs env)) (rs_org_id (fl_rs env)) TRANSIENT
      (latest_flow_query client_id) (wd_store w) = Inr (Some (snd d)) \<and>
    (\<forall>x \<in> set L. key_of ''timestamp'' x \<le> key_of ''timestamp'' d)"
proof -
  let ?q = "latest_flow_query client_id"
  let ?ds = "docs (wd_store w) cl (GetIndex (rs_org_id (fl_rs env)) TRANSIENT)"
  let ?S = "sort_key (key_of ''timestamp'') (rev L)"
  have L: "filter (\<lambda>d. matches (sq_query ?q) (snd d)) ?ds = L"
    using assms(3) by (simp add: collection_docs_def all_docs_def latest_flow_query_def
        collections_query_def query_of_def conj_commute)
  have ne: "?S \<noteq> []" using assms(4) by (metis length_0_conv length_rev length_sort)
  have hits: "search_hits ?q ?ds = [last ?S]"
    using ne unfolding search_hits_def L
    by (simp add: latest_flow_query_def query_of_def sorted_hits_def after_hits_def)
      (simp add: take_Suc hd_rev)
  have "sq_source ?q" by (simp add: latest_flow_query_def query_of_def)
  then obtain tx where "os_Search (rs_es (fl_rs env)) cl (GetIndex (rs_org_id (fl_rs env)) TRANSIENT) ?q (wd_store w) =
      Inr \<lparr>rp_IsError = False, rp_text = tx, rp_json = Some (render_hits [last ?S] (length L))\<rparr>"
    using assms(1) L hits unfolding search_contract_def by metis
  then have "GetElasticRecordByQuery (rs_es (fl_rs env)) (rs_org_id (fl_rs env)) TRANSIENT ?q (wd_store w) =
      Inr (Some (snd (last ?S)))"
    using assms(2,4) by (simp add: GetElasticRecordByQuery_def decode_render split_def)
  moreover have "last ?S \<in> set L" using ne by (metis last_in_set set_rev set_sort)
  moreover have "key_of ''timestamp'' x \<le> key_of ''timestamp'' (last ?S)" if "x \<in> set L" for x
    using sort_key_last_max [of x "rev L"] that by simp
  ultimately show ?thesis by blast
qed

text \<open>
  An index that is kept is either younger than the cache time or newer than every document
  of the client's flows.
\<close>

theorem kept_index_is_fresh:
  assumes "search_contract (rs_es (fl_rs env)) docs"
    and "GetElasticClient (rs_es (fl_rs env)) (rs_org_id (fl_rs env)) = Inr cl"
    and "shouldRebuildIndex env client_id (Some v) w = (False, w1)"
    and "\<forall>d \<in> set (collection_docs env docs cl client_id w). snd d \<in> range encode_collection"
  shows "rs_now (fl_rs env) (wd_ticks w) - view_MTime v < min_cache_time env \<or>
    (\<forall>d \<in> set (collection_docs env docs cl client_id w). key_of ''timestamp'' d < KInt (view_MTime v))"
proof (rule disjCI)
  assume fresh: "\<not> (\<forall>d \<in> set (collection_docs env docs cl client_id w). key_of ''timestamp'' d < KInt (view_MTime v))"
  let ?w = "w\<lparr>wd_ticks := Suc (wd_ticks w)\<rparr>"
  let ?L = "collection_docs env docs cl client_id w"
  have L: "collection_docs env docs cl client_id ?w = ?L" by (simp add: collection_docs_def all_docs_def)
  have "?L \<noteq> []" using fresh by auto
  then obtain d where d: "d \<in> set ?L" "GetElasticRecordByQuery (rs_es (fl_rs env)) (rs_org_id (fl_rs env))
      TRANSIENT (latest_flow_query client_id) (wd_store w) = Inr (Some (snd d))"
    "\<forall>x \<in> set ?L. key_of ''timestamp'' x \<le> key_of ''timestamp'' d"
    using latest_flow_hit [OF assms(1,2) L] by auto
  obtain r where r: "snd d = encode_collection r" using assms(4) d(1) by blast
  then have k: "key_of ''timestamp'' d = KInt (ar_Timestamp r)" by (simp add: key_of_def)
  obtain x where x: "x \<in> set ?L" "\<not> key_of ''timestamp'' x < KInt (view_MTime v)" using fresh by blast
  then have "KInt (view_MTime v) \<le> key_of ''timestamp'' x" by (simp add: not_less)
  also have "\<dots> \<le> KInt (ar_Timestamp r)" using d(3) x(1) k by metis
  finally have "\<not> ar_Timestamp r < view_MTime v" by simp
  then show "rs_now (fl_rs env) (wd_ticks w) - view_MTime v < min_cache_time env"
    using assms(3) d(2) r
    by (auto simp: shouldRebuildIndex_def Now_def decode_encode_collection split: if_splits)
qed

section \<open>An example client\<close>

text \<open>A client with one flow that has two documents, and no index yet.\<close>

definition sample_parse :: "string \<Rightarrow> flow_context result" where
  "sample_parse raw = (if raw = ''p'' then Inr progress_record else if raw = ''d'' then Inr completed_record
     else Inl (Err raw))"

definition loaded_flow :: flow_context where
  "loaded_flow = completed_record\<lparr>fc_ClientId := ''C.1''\<rparr>"

definition loaded_row :: json where
  "loaded_row = JObj [(''FlowId'', JStr ''F.1''), (''Artifacts'', JList []), (''Created'', JInt 0),
     (''Creator'', JStr []), (''_Flow'', JStr ''m'')]"

definition sample_flow_env :: "mem_es_state flow_env" where
  "sample_flow_env =
     \<lparr>fl_rs = sample_rs_env,
      fl_te = \<lparr>unmarshal = (\<lambda>l. if l = ''row'' @ ''\<newline>'' then Some loaded_row else None),
               wrap_rows = (\<lambda>a b rows. rows), merge_sort = (\<lambda>c asc rows. rows), itoa = (\<lambda>n. []),
               timed_out = (\<lambda>n. False)\<rparr>,
      fl_fuel = 9, fl_parse = sample_parse, fl_render = (\<lambda>c. []), fl_stats = (\<lambda>c. c),
      fl_flow_json = (\<lambda>c. JStr ''m''), fl_flow_of = (\<lambda>j. Inr loaded_flow),
      fl_index_path = (\<lambda>c. ''/index/'' @ c), fl_order = rev,
      fl_wrap_lines = (\<lambda>a b row ls. Inr (drop (nat row) ls)), fl_wrap_total = (\<lambda>a b n. n),
      fl_MinFlowCacheTimeMin = None\<rparr>"

definition sample_collection :: "string \<Rightarrow> int \<Rightarrow> json" where
  "sample_collection raw t = encode_collection
     \<lparr>ar_ClientId = ''C.1'', ar_SessionId = ''F.1'', ar_Raw = raw, ar_Tasks = [], ar_Type = ''main'',
      ar_Timestamp = t, ar_Doc_Type = ''collection'', ar_ID = ''C.1_F.1''\<rparr>"

definition sample_flow_world :: "mem_es_state world" where
  "sample_flow_world = sample_world
     \<lparr>wd_store := [(''transient'', [(''a'', sample_collection ''d'' 20), (''b'', sample_collection ''p'' 10)])]\<rparr>"

abbreviation sample_flow_docs :: "mem_es_state \<Rightarrow> cluster \<Rightarrow> string \<Rightarrow> index_docs" where
  "sample_flow_docs \<equiv> \<lambda>st c idx. mem_docs st idx"

lemma sample_flows_ok: "flows_ok sample_flow_env sample_flow_docs PrimaryOpenSearch (\<lambda>row. case row of
    JInt n \<Rightarrow> if n = 1 then ''one'' else ''other'' | _ \<Rightarrow> ''row'')"
  using mem_reliable
  by (auto simp: flows_ok_def sample_flow_env_def sample_rs_env_def split: json.split)

lemma sample_hits:
  "collection_hits sample_flow_env sample_flow_docs PrimaryOpenSearch ''C.1'' sample_flow_world =
     [sample_collection ''p'' 10, sample_collection ''d'' 20]"
  by code_simp

lemma sample_collection_docs:
  "collection_docs sample_flow_env sample_flow_docs PrimaryOpenSearch ''C.1'' sample_flow_world =
     [(''a'', sample_collection ''d'' 20), (''b'', sample_collection ''p'' 10)]"
  by code_simp

lemma sample_decoded:
  "decoded sample_flow_env [sample_collection ''p'' 10, sample_collection ''d'' 20] =
     map (\<lambda>(raw, t, c). (\<lparr>ar_ClientId = ''C.1'', ar_SessionId = ''F.1'', ar_Raw = raw, ar_Tasks = [],
        ar_Type = ''main'', ar_Timestamp = t, ar_Doc_Type = ''collection'', ar_ID = ''C.1_F.1''\<rparr>,
        c\<lparr>fc_ClientId := ''C.1''\<rparr>)) [(''p'', 10, progress_record), (''d'', 20, completed_record)]"
  by (simp add: decoded_def sample_collection_def decode_encode_collection ToProto_def sample_flow_env_def
      sample_parse_def progress_record_def completed_record_def empty_flow_def Let_def)

lemma sample_merged: "merged_flow sample_flow_env [sample_collection ''p'' 10, sample_collection ''d'' 20] f =
    (if f = ''F.1'' then Some loaded_flow else None)"
  by (simp add: merged_flow_def sample_decoded loaded_flow_def progress_record_def completed_record_def
      empty_flow_def first_context_def mergeRecords_def is_running_def newer_def)

lemma sample_index: "index_flows sample_flow_env [sample_collection ''p'' 10, sample_collection ''d'' 20] =
    [loaded_flow]"
  by code_simp

lemma no_index_yet:
  "case NewResultSetReader (fl_rs sample_flow_env) (fl_index_path sample_flow_env ''C.1'')
     (sample_flow_world\<lparr>wd_ticks := Suc (wd_ticks sample_flow_world)\<rparr>) of
     Inl e \<Rightarrow> True | Inr rd \<Rightarrow> rd_TotalRows rd \<le> 0"
  "packets_of (fl_index_path sample_flow_env ''C.1'')
     (rs_guid (fl_rs sample_flow_env) (wd_guids sample_flow_world))
     (all_docs (fl_rs sample_flow_env) sample_flow_docs PrimaryOpenSearch sample_flow_world) = []"
  "mds_of (fl_index_path sample_flow_env ''C.1'')
     (all_docs (fl_rs sample_flow_env) sample_flow_docs PrimaryOpenSearch sample_flow_world) = []"
  by code_simp+


text \<open>An index written at second 30, looked at when the last document is of second 20.\<close>

definition sample_index_view :: view where
  "sample_index_view = BaseView \<lparr>rd_row = 0, rd_base = NewSimpleResultSetRecord [] [], rd_mtime = 30,
     rd_md = \<lparr>md_Timestamp = 30, md_VFSPath = [], md_ID = [], md_EndRow = 1, md_TotalRows = 0, md_Type = []\<rparr>,
     rd_stacker = None\<rparr>"

lemma sample_kept:
  "case shouldRebuildIndex (sample_flow_env\<lparr>fl_rs := sample_rs_env\<lparr>rs_now := (\<lambda>n. 90000000000)\<rparr>\<rparr>) ''C.1''
      (Some sample_index_view) sample_flow_world of (b, w) \<Rightarrow> \<not> b"
  by code_simp

theorem kept_index_is_fresh_witness:
  "key_of ''timestamp'' (''a'', sample_collection ''d'' 20) < KInt 30 \<and>
   key_of ''timestamp'' (''b'', sample_collection ''p'' 10) < KInt 30"
proof -
  let ?e = "sample_flow_env\<lparr>fl_rs := sample_rs_env\<lparr>rs_now := (\<lambda>n. 90000000000)\<rparr>\<rparr>"
  obtain w1 where k: "shouldRebuildIndex ?e ''C.1'' (Some sample_index_view) sample_flow_world = (False, w1)"
    using sample_kept by (auto split: prod.splits)
  have L: "collection_docs ?e sample_flow_docs PrimaryOpenSearch ''C.1'' sample_flow_world =
      [(''a'', sample_collection ''d'' 20), (''b'', sample_collection ''p'' 10)]"
    by code_simp
  have es: "rs_es (fl_rs ?e) = mem_es" by (simp add: sample_rs_env_def)
  have "min_cache_time ?e = 60000000000" by (simp add: min_cache_time_def sample_flow_env_def minute_def)
  moreover have "search_contract mem_es sample_flow_docs" using mem_search_contract by simp
  ultimately show ?thesis
    using kept_index_is_fresh [of ?e sample_flow_docs PrimaryOpenSearch "''C.1''" sample_index_view
        sample_flow_world w1, unfolded es L, OF _ _ k]
    by (auto simp: sample_collection_def sample_index_view_def rd_MTime_def)
qed

end
