(* ===== verification/HuntStats.thy ===== *)
theory HuntStats
  imports Clients
begin

text \<open>
  The statistics of hunts (\<open>ingestion/services/hunts.go\<close>): increments of many threads are
  collected in an updater per hunt, which a cache of one second hands out and flushes into
  the record of the hunt when its entry expires.
\<close>

section \<open>The updater\<close>

record stats_updater =
  su_hunt_id :: string
  su_scheduled :: "64 word"
  su_errors :: "64 word"
  su_completed :: "64 word"

definition new_updater :: "string \<Rightarrow> stats_updater" where
  "new_updater h = \<lparr>su_hunt_id = h, su_scheduled = 0, su_errors = 0, su_completed = 0\<rparr>"

definition IncScheduled :: "stats_updater \<Rightarrow> stats_updater" where
  "IncScheduled u = u\<lparr>su_scheduled := su_scheduled u + 1\<rparr>"

definition IncError :: "stats_updater \<Rightarrow> stats_updater" where
  "IncError u = u\<lparr>su_errors := su_errors u + 1\<rparr>"

definition IncCompleted :: "stats_updater \<Rightarrow> stats_updater" where
  "IncCompleted u = u\<lparr>su_completed := su_completed u + 1\<rparr>"

text \<open>The script throws when a field it adds to is not a number.\<close>

definition add_field :: "string \<Rightarrow> int \<Rightarrow> json \<Rightarrow> json option" where
  "add_field f n d = (case jget f d of Some (JInt a) \<Rightarrow> Some (jset f (JInt (a + n)) d) | _ \<Rightarrow> None)"

definition updatedPainlessQuery :: "int \<Rightarrow> int \<Rightarrow> int \<Rightarrow> json \<Rightarrow> json option" where
  "updatedPainlessQuery scheduled completed errors d =
     (case add_field ''scheduled'' scheduled d of None \<Rightarrow> None
      | Some d1 \<Rightarrow> (case add_field ''completed'' completed d1 of None \<Rightarrow> None
        | Some d2 \<Rightarrow> add_field ''errors'' errors d2))"

definition Flush ::
  "('s, 'z) elastic_scheme \<Rightarrow> string \<Rightarrow> stats_updater \<Rightarrow> 's \<Rightarrow> stats_updater \<times> go_error option \<times> 's" where
  "Flush es org u s =
     (let query = \<lparr>up_script = updatedPainlessQuery (uint (su_scheduled u)) (uint (su_completed u))
                     (uint (su_errors u)), up_upsert = None\<rparr>
      in (u\<lparr>su_scheduled := 0, su_completed := 0, su_errors := 0\<rparr>,
          UpdateIndex es org PERSISTED (su_hunt_id u) query s))"

section \<open>The manager\<close>

text \<open>
  Updaters are shared by reference: the cache maps a hunt to the number of its updater in the
  list of all updaters.
\<close>

record 's hunt_stats =
  hs_lru :: "string \<Rightarrow> nat option"
  hs_updaters :: "stats_updater list"
  hs_store :: 's

definition StartHuntStatsUpdater :: "'s \<Rightarrow> 's hunt_stats" where
  "StartHuntStatsUpdater s = \<lparr>hs_lru = Map.empty, hs_updaters = [], hs_store = s\<rparr>"

definition Update :: "string \<Rightarrow> 's hunt_stats \<Rightarrow> nat \<times> 's hunt_stats" where
  "Update hunt_id st =
     (case hs_lru st hunt_id of
        Some r \<Rightarrow> (r, st)
      | None \<Rightarrow> (length (hs_updaters st),
                 st\<lparr>hs_lru := (hs_lru st)(hunt_id \<mapsto> length (hs_updaters st)),
                    hs_updaters := hs_updaters st @ [new_updater hunt_id]\<rparr>))"

definition on_updater :: "(stats_updater \<Rightarrow> stats_updater) \<Rightarrow> nat \<Rightarrow> 's hunt_stats \<Rightarrow> 's hunt_stats" where
  "on_updater f r st = st\<lparr>hs_updaters := (hs_updaters st)[r := f (hs_updaters st ! r)]\<rparr>"

definition flush_updater :: "('s, 'z) elastic_scheme \<Rightarrow> string \<Rightarrow> nat \<Rightarrow> 's hunt_stats \<Rightarrow> 's hunt_stats" where
  "flush_updater es org r st =
     (case Flush es org (hs_updaters st ! r) (hs_store st) of
        (u, err, s) \<Rightarrow> st\<lparr>hs_updaters := (hs_updaters st)[r := u], hs_store := s\<rparr>)"

section \<open>Interleavings\<close>

text \<open>
  Which counter a thread increments.
\<close>

datatype stat = Scheduled | Errors | Completed

fun inc_stat :: "stat \<Rightarrow> stats_updater \<Rightarrow> stats_updater" where
  "inc_stat Scheduled = IncScheduled"
| "inc_stat Errors = IncError"
| "inc_stat Completed = IncCompleted"

text \<open>
  The threads of the ingestor and the cache run concurrently. \<open>Update(h).Inc\<dots>()\<close> is two
  steps: the look up, and the increment through the reference it gave. An entry that expires
  leaves the cache, and its call back flushes the updater later. The state adds the references
  threads hold, the updaters on their way to the flush and, as history, the increments made.
\<close>

record 's stats_run =
  sr_stats :: "'s hunt_stats"
  sr_held :: "nat list"
  sr_expired :: "nat list"
  sr_incs :: "(string \<times> stat) list"

inductive stats_step ::
  "('s, 'z) elastic_scheme \<Rightarrow> string \<Rightarrow> string set \<Rightarrow> 's stats_run \<Rightarrow> 's stats_run \<Rightarrow> bool"
  for es :: "('s, 'z) elastic_scheme" and org :: string and hunts :: "string set" where
  lookup: "h \<in> hunts \<Longrightarrow> Update h (sr_stats st) = (r, x) \<Longrightarrow>
     stats_step es org hunts st (st\<lparr>sr_stats := x, sr_held := r # sr_held st\<rparr>)"
| inc: "r \<in> set (sr_held st) \<Longrightarrow> stats_step es org hunts st
     (st\<lparr>sr_stats := on_updater (inc_stat k) r (sr_stats st), sr_held := remove1 r (sr_held st),
         sr_incs := (su_hunt_id (hs_updaters (sr_stats st) ! r), k) # sr_incs st\<rparr>)"
| expire: "hs_lru (sr_stats st) h = Some r \<Longrightarrow> stats_step es org hunts st
     (st\<lparr>sr_stats := (sr_stats st)\<lparr>hs_lru := (hs_lru (sr_stats st))(h := None)\<rparr>,
         sr_expired := r # sr_expired st\<rparr>)"
| flush: "r \<in> set (sr_expired st) \<Longrightarrow> stats_step es org hunts st
     (st\<lparr>sr_stats := flush_updater es org r (sr_stats st), sr_expired := remove1 r (sr_expired st)\<rparr>)"

inductive stats_steps ::
  "('s, 'z) elastic_scheme \<Rightarrow> string \<Rightarrow> string set \<Rightarrow> 's stats_run \<Rightarrow> 's stats_run \<Rightarrow> bool"
  for es :: "('s, 'z) elastic_scheme" and org :: string and hunts :: "string set" where
  refl: "stats_steps es org hunts st st"
| more: "stats_steps es org hunts st st' \<Longrightarrow> stats_step es org hunts st' st'' \<Longrightarrow> stats_steps es org hunts st st''"

inductive_cases stats_stepE: "stats_step es org hunts st st'"

definition start_run :: "'s \<Rightarrow> 's stats_run" where
  "start_run s = \<lparr>sr_stats = StartHuntStatsUpdater s, sr_held = [], sr_expired = [], sr_incs = []\<rparr>"

section \<open>What the counters say\<close>

fun stat_of :: "stat \<Rightarrow> stats_updater \<Rightarrow> 64 word" where
  "stat_of Scheduled u = su_scheduled u"
| "stat_of Errors u = su_errors u"
| "stat_of Completed u = su_completed u"

fun stat_field :: "stat \<Rightarrow> string" where
  "stat_field Scheduled = ''scheduled''"
| "stat_field Errors = ''errors''"
| "stat_field Completed = ''completed''"

text \<open>The counter of a hunt in its record, and what its updaters still hold.\<close>

definition recorded :: "stat \<Rightarrow> string \<Rightarrow> index_docs \<Rightarrow> 64 word" where
  "recorded k h ds = (case map_of ds h of None \<Rightarrow> 0
     | Some j \<Rightarrow> (case jget (stat_field k) j of Some (JInt n) \<Rightarrow> word_of_int n | _ \<Rightarrow> 0))"

definition pending :: "stat \<Rightarrow> string \<Rightarrow> stats_updater list \<Rightarrow> 64 word" where
  "pending k h us = sum_list (map (stat_of k) (filter (\<lambda>u. su_hunt_id u = h) us))"

definition increments :: "stat \<Rightarrow> string \<Rightarrow> (string \<times> stat) list \<Rightarrow> 64 word" where
  "increments k h incs = of_nat (count_list incs (h, k))"

definition hunt_record :: "json \<Rightarrow> bool" where
  "hunt_record j \<longleftrightarrow> (\<exists>kvs. j = JObj kvs) \<and> (\<forall>k. \<exists>n. jget (stat_field k) j = Some (JInt n))"

lemma script_record:
  assumes "hunt_record j"
  shows "\<exists>j'. updatedPainlessQuery sch com err j = Some j' \<and> hunt_record j' \<and>
    (\<forall>k a. jget (stat_field k) j = Some (JInt a) \<longrightarrow> jget (stat_field k) j' =
       Some (JInt (a + (case k of Scheduled \<Rightarrow> sch | Completed \<Rightarrow> com | Errors \<Rightarrow> err))))"
proof -
  obtain a b e where f: "jget ''scheduled'' j = Some (JInt a)" "jget ''completed'' j = Some (JInt b)"
    "jget ''errors'' j = Some (JInt e)" and o: "\<exists>kvs. j = JObj kvs"
    using assms by (metis hunt_record_def stat_field.simps)
  let ?j1 = "jset ''scheduled'' (JInt (a + sch)) j"
  let ?j2 = "jset ''completed'' (JInt (b + com)) ?j1"
  let ?j3 = "jset ''errors'' (JInt (e + err)) ?j2"
  have o12: "\<exists>kvs. ?j1 = JObj kvs" "\<exists>kvs. ?j2 = JObj kvs" "\<exists>kvs. ?j3 = JObj kvs"
    using o by (intro jset_obj; assumption)+
  have s: "updatedPainlessQuery sch com err j = Some ?j3"
    using f o o12 by (simp add: updatedPainlessQuery_def add_field_def del: jset.simps)
  have g: "jget ''scheduled'' ?j3 = Some (JInt (a + sch))" "jget ''completed'' ?j3 = Some (JInt (b + com))"
    "jget ''errors'' ?j3 = Some (JInt (e + err))"
    using o o12 by (simp_all del: jset.simps)
  have "jget (stat_field k) ?j3 = Some (JInt (x + (case k of Scheduled \<Rightarrow> sch | Completed \<Rightarrow> com | Errors \<Rightarrow> err)))"
    if "jget (stat_field k) j = Some (JInt x)" for k x
    using that f g by (cases k) auto
  moreover have "hunt_record ?j3"
    unfolding hunt_record_def using o12(3) g by (metis stat_field.simps stat.exhaust)
  ultimately show ?thesis using s by blast
qed

lemma all_stats: "(\<forall>k. P k) \<longleftrightarrow> P Scheduled \<and> P Errors \<and> P Completed"
  by (metis stat.exhaust)

lemma pending_update:
  assumes "r < length us" and "su_hunt_id u = su_hunt_id (us ! r)"
  shows "pending k h (us[r := u]) =
    pending k h us + (if su_hunt_id u = h then stat_of k u - stat_of k (us ! r) else 0)"
  using assms
proof (induction us arbitrary: r)
  case (Cons x us)
  then show ?case by (cases r) (auto simp: pending_def)
qed simp

lemma pending_new [simp]: "pending k h (us @ [new_updater h']) = pending k h us"
  by (cases k) (simp_all add: pending_def new_updater_def)

lemma inc_stat_simps [simp]:
  "su_hunt_id (inc_stat k u) = su_hunt_id u"
  "stat_of k' (inc_stat k u) = stat_of k' u + (if k' = k then 1 else 0)"
  by (cases k; cases k'; simp add: IncScheduled_def IncError_def IncCompleted_def)+

text \<open>
  A flush adds what the updater held to the record of its hunt and leaves the others.
\<close>

lemma Flush_record:
  assumes "store_contract es docs" and "GetElasticClient es org = Inr c"
    and "map_of (docs s c (GetIndex org PERSISTED)) (su_hunt_id u) = Some j" and "hunt_record j"
  shows "\<exists>s' j'. Flush es org u s = (new_updater (su_hunt_id u)\<lparr>su_scheduled := 0\<rparr>, None, s') \<and> hunt_record j' \<and>
    docs s' c (GetIndex org PERSISTED) = doc_put (su_hunt_id u) j' (docs s c (GetIndex org PERSISTED)) \<and>
    (\<forall>k. recorded k (su_hunt_id u) (docs s' c (GetIndex org PERSISTED)) =
         recorded k (su_hunt_id u) (docs s c (GetIndex org PERSISTED)) + stat_of k u)"
proof -
  let ?upd = "\<lparr>up_script = updatedPainlessQuery (uint (su_scheduled u)) (uint (su_completed u))
    (uint (su_errors u)), up_upsert = None\<rparr>"
  obtain j' where j': "up_script ?upd j = Some j'" "hunt_record j'"
    and add: "\<And>k a. jget (stat_field k) j = Some (JInt a) \<Longrightarrow> jget (stat_field k) j' =
      Some (JInt (a + (case k of Scheduled \<Rightarrow> uint (su_scheduled u) | Completed \<Rightarrow> uint (su_completed u)
                         | Errors \<Rightarrow> uint (su_errors u))))"
    using script_record [OF assms(4)] by fastforce
  obtain s' where s': "UpdateIndex es org PERSISTED (su_hunt_id u) ?upd s = (None, s')"
    "docs s' c (GetIndex org PERSISTED) = doc_put (su_hunt_id u) j' (docs s c (GetIndex org PERSISTED))"
    using UpdateIndex_script [OF assms(1-3) j'(1)] by blast
  have "recorded k (su_hunt_id u) (docs s' c (GetIndex org PERSISTED)) =
      recorded k (su_hunt_id u) (docs s c (GetIndex org PERSISTED)) + stat_of k u" for k
  proof -
    obtain a where "jget (stat_field k) j = Some (JInt a)" using assms(4) by (auto simp: hunt_record_def)
    then show ?thesis using add [of k a] assms(3) s'(2)
      by (cases k) (simp_all add: recorded_def map_of_doc_put)
  qed
  then show ?thesis using s' j'(2) by (auto simp: Flush_def Let_def new_updater_def)
qed

text \<open>References are to updaters that exist, hunts have records, and nothing is lost.\<close>

definition stats_inv ::
  "string set \<Rightarrow> (string \<Rightarrow> stat \<Rightarrow> 64 word) \<Rightarrow> ('s \<Rightarrow> index_docs) \<Rightarrow> 's stats_run \<Rightarrow> bool" where
  "stats_inv hunts base ds st \<longleftrightarrow>
     (\<forall>r. r \<in> set (sr_held st) \<or> r \<in> set (sr_expired st) \<or> r \<in> ran (hs_lru (sr_stats st)) \<longrightarrow>
        r < length (hs_updaters (sr_stats st))) \<and>
     (\<forall>u \<in> set (hs_updaters (sr_stats st)). su_hunt_id u \<in> hunts) \<and>
     (\<forall>h \<in> hunts. \<exists>j. map_of (ds (hs_store (sr_stats st))) h = Some j \<and> hunt_record j) \<and>
     (\<forall>h \<in> hunts. \<forall>k. recorded k h (ds (hs_store (sr_stats st))) + pending k h (hs_updaters (sr_stats st)) =
        base h k + increments k h (sr_incs st))"

lemma stats_step_inv:
  assumes "store_contract es docs" and "GetElasticClient es org = Inr c"
    and "stats_step es org hunts st st'"
    and "stats_inv hunts base (\<lambda>s. docs s c (GetIndex org PERSISTED)) st"
  shows "stats_inv hunts base (\<lambda>s. docs s c (GetIndex org PERSISTED)) st'"
  using assms(3)
proof cases
  case (lookup h r x)
  show ?thesis
  proof (cases "hs_lru (sr_stats st) h")
    case None
    then have x: "r = length (hs_updaters (sr_stats st))" "x = (sr_stats st)\<lparr>
        hs_lru := (hs_lru (sr_stats st))(h \<mapsto> length (hs_updaters (sr_stats st))),
        hs_updaters := hs_updaters (sr_stats st) @ [new_updater h]\<rparr>"
      using lookup(3) by (auto simp: Update_def)
    have "su_hunt_id (new_updater h) \<in> hunts" using lookup(2) by (simp add: new_updater_def)
    moreover have "ran (hs_lru x) = insert r (ran (hs_lru (sr_stats st)))" using None x by simp
    ultimately show ?thesis using assms(4) unfolding lookup(1) stats_inv_def
      by (auto simp: x(1) less_Suc_eq) (auto simp: x(2))
  next
    case (Some r')
    then have "r \<in> ran (hs_lru (sr_stats st))" "x = sr_stats st"
      using lookup(3) by (auto simp: Update_def ran_def)
    then show ?thesis using assms(4) unfolding lookup(1) stats_inv_def by auto
  qed
next
  case (inc r k)
  let ?us = "hs_updaters (sr_stats st)"
  have r: "r < length ?us" using assms(4) inc(2) by (simp add: stats_inv_def)
  have p: "pending k' h (?us[r := inc_stat k (?us ! r)]) =
      pending k' h ?us + (if su_hunt_id (?us ! r) = h \<and> k' = k then 1 else 0)" for k' h
    using pending_update [OF r, of "inc_stat k (?us ! r)" k' h] by simp
  have i: "increments k' h ((su_hunt_id (?us ! r), k) # sr_incs st) =
      increments k' h (sr_incs st) + (if su_hunt_id (?us ! r) = h \<and> k' = k then 1 else 0)" for k' h
    by (auto simp: increments_def)
  have "set (?us[r := inc_stat k (?us ! r)]) \<subseteq> insert (inc_stat k (?us ! r)) (set ?us)"
    by (rule set_update_subset_insert)
  then have "\<forall>u \<in> set (?us[r := inc_stat k (?us ! r)]). su_hunt_id u \<in> hunts"
    using assms(4) r by (auto simp: stats_inv_def)
  then show ?thesis using assms(4) p i unfolding inc(1)
    by (auto simp: stats_inv_def on_updater_def dest: notin_set_remove1)
next
  case (expire h r)
  then show ?thesis using assms(4) by (auto simp: stats_inv_def ran_def split: if_splits)
next
  case (flush r)
  let ?us = "hs_updaters (sr_stats st)" and ?D = "\<lambda>s. docs s c (GetIndex org PERSISTED)"
  let ?u = "?us ! r" and ?s = "hs_store (sr_stats st)"
  have r: "r < length ?us" and h: "su_hunt_id ?u \<in> hunts"
    using assms(4) flush(2) by (auto simp: stats_inv_def)
  obtain j where j: "map_of (?D ?s) (su_hunt_id ?u) = Some j" "hunt_record j"
    using assms(4) h by (auto simp: stats_inv_def)
  obtain s' j' where f: "Flush es org ?u ?s = (new_updater (su_hunt_id ?u)\<lparr>su_scheduled := 0\<rparr>, None, s')" "hunt_record j'"
    "?D s' = doc_put (su_hunt_id ?u) j' (?D ?s)"
    "\<And>k. recorded k (su_hunt_id ?u) (?D s') = recorded k (su_hunt_id ?u) (?D ?s) + stat_of k ?u"
    using Flush_record [OF assms(1,2) j] by blast
  let ?new = "new_updater (su_hunt_id ?u)\<lparr>su_scheduled := 0\<rparr>"
  have z: "stat_of k ?new = 0" "su_hunt_id ?new = su_hunt_id ?u" for k
    by (cases k; simp add: new_updater_def)+
  have eq: "recorded k h (?D s') + pending k h (?us[r := ?new]) = recorded k h (?D ?s) + pending k h ?us" for k h
    using pending_update [OF r z(2), of k h] f(4) [of k] z
    by (cases "su_hunt_id ?u = h") (auto simp: recorded_def map_of_doc_put f(3))
  have "set (?us[r := ?new]) \<subseteq> insert ?new (set ?us)" by (rule set_update_subset_insert)
  then have ids: "\<forall>u \<in> set (?us[r := ?new]). su_hunt_id u \<in> hunts"
    using assms(4) h z(2) by (auto simp: stats_inv_def)
  have docs': "\<forall>h \<in> hunts. \<exists>j. map_of (?D s') h = Some j \<and> hunt_record j"
    using assms(4) f(2,3) by (auto simp: stats_inv_def map_of_doc_put)
  show ?thesis using assms(4) ids docs' eq unfolding flush(1)
    by (auto simp: stats_inv_def flush_updater_def f(1) dest: notin_set_remove1)
qed

lemma stats_steps_inv:
  assumes "store_contract es docs" and "GetElasticClient es org = Inr c"
    and "stats_steps es org hunts st st'"
    and "stats_inv hunts base (\<lambda>s. docs s c (GetIndex org PERSISTED)) st"
  shows "stats_inv hunts base (\<lambda>s. docs s c (GetIndex org PERSISTED)) st'"
  using assms(3,4) by induction (auto intro: stats_step_inv [OF assms(1,2)])

text \<open>
  An updater that has left the cache after its flush and whose references are used up is never
  looked at again.
\<close>

definition abandoned :: "nat \<Rightarrow> 's stats_run \<Rightarrow> bool" where
  "abandoned r st \<longleftrightarrow> r < length (hs_updaters (sr_stats st)) \<and> r \<notin> ran (hs_lru (sr_stats st)) \<and>
     r \<notin> set (sr_held st) \<and> r \<notin> set (sr_expired st)"

lemma abandoned_step:
  assumes "stats_step es org hunts st st'" and "abandoned r st"
  shows "abandoned r st' \<and> hs_updaters (sr_stats st') ! r = hs_updaters (sr_stats st) ! r"
  using assms(1)
proof cases
  case (lookup h r' x)
  then show ?thesis using assms(2)
    by (auto simp: abandoned_def Update_def nth_append ran_def split: option.splits if_splits)
next
  case (inc r' k)
  moreover have "r' \<noteq> r" using inc(2) assms(2) by (auto simp: abandoned_def)
  ultimately show ?thesis using assms(2) by (auto simp: abandoned_def on_updater_def dest: notin_set_remove1)
next
  case (expire h r')
  then show ?thesis using assms(2) by (auto simp: abandoned_def ran_def split: if_splits)
next
  case (flush r')
  moreover have "r' \<noteq> r" using flush(2) assms(2) by (auto simp: abandoned_def)
  ultimately show ?thesis using assms(2)
    by (auto simp: abandoned_def flush_updater_def split: prod.splits dest: notin_set_remove1)
qed

lemma abandoned_steps:
  "stats_steps es org hunts st st' \<Longrightarrow> abandoned r st \<Longrightarrow>
     abandoned r st' \<and> hs_updaters (sr_stats st') ! r = hs_updaters (sr_stats st) ! r"
  by (induction rule: stats_steps.induct) (auto dest: abandoned_step)

section \<open>Properties\<close>


text \<open>
  An increment can be lost: a thread that has looked its updater up before the entry
  expired increments it after the flush, and from then on no step looks at that updater, so its
  increment is never written, whatever happens later.
\<close>

theorem late_increment_is_lost:
  "\<exists>st. stats_steps es org {h} (start_run s0) st \<and> sr_incs st = [(h, k)] \<and>
     (\<forall>st'. stats_steps es org {h} st st' \<longrightarrow> stat_of k (hs_updaters (sr_stats st') ! 0) = 1)"
proof -
  define st1 where "st1 = (start_run s0)\<lparr>sr_stats := snd (Update h (sr_stats (start_run s0))), sr_held := [0]\<rparr>"
  define st2 where "st2 = st1\<lparr>sr_stats := (sr_stats st1)\<lparr>hs_lru := (hs_lru (sr_stats st1))(h := None)\<rparr>,
    sr_expired := [0]\<rparr>"
  define st3 where "st3 = st2\<lparr>sr_stats := flush_updater es org 0 (sr_stats st2), sr_expired := []\<rparr>"
  define st4 where "st4 = st3\<lparr>sr_stats := on_updater (inc_stat k) 0 (sr_stats st3), sr_held := [],
    sr_incs := [(h, k)]\<rparr>"
  have new: "Update h (sr_stats (start_run s0)) = (0, sr_stats st1)" "hs_lru (sr_stats st1) = [h \<mapsto> 0]"
    "hs_updaters (sr_stats st1) = [new_updater h]" "sr_held st1 = [0]" "sr_expired st1 = []" "sr_incs st1 = []"
    by (simp_all add: st1_def start_run_def StartHuntStatsUpdater_def Update_def)
  have u3: "hs_updaters (sr_stats st3) = [new_updater h]" "hs_lru (sr_stats st3) = Map.empty"
    using new by (simp_all add: st3_def st2_def flush_updater_def Flush_def Let_def new_updater_def split_def)
  have "stats_step es org {h} (start_run s0) st1"
    using stats_step.lookup [of h "{h}" "start_run s0" 0 "sr_stats st1" es org] new
    by (simp add: st1_def start_run_def)
  moreover have "stats_step es org {h} st1 st2"
    using stats_step.expire [of st1 h 0 es org "{h}"] new by (simp add: st2_def)
  moreover have "stats_step es org {h} st2 st3"
    using stats_step.flush [of 0 st2 es org "{h}"] by (simp add: st3_def st2_def)
  moreover have "stats_step es org {h} st3 st4"
    using stats_step.inc [of 0 st3 es org "{h}" k] u3 new
    by (simp add: st4_def st3_def st2_def new_updater_def)
  ultimately have reach: "stats_steps es org {h} (start_run s0) st4"
    by (meson stats_steps.intros)
  have one: "stat_of k (hs_updaters (sr_stats st4) ! 0) = 1"
    using u3 by (cases k) (simp_all add: st4_def on_updater_def new_updater_def IncScheduled_def
        IncError_def IncCompleted_def)
  have "abandoned 0 st4" using u3 by (simp add: abandoned_def st4_def st3_def on_updater_def)
  then have "\<forall>st'. stats_steps es org {h} st4 st' \<longrightarrow> stat_of k (hs_updaters (sr_stats st') ! 0) = 1"
    using abandoned_steps one by metis
  then show ?thesis using reach by (intro exI [of _ st4]) (simp add: st4_def)
qed

section \<open>Witnesses\<close>

definition counted_hunt :: mem_es_state where
  "counted_hunt = [(''persisted'', [(''H.1'', JObj [(''hunt_id'', JStr ''H.1''), (''scheduled'', JInt 5),
     (''completed'', JInt 2), (''errors'', JInt 0)])])]"

lemma counted_hunt_record:
  "\<forall>h \<in> {''H.1''}. \<exists>j. map_of (mem_docs counted_hunt (GetIndex ''root'' PERSISTED)) h = Some j \<and> hunt_record j"
proof -
  have "hunt_record (JObj [(''hunt_id'', JStr ''H.1''), (''scheduled'', JInt 5), (''completed'', JInt 2), (''errors'', JInt 0)])"
    unfolding hunt_record_def by (auto simp: all_stats)
  then show ?thesis by (simp add: counted_hunt_def mem_docs_def GetIndex_def PERSISTED_def)
qed


theorem late_increment_is_lost_witness:
  "\<exists>st. stats_steps mem_es ''root'' {''H.1''} (start_run counted_hunt) st \<and> sr_incs st = [(''H.1'', Completed)] \<and>
     stat_of Completed (hs_updaters (sr_stats st) ! 0) = 1"
  using late_increment_is_lost [of mem_es "''root''" "''H.1''" counted_hunt Completed] stats_steps.refl by blast

end
