(* ===== verification/Hunts.thy ===== *)
theory Hunts
  imports HuntStats Flows Indexing
begin

text \<open>
  The hunt dispatcher of the server (\<open>services/hunt_dispatcher\<close>): hunts as documents with their
  counters, the index of hunts the GUI lists, and the index of the flows of a hunt.
\<close>

section \<open>Hunts\<close>

text \<open>
  The fields of the library's hunt the program reads or writes by name; the rest is
  \<open>hi_Other\<close>. Message fields that may be nil are options.
\<close>

datatype hunt_state = Hunt_UNSET | Hunt_PAUSED | Hunt_RUNNING | Hunt_STOPPED | Hunt_ARCHIVED | Hunt_other string

fun state_name :: "hunt_state \<Rightarrow> string" where
  "state_name Hunt_UNSET = ''UNSET''"
| "state_name Hunt_PAUSED = ''PAUSED''"
| "state_name Hunt_RUNNING = ''RUNNING''"
| "state_name Hunt_STOPPED = ''STOPPED''"
| "state_name Hunt_ARCHIVED = ''ARCHIVED''"
| "state_name (Hunt_other s) = s"

record compiled_args =
  cg_QueryId :: int
  cg_TotalQueries :: int
  cg_Query :: "string list"
  cg_Other :: json

record hunt_totals =
  ht_TotalClientsScheduled :: int
  ht_TotalClientsWithResults :: int
  ht_TotalClientsWithErrors :: int
  ht_AvailableDownloads :: json

record hunt_info =
  hi_HuntId :: string
  hi_HuntDescription :: string
  hi_Creator :: string
  hi_CreateTime :: int
  hi_StartTime :: int
  hi_Expires :: int
  hi_State :: hunt_state
  hi_Tags :: "string list"
  hi_Stats :: "hunt_totals option"
  hi_StartRequest :: "compiled_args list option"
  hi_Other :: json

record HuntEntry =
  he_HuntId :: string
  he_Timestamp :: int
  he_Expires :: int
  he_Scheduled :: int
  he_Completed :: int
  he_Errors :: int
  he_Hunt :: string
  he_State :: string
  he_DocType :: string
  he_Labels :: "string list"

definition empty_entry :: HuntEntry where
  "empty_entry = \<lparr>he_HuntId = [], he_Timestamp = 0, he_Expires = 0, he_Scheduled = 0, he_Completed = 0,
     he_Errors = 0, he_Hunt = [], he_State = [], he_DocType = [], he_Labels = []\<rparr>"

definition encode_entry :: "HuntEntry \<Rightarrow> json" where
  "encode_entry e = JObj
     [(''hunt_id'', JStr (he_HuntId e)), (''timestamp'', JInt (he_Timestamp e)),
      (''expires'', JInt (he_Expires e)), (''scheduled'', JInt (he_Scheduled e)),
      (''completed'', JInt (he_Completed e)), (''errors'', JInt (he_Errors e)),
      (''hunt'', JStr (he_Hunt e)), (''state'', JStr (he_State e)), (''doc_type'', JStr (he_DocType e)),
      (''labels'', jstrs (he_Labels e))]"

definition decode_entry :: "json \<Rightarrow> HuntEntry result" where
  "decode_entry j =
     bindR (get_str ''hunt_id'' j) (\<lambda>a1. bindR (get_int ''timestamp'' j) (\<lambda>a2.
     bindR (get_u64 ''expires'' j) (\<lambda>a3. bindR (get_u64 ''scheduled'' j) (\<lambda>a4.
     bindR (get_u64 ''completed'' j) (\<lambda>a5. bindR (get_u64 ''errors'' j) (\<lambda>a6.
     bindR (get_str ''hunt'' j) (\<lambda>a7. bindR (get_str ''state'' j) (\<lambda>a8.
     bindR (get_str ''doc_type'' j) (\<lambda>a9. bindR (get_strs ''labels'' j) (\<lambda>a10.
       Inr \<lparr>he_HuntId = a1, he_Timestamp = a2, he_Expires = a3, he_Scheduled = a4, he_Completed = a5,
            he_Errors = a6, he_Hunt = a7, he_State = a8, he_DocType = a9, he_Labels = a10\<rparr>))))))))))"

section \<open>Environment\<close>

text \<open>
  The result sets as the flow index uses them, and the library's part: the two encodings of a
  hunt (\<open>protojson\<close> and the JSON package), the paths, the datastore of the downloads, the
  launcher, the hunt manager, the hosts' names, the order of map walks and of the results of
  the worker pool, and the text \<open>json.Format\<close> gives a row.
\<close>

record flow_details_row =
  fd_State :: string
  fd_Duration :: int

record 's hunt_env =
  hn_fl :: "'s flow_env"
  hn_ix :: "'s index_env"
  hn_proto_Unmarshal :: "string \<Rightarrow> hunt_info result"
  hn_proto_Marshal :: "hunt_info \<Rightarrow> string result"
  hn_json_Unmarshal :: "string \<Rightarrow> hunt_info result"
  hn_HuntIndex :: string
  hn_EnrichedClients :: "string \<Rightarrow> string"
  hn_DownloadsDir :: "string \<Rightarrow> string"
  hn_GetDB :: "go_error option"
  hn_ListChildren :: "string \<Rightarrow> 's \<Rightarrow> string list result"
  hn_GetSubject :: "string \<Rightarrow> 's \<Rightarrow> json result"
  hn_Base :: "string \<Rightarrow> string"
  hn_launcher :: "go_error option"
  hn_GetFlowDetails :: "string \<Rightarrow> string \<Rightarrow> 's world \<Rightarrow> flow_context result"
  hn_flow_row :: "flow_context \<Rightarrow> flow_details_row"
  hn_GetHostname :: "string \<Rightarrow> client_cache \<Rightarrow> 's world \<Rightarrow> string"
  hn_ParseUint :: "string \<Rightarrow> int"
  hn_order :: "string list \<Rightarrow> string list"
  hn_pool :: "(string \<times> string) list \<Rightarrow> (string \<times> string) list"
  hn_Format :: "json \<Rightarrow> string"

abbreviation hn_es :: "'s hunt_env \<Rightarrow> 's elastic" where
  "hn_es env \<equiv> rs_es (fl_rs (hn_fl env))"

abbreviation hn_org :: "'s hunt_env \<Rightarrow> string" where
  "hn_org env \<equiv> rs_org_id (fl_rs (hn_fl env))"

section \<open>Reading and writing hunts (hunt\_dispatcher.go, storage.go)\<close>

definition entry_GetHunt :: "'s hunt_env \<Rightarrow> HuntEntry \<Rightarrow> hunt_info result" where
  "entry_GetHunt env e =
     bindR (hn_proto_Unmarshal env (he_Hunt e)) (\<lambda>h.
       let h1 = h\<lparr>hi_Stats := Some \<lparr>ht_TotalClientsScheduled = he_Scheduled e,
                   ht_TotalClientsWithResults = he_Completed e, ht_TotalClientsWithErrors = he_Errors e,
                   ht_AvailableDownloads = JNull\<rparr>\<rparr>
       in Inr (if he_State e = ''PAUSED'' then h1\<lparr>hi_State := Hunt_PAUSED\<rparr>
               else if he_State e = ''RUNNING'' then h1\<lparr>hi_State := Hunt_RUNNING\<rparr>
               else if he_State e = ''STOPPED'' then h1\<lparr>hi_State := Hunt_STOPPED\<rparr>
               else if he_State e = ''ARCHIVED'' then h1\<lparr>hi_State := Hunt_ARCHIVED\<rparr>
               else h1))"

datatype hunt_search = AllHunts | OnlyRunningHunts | OtherHunts int

definition getAllHunts :: search_req where
  "getAllHunts = query_of (Must [Match ''doc_type'' (JStr ''hunts'')])"

definition getAllActiveHunts :: search_req where
  "getAllActiveHunts = query_of (Must [Match ''doc_type'' (JStr ''hunts''), Match ''state'' (JStr ''RUNNING'')])"

definition getAllHuntsQuery :: "nat \<Rightarrow> nat \<Rightarrow> search_req" where
  "getAllHuntsQuery start n =
     getAllHunts\<lparr>sq_sort := Some (''hunt_id'', True), sq_from := Some start, sq_size := Some n\<rparr>"

text \<open>The call back changes a state of its own and ends the walk with an error.\<close>

fun apply_hunts ::
  "'s hunt_env \<Rightarrow> (hunt_info \<Rightarrow> 'c \<Rightarrow> go_error option \<times> 'c) \<Rightarrow> json list \<Rightarrow> 'c \<Rightarrow> go_error option \<times> 'c" where
  "apply_hunts env cb [] c = (None, c)"
| "apply_hunts env cb (hit # hits) c =
     (case decode_entry hit of
        Inl e \<Rightarrow> (Some e, c)
      | Inr entry \<Rightarrow>
          (case entry_GetHunt env entry of
             Inl e \<Rightarrow> apply_hunts env cb hits c
           | Inr h \<Rightarrow> (case cb h c of
               (Some e, c1) \<Rightarrow> (Some e, c1)
             | (None, c1) \<Rightarrow> apply_hunts env cb hits c1)))"

definition ApplyFuncOnHunts ::
  "'s hunt_env \<Rightarrow> hunt_search \<Rightarrow> (hunt_info \<Rightarrow> 'c \<Rightarrow> go_error option \<times> 'c) \<Rightarrow> 's world \<Rightarrow> 'c
     \<Rightarrow> go_error option \<times> 'c" where
  "ApplyFuncOnHunts env options cb w c =
     (case (case options of AllHunts \<Rightarrow> Some getAllHunts | OnlyRunningHunts \<Rightarrow> Some getAllActiveHunts
            | OtherHunts n \<Rightarrow> None) of
        None \<Rightarrow> (Some (Err ''HuntSearchOptions not supported''), c)
      | Some query \<Rightarrow>
          (case QueryChan (hn_es env) (fl_fuel (hn_fl env)) 1000 (hn_org env) PERSISTED query ''hunt_id''
                  (\<lambda>n. wd_store w) of
             Inl e \<Rightarrow> (Some e, c)
           | Inr hits \<Rightarrow> apply_hunts env cb hits c))"

definition GetLastTimestamp :: int where
  "GetLastTimestamp = 0"

text \<open>The message every hunt starts with, so that the ingestor can tell its responses.\<close>

definition starting_hunt :: "compiled_args list \<Rightarrow> compiled_args list" where
  "starting_hunt compiled =
     (if cg_QueryId (hd compiled) \<noteq> -1 then
        \<lparr>cg_QueryId = -1, cg_TotalQueries = 1 + int (length compiled),
         cg_Query = [''SELECT log(message=\"Starting Hunt\") FROM scope()''], cg_Other = JNull\<rparr> # compiled
      else compiled)"

definition SetHunt :: "'s hunt_env \<Rightarrow> hunt_info \<Rightarrow> 's \<Rightarrow> go_error option \<times> 's" where
  "SetHunt env hunt s =
     (if hi_HuntId hunt = [] then (Some (Err ''Invalid hunt''), s)
      else case hi_StartRequest hunt of
        None \<Rightarrow> (Some (InvalidArgError ''Invalid hunt arg''), s)
      | Some [] \<Rightarrow> (Some (InvalidArgError ''Invalid hunt arg''), s)
      | Some compiled \<Rightarrow>
          (let hunt1 = hunt\<lparr>hi_StartRequest := Some (starting_hunt compiled)\<rparr>
           in case hn_proto_Marshal env hunt1 of
                Inl e \<Rightarrow> (Some e, s)
              | Inr serialized \<Rightarrow>
                  (let record = empty_entry
                         \<lparr>he_HuntId := hi_HuntId hunt1, he_Timestamp := hi_CreateTime hunt1 div 1000000,
                          he_Expires := hi_Expires hunt1, he_Hunt := serialized,
                          he_State := state_name (hi_State hunt1), he_DocType := ''hunts'',
                          he_Labels := hi_Tags hunt1\<rparr>;
                       record1 = (case hi_Stats hunt1 of None \<Rightarrow> record
                         | Some st \<Rightarrow> record\<lparr>he_Scheduled := ht_TotalClientsScheduled st,
                             he_Completed := ht_TotalClientsWithResults st,
                             he_Errors := ht_TotalClientsWithErrors st\<rparr>)
                   in SetElasticIndex (hn_es env) (hn_org env) PERSISTED (hi_HuntId hunt1)
                        (encode_entry record1) s)))"

text \<open>The downloads of a hunt that are ready (downloads.go, list.go); a child that cannot be read is skipped.\<close>

definition download_file :: "'s hunt_env \<Rightarrow> string \<Rightarrow> json \<Rightarrow> json" where
  "download_file env child stats = JObj
     [(''Name'', JStr (hn_Base env child)),
      (''Type'', case jget ''type'' stats of Some v \<Rightarrow> v | None \<Rightarrow> JStr []),
      (''Size'', case jget ''total_compressed_bytes'' stats of Some v \<Rightarrow> v | None \<Rightarrow> JInt 0),
      (''Path'', case jget ''components'' stats of Some v \<Rightarrow> JStr (Join ''/'' (case v of JList l \<Rightarrow>
          concat (map (\<lambda>x. case x of JStr c \<Rightarrow> [c] | _ \<Rightarrow> []) l) | _ \<Rightarrow> [])) | None \<Rightarrow> JStr []),
      (''Complete'', JBool (case jget ''hash'' stats of Some (JStr h) \<Rightarrow> h \<noteq> [] | _ \<Rightarrow> False)),
      (''Stats'', stats)]"

definition GetAvailableDownloadFiles :: "'s hunt_env \<Rightarrow> string \<Rightarrow> 's \<Rightarrow> json result" where
  "GetAvailableDownloadFiles env dir s =
     (case hn_GetDB env of
        Some e \<Rightarrow> Inl e
      | None \<Rightarrow> bindR (hn_ListChildren env dir s) (\<lambda>children.
          Inr (JObj [(''Files'', JList (concat (map (\<lambda>child. case hn_GetSubject env child s of
             Inl e \<Rightarrow> [] | Inr stats \<Rightarrow> [download_file env child stats]) children)))])))"

definition availableHuntDownloadFiles :: "'s hunt_env \<Rightarrow> string \<Rightarrow> 's \<Rightarrow> json result" where
  "availableHuntDownloadFiles env hunt_id s = GetAvailableDownloadFiles env (hn_DownloadsDir env hunt_id) s"

definition GetHunt :: "'s hunt_env \<Rightarrow> string \<Rightarrow> 's \<Rightarrow> hunt_info result" where
  "GetHunt env hunt_id s =
     (case GetElasticRecord (hn_es env) (hn_org env) PERSISTED hunt_id s of
        Inl e \<Rightarrow> Inl NotFoundError
      | Inr serialized \<Rightarrow>
          (case decode_entry serialized of
             Inl e \<Rightarrow> Inl NotFoundError
           | Inr entry \<Rightarrow>
               (case entry_GetHunt env entry of
                  Inl e \<Rightarrow> Inl NotFoundError
                | Inr h \<Rightarrow> Inr (h\<lparr>hi_Stats := map_option (\<lambda>st. st\<lparr>ht_AvailableDownloads :=
                    (case availableHuntDownloadFiles env hunt_id s of Inl e \<Rightarrow> JNull | Inr d \<Rightarrow> d)\<rparr>)
                    (hi_Stats h)\<rparr>))))"

definition DeleteHunt :: "string \<Rightarrow> go_error option" where
  "DeleteHunt hunt_id = Some NotImplementedError"

definition Refresh :: "go_error option" where
  "Refresh = Some NotImplementedError"

datatype modification = HuntUnmodified | HuntPropagateChanges

definition ModifyHuntObject ::
  "'s hunt_env \<Rightarrow> string \<Rightarrow> (hunt_info \<Rightarrow> hunt_info \<times> modification) \<Rightarrow> 's \<Rightarrow> modification \<times> 's" where
  "ModifyHuntObject env hunt_id cb s =
     (case GetHunt env hunt_id s of
        Inl e \<Rightarrow> (HuntUnmodified, s)
      | Inr hunt \<Rightarrow>
          (case cb hunt of
             (hunt1, HuntUnmodified) \<Rightarrow> (HuntUnmodified, s)
           | (hunt1, m) \<Rightarrow> (case SetHunt env hunt1 s of
               (Some e, s1) \<Rightarrow> (HuntUnmodified, s1)
             | (None, s1) \<Rightarrow> (m, s1))))"

text \<open>
  \<open>ModifyHunt\<close> calls the dispatcher of the library, \<open>base\<close>, which is given the store's
  \<open>ModifyHuntObject\<close>; its outcome is dropped. \<open>now\<close> is the clock in nanoseconds.
\<close>

definition modify_callback :: "int \<Rightarrow> hunt_info \<Rightarrow> hunt_info \<Rightarrow> hunt_info \<times> modification" where
  "modify_callback now m hunt =
     (if hi_HuntDescription m \<noteq> [] then hunt\<lparr>hi_HuntDescription := hi_HuntDescription m\<rparr>
      else if hi_State m = Hunt_RUNNING then
        hunt\<lparr>hi_State := Hunt_RUNNING, hi_StartTime := u64 (now div 1000)\<rparr>
      else if hi_State m = Hunt_STOPPED \<or> hi_State m = Hunt_PAUSED then hunt\<lparr>hi_State := Hunt_STOPPED\<rparr>
      else hunt, HuntPropagateChanges)"

definition ModifyHunt ::
  "(((hunt_info \<Rightarrow> hunt_info \<times> modification) \<Rightarrow> 's \<Rightarrow> modification \<times> 's) \<Rightarrow>
     (hunt_info \<Rightarrow> hunt_info \<times> modification) \<Rightarrow> 's \<Rightarrow> modification \<times> 's) \<Rightarrow> 's hunt_env \<Rightarrow> int \<Rightarrow> hunt_info
     \<Rightarrow> 's \<Rightarrow> go_error option \<times> 's" where
  "ModifyHunt base env now m s =
     (None, snd (base (ModifyHuntObject env (hi_HuntId m)) (modify_callback now m) s))"

section \<open>The index of hunts (index.go, storage.go)\<close>

definition TAGS_ID :: string where "TAGS_ID = ''index_tags''"

definition hunt_index_row :: "hunt_info \<Rightarrow> string \<Rightarrow> json" where
  "hunt_index_row h serialized = JObj
     [(''HuntId'', JStr (hi_HuntId h)), (''Description'', JStr (hi_HuntDescription h)),
      (''Tags'', JStr (Join ''\<newline>'' (hi_Tags h))), (''Created'', JInt (hi_CreateTime h)),
      (''Started'', JInt (hi_StartTime h)), (''Expires'', JInt (hi_Expires h)),
      (''Creator'', JStr (hi_Creator h)), (''Hunt'', JStr serialized)]"

text \<open>The hunts that are not archived, each with its stored text.\<close>

definition indexed_hunts :: "'s hunt_env \<Rightarrow> json list \<Rightarrow> (hunt_info \<times> string) list" where
  "indexed_hunts env hits = concat (map (\<lambda>hit. case decode_entry hit of
     Inl e \<Rightarrow> []
   | Inr entry \<Rightarrow> (case entry_GetHunt env entry of
       Inl e \<Rightarrow> []
     | Inr h \<Rightarrow> if hi_State h = Hunt_ARCHIVED then [] else [(h, he_Hunt entry)])) hits)"

text \<open>The deferred close of the writer comes after the tags are stored.\<close>

definition hunts_FlushIndex :: "'s hunt_env \<Rightarrow> 's world \<Rightarrow> (go_error option \<times> 's world) option" where
  "hunts_FlushIndex env w =
     (let rs = fl_rs (hn_fl env); fuel = fl_fuel (hn_fl env)
      in case QueryElasticRaw (rs_es rs) (rs_org_id rs) PERSISTED (getAllHuntsQuery 0 1000) (wd_store w) of
           Inl e \<Rightarrow> Some (Some e, w)
         | Inr (hits, tot) \<Rightarrow>
             (case NewResultSetWriter rs (hn_HuntIndex env) True True w of
                (Inl e, w1) \<Rightarrow> Some (Some e, w1)
              | (Inr rw, w1) \<Rightarrow>
                  (let found = indexed_hunts env hits
                   in case rs_Writes rs fuel (map (\<lambda>(h, serialized). hunt_index_row h serialized) found) rw w1 of
                     None \<Rightarrow> None
                   | Some (rw2, w2) \<Rightarrow>
                       (let tags = hn_order env (foldl append_new [] (concat (map (\<lambda>(h, serialized). hi_Tags h) found)))
                        in case SetElasticIndex (rs_es rs) (rs_org_id rs) PERSISTED TAGS_ID
                               (encode_entry (empty_entry\<lparr>he_Labels := tags\<rparr>)) (wd_store w2) of
                          (err, s) \<Rightarrow>
                            (case rs_Close rs fuel rw2 (w2\<lparr>wd_store := s\<rparr>) of
                               None \<Rightarrow> None
                             | Some (rw3, w3) \<Rightarrow> Some (err, w3))))))"

text \<open>
  The hunts of the lines read; a line whose text or whose hunt does not decode is skipped. One
  hunt at least is read, whatever the length asked for.
\<close>

fun take_hunts :: "'s hunt_env \<Rightarrow> int \<Rightarrow> string list \<Rightarrow> hunt_info list \<Rightarrow> hunt_info list" where
  "take_hunts env n [] acc = acc"
| "take_hunts env n (l # ls) acc =
     (case (case unmarshal (fl_te (hn_fl env)) l of
              None \<Rightarrow> Inl (Err ''invalid JSON'')
            | Some j \<Rightarrow> bindR (get_str ''Hunt'' j) (hn_json_Unmarshal env)) of
        Inl e \<Rightarrow> take_hunts env n ls acc
      | Inr h \<Rightarrow> if int (length (acc @ [h])) \<ge> n then acc @ [h] else take_hunts env n ls (acc @ [h]))"

definition ListHunts ::
  "'s hunt_env \<Rightarrow> rs_options \<Rightarrow> int \<Rightarrow> int \<Rightarrow> 's world \<Rightarrow> ((hunt_info list \<times> int) result \<times> 's world) option" where
  "ListHunts env opts offset n w =
     (case hunts_FlushIndex env w of
        None \<Rightarrow> None
      | Some (Some e, w1) \<Rightarrow> Some (Inl e, w1)
      | Some (None, w1) \<Rightarrow>
          (let fl = hn_fl env
           in case NewResultSetReaderWithOptions (fl_rs fl) (fl_te fl) (fl_fuel fl) (hn_HuntIndex env) opts w1 of
                (Inl e, w2) \<Rightarrow> Some (Inl e, w2)
              | (Inr v, w2) \<Rightarrow>
                  (case view_lines fl v offset w2 of
                     Inl e \<Rightarrow> Some (if e = EOF_err then Inr ([], 0) else Inl e, w2)
                   | Inr ls \<Rightarrow> Some (Inr (take_hunts env n ls [], view_TotalRows fl v), w2))))"

definition GetTags :: "'s hunt_env \<Rightarrow> 's \<Rightarrow> string list" where
  "GetTags env s =
     (case GetElasticRecord (hn_es env) (hn_org env) PERSISTED TAGS_ID s of
        Inl e \<Rightarrow> []
      | Inr hit \<Rightarrow> (case decode_entry hit of Inl e \<Rightarrow> [] | Inr r \<Rightarrow> he_Labels r))"

section \<open>Flows of a hunt (flows.go, mutations.go)\<close>

record HuntFlowEntry =
  hf_HuntId :: string
  hf_Timestamp :: int
  hf_ClientId :: string
  hf_FlowId :: string
  hf_Status :: string
  hf_Type :: string
  hf_DocType :: string

definition encode_hunt_flow :: "HuntFlowEntry \<Rightarrow> json" where
  "encode_hunt_flow e = JObj
     [(''hunt_id'', JStr (hf_HuntId e)), (''timestamp'', JInt (hf_Timestamp e)),
      (''client_id'', JStr (hf_ClientId e)), (''flow_id'', JStr (hf_FlowId e)),
      (''status'', JStr (hf_Status e)), (''type'', JStr (hf_Type e)), (''doc_type'', JStr (hf_DocType e))]"

definition decode_hunt_flow :: "json \<Rightarrow> HuntFlowEntry result" where
  "decode_hunt_flow j =
     bindR (get_str ''hunt_id'' j) (\<lambda>a1. bindR (get_int ''timestamp'' j) (\<lambda>a2.
     bindR (get_str ''client_id'' j) (\<lambda>a3. bindR (get_str ''flow_id'' j) (\<lambda>a4.
     bindR (get_str ''status'' j) (\<lambda>a5. bindR (get_str ''type'' j) (\<lambda>a6.
     bindR (get_str ''doc_type'' j) (\<lambda>a7.
       Inr \<lparr>hf_HuntId = a1, hf_Timestamp = a2, hf_ClientId = a3, hf_FlowId = a4, hf_Status = a5,
            hf_Type = a6, hf_DocType = a7\<rparr>)))))))"

definition hunt_flow_entry :: "int \<Rightarrow> string \<Rightarrow> string \<Rightarrow> string \<Rightarrow> string \<Rightarrow> HuntFlowEntry" where
  "hunt_flow_entry now hunt_id client_id flow_id status =
     \<lparr>hf_HuntId = hunt_id, hf_Timestamp = now div 1000000000, hf_ClientId = client_id, hf_FlowId = flow_id,
      hf_Status = status, hf_Type = [], hf_DocType = ''hunt_flow''\<rparr>"

definition getHuntsFlowsQuery :: "nat \<Rightarrow> string \<Rightarrow> search_req" where
  "getHuntsFlowsQuery start hunt_id =
     (query_of (Must [Match ''hunt_id'' (JStr hunt_id), Match ''doc_type'' (JStr ''hunt_flow'')]))
       \<lparr>sq_from := Some start\<rparr>"

definition getLatestHuntFlowForHuntId :: "string \<Rightarrow> search_req" where
  "getLatestHuntFlowForHuntId hunt_id =
     (query_of (Must [Match ''hunt_id'' (JStr hunt_id), Match ''doc_type'' (JStr ''hunt_flow'')]))
       \<lparr>sq_sort := Some (''timestamp'', True), sq_size := Some 1\<rparr>"

definition hunt_shouldRebuildIndex :: "'s hunt_env \<Rightarrow> string \<Rightarrow> 's world \<Rightarrow> bool \<times> 's world" where
  "hunt_shouldRebuildIndex env hunt_id w =
     (case NewResultSetReader (fl_rs (hn_fl env)) (hn_EnrichedClients env hunt_id) w of
        Inl e \<Rightarrow> (True, w)
      | Inr r \<Rightarrow>
          (case Now (fl_rs (hn_fl env)) w of (now, w1) \<Rightarrow>
            if now - rd_MTime r > 720 * minute then (True, w1)
            else (case GetElasticRecordByQuery (hn_es env) (hn_org env) TRANSIENT
                         (getLatestHuntFlowForHuntId hunt_id) (wd_store w1) of
                    Inl e \<Rightarrow> (True, w1)
                  | Inr None \<Rightarrow> (True, w1)
                  | Inr (Some hit) \<Rightarrow>
                      (case decode_hunt_flow hit of
                         Inl e \<Rightarrow> (True, w1)
                       | Inr entry \<Rightarrow> (rd_MTime r < hf_Timestamp entry * 1000000000, w1)))))"

text \<open>The jobs given to the pool: the flows of the hits, each the first time its key is seen.\<close>

fun flow_jobs :: "json list \<Rightarrow> string list \<Rightarrow> (string \<times> string) list" where
  "flow_jobs [] seen = []"
| "flow_jobs (hit # hits) seen =
     (case decode_hunt_flow hit of
        Inl e \<Rightarrow> flow_jobs hits seen
      | Inr entry \<Rightarrow>
          (let key = hf_FlowId entry @ hf_ClientId entry
           in if key \<in> set seen then flow_jobs hits seen
              else (hf_ClientId entry, hf_FlowId entry) # flow_jobs hits (key # seen)))"

definition enriched_row ::
  "'s hunt_env \<Rightarrow> client_cache \<Rightarrow> 's world \<Rightarrow> string \<Rightarrow> string \<Rightarrow> flow_context \<Rightarrow> json" where
  "enriched_row env c w client_id flow_id flow = JObj
     [(''ClientId'', JStr client_id), (''Hostname'', JStr (hn_GetHostname env client_id c w)),
      (''FlowId'', JStr flow_id), (''StartedTime'', JInt (fc_StartTime flow div 1000)),
      (''State'', JStr (fd_State (hn_flow_row env flow))),
      (''Duration'', JInt (fd_Duration (hn_flow_row env flow) div 1000000000)),
      (''TotalBytes'', JInt (fc_TotalUploadedBytes flow)), (''TotalRows'', JInt (fc_TotalCollectedRows flow))]"

text \<open>The flows whose details can be read, one row each.\<close>

fun write_flow_rows ::
  "'s hunt_env \<Rightarrow> client_cache \<Rightarrow> (string \<times> string) list \<Rightarrow> rs_writer \<Rightarrow> 's world \<Rightarrow> (rs_writer \<times> 's world) option" where
  "write_flow_rows env c [] rw w = Some (rw, w)"
| "write_flow_rows env c ((client_id, flow_id) # jobs) rw w =
     (case hn_GetFlowDetails env client_id flow_id w of
        Inl e \<Rightarrow> write_flow_rows env c jobs rw w
      | Inr flow \<Rightarrow>
          (case rs_WriteJSONL (fl_rs (hn_fl env)) (fl_fuel (hn_fl env))
                  (hn_Format env (enriched_row env c w client_id flow_id flow)) 1 rw w of
             None \<Rightarrow> None
           | Some (rw1, w1) \<Rightarrow> write_flow_rows env c jobs rw1 w1))"

definition flush_transient :: "'s hunt_env \<Rightarrow> 's world \<Rightarrow> 's world" where
  "flush_transient env w = w\<lparr>wd_store := snd (FlushIndex (hn_es env) (hn_org env) TRANSIENT (wd_store w))\<rparr>"

definition syncFlowTables ::
  "'s hunt_env \<Rightarrow> string \<Rightarrow> client_cache \<Rightarrow> 's world \<Rightarrow> (go_error option \<times> client_cache \<times> 's world) option" where
  "syncFlowTables env hunt_id c w =
     (case hn_launcher env of
        Some e \<Rightarrow> Some (Some e, c, w)
      | None \<Rightarrow>
          (case PopulateClientInfoCache (hn_ix env) (hn_ParseUint env) c (wd_store w) of
             (Some e, c1) \<Rightarrow> Some (Some e, c1, w)
           | (None, c1) \<Rightarrow>
               (let rs = fl_rs (hn_fl env); fuel = fl_fuel (hn_fl env)
                in case NewResultSetWriter rs (hn_EnrichedClients env hunt_id) True True w of
                     (Inl e, w1) \<Rightarrow> Some (Some e, c1, flush_transient env w1)
                   | (Inr rw, w1) \<Rightarrow>
                       (case QueryChan (rs_es rs) fuel 1000 (rs_org_id rs) TRANSIENT (getHuntsFlowsQuery 0 hunt_id)
                               ''timestamp'' (\<lambda>n. wd_store w1) of
                          Inl e \<Rightarrow> (case rs_Close rs fuel rw w1 of
                              None \<Rightarrow> None | Some (rw2, w2) \<Rightarrow> Some (Some e, c1, flush_transient env w2))
                        | Inr hits \<Rightarrow>
                            (case write_flow_rows env c1 (hn_pool env (flow_jobs hits [])) rw w1 of
                               None \<Rightarrow> None
                             | Some (rw2, w2) \<Rightarrow>
                                 (case rs_Close rs fuel rw2 w2 of
                                    None \<Rightarrow> None
                                  | Some (rw3, w3) \<Rightarrow> Some (None, c1, flush_transient env w3)))))))"

definition row_field :: "string \<Rightarrow> string \<Rightarrow> json \<Rightarrow> string option" where
  "row_field f g row =
     (case jget f row of Some (JStr x) \<Rightarrow> Some x
      | _ \<Rightarrow> (case jget g row of Some (JStr x) \<Rightarrow> Some x | _ \<Rightarrow> None))"

text \<open>The flows put on the channel of \<open>GetFlows\<close>.\<close>

definition flows_of_rows :: "'s hunt_env \<Rightarrow> bool \<Rightarrow> json list \<Rightarrow> 's world \<Rightarrow> flow_context list" where
  "flows_of_rows env basic rows w = concat (map (\<lambda>row.
     case (row_field ''ClientId'' ''client_id'' row, row_field ''FlowId'' ''flow_id'' row) of
       (Some client_id, Some flow_id) \<Rightarrow>
         (if basic then [empty_flow\<lparr>fc_ClientId := client_id, fc_SessionId := flow_id\<rparr>]
          else (case hn_GetFlowDetails env client_id flow_id w of Inl e \<Rightarrow> [] | Inr flow \<Rightarrow> [flow]))
     | _ \<Rightarrow> []) rows)"

definition GetFlows ::
  "'s hunt_env \<Rightarrow> bool \<Rightarrow> rs_options \<Rightarrow> string \<Rightarrow> int \<Rightarrow> client_cache \<Rightarrow> 's world
     \<Rightarrow> ((flow_context list \<times> int) result \<times> client_cache \<times> 's world) option" where
  "GetFlows env basic opts hunt_id start c w =
     (case hunt_shouldRebuildIndex env hunt_id w of
        (rebuild, w1) \<Rightarrow>
          (case (if rebuild then syncFlowTables env hunt_id c w1 else Some (None, c, w1)) of
             None \<Rightarrow> None
           | Some (Some e, c2, w2) \<Rightarrow> Some (Inl e, c2, w2)
           | Some (None, c2, w2) \<Rightarrow>
               (case hn_launcher env of
                  Some e \<Rightarrow> Some (Inl e, c2, w2)
                | None \<Rightarrow>
                    (let fl = hn_fl env
                     in case NewResultSetReaderWithOptions (fl_rs fl) (fl_te fl) (fl_fuel fl)
                               (hn_EnrichedClients env hunt_id) opts w2 of
                          (Inl e, w3) \<Rightarrow> Some (Inl e, c2, w3)
                        | (Inr v, w3) \<Rightarrow>
                            (case view_lines fl v start w3 of
                               Inl e \<Rightarrow> Some (if e = EOF_err then Inr ([], 0) else Inl e, c2, w3)
                             | Inr ls \<Rightarrow> Some (Inr (flows_of_rows env basic
                                 (concat (map (\<lambda>l. case unmarshal (fl_te fl) l of None \<Rightarrow> [] | Some j \<Rightarrow> [j]) ls)) w3,
                                 view_TotalRows fl v), c2, w3))))))"

text \<open>A mutation of the GUI goes through the hunt manager of the library, \<open>process\<close>.\<close>

record hunt_mutation =
  hm_HuntId :: string
  hm_Assignment :: "(string \<times> string) option"

definition MutateHunt ::
  "(hunt_mutation \<Rightarrow> 's world \<Rightarrow> go_error option \<times> 's world) result \<Rightarrow> 's hunt_env \<Rightarrow> hunt_mutation \<Rightarrow> 's world
     \<Rightarrow> go_error option \<times> 's world" where
  "MutateHunt manager env m w =
     (case manager of
        Inl e \<Rightarrow> (Some e, w)
      | Inr process \<Rightarrow>
          (case process m w of
             (Some e, w1) \<Rightarrow> (Some e, w1)
           | (None, w1) \<Rightarrow>
               (case hm_Assignment m of
                  None \<Rightarrow> (None, w1)
                | Some (client_id, flow_id) \<Rightarrow>
                    (case Now (fl_rs (hn_fl env)) w1 of (now, w2) \<Rightarrow>
                      (case SetElasticIndex (hn_es env) (hn_org env) TRANSIENT []
                              (encode_hunt_flow (hunt_flow_entry now (hm_HuntId m) client_id flow_id ''started''))
                              (wd_store w2) of
                         (err, s) \<Rightarrow> (err, w2\<lparr>wd_store := s\<rparr>))))))"

section \<open>Entries\<close>

definition entry_ok :: "HuntEntry \<Rightarrow> bool" where
  "entry_ok e \<longleftrightarrow> in_u64 (he_Expires e) \<and> in_u64 (he_Scheduled e) \<and> in_u64 (he_Completed e) \<and> in_u64 (he_Errors e)"

lemma decode_encode_entry: "entry_ok e \<Longrightarrow> decode_entry (encode_entry e) = Inr e"
  by (simp add: entry_ok_def in_u64_def decode_entry_def encode_entry_def get_str_def get_int_def get_u64_def
      get_strs_def get_list_def jstrs_def)

lemma decode_encode_hunt_flow [simp]: "decode_hunt_flow (encode_hunt_flow e) = Inr e"
  by (simp add: decode_hunt_flow_def encode_hunt_flow_def get_str_def get_int_def)

lemma recorded_entry:
  "map_of ds h = Some (encode_entry e) \<Longrightarrow> recorded k h ds = word_of_int
     (case k of Scheduled \<Rightarrow> he_Scheduled e | Errors \<Rightarrow> he_Errors e | Completed \<Rightarrow> he_Completed e)"
  by (cases k) (simp_all add: recorded_def encode_entry_def)

lemma entry_hunt_record: "hunt_record (encode_entry e)"
  unfolding hunt_record_def all_stats by (simp add: encode_entry_def)

text \<open>The entry \<open>SetHunt\<close> writes.\<close>

definition entry_of :: "hunt_info \<Rightarrow> string \<Rightarrow> HuntEntry" where
  "entry_of h serialized =
     (let st = (case hi_Stats h of None \<Rightarrow> \<lparr>ht_TotalClientsScheduled = 0, ht_TotalClientsWithResults = 0,
                  ht_TotalClientsWithErrors = 0, ht_AvailableDownloads = JNull\<rparr> | Some st \<Rightarrow> st)
      in \<lparr>he_HuntId = hi_HuntId h, he_Timestamp = hi_CreateTime h div 1000000, he_Expires = hi_Expires h,
          he_Scheduled = ht_TotalClientsScheduled st, he_Completed = ht_TotalClientsWithResults st,
          he_Errors = ht_TotalClientsWithErrors st, he_Hunt = serialized, he_State = state_name (hi_State h),
          he_DocType = ''hunts'', he_Labels = hi_Tags h\<rparr>)"

lemma SetHunt_entry:
  assumes "hi_HuntId h \<noteq> []" and "hi_StartRequest h = Some (a # args)"
    and "hn_proto_Marshal env (h\<lparr>hi_StartRequest := Some (starting_hunt (a # args))\<rparr>) = Inr t"
  shows "SetHunt env h s = SetElasticIndex (hn_es env) (hn_org env) PERSISTED (hi_HuntId h)
    (encode_entry (entry_of h t)) s"
  using assms by (cases "hi_Stats h") (simp_all add: SetHunt_def entry_of_def empty_entry_def Let_def)

lemma SetHunt_done:
  assumes "SetHunt env h s = (None, s')"
  shows "hi_HuntId h \<noteq> [] \<and> (\<exists>t. SetElasticIndex (hn_es env) (hn_org env) PERSISTED (hi_HuntId h)
    (encode_entry (entry_of h t)) s = (None, s'))"
proof -
  obtain a args where r: "hi_HuntId h \<noteq> []" "hi_StartRequest h = Some (a # args)"
    using assms by (auto simp: SetHunt_def split: if_splits option.splits list.splits)
  then obtain t where "hn_proto_Marshal env (h\<lparr>hi_StartRequest := Some (starting_hunt (a # args))\<rparr>) = Inr t"
    using assms by (auto simp: SetHunt_def Let_def split: sum.splits)
  then have "SetHunt env h s = SetElasticIndex (hn_es env) (hn_org env) PERSISTED (hi_HuntId h)
      (encode_entry (entry_of h t)) s"
    by (rule SetHunt_entry [OF r])
  then show ?thesis using assms r(1) by metis
qed

lemma entry_GetHunt_state:
  assumes "hn_proto_Unmarshal env (he_Hunt e) = Inr h" and "he_State e = state_name (hi_State h)"
    and "\<forall>x. hi_State h \<noteq> Hunt_other x"
  shows "entry_GetHunt env e = Inr (h\<lparr>hi_Stats := Some \<lparr>ht_TotalClientsScheduled = he_Scheduled e,
    ht_TotalClientsWithResults = he_Completed e, ht_TotalClientsWithErrors = he_Errors e,
    ht_AvailableDownloads = JNull\<rparr>\<rparr>)"
proof -
  have "h\<lparr>hi_Stats := x, hi_State := hi_State h\<rparr> = h\<lparr>hi_Stats := x\<rparr>" for x by simp
  then show ?thesis
    using assms by (cases "hi_State h") (simp_all add: entry_GetHunt_def Let_def)
qed

section \<open>The index of the flows of a hunt\<close>

text \<open>Every flow of the entries gets one job, however many entries it has.\<close>

abbreviation job_key :: "string \<times> string \<Rightarrow> string" where
  "job_key j \<equiv> snd j @ fst j"

lemma flow_jobs_keys:
  "distinct (map job_key (flow_jobs hits seen)) \<and>
   set (map job_key (flow_jobs hits seen)) =
     {hf_FlowId e @ hf_ClientId e | e. \<exists>h \<in> set hits. decode_hunt_flow h = Inr e} - set seen"
proof (induction hits arbitrary: seen)
  case (Cons h hits)
  show ?case
  proof (cases "decode_hunt_flow h")
    case (Inl x)
    then show ?thesis using Cons.IH [of seen] by auto
  next
    case (Inr e)
    let ?key = "hf_FlowId e @ hf_ClientId e"
    have split: "{hf_FlowId e @ hf_ClientId e | e. \<exists>x \<in> set (h # hits). decode_hunt_flow x = Inr e} =
        insert ?key {hf_FlowId e @ hf_ClientId e | e. \<exists>x \<in> set hits. decode_hunt_flow x = Inr e}"
      using Inr by auto
    show ?thesis
    proof (cases "?key \<in> set seen")
      case True
      then show ?thesis using Cons.IH [of seen] Inr unfolding split by (simp add: Let_def)
    next
      case False
      then show ?thesis using Cons.IH [of "?key # seen"] Inr unfolding split
        by (simp add: Let_def) blast
    qed
  qed
qed simp

lemma flow_jobs_length: "length (flow_jobs hits seen) \<le> length hits"
proof (induction hits arbitrary: seen)
  case (Cons h hits)
  show ?case
    using Cons.IH [of seen] Cons.IH by (auto simp: Let_def le_SucI split: sum.split)
qed simp

lemma hunt_jobs_facts:
  assumes "\<forall>js. mset (pool js) = mset js"
  shows "distinct (map job_key (pool (flow_jobs (map snd (sort_key k L)) [])))"
    and "set (map job_key (pool (flow_jobs (map snd (sort_key k L)) []))) =
      {hf_FlowId e @ hf_ClientId e | e. \<exists>d \<in> set L. decode_hunt_flow (snd d) = Inr e}"
    and "length (pool (flow_jobs (map snd (sort_key k L)) [])) \<le> length L"
proof -
  let ?jobs = "flow_jobs (map snd (sort_key k L)) []"
  have m: "mset (map job_key (pool ?jobs)) = mset (map job_key ?jobs)" using assms by simp
  note keys = flow_jobs_keys [of "map snd (sort_key k L)" "[]"]
  show "distinct (map job_key (pool ?jobs))" using keys mset_eq_imp_distinct_iff [OF m] by blast
  show "set (map job_key (pool ?jobs)) =
      {hf_FlowId e @ hf_ClientId e | e. \<exists>d \<in> set L. decode_hunt_flow (snd d) = Inr e}"
    using keys mset_eq_setD [OF m] by auto
  have "length (pool ?jobs) = length ?jobs" using assms by (metis size_mset)
  then show "length (pool ?jobs) \<le> length L" using flow_jobs_length [of "map snd (sort_key k L)" "[]"] by simp
qed

text \<open>
  What the launcher and the host names answer while the index is written, and the line a row
  is formatted to.
\<close>

definition rows_written ::
  "'s hunt_env \<Rightarrow> (json \<Rightarrow> string) \<Rightarrow> (string \<Rightarrow> string \<Rightarrow> flow_context result) \<Rightarrow> (string \<Rightarrow> string) \<Rightarrow> bool" where
  "rows_written env enc details host \<longleftrightarrow>
     (\<forall>i f w. hn_GetFlowDetails env i f w = details i f) \<and>
     (\<forall>i c w. hn_GetHostname env i c w = host i) \<and>
     (\<forall>row. hn_Format env row = enc row @ ''\<newline>'')"

definition listed :: "(string \<Rightarrow> string \<Rightarrow> flow_context result) \<Rightarrow> (string \<times> string) list \<Rightarrow> (string \<times> string) list" where
  "listed details jobs = filter (\<lambda>(i, f). case details i f of Inl e \<Rightarrow> False | Inr c \<Rightarrow> True) jobs"

definition listed_row ::
  "'s hunt_env \<Rightarrow> client_cache \<Rightarrow> 's world \<Rightarrow> (string \<Rightarrow> string \<Rightarrow> flow_context result) \<Rightarrow> string \<times> string \<Rightarrow> json" where
  "listed_row env c w details j = enriched_row env c w (fst j) (snd j)
     (case details (fst j) (snd j) of Inl e \<Rightarrow> empty_flow | Inr flow \<Rightarrow> flow)"

lemma write_flow_rows_Writes:
  assumes "rows_written env enc details host" and "\<And>row. rs_marshal (fl_rs (hn_fl env)) row = Inr (enc row)"
  shows "write_flow_rows env c jobs rw w = rs_Writes (fl_rs (hn_fl env)) (fl_fuel (hn_fl env))
    (map (listed_row env c w0 details) (listed details jobs)) rw w"
proof (induction jobs arbitrary: rw w)
  case (Cons j jobs)
  have h: "enriched_row env c w i f flow = enriched_row env c w0 i f flow" for i f flow w
    using assms(1) by (simp add: enriched_row_def rows_written_def)
  have wr: "rs_WriteJSONL (fl_rs (hn_fl env)) fuel (hn_Format env row) 1 rw w = rs_Write (fl_rs (hn_fl env)) fuel row rw w"
    for fuel row and rw :: rs_writer and w
    using assms by (simp add: rs_WriteJSONL_def rs_Write_def rows_written_def)
  have d: "hn_GetFlowDetails env (fst j) (snd j) w = details (fst j) (snd j)"
    using assms(1) by (simp add: rows_written_def)
  show ?case
  proof (cases "details (fst j) (snd j)")
    case (Inl e)
    then show ?thesis using Cons.IH d by (cases j) (simp add: listed_def)
  next
    case (Inr flow)
    then show ?thesis using Cons.IH d h [of w] wr
      by (cases j) (simp add: listed_def listed_row_def split: option.split)
  qed
qed (simp add: listed_def)

lemma New_trunc_docs:
  assumes rs: "reliable_store (rs_es env) docs" and cl: "GetElasticClient (rs_es env) (rs_org_id env) = Inr c"
    and new: "NewResultSetWriter env P sync True w = (Inr rw, w1)"
  shows "\<exists>i md. all_docs env docs c w1 = all_docs env docs c w @ [(i, encode_md md)]"
proof -
  define md where "md = \<lparr>md_Timestamp = rs_now env (Suc (wd_ticks w)), md_VFSPath = P,
    md_ID = rs_guid env (wd_guids w), md_EndRow = 0, md_TotalRows = 0, md_Type = ''rs_metadata''\<rparr>"
  obtain i s1 where s1: "SetElasticIndex (rs_es env) (rs_org_id env) TRANSIENT [] (encode_md md)
      (wd_store w) = (None, s1)"
    "docs s1 c (GetIndex (rs_org_id env) TRANSIENT) =
      docs (wd_store w) c (GetIndex (rs_org_id env) TRANSIENT) @ [(i, encode_md md)]"
    using SetElasticIndex_adds [OF rs cl] by blast
  have "w1 = w\<lparr>wd_guids := Suc (wd_guids w), wd_ticks := Suc (Suc (wd_ticks w)), wd_store := s1\<rparr>"
    using new s1(1) by (simp add: NewResultSetWriter_def GetGUID_def Now_def Let_def SetResultSetMetadata_def
        md_def)
  then have "wd_store w1 = s1" by simp
  then show ?thesis using s1(2) by (auto simp: all_docs_def)
qed

definition hunt_flow_docs ::
  "'s hunt_env \<Rightarrow> ('s \<Rightarrow> cluster \<Rightarrow> string \<Rightarrow> index_docs) \<Rightarrow> cluster \<Rightarrow> string \<Rightarrow> 's world \<Rightarrow> index_docs" where
  "hunt_flow_docs env docs cl hunt_id w =
     match_docs (sq_query (getHuntsFlowsQuery 0 hunt_id)) (all_docs (fl_rs (hn_fl env)) docs cl w)"

lemma md_no_hunt_flow:
  "match_docs (sq_query (getHuntsFlowsQuery n hunt_id)) (ds @ [(i, encode_md md)]) =
     match_docs (sq_query (getHuntsFlowsQuery n hunt_id)) ds"
  by (simp add: match_docs_def getHuntsFlowsQuery_def query_of_def encode_md_def field_values_def)

definition hunt_jobs ::
  "'s hunt_env \<Rightarrow> ('s \<Rightarrow> cluster \<Rightarrow> string \<Rightarrow> index_docs) \<Rightarrow> cluster \<Rightarrow> string \<Rightarrow> 's world \<Rightarrow> (string \<times> string) list" where
  "hunt_jobs env docs cl hunt_id w =
     flow_jobs (map snd (sort_key (key_of ''timestamp'') (hunt_flow_docs env docs cl hunt_id w))) []"

section \<open>Properties\<close>

text \<open>
  C30. A hunt that was set is read back as it was set, with the message the ingestor looks for
  in front of its collections exactly once, the counters it carried (zero when it had none) and
  the downloads found at the time of the reading.
\<close>

theorem set_hunt_then_get:
  assumes "store_contract (hn_es env) docs" and "GetElasticClient (hn_es env) (hn_org env) = Inr c"
    and "hi_HuntId h \<noteq> []" and "hi_StartRequest h = Some (a # args)"
    and "h1 = h\<lparr>hi_StartRequest := Some (starting_hunt (a # args))\<rparr>"
    and "hn_proto_Marshal env h1 = Inr t" and "hn_proto_Unmarshal env t = Inr h1"
    and "entry_ok (entry_of h t)" and "\<forall>x. hi_State h \<noteq> Hunt_other x"
  shows "starting_hunt (starting_hunt (a # args)) = starting_hunt (a # args) \<and>
    (\<exists>s'. SetHunt env h s = (None, s') \<and>
      GetHunt env (hi_HuntId h) s' = Inr (h1\<lparr>hi_Stats := Some
        \<lparr>ht_TotalClientsScheduled = he_Scheduled (entry_of h t),
         ht_TotalClientsWithResults = he_Completed (entry_of h t),
         ht_TotalClientsWithErrors = he_Errors (entry_of h t),
         ht_AvailableDownloads = (case availableHuntDownloadFiles env (hi_HuntId h) s' of
            Inl e \<Rightarrow> JNull | Inr d \<Rightarrow> d)\<rparr>\<rparr>))"
proof -
  obtain s' where s': "SetElasticIndex (hn_es env) (hn_org env) PERSISTED (hi_HuntId h)
      (encode_entry (entry_of h t)) s = (None, s')"
    "docs s' c (GetIndex (hn_org env) PERSISTED) =
      doc_put (hi_HuntId h) (encode_entry (entry_of h t)) (docs s c (GetIndex (hn_org env) PERSISTED))"
    using SetElasticIndex_put [OF assms(1-3)] by blast
  have "GetElasticRecord (hn_es env) (hn_org env) PERSISTED (hi_HuntId h) s' = Inr (encode_entry (entry_of h t))"
    by (rule GetElasticRecord_found [OF assms(1,2)]) (simp add: s'(2) map_of_doc_put)
  moreover have "entry_GetHunt env (entry_of h t) = Inr (h1\<lparr>hi_Stats := Some
      \<lparr>ht_TotalClientsScheduled = he_Scheduled (entry_of h t),
       ht_TotalClientsWithResults = he_Completed (entry_of h t),
       ht_TotalClientsWithErrors = he_Errors (entry_of h t), ht_AvailableDownloads = JNull\<rparr>\<rparr>)"
    by (rule entry_GetHunt_state) (use assms(5,7,9) in \<open>simp_all add: entry_of_def Let_def\<close>)
  ultimately have "GetHunt env (hi_HuntId h) s' = Inr (h1\<lparr>hi_Stats := Some
        \<lparr>ht_TotalClientsScheduled = he_Scheduled (entry_of h t),
         ht_TotalClientsWithResults = he_Completed (entry_of h t),
         ht_TotalClientsWithErrors = he_Errors (entry_of h t),
         ht_AvailableDownloads = (case availableHuntDownloadFiles env (hi_HuntId h) s' of
            Inl e \<Rightarrow> JNull | Inr d \<Rightarrow> d)\<rparr>\<rparr>)"
    by (simp add: GetHunt_def decode_encode_entry [OF assms(8)])
  moreover have "SetHunt env h s = (None, s')"
    using SetHunt_entry [OF assms(3,4) assms(6) [unfolded assms(5)]] s'(1) by metis
  ultimately show ?thesis by (simp add: starting_hunt_def)
qed

text \<open>
  A modification of a hunt takes back the statistics that were flushed while it ran: the
  hunt is read, an updater of its statistics is flushed, and the write of the modified hunt
  restores the counters of the reading.
\<close>

theorem modification_loses_statistics:
  assumes "store_contract (hn_es env) docs" and "GetElasticClient (hn_es env) (hn_org env) = Inr c"
    and "map_of (docs s c (GetIndex (hn_org env) PERSISTED)) i = Some (encode_entry e)" and "entry_ok e"
    and "GetHunt env i s = Inr h" and "hi_HuntId h = i"
    and "Flush (hn_es env) (hn_org env) u s = (u', err, s1)" and "su_hunt_id u = i"
    and "SetHunt env (fst (modify_callback now m h)) s1 = (None, s2)"
  shows "recorded k i (docs s1 c (GetIndex (hn_org env) PERSISTED)) =
      recorded k i (docs s c (GetIndex (hn_org env) PERSISTED)) + stat_of k u \<and>
    recorded k i (docs s2 c (GetIndex (hn_org env) PERSISTED)) =
      recorded k i (docs s c (GetIndex (hn_org env) PERSISTED))"
proof -
  let ?h = "fst (modify_callback now m h)"
  have id: "hi_HuntId ?h = i" and st: "hi_Stats ?h = hi_Stats h" using assms(6) by (simp_all add: modify_callback_def)
  have "GetElasticRecord (hn_es env) (hn_org env) PERSISTED i s = Inr (encode_entry e)"
    by (rule GetElasticRecord_found [OF assms(1-3)])
  then have "\<exists>d. hi_Stats h = Some \<lparr>ht_TotalClientsScheduled = he_Scheduled e,
      ht_TotalClientsWithResults = he_Completed e, ht_TotalClientsWithErrors = he_Errors e,
      ht_AvailableDownloads = d\<rparr>"
    using assms(5) decode_encode_entry [OF assms(4)]
    by (cases "hn_proto_Unmarshal env (he_Hunt e)") (auto simp: GetHunt_def entry_GetHunt_def Let_def split: if_splits)
  then have counts: "he_Scheduled (entry_of ?h t) = he_Scheduled e" "he_Completed (entry_of ?h t) = he_Completed e"
    "he_Errors (entry_of ?h t) = he_Errors e" for t
    using st by (auto simp: entry_of_def)
  obtain t where t: "SetElasticIndex (hn_es env) (hn_org env) PERSISTED i (encode_entry (entry_of ?h t)) s1 = (None, s2)"
    "i \<noteq> []"
    using SetHunt_done [OF assms(9)] id by auto
  have "docs s2 c (GetIndex (hn_org env) PERSISTED) =
      doc_put i (encode_entry (entry_of ?h t)) (docs s1 c (GetIndex (hn_org env) PERSISTED))"
    using SetElasticIndex_put [OF assms(1,2) t(2), of PERSISTED "encode_entry (entry_of ?h t)" s1] t(1) by auto
  then have "recorded k i (docs s2 c (GetIndex (hn_org env) PERSISTED)) =
      recorded k i (docs s c (GetIndex (hn_org env) PERSISTED))"
    using recorded_entry [OF assms(3), of k] counts
    by (subst recorded_entry [where e = "entry_of ?h t"]) (auto simp: map_of_doc_put split: stat.split)
  then show ?thesis
    using Flush_record [OF assms(1,2), of s u "encode_entry e"] assms(3,7,8) entry_hunt_record by auto
qed


text \<open>
  Flows of a hunt that answered within one second are indexed up to a page only: the walk
  over the documents of the hunt asks for later seconds after its first page, and a time stamp
  is all it has to tell them apart.
\<close>

theorem hunt_flows_of_one_second_cut:
  assumes "search_contract (hn_es env) docs" and "GetElasticClient (hn_es env) (hn_org env) = Inr cl"
    and "L = hunt_flow_docs env docs cl hunt_id w"
    and "\<forall>d \<in> set L. jget ''timestamp'' (snd d) = Some (JInt t)" and "0 < fuel"
  shows "\<exists>hits. QueryChan (hn_es env) fuel 1000 (hn_org env) TRANSIENT (getHuntsFlowsQuery 0 hunt_id) ''timestamp''
      (\<lambda>n. wd_store w) = Inr hits \<and> hits = map snd (take 1000 L) \<and> length (flow_jobs hits []) \<le> 1000"
proof -
  have "QueryChan (hn_es env) fuel 1000 (hn_org env) TRANSIENT (getHuntsFlowsQuery 0 hunt_id) ''timestamp''
      (\<lambda>n. wd_store w) = Inr (map snd (take 1000 L))"
    by (rule QueryChan_same_key [where v = "JInt t", OF assms(1,2)])
      (use assms(3-5) in \<open>simp_all add: getHuntsFlowsQuery_def query_of_def hunt_flow_docs_def all_docs_def\<close>)
  moreover have "length (flow_jobs (map snd (take 1000 L)) []) \<le> length (map snd (take 1000 L))"
    by (rule flow_jobs_length)
  ultimately show ?thesis by (intro exI conjI) auto
qed

section \<open>An example hunt\<close>

text \<open>
  A hunt with two flows: the flow of the first client has two documents, the details of the
  other one cannot be read.
\<close>

definition hunt_row :: json where
  "hunt_row = JObj [(''ClientId'', JStr ''C.1''), (''Hostname'', JStr ''h''), (''FlowId'', JStr ''F.1.H''),
     (''StartedTime'', JInt 0), (''State'', JStr ''FINISHED''), (''Duration'', JInt 3),
     (''TotalBytes'', JInt 0), (''TotalRows'', JInt 0)]"

definition bad_row :: json where
  "bad_row = JObj [(''ClientId'', JStr ''C.2''), (''Hostname'', JStr ''h''), (''FlowId'', JStr ''F.1.H''),
     (''StartedTime'', JInt 0), (''State'', JStr ''FINISHED''), (''Duration'', JInt 3),
     (''TotalBytes'', JInt 0), (''TotalRows'', JInt 0)]"

definition row_text :: "json \<Rightarrow> string" where
  "row_text j = (if jget ''ClientId'' j = Some (JStr ''C.1'') then ''one'' else ''other'')"

definition stored_hunt :: hunt_info where
  "stored_hunt = \<lparr>hi_HuntId = ''H.1'', hi_HuntDescription = ''all'', hi_Creator = ''admin'', hi_CreateTime = 1,
     hi_StartTime = 2, hi_Expires = 3, hi_State = Hunt_RUNNING, hi_Tags = [], hi_Stats = None,
     hi_StartRequest = Some (starting_hunt [\<lparr>cg_QueryId = 1, cg_TotalQueries = 1, cg_Query = [''q''], cg_Other = JNull\<rparr>]),
     hi_Other = JNull\<rparr>"

definition sample_hunt_env :: "mem_es_state hunt_env" where
  "sample_hunt_env =
     \<lparr>hn_fl = sample_flow_env\<lparr>
        fl_rs := sample_rs_env\<lparr>rs_marshal := (\<lambda>j. Inr (row_text j)), rs_now := (\<lambda>n. 90000000000000 + int n)\<rparr>,
        fl_te := (fl_te sample_flow_env)\<lparr>unmarshal := (\<lambda>l. Some (if l = ''one\<newline>'' then hunt_row else bad_row))\<rparr>\<rparr>,
      hn_ix = sample_index_env, hn_proto_Unmarshal = (\<lambda>t. Inr stored_hunt), hn_proto_Marshal = (\<lambda>h. Inr ''hunt''),
      hn_json_Unmarshal = (\<lambda>t. Inr stored_hunt), hn_HuntIndex = ''/hunts'',
      hn_EnrichedClients = (\<lambda>h. ''/hunts/'' @ h), hn_DownloadsDir = (\<lambda>h. ''/downloads/'' @ h), hn_GetDB = None,
      hn_ListChildren = (\<lambda>d s. Inr []), hn_GetSubject = (\<lambda>p s. Inl NotFoundError), hn_Base = (\<lambda>p. p),
      hn_launcher = None, hn_GetFlowDetails = (\<lambda>i f w. if i = ''C.1'' then Inr empty_flow else Inl NotFoundError),
      hn_flow_row = (\<lambda>c. \<lparr>fd_State = ''FINISHED'', fd_Duration = 3000000000\<rparr>), hn_GetHostname = (\<lambda>i c w. ''h''),
      hn_ParseUint = (\<lambda>t. 0), hn_order = rev, hn_pool = rev, hn_Format = (\<lambda>j. row_text j @ ''\<newline>'')\<rparr>"

definition sample_hunt_world :: "mem_es_state world" where
  "sample_hunt_world = sample_world\<lparr>wd_ticks := 1, wd_store := [(''transient'', map (\<lambda>(i, t, client, status).
     (i, encode_hunt_flow (hunt_flow_entry (t * 1000000000) ''H.1'' client ''F.1.H'' status)))
     [(''a'', 10, ''C.1'', ''started''), (''b'', 11, ''C.2'', ''started''), (''c'', 20, ''C.1'', ''updated'')])]\<rparr>"

abbreviation C1_details :: "string \<Rightarrow> string \<Rightarrow> flow_context result" where
  "C1_details \<equiv> \<lambda>i f. if i = ''C.1'' then Inr empty_flow else Inl NotFoundError"

lemma sample_hunt_ok: "flows_ok (hn_fl sample_hunt_env) sample_flow_docs PrimaryOpenSearch row_text"
  using mem_reliable
  by (auto simp: flows_ok_def sample_hunt_env_def sample_flow_env_def sample_rs_env_def row_text_def)

lemma sample_hunt_facts:
  "hunt_shouldRebuildIndex sample_hunt_env ''H.1'' (sample_hunt_world\<lparr>wd_ticks := 0\<rparr>) = (True, sample_hunt_world)"
  "PopulateClientInfoCache (hn_ix sample_hunt_env) (hn_ParseUint sample_hunt_env) [] (wd_store sample_hunt_world) = (None, [])"
  "map fst (hunt_flow_docs sample_hunt_env sample_flow_docs PrimaryOpenSearch ''H.1'' sample_hunt_world) = [''a'', ''b'', ''c'']"
  "hunt_jobs sample_hunt_env sample_flow_docs PrimaryOpenSearch ''H.1'' sample_hunt_world = [(''C.1'', ''F.1.H''), (''C.2'', ''F.1.H'')]"
  "packets_of (hn_EnrichedClients sample_hunt_env ''H.1'') (rs_guid (fl_rs (hn_fl sample_hunt_env)) (wd_guids sample_hunt_world))
     (all_docs (fl_rs (hn_fl sample_hunt_env)) sample_flow_docs PrimaryOpenSearch sample_hunt_world) = []"
  "mds_of (hn_EnrichedClients sample_hunt_env ''H.1'')
     (all_docs (fl_rs (hn_fl sample_hunt_env)) sample_flow_docs PrimaryOpenSearch sample_hunt_world) = []"
  "listed_row sample_hunt_env [] sample_hunt_world C1_details (''C.1'', ''F.1.H'') = hunt_row"
  "listed_row sample_hunt_env [] sample_hunt_world C1_details (''C.2'', ''F.1.H'') = bad_row"
  "map (key_of ''timestamp'') (hunt_flow_docs sample_hunt_env sample_flow_docs PrimaryOpenSearch ''H.1'' sample_hunt_world) =
     [KInt 10, KInt 11, KInt 20]"
  "list_all (\<lambda>d. jget ''timestamp'' (snd d) \<noteq> None)
     (hunt_flow_docs sample_hunt_env sample_flow_docs PrimaryOpenSearch ''H.1'' sample_hunt_world)"
  by code_simp+


theorem hunt_flows_of_one_second_cut_witness:
  "\<exists>hits. QueryChan mem_es 2 1000 ''root'' TRANSIENT (getHuntsFlowsQuery 0 ''H.1'') ''timestamp''
     (\<lambda>n. [(''transient'', [(''a'', encode_hunt_flow (hunt_flow_entry 0 ''H.1'' ''C.1'' ''F.1.H'' ''started''))])]) =
       Inr hits \<and> flow_jobs hits [] = [(''C.1'', ''F.1.H'')]"
proof -
  let ?w = "sample_world\<lparr>wd_store := [(''transient'',
    [(''a'', encode_hunt_flow (hunt_flow_entry 0 ''H.1'' ''C.1'' ''F.1.H'' ''started''))])]\<rparr>"
  let ?L = "hunt_flow_docs sample_hunt_env sample_flow_docs PrimaryOpenSearch ''H.1'' ?w"
  have L: "?L = [(''a'', encode_hunt_flow (hunt_flow_entry 0 ''H.1'' ''C.1'' ''F.1.H'' ''started''))]" by code_simp
  have "hn_es sample_hunt_env = mem_es" "hn_org sample_hunt_env = ''root''"
    by (simp_all add: sample_hunt_env_def sample_rs_env_def)
  moreover have "\<forall>d \<in> set ?L. jget ''timestamp'' (snd d) = Some (JInt 0)"
    unfolding L by (simp add: encode_hunt_flow_def hunt_flow_entry_def)
  ultimately show ?thesis
    using hunt_flows_of_one_second_cut [where env = sample_hunt_env and docs = sample_flow_docs and cl = PrimaryOpenSearch
        and L = ?L and hunt_id = "''H.1''" and w = ?w and t = 0 and fuel = 2] mem_search_contract
    unfolding L by (auto simp: hunt_flow_entry_def)
qed

definition fresh_hunt :: hunt_info where
  "fresh_hunt = stored_hunt\<lparr>hi_StartRequest :=
     Some [\<lparr>cg_QueryId = 1, cg_TotalQueries = 1, cg_Query = [''q''], cg_Other = JNull\<rparr>]\<rparr>"

theorem set_hunt_then_get_witness:
  "\<exists>s'. SetHunt sample_hunt_env fresh_hunt [] = (None, s') \<and>
     (\<exists>h. GetHunt sample_hunt_env ''H.1'' s' = Inr h \<and> hi_StartRequest h = hi_StartRequest stored_hunt)"
  using set_hunt_then_get [where env = sample_hunt_env and docs = sample_flow_docs and c = PrimaryOpenSearch
      and h = fresh_hunt and ?h1.0 = stored_hunt and t = "''hunt''" and args = "[]" and s = "[]"
      and a = "\<lparr>cg_QueryId = 1, cg_TotalQueries = 1, cg_Query = [''q''], cg_Other = JNull\<rparr>"] mem_store_contract
  by (auto simp: sample_hunt_env_def sample_rs_env_def fresh_hunt_def stored_hunt_def starting_hunt_def entry_ok_def
      entry_of_def in_u64_def)

text \<open>Seven clients are scheduled, two more are flushed while the description is changed.\<close>

theorem modification_loses_statistics_witness:
  "\<exists>s1 s2. recorded Scheduled ''H.1'' (mem_docs s1 ''persisted'') = 9 \<and> recorded Scheduled ''H.1'' (mem_docs s2 ''persisted'') = 7 \<and>
     SetHunt sample_hunt_env (fst (modify_callback 0 stored_hunt (stored_hunt\<lparr>hi_Stats := Some
       \<lparr>ht_TotalClientsScheduled = 7, ht_TotalClientsWithResults = 0, ht_TotalClientsWithErrors = 0,
        ht_AvailableDownloads = JObj [(''Files'', JList [])]\<rparr>\<rparr>))) s1 = (None, s2)"
proof -
  define e where "e = (entry_of stored_hunt ''hunt'')\<lparr>he_Scheduled := 7\<rparr>"
  define s :: mem_es_state where "s = [(''persisted'', [(''H.1'', encode_entry e)])]"
  define u where "u = (new_updater ''H.1'')\<lparr>su_scheduled := 2\<rparr>"
  define h where "h = stored_hunt\<lparr>hi_Stats := Some \<lparr>ht_TotalClientsScheduled = 7, ht_TotalClientsWithResults = 0,
    ht_TotalClientsWithErrors = 0, ht_AvailableDownloads = JObj [(''Files'', JList [])]\<rparr>\<rparr>"
  have env: "hn_es sample_hunt_env = mem_es" "hn_org sample_hunt_env = ''root''"
    by (simp_all add: sample_hunt_env_def sample_rs_env_def)
  have idx: "GetIndex ''root'' PERSISTED = ''persisted''" by (simp add: GetIndex_def PERSISTED_def)
  have get: "GetHunt sample_hunt_env ''H.1'' s = Inr h" unfolding s_def e_def h_def by code_simp
  obtain u' err s1 where f: "Flush mem_es ''root'' u s = (u', err, s1)" by (metis prod_cases3)
  obtain err2 s2 where w: "SetHunt sample_hunt_env (fst (modify_callback 0 stored_hunt h)) s1 = (err2, s2)" by (metis surj_pair)
  have "err2 = None"
  proof -
    have "fst (SetHunt sample_hunt_env (fst (modify_callback 0 stored_hunt h)) (snd (snd (Flush mem_es ''root'' u s)))) = None"
      unfolding s_def e_def h_def u_def by code_simp
    then show ?thesis using f w by simp
  qed
  moreover have "recorded Scheduled ''H.1'' (mem_docs s ''persisted'') = 7"
    by (simp add: recorded_def s_def e_def mem_docs_def encode_entry_def)
  moreover have "entry_ok e" by (simp add: entry_ok_def e_def entry_of_def stored_hunt_def in_u64_def)
  ultimately show ?thesis
    using modification_loses_statistics [where env = sample_hunt_env and docs = sample_flow_docs and c = PrimaryOpenSearch
        and i = "''H.1''" and e = e and s = s and h = h and u = u and k = Scheduled and m = stored_hunt and now = 0
        and err = err and u' = u' and ?s1.0 = s1 and ?s2.0 = s2] get f w env idx mem_store_contract
    by (auto simp: s_def u_def new_updater_def h_def stored_hunt_def mem_docs_def)
qed

end
