(* ===== verification/Vfs.thy ===== *)
theory Vfs
  imports Flows UploadServer
begin

text \<open>
  The VFS service (\<open>services/vfs_service\<close>): the listing of a directory and the downloads of its
  files are separate documents of a data stream, put together again when the directory is read.
  The documents are written by the ingestor and by \<open>WriteDownloadInfo\<close>.
\<close>

section \<open>Documents (directory.go)\<close>

record VFSRecord =
  vf_Id :: string
  vf_ClientId :: string
  vf_FlowId :: string
  vf_Components :: "string list"
  vf_Downloads :: "string list"
  vf_JSONData :: string
  vf_DocType :: string
  vf_DocId :: string
  vf_Timestamp :: int

definition encode_vfs :: "VFSRecord \<Rightarrow> json" where
  "encode_vfs r = JObj
     [(''id'', JStr (vf_Id r)), (''client_id'', JStr (vf_ClientId r)), (''flow_id'', JStr (vf_FlowId r)),
      (''components'', jstrs (vf_Components r)), (''downloads'', jstrs (vf_Downloads r)),
      (''data'', JStr (vf_JSONData r)), (''doc_type'', JStr (vf_DocType r)),
      (''doc_id'', JStr (vf_DocId r)), (''timestamp'', JInt (vf_Timestamp r))]"

definition decode_vfs :: "json \<Rightarrow> VFSRecord result" where
  "decode_vfs j =
     bindR (Json.get_str ''id'' j) (\<lambda>a1. bindR (Json.get_str ''client_id'' j) (\<lambda>a2.
     bindR (Json.get_str ''flow_id'' j) (\<lambda>a3. bindR (Json.get_strs ''components'' j) (\<lambda>a4.
     bindR (Json.get_strs ''downloads'' j) (\<lambda>a5. bindR (Json.get_str ''data'' j) (\<lambda>a6.
     bindR (Json.get_str ''doc_type'' j) (\<lambda>a7. bindR (Json.get_str ''doc_id'' j) (\<lambda>a8.
     bindR (Json.get_int ''timestamp'' j) (\<lambda>a9.
       Inr \<lparr>vf_Id = a1, vf_ClientId = a2, vf_FlowId = a3, vf_Components = a4, vf_Downloads = a5,
            vf_JSONData = a6, vf_DocType = a7, vf_DocId = a8, vf_Timestamp = a9\<rparr>)))))))))"

record DownloadRow =
  dw_Accessor :: string
  dw_Components :: "string list"
  dw_FSComponents :: "string list"
  dw_Size :: int
  dw_StoredSize :: int
  dw_Sha256 :: string
  dw_Md5 :: string
  dw_Mtime :: int
  dw_InFlight :: bool
  dw_FlowId :: string

definition empty_download :: DownloadRow where
  "empty_download = \<lparr>dw_Accessor = [], dw_Components = [], dw_FSComponents = [], dw_Size = 0,
     dw_StoredSize = 0, dw_Sha256 = [], dw_Md5 = [], dw_Mtime = 0, dw_InFlight = False, dw_FlowId = []\<rparr>"

definition encode_download :: "DownloadRow \<Rightarrow> json" where
  "encode_download r = JObj
     [(''Accessor'', JStr (dw_Accessor r)), (''_Components'', jstrs (dw_Components r)),
      (''FSPath'', jstrs (dw_FSComponents r)), (''Size'', JInt (dw_Size r)),
      (''StoredSize'', JInt (dw_StoredSize r)), (''Sha256'', JStr (dw_Sha256 r)),
      (''Md5'', JStr (dw_Md5 r)), (''mtime'', JInt (dw_Mtime r)),
      (''in_flight'', JBool (dw_InFlight r)), (''flow_id'', JStr (dw_FlowId r))]"

text \<open>\<open>Unmarshal\<close> into a row: a field the text does not have keeps the value of the row.\<close>

definition keep :: "string \<Rightarrow> json \<Rightarrow> 'a \<Rightarrow> 'a result \<Rightarrow> 'a result" where
  "keep k j old new = (case jget k j of None \<Rightarrow> Inr old | Some JNull \<Rightarrow> Inr old | Some v \<Rightarrow> new)"

definition decode_download :: "DownloadRow \<Rightarrow> json \<Rightarrow> DownloadRow result" where
  "decode_download d j =
     bindR (Json.get_str ''Accessor'' j) (\<lambda>a1. bindR (Json.get_strs ''_Components'' j) (\<lambda>a2.
     bindR (Json.get_strs ''FSPath'' j) (\<lambda>a3. bindR (get_u64 ''Size'' j) (\<lambda>a4.
     bindR (get_u64 ''StoredSize'' j) (\<lambda>a5. bindR (Json.get_str ''Sha256'' j) (\<lambda>a6.
     bindR (Json.get_str ''Md5'' j) (\<lambda>a7. bindR (get_u64 ''mtime'' j) (\<lambda>a8.
     bindR (Json.get_bool ''in_flight'' j) (\<lambda>a9.
     bindR (keep ''flow_id'' j (dw_FlowId d) (Json.get_str ''flow_id'' j)) (\<lambda>a10.
       Inr \<lparr>dw_Accessor = a1, dw_Components = a2, dw_FSComponents = a3, dw_Size = a4,
            dw_StoredSize = a5, dw_Sha256 = a6, dw_Md5 = a7, dw_Mtime = a8, dw_InFlight = a9,
            dw_FlowId = a10\<rparr>))))))))))"

text \<open>The listing of a directory (a message of the library).\<close>

record list_response =
  ls_Response :: string
  ls_Columns :: "string list"
  ls_Timestamp :: int
  ls_ClientId :: string
  ls_FlowId :: string
  ls_TotalRows :: int
  ls_Artifact :: string
  ls_StartIdx :: int
  ls_EndIdx :: int
  ls_DownloadVersion :: int

definition empty_listing :: list_response where
  "empty_listing = \<lparr>ls_Response = [], ls_Columns = [], ls_Timestamp = 0, ls_ClientId = [],
     ls_FlowId = [], ls_TotalRows = 0, ls_Artifact = [], ls_StartIdx = 0, ls_EndIdx = 0,
     ls_DownloadVersion = 0\<rparr>"

record table_request =
  tq_ClientId :: string
  tq_VfsComponents :: "string list"
  tq_Artifact :: string
  tq_StartIdx :: int
  tq_EndIdx :: int

record table_response =
  tb_Columns :: "string list"
  tb_Rows :: "string list"

record download_info =
  di_Size :: int
  di_Components :: "string list"
  di_Mtime :: int
  di_SHA256 :: string
  di_MD5 :: string
  di_InFlight :: bool
  di_FlowId :: string

definition empty_info :: download_info where
  "empty_info = \<lparr>di_Size = 0, di_Components = [], di_Mtime = 0, di_SHA256 = [], di_MD5 = [],
     di_InFlight = False, di_FlowId = []\<rparr>"

section \<open>Environment\<close>

text \<open>
  The store and the result sets, and the library's part: the texts of listings and downloads
  (an unreadable listing leaves what was read of it), paths, hashes, the reader of tables and
  the JSON of the information on a download.
\<close>

record 's vfs_env =
  ve_fl :: "'s flow_env"
  ve_render_listing :: "list_response \<Rightarrow> string"
  ve_parse_listing :: "string \<Rightarrow> list_response \<times> go_error option"
  ve_marshal :: "json \<Rightarrow> string"
  ve_JoinComponents :: "string list \<Rightarrow> string"
  ve_sha1 :: "string \<Rightarrow> string"
  ve_sha256 :: "string \<Rightarrow> string"
  ve_ClientIdFromSource :: "string \<Rightarrow> string"
  ve_artifact_path :: "string \<Rightarrow> string \<Rightarrow> string \<Rightarrow> string"
  ve_MarshalIndent :: "json list \<Rightarrow> string result"
  ve_GetTable :: "table_request \<Rightarrow> 's world \<Rightarrow> table_response result"
  ve_info_json :: "download_info \<Rightarrow> json"

abbreviation ve_rs :: "'s vfs_env \<Rightarrow> 's rs_env" where
  "ve_rs env \<equiv> fl_rs (ve_fl env)"

abbreviation ve_es :: "'s vfs_env \<Rightarrow> 's elastic" where
  "ve_es env \<equiv> rs_es (ve_rs env)"

abbreviation ve_org :: "'s vfs_env \<Rightarrow> string" where
  "ve_org env \<equiv> rs_org_id (ve_rs env)"

text \<open>The id of a directory or file: the hash of its path, with the client and the accessor.\<close>

definition vfs_id :: "'s vfs_env \<Rightarrow> string list \<Rightarrow> string" where
  "vfs_id env components = MakeId (ve_sha1 env) (ve_JoinComponents env components)"

definition unmarshal_text :: "'s vfs_env \<Rightarrow> string \<Rightarrow> json result" where
  "unmarshal_text env l =
     (case unmarshal (fl_te (ve_fl env)) l of None \<Rightarrow> Inl (Err ''invalid JSON'') | Some j \<Rightarrow> Inr j)"

section \<open>Reading a directory (assembler.go)\<close>

definition vfsSidePanelRenderQuery :: "string \<Rightarrow> search_req" where
  "vfsSidePanelRenderQuery i = (query_of (Must [Match ''doc_id'' (JStr i), Match ''id'' (JStr i),
       Match ''doc_type'' (JStr ''vfs'')]))\<lparr>sq_sort := Some (''timestamp'', True), sq_size := Some 1\<rparr>"

definition queryAllVFSAttributes :: "string \<Rightarrow> search_req" where
  "queryAllVFSAttributes i = (query_of (Must [Match ''id'' (JStr i), Match ''doc_type'' (JStr ''vfs'')]))
     \<lparr>sq_sort := Some (''timestamp'', False), sq_size := Some 10000\<rparr>"

record VFSAssembler =
  as_listing :: string
  as_downloads :: "(string \<times> string) list"

definition assemble_hit :: "json \<Rightarrow> VFSAssembler \<Rightarrow> VFSAssembler" where
  "assemble_hit hit asm =
     (case decode_vfs hit of
        Inl e \<Rightarrow> asm
      | Inr r \<Rightarrow>
          if vf_JSONData r \<noteq> [] then asm\<lparr>as_listing := vf_JSONData r\<rparr>
          else (case vf_Downloads r of
                  [d] \<Rightarrow> asm\<lparr>as_downloads := AList.update (vf_DocId r) d (as_downloads asm)\<rparr>
                | _ \<Rightarrow> asm))"

fun take_downloads ::
  "'s vfs_env \<Rightarrow> string list \<Rightarrow> list_response \<Rightarrow> DownloadRow list \<times> list_response" where
  "take_downloads env [] stat = ([], stat)"
| "take_downloads env (d # ds) stat =
     (case bindR (unmarshal_text env d) (decode_download empty_download) of
        Inl e \<Rightarrow> take_downloads env ds stat
      | Inr r \<Rightarrow>
          (let stat1 = (if dw_Mtime r > ls_DownloadVersion stat then stat\<lparr>ls_DownloadVersion := dw_Mtime r\<rparr>
                        else stat)
           in if \<not> dw_InFlight r \<and> dw_Sha256 r = [] then take_downloads env ds stat1
              else (case take_downloads env ds stat1 of (rs, st) \<Rightarrow> (r # rs, st))))"

definition readDirectoryWithDownloads ::
  "'s vfs_env \<Rightarrow> string \<Rightarrow> string list \<Rightarrow> 's world \<Rightarrow> (DownloadRow list \<times> list_response) result" where
  "readDirectoryWithDownloads env cid components w =
     bindR (QueryElasticRaw (ve_es env) (ve_org env) TRANSIENT
              (queryAllVFSAttributes (vfs_id env (cid # components))) (wd_store w)) (\<lambda>(hits, n).
       let asm = fold assemble_hit hits \<lparr>as_listing = [], as_downloads = []\<rparr>
       in if as_listing asm = [] then Inr ([], empty_listing)
          else (case ve_parse_listing env (as_listing asm) of
                  (stat, Some e) \<Rightarrow> Inr ([], stat)
                | (stat, None) \<Rightarrow>
                    Inr (take_downloads env
                      (map (\<lambda>k. the (map_of (as_downloads asm) k))
                        (fl_order (ve_fl env) (map fst (as_downloads asm)))) stat)))"

definition getLatestVFSListResponse ::
  "'s vfs_env \<Rightarrow> string \<Rightarrow> string list \<Rightarrow> 's world \<Rightarrow> list_response result" where
  "getLatestVFSListResponse env cid components w =
     (case GetElasticRecordByQuery (ve_es env) (ve_org env) TRANSIENT
             (vfsSidePanelRenderQuery (vfs_id env (cid # components))) (wd_store w) of
        Inl e \<Rightarrow> Inr empty_listing
      | Inr None \<Rightarrow> Inr empty_listing
      | Inr (Some serialized) \<Rightarrow>
          (case decode_vfs serialized of
             Inl e \<Rightarrow> Inr empty_listing
           | Inr r \<Rightarrow> (case ve_parse_listing env (vf_JSONData r) of
                (stat, Some e) \<Rightarrow> Inl e | (stat, None) \<Rightarrow> Inr stat)))"

section \<open>The tree and the table of files (directory.go)\<close>

definition renderRootVFS :: list_response where
  "renderRootVFS = empty_listing\<lparr>ls_Response :=
     ''\<newline>   [\<newline>    {\"Mode\": \"drwxrwxrwx\", \"Name\": \"auto\"},'' @
     ''\<newline>    {\"Mode\": \"drwxrwxrwx\", \"Name\": \"ntfs\"},'' @
     ''\<newline>    {\"Mode\": \"drwxrwxrwx\", \"Name\": \"registry\"}\<newline>   ]''\<rparr>"

definition is_directory :: "json \<Rightarrow> bool" where
  "is_directory row = (case jget ''Mode'' row of Some (JStr (c # m)) \<Rightarrow> c = CHR ''d'' | _ \<Rightarrow> False)"

definition row_keys :: "json \<Rightarrow> string list" where
  "row_keys row = (case row of JObj kvs \<Rightarrow> map fst kvs | _ \<Rightarrow> [])"

fun take_directories ::
  "int \<Rightarrow> int \<Rightarrow> json list \<Rightarrow> json list \<Rightarrow> string list \<Rightarrow> json list \<times> string list" where
  "take_directories end_idx n [] rows columns = (rows, columns)"
| "take_directories end_idx n (row # rest) rows columns =
     (if n + 1 > end_idx then (rows, columns)
      else if \<not> is_directory row then take_directories end_idx (n + 1) rest rows columns
      else (let rows1 = rows @ [row]; columns1 = (if columns = [] then row_keys row else columns)
            in if length rows1 > 2000 then (rows1, columns1)
               else take_directories end_idx (n + 1) rest rows1 columns1))"

definition renderDBVFS ::
  "'s vfs_env \<Rightarrow> string \<Rightarrow> string list \<Rightarrow> 's world \<Rightarrow> list_response result" where
  "renderDBVFS env cid components w =
     bindR (getLatestVFSListResponse env cid components w) (\<lambda>res.
       if ls_TotalRows res = 0 then Inr res
       else (let artifact_name = (if ls_Artifact res = [] then ''System.VFS.ListDirectory'' else ls_Artifact res)
             in case NewResultSetReader (ve_rs env)
                       (ve_artifact_path env (ls_ClientId res) (ls_FlowId res) artifact_name) w of
                  Inl e \<Rightarrow> Inr res
                | Inr r \<Rightarrow>
                    (case take_directories (ls_EndIdx res) (ls_StartIdx res)
                            (rd_Rows (ve_rs env) (unmarshal (fl_te (ve_fl env))) (fl_fuel (ve_fl env))
                               (rd_SeekToRow (i64 (ls_StartIdx res)) r) w) [] [] of
                       (rows, columns) \<Rightarrow>
                         bindR (ve_MarshalIndent env rows) (\<lambda>encoded.
                           Inr (res\<lparr>ls_Response := encoded, ls_Columns := columns\<rparr>)))))"

definition ListDirectories ::
  "'s vfs_env \<Rightarrow> string \<Rightarrow> string list \<Rightarrow> 's world \<Rightarrow> list_response result" where
  "ListDirectories env cid components w =
     (if components = [] then Inr renderRootVFS else renderDBVFS env cid components w)"

definition download_entry :: "'s vfs_env \<Rightarrow> string \<Rightarrow> DownloadRow \<Rightarrow> download_info" where
  "download_entry env cid d = \<lparr>di_Size = dw_Size d,
     di_Components = S3ComponentsForClientUpload (ve_sha256 env)
       \<lparr>UploadRequest_ClientId = ve_ClientIdFromSource env cid, UploadRequest_SessionId = dw_FlowId d,
        UploadRequest_Accessor = dw_Accessor d, UploadRequest_Components = dw_Components d,
        UploadRequest_Type = []\<rparr>,
     di_Mtime = u64 (dw_Mtime d * 1000000), di_SHA256 = dw_Sha256 d, di_MD5 = dw_Md5 d,
     di_InFlight = dw_InFlight d, di_FlowId = dw_FlowId d\<rparr>"

fun download_lookup ::
  "'s vfs_env \<Rightarrow> string \<Rightarrow> DownloadRow list \<Rightarrow> (string \<rightharpoonup> download_info) \<Rightarrow> string \<rightharpoonup> download_info" where
  "download_lookup env cid [] m = m"
| "download_lookup env cid (d # ds) m =
     download_lookup env cid ds
       (if dw_Components d = [] then m else m(last (dw_Components d) \<mapsto> download_entry env cid d))"

fun index_from :: "nat \<Rightarrow> string \<Rightarrow> string list \<Rightarrow> nat option" where
  "index_from i name [] = None"
| "index_from i name (c # cs) = (if c = name then Some i else index_from (Suc i) name cs)"

definition with_download ::
  "'s vfs_env \<Rightarrow> (string \<rightharpoonup> download_info) \<Rightarrow> nat \<Rightarrow> string \<Rightarrow> string" where
  "with_download env lookup idx text_row =
     (case unmarshal (fl_te (ve_fl env)) text_row of
        Some (JList cells) \<Rightarrow>
          (if length cells \<le> idx then text_row
           else (case cells ! idx of
                   JStr name \<Rightarrow>
                     (if name = [] then text_row
                      else (let cell = (case lookup name of None \<Rightarrow> JStr [] | Some i \<Rightarrow> ve_info_json env i)
                            in case rs_marshal (ve_rs env) (JList (cell # cells)) of
                                 Inl e \<Rightarrow> text_row | Inr t \<Rightarrow> t))
                 | _ \<Rightarrow> text_row))
      | _ \<Rightarrow> text_row)"

definition ListDirectoryFiles ::
  "'s vfs_env \<Rightarrow> table_request \<Rightarrow> 's world \<Rightarrow> table_response result" where
  "ListDirectoryFiles env req w =
     bindR (readDirectoryWithDownloads env (tq_ClientId req) (tq_VfsComponents req) w) (\<lambda>(downloads, stat).
     bindR (ve_GetTable env (req\<lparr>
              tq_Artifact := (if ls_Artifact stat = [] then ''System.VFS.ListDirectory'' else ls_Artifact stat),
              tq_StartIdx := ls_StartIdx stat, tq_EndIdx := ls_EndIdx stat\<rparr>) w) (\<lambda>res.
       case index_from 0 ''Name'' (tb_Columns res) of
         None \<Rightarrow> Inr res
       | Some idx \<Rightarrow>
           (let lookup = download_lookup env (tq_ClientId req) downloads Map.empty
            in Inr \<lparr>tb_Columns = ''Download'' # tb_Columns res,
                    tb_Rows = map (with_download env lookup idx) (tb_Rows res)\<rparr>)))"

section \<open>The service (vfs\_service.go)\<close>

definition WriteDownloadInfo ::
  "'s vfs_env \<Rightarrow> string \<Rightarrow> string \<Rightarrow> string list \<Rightarrow> download_info \<Rightarrow> 's world \<Rightarrow> go_error option \<times> 's world"
where
  "WriteDownloadInfo env cid acc client_components info w =
     (if client_components = [] then (None, w)
      else (let dir_components = [cid, acc] @ butlast client_components;
                file_components = [ve_ClientIdFromSource env cid, acc] @ client_components;
                (t1, w1) = Now (ve_rs env) w;
                download = empty_download\<lparr>dw_Mtime := u64 t1, dw_Components := client_components,
                  dw_FSComponents := file_components, dw_InFlight := di_InFlight info,
                  dw_FlowId := di_FlowId info\<rparr>;
                (t2, w2) = Now (ve_rs env) w1;
                stats = \<lparr>vf_Id = vfs_id env dir_components, vf_ClientId = cid, vf_FlowId = [],
                  vf_Components = [], vf_Downloads = [ve_marshal env (encode_download download)],
                  vf_JSONData = [], vf_DocType = ''vfs'',
                  vf_DocId = ''download_'' @ vfs_id env file_components, vf_Timestamp = t2\<rparr>
            in case SetElasticIndex (ve_es env) (ve_org env) TRANSIENT [] (encode_vfs stats) (wd_store w2) of
                 (e, s) \<Rightarrow> (e, w2\<lparr>wd_store := s\<rparr>)))"

definition StatDirectory ::
  "'s vfs_env \<Rightarrow> string \<Rightarrow> string list \<Rightarrow> 's world \<Rightarrow> list_response result" where
  "StatDirectory env cid components w =
     bindR (readDirectoryWithDownloads env cid components w) (\<lambda>(downloads, stat). Inr stat)"

definition StatDownload :: "string \<Rightarrow> string \<Rightarrow> string list \<Rightarrow> download_info result" where
  "StatDownload cid acc path_components = Inl (Err ''Not Implemented'')"

section \<open>The view of a directory\<close>

text \<open>
  The records that decode, in the order of their time stamps; the last listing, and for each
  document id the last download.
\<close>

definition vfs_records :: "json list \<Rightarrow> VFSRecord list" where
  "vfs_records hits = concat (map (\<lambda>h. case decode_vfs h of Inl e \<Rightarrow> [] | Inr r \<Rightarrow> [r]) hits)"

definition latest_listing :: "VFSRecord list \<Rightarrow> string" where
  "latest_listing rs = last ([] # filter (\<lambda>l. l \<noteq> []) (map vf_JSONData rs))"

definition download_items :: "VFSRecord list \<Rightarrow> (string \<times> string) list" where
  "download_items rs = concat (map (\<lambda>r. if vf_JSONData r = []
     then (case vf_Downloads r of [d] \<Rightarrow> [(vf_DocId r, d)] | _ \<Rightarrow> []) else []) rs)"

definition latest_downloads :: "VFSRecord list \<Rightarrow> string \<rightharpoonup> string" where
  "latest_downloads rs = map_of (rev (download_items rs))"

definition download_of :: "'s vfs_env \<Rightarrow> string \<Rightarrow> DownloadRow result" where
  "download_of env d = bindR (unmarshal_text env d) (decode_download empty_download)"

definition shown :: "DownloadRow \<Rightarrow> bool" where
  "shown r \<longleftrightarrow> dw_InFlight r \<or> dw_Sha256 r \<noteq> []"

lemma records_simps [simp]:
  "vfs_records [] = []"
  "vfs_records (h # hs) = (case decode_vfs h of Inl e \<Rightarrow> [] | Inr r \<Rightarrow> [r]) @ vfs_records hs"
  "vfs_records (hs @ hs') = vfs_records hs @ vfs_records hs'"
  "download_items [] = []"
  "download_items (rs @ rs') = download_items rs @ download_items rs'"
  by (simp_all add: vfs_records_def download_items_def)

lemma latest_listing_snoc [simp]:
  "latest_listing [] = []"
  "latest_listing (rs @ [r]) = (if vf_JSONData r = [] then latest_listing rs else vf_JSONData r)"
  by (simp_all add: latest_listing_def)

lemma latest_downloads_snoc:
  "latest_downloads (rs @ [r]) =
     (if vf_JSONData r \<noteq> [] then latest_downloads rs
      else case vf_Downloads r of [d] \<Rightarrow> (latest_downloads rs)(vf_DocId r \<mapsto> d) | _ \<Rightarrow> latest_downloads rs)"
  by (auto simp: latest_downloads_def download_items_def split: list.splits)

lemma assembled:
  assumes "asm = fold assemble_hit hits \<lparr>as_listing = [], as_downloads = []\<rparr>"
  shows "as_listing asm = latest_listing (vfs_records hits) \<and>
    map_of (as_downloads asm) = latest_downloads (vfs_records hits) \<and> distinct (map fst (as_downloads asm))"
  using assms
proof (induction hits arbitrary: asm rule: rev_induct)
  case Nil
  then show ?case by (simp add: latest_downloads_def)
next
  case (snoc h hits)
  then show ?case
    by (cases "decode_vfs h")
      (auto simp: assemble_hit_def latest_downloads_snoc update_conv' distinct_update
        split: list.splits)
qed

lemma taken_downloads:
  assumes "take_downloads env ds stat = (rows, stat')"
  shows "rows = filter shown (concat (map (\<lambda>d. case download_of env d of Inl e \<Rightarrow> [] | Inr r \<Rightarrow> [r]) ds))"
    and "ls_DownloadVersion stat' =
      fold max (concat (map (\<lambda>d. case download_of env d of Inl e \<Rightarrow> [] | Inr r \<Rightarrow> [dw_Mtime r]) ds))
        (ls_DownloadVersion stat)"
    and "stat'\<lparr>ls_DownloadVersion := v\<rparr> = stat\<lparr>ls_DownloadVersion := v\<rparr>"
  using assms
  by (induction ds arbitrary: rows stat stat')
    (auto simp: download_of_def shown_def Let_def max_def split: sum.splits prod.splits if_splits)

definition vfs_docs :: "'s vfs_env \<Rightarrow> string \<Rightarrow> index_docs \<Rightarrow> index_docs" where
  "vfs_docs env i ds = sort_key (key_of ''timestamp'') (match_docs (sq_query (queryAllVFSAttributes i)) ds)"

definition download_rows :: "'s vfs_env \<Rightarrow> VFSRecord list \<Rightarrow> DownloadRow set" where
  "download_rows env rs = {r. \<exists>k d. latest_downloads rs k = Some d \<and> download_of env d = Inr r}"

lemma vfs_hits:
  assumes "search_contract (ve_es env) docs" and "GetElasticClient (ve_es env) (ve_org env) = Inr c"
    and "i = vfs_id env (cid # components)"
  shows "\<exists>n. QueryElasticRaw (ve_es env) (ve_org env) TRANSIENT (queryAllVFSAttributes i) s =
    Inr (map snd (take 10000 (vfs_docs env i (docs s c (GetIndex (ve_org env) TRANSIENT)))), n)"
  using QueryElasticRaw_hits [OF assms(1,2), of "queryAllVFSAttributes i" TRANSIENT s]
  by (simp add: queryAllVFSAttributes_def query_of_def search_hits_def sorted_hits_def after_hits_def
      vfs_docs_def match_docs_def)

lemma read_directory:
  assumes "search_contract (ve_es env) docs" and "GetElasticClient (ve_es env) (ve_org env) = Inr c"
    and "rs = vfs_records (map snd (take 10000 (vfs_docs env (vfs_id env (cid # components))
            (docs (wd_store w) c (GetIndex (ve_org env) TRANSIENT)))))"
    and "latest_listing rs \<noteq> []" and "ve_parse_listing env (latest_listing rs) = (listing, None)"
    and "\<forall>ks. set (fl_order (ve_fl env) ks) = set ks"
  shows "\<exists>rows stat. readDirectoryWithDownloads env cid components w = Inr (rows, stat) \<and>
    set rows = {r \<in> download_rows env rs. shown r} \<and>
    stat = listing\<lparr>ls_DownloadVersion := Max (insert (ls_DownloadVersion listing) (dw_Mtime ` download_rows env rs))\<rparr>"
proof -
  define hits where "hits = map snd (take 10000 (vfs_docs env (vfs_id env (cid # components))
            (docs (wd_store w) c (GetIndex (ve_org env) TRANSIENT))))"
  define asm where "asm = fold assemble_hit hits \<lparr>as_listing = [], as_downloads = []\<rparr>"
  have rs: "rs = vfs_records hits" using assms(3) by (simp add: hits_def)
  note a = assembled [OF asm_def, folded rs]
  define ds where "ds = map (\<lambda>k. the (map_of (as_downloads asm) k)) (fl_order (ve_fl env) (map fst (as_downloads asm)))"
  obtain rows stat where t: "take_downloads env ds listing = (rows, stat)" by fastforce
  have "set ds = {d. \<exists>k. latest_downloads rs k = Some d}"
    unfolding ds_def using a assms(6) by (force simp: dom_map_of_conv_image_fst [symmetric] dom_def image_iff)
  then have down: "download_rows env rs = {r. \<exists>d \<in> set ds. download_of env d = Inr r}"
    by (auto simp: download_rows_def)
  have "set rows = {r \<in> download_rows env rs. shown r}"
    unfolding taken_downloads(1) [OF t] down
    by (auto split: sum.splits) (metis sum.inject(2))+
  moreover have "ls_DownloadVersion stat = Max (insert (ls_DownloadVersion listing) (dw_Mtime ` download_rows env rs))"
  proof -
    have "set (concat (map (\<lambda>d. case download_of env d of Inl e \<Rightarrow> [] | Inr r \<Rightarrow> [dw_Mtime r]) ds)) =
        dw_Mtime ` download_rows env rs"
      unfolding down by (force split: sum.splits)
    then show ?thesis unfolding taken_downloads(2) [OF t] by (simp flip: Max.set_eq_fold)
  qed
  moreover have "readDirectoryWithDownloads env cid components w = Inr (rows, stat)"
    using vfs_hits [OF assms(1,2) refl, of cid components "wd_store w"] assms(4,5) a t
    by (auto simp: readDirectoryWithDownloads_def Let_def hits_def asm_def ds_def)
  moreover have "stat = listing\<lparr>ls_DownloadVersion := ls_DownloadVersion stat\<rparr>"
    using taken_downloads(3) [OF t, of "ls_DownloadVersion stat"] by simp
  ultimately show ?thesis by metis
qed

lemma finite_download_rows: "finite (download_rows env rs)"
proof (rule finite_subset)
  show "download_rows env rs \<subseteq> (\<lambda>x. projr (download_of env x)) ` ran (latest_downloads rs)"
    by (force simp: download_rows_def ran_def)
  show "finite ((\<lambda>x. projr (download_of env x)) ` ran (latest_downloads rs))"
    by (simp add: latest_downloads_def finite_ran finite_dom_map_of)
qed

section \<open>A download is listed in its directory\<close>

lemma decode_encode_vfs: "decode_vfs (encode_vfs r) = Inr r"
  by (simp add: decode_vfs_def encode_vfs_def Json.get_str_def Json.get_strs_def Json.get_list_def
      Json.get_int_def jstrs_def)

lemma decode_encode_download:
  "in_u64 (dw_Size r) \<Longrightarrow> in_u64 (dw_StoredSize r) \<Longrightarrow> in_u64 (dw_Mtime r) \<Longrightarrow>
    decode_download d (encode_download r) = Inr r"
  by (simp add: decode_download_def encode_download_def Json.get_str_def Json.get_strs_def
      Json.get_list_def Json.get_int_def Json.get_bool_def get_u64_def keep_def jstrs_def in_u64_def)

lemma sort_key_newest:
  assumes "\<forall>x \<in> set xs. k x < k m"
  shows "sort_key k (xs @ [m]) = sort_key k xs @ [m]"
proof (rule properties_for_sort_key)
  have "filter (\<lambda>x. k a = k x) (sort_key k xs) = filter (\<lambda>x. k a = k x) xs" for a
    using sort_key_stable [of k "k a" xs] by (simp add: eq_commute)
  then show "filter (\<lambda>x. k a = k x) (sort_key k xs @ [m]) = filter (\<lambda>x. k a = k x) (xs @ [m])" for a
    by simp
qed (use assms in \<open>auto simp: sorted_append intro: less_imp_le\<close>)

definition started_download :: "'s vfs_env \<Rightarrow> string \<Rightarrow> string \<Rightarrow> string list \<Rightarrow> download_info \<Rightarrow> int \<Rightarrow> DownloadRow" where
  "started_download env cid acc components info t = empty_download\<lparr>dw_Mtime := u64 t,
     dw_Components := components,
     dw_FSComponents := [ve_ClientIdFromSource env cid, acc] @ components,
     dw_InFlight := di_InFlight info, dw_FlowId := di_FlowId info\<rparr>"

lemma written_download:
  assumes "store_contract (ve_es env) docs" and "GetElasticClient (ve_es env) (ve_org env) = Inr c"
    and "components \<noteq> []" and "i = vfs_id env (cid # acc # butlast components)"
    and "ds = docs (wd_store w) c (GetIndex (ve_org env) TRANSIENT)"
    and "\<forall>d \<in> set (vfs_docs env i ds). key_of ''timestamp'' d < KInt (rs_now (ve_rs env) (Suc (wd_ticks w)))"
  shows "\<exists>w' j r. WriteDownloadInfo env cid acc components info w = (None, w') \<and>
    vfs_docs env i (docs (wd_store w') c (GetIndex (ve_org env) TRANSIENT)) =
      vfs_docs env i ds @ [(j, encode_vfs r)] \<and>
    vf_JSONData r = [] \<and> vf_DocId r = ''download_'' @ vfs_id env ([ve_ClientIdFromSource env cid, acc] @ components) \<and>
    vf_Downloads r = [ve_marshal env (encode_download
      (started_download env cid acc components info (rs_now (ve_rs env) (wd_ticks w))))]"
proof -
  define t1 t2 where "t1 = rs_now (ve_rs env) (wd_ticks w)" and "t2 = rs_now (ve_rs env) (Suc (wd_ticks w))"
  define w2 where "w2 = w\<lparr>wd_ticks := Suc (Suc (wd_ticks w))\<rparr>"
  define r where "r = \<lparr>vf_Id = i, vf_ClientId = cid, vf_FlowId = [], vf_Components = [],
     vf_Downloads = [ve_marshal env (encode_download (started_download env cid acc components info t1))],
     vf_JSONData = [], vf_DocType = ''vfs'',
     vf_DocId = ''download_'' @ vfs_id env ([ve_ClientIdFromSource env cid, acc] @ components), vf_Timestamp = t2\<rparr>"
  obtain j s' where w: "SetElasticIndex (ve_es env) (ve_org env) TRANSIENT [] (encode_vfs r) (wd_store w) = (None, s')"
    "docs s' c (GetIndex (ve_org env) TRANSIENT) = ds @ [(j, encode_vfs r)]"
    using SetElasticIndex_fresh [OF assms(1,2)] assms(5) by metis
  have m: "matches (sq_query (queryAllVFSAttributes i)) (encode_vfs r)"
    by (simp add: queryAllVFSAttributes_def query_of_def encode_vfs_def field_values_def r_def)
  have k: "key_of ''timestamp'' (j, encode_vfs r) = KInt t2"
    by (simp add: key_of_def encode_vfs_def r_def)
  have "vfs_docs env i (ds @ [(j, encode_vfs r)]) = vfs_docs env i ds @ [(j, encode_vfs r)]"
    using assms(6) m k by (simp add: vfs_docs_def match_docs_def sort_key_newest t2_def)
  moreover have "WriteDownloadInfo env cid acc components info w = (None, w2\<lparr>wd_store := s'\<rparr>)"
    using w(1) assms(3,4)
    by (simp add: WriteDownloadInfo_def Now_def r_def w2_def t1_def t2_def started_download_def)
  ultimately show ?thesis using w(2)
    by (intro exI [of _ "w2\<lparr>wd_store := s'\<rparr>"] exI [of _ j] exI [of _ r]) (simp add: r_def t1_def)
qed

text \<open>
  What the directory view shows, from the documents of the directory: the listing is the
  last one, a file appears once for each document id with its last download unless that failed
  (it has ended and has no hash), and the version is the greatest modification time of the last
  downloads, failed or not. Only the 10000 oldest documents are looked at: with more of them
  the newest listing and the newest downloads are not in the view.
\<close>

theorem directory_view:
  assumes "search_contract (ve_es env) docs" and "GetElasticClient (ve_es env) (ve_org env) = Inr c"
    and "rs = vfs_records (map snd (take 10000 (vfs_docs env (vfs_id env (cid # components))
            (docs (wd_store w) c (GetIndex (ve_org env) TRANSIENT)))))"
    and "latest_listing rs \<noteq> []" and "ve_parse_listing env (latest_listing rs) = (listing, None)"
    and "\<forall>ks. set (fl_order (ve_fl env) ks) = set ks"
  shows "\<exists>rows stat. readDirectoryWithDownloads env cid components w = Inr (rows, stat) \<and>
    set rows = {r \<in> download_rows env rs. shown r} \<and>
    stat = listing\<lparr>ls_DownloadVersion := Max (insert (ls_DownloadVersion listing) (dw_Mtime ` download_rows env rs))\<rparr>"
  using assms by (rule read_directory)

text \<open>
  A download that was started is in the listing of the directory of its file at once: the
  ids of the two agree, the latest listing is still found, and the version of the downloads is
  not below the time of the start.
\<close>

theorem started_download_listed:
  assumes "store_contract (ve_es env) docs" and "GetElasticClient (ve_es env) (ve_org env) = Inr c"
    and "components \<noteq> []" and "i = vfs_id env (cid # acc # butlast components)"
    and "L = vfs_docs env i (docs (wd_store w) c (GetIndex (ve_org env) TRANSIENT))"
    and "\<forall>d \<in> set L. key_of ''timestamp'' d < KInt (rs_now (ve_rs env) (Suc (wd_ticks w)))"
    and "length L < 10000" and "rs = vfs_records (map snd L)"
    and "latest_listing rs \<noteq> []" and "ve_parse_listing env (latest_listing rs) = (listing, None)"
    and "\<forall>ks. set (fl_order (ve_fl env) ks) = set ks"
    and "d = started_download env cid acc components info (rs_now (ve_rs env) (wd_ticks w))"
    and "unmarshal (fl_te (ve_fl env)) (ve_marshal env (encode_download d)) = Some (encode_download d)"
    and "di_InFlight info"
  shows "\<exists>w' rows stat. WriteDownloadInfo env cid acc components info w = (None, w') \<and>
    readDirectoryWithDownloads env cid (acc # butlast components) w' = Inr (rows, stat) \<and>
    d \<in> set rows \<and> dw_Mtime d \<le> ls_DownloadVersion stat"
proof -
  obtain w' j r where w: "WriteDownloadInfo env cid acc components info w = (None, w')"
    and L': "vfs_docs env i (docs (wd_store w') c (GetIndex (ve_org env) TRANSIENT)) = L @ [(j, encode_vfs r)]"
    and r: "vf_JSONData r = []" "vf_Downloads r = [ve_marshal env (encode_download d)]"
    using written_download [OF assms(1-4) refl, of w info] assms(5,6,12) by metis
  have rs': "rs @ [r] = vfs_records (map snd (take 10000 (vfs_docs env (vfs_id env (cid # acc # butlast components))
      (docs (wd_store w') c (GetIndex (ve_org env) TRANSIENT)))))"
    using L' [unfolded assms(4)] assms(7,8) by (simp add: decode_encode_vfs)
  have latest: "latest_listing (rs @ [r]) \<noteq> []" "ve_parse_listing env (latest_listing (rs @ [r])) = (listing, None)"
    using r(1) assms(9,10) by simp_all
  have "latest_downloads (rs @ [r]) (vf_DocId r) = Some (ve_marshal env (encode_download d))"
    using r by (simp add: latest_downloads_snoc)
  moreover have "download_of env (ve_marshal env (encode_download d)) = Inr d"
    using decode_encode_download [of d empty_download] assms(12,13) u64_in
    by (simp add: download_of_def unmarshal_text_def started_download_def empty_download_def in_u64_def)
  ultimately have d: "d \<in> download_rows env (rs @ [r])" by (auto simp: download_rows_def)
  have s: "shown d" using assms(12,14) by (simp add: shown_def started_download_def)
  obtain rows stat where read: "readDirectoryWithDownloads env cid (acc # butlast components) w' = Inr (rows, stat)"
    and rows: "set rows = {r' \<in> download_rows env (rs @ [r]). shown r'}"
    and v: "stat = listing\<lparr>ls_DownloadVersion :=
      Max (insert (ls_DownloadVersion listing) (dw_Mtime ` download_rows env (rs @ [r])))\<rparr>"
    using read_directory [OF store_contractD(1) [OF assms(1)] assms(2) rs' latest assms(11)] by metis
  have "dw_Mtime d \<le> ls_DownloadVersion stat" unfolding v using d by (simp add: finite_download_rows)
  then show ?thesis using w read rows d s by blast
qed

section \<open>An example directory\<close>

text \<open>A directory that was listed once, and a download that starts in it.\<close>

definition sample_listing :: list_response where
  "sample_listing = empty_listing\<lparr>ls_ClientId := ''C.1'', ls_TotalRows := 2, ls_EndIdx := 2\<rparr>"

definition in_flight :: download_info where
  "in_flight = \<lparr>di_Size = 0, di_Components = [], di_Mtime = 0, di_SHA256 = [], di_MD5 = [],
     di_InFlight = True, di_FlowId = ''F.1''\<rparr>"

definition flight_row :: DownloadRow where
  "flight_row = empty_download\<lparr>dw_Mtime := 90000000000, dw_Components := [''etc'', ''pw''],
     dw_FSComponents := [''C.1'', ''auto'', ''etc'', ''pw''], dw_InFlight := True, dw_FlowId := ''F.1''\<rparr>"

definition done_row :: DownloadRow where
  "done_row = empty_download\<lparr>dw_Mtime := 80, dw_Components := [''etc'', ''pw''], dw_Sha256 := ''00'',
     dw_FlowId := ''F.1''\<rparr>"

definition sample_text :: "string \<Rightarrow> json option" where
  "sample_text l = (if l = ''start'' then Some (encode_download flight_row)
     else if l = ''end'' then Some (encode_download done_row) else None)"

definition sample_vfs_env :: "mem_es_state vfs_env" where
  "sample_vfs_env =
     \<lparr>ve_fl = sample_flow_env\<lparr>fl_rs := sample_rs_env\<lparr>rs_now := (\<lambda>n. 90000000000 + int n)\<rparr>,
        fl_te := (fl_te sample_flow_env)\<lparr>unmarshal := sample_text\<rparr>\<rparr>,
      ve_render_listing = (\<lambda>l. ''listing''), ve_parse_listing = (\<lambda>t. (sample_listing, None)),
      ve_marshal = (\<lambda>j. ''start''), ve_JoinComponents = Join ''/'', ve_sha1 = (\<lambda>t. t), ve_sha256 = (\<lambda>t. t),
      ve_ClientIdFromSource = (\<lambda>c. c), ve_artifact_path = (\<lambda>c f a. c @ f @ a),
      ve_MarshalIndent = (\<lambda>rows. Inr []), ve_GetTable = (\<lambda>q w. Inl IOError),
      ve_info_json = (\<lambda>i. JStr (di_FlowId i))\<rparr>"

definition sample_vfs_record :: VFSRecord where
  "sample_vfs_record = \<lparr>vf_Id = ''C.1/auto/etc'', vf_ClientId = ''C.1'', vf_FlowId = [],
     vf_Components = [''C.1'', ''auto'', ''etc''], vf_Downloads = [], vf_JSONData = ''listing'',
     vf_DocType = ''vfs'', vf_DocId = ''C.1/auto/etc'', vf_Timestamp = 10\<rparr>"

definition listed_world :: "mem_es_state world" where
  "listed_world = sample_world\<lparr>wd_store := [(''transient'', [(''a'', encode_vfs sample_vfs_record)])], wd_ticks := 0\<rparr>"

lemma sample_vfs_docs:
  "vfs_docs sample_vfs_env ''C.1/auto/etc'' (mem_docs (wd_store listed_world)
     (GetIndex (ve_org sample_vfs_env) TRANSIENT)) = [(''a'', encode_vfs sample_vfs_record)]"
  by code_simp

lemma sample_latest: "latest_listing (vfs_records [encode_vfs sample_vfs_record]) = ''listing''"
  by code_simp

lemma sample_vfs_id [simp]:
  "vfs_id sample_vfs_env (''C.1'' # ''auto'' # butlast [''etc'', ''pw'']) = ''C.1/auto/etc''"
  by code_simp

lemma sample_vfs_es: "ve_es sample_vfs_env = mem_es" "GetElasticClient mem_es org = Inr PrimaryOpenSearch"
  by (simp_all add: sample_vfs_env_def sample_rs_env_def)

lemma sample_vfs_ops: "fl_order (ve_fl sample_vfs_env) = rev" "ve_parse_listing sample_vfs_env t = (sample_listing, None)"
  by (simp_all add: sample_vfs_env_def sample_flow_env_def)

lemma sample_start:
  "flight_row = started_download sample_vfs_env ''C.1'' ''auto'' [''etc'', ''pw''] in_flight
     (rs_now (ve_rs sample_vfs_env) (wd_ticks listed_world))"
  by code_simp

lemma sample_start_text:
  "unmarshal (fl_te (ve_fl sample_vfs_env)) (ve_marshal sample_vfs_env (encode_download flight_row)) =
     Some (encode_download flight_row)"
  by (simp add: sample_vfs_env_def sample_text_def)

lemma started_download_listed_witness:
  "\<exists>w' rows stat.
     WriteDownloadInfo sample_vfs_env ''C.1'' ''auto'' [''etc'', ''pw''] in_flight listed_world = (None, w') \<and>
     readDirectoryWithDownloads sample_vfs_env ''C.1'' (''auto'' # butlast [''etc'', ''pw'']) w' = Inr (rows, stat) \<and>
     flight_row \<in> set rows \<and> dw_Mtime flight_row \<le> ls_DownloadVersion stat"
proof (rule started_download_listed [where docs = "\<lambda>st c idx. mem_docs st idx" and c = PrimaryOpenSearch,
      OF _ _ _ sample_vfs_id [symmetric] sample_vfs_docs [symmetric] _ _ refl _ _ _ sample_start sample_start_text])
  show "store_contract (ve_es sample_vfs_env) (\<lambda>st c idx. mem_docs st idx)"
    by (simp add: sample_vfs_es mem_store_contract)
  show "\<forall>d \<in> set [(''a'', encode_vfs sample_vfs_record)]. key_of ''timestamp'' d <
      KInt (rs_now (ve_rs sample_vfs_env) (Suc (wd_ticks listed_world)))"
    by code_simp
qed (use sample_latest in \<open>simp_all add: sample_vfs_es sample_vfs_ops decode_encode_vfs in_flight_def\<close>)

lemma directory_view_witness:
  "\<exists>rows stat. readDirectoryWithDownloads sample_vfs_env ''C.1'' (''auto'' # butlast [''etc'', ''pw'']) listed_world = Inr (rows, stat) \<and>
     set rows = {r \<in> download_rows sample_vfs_env [sample_vfs_record]. shown r} \<and>
     stat = sample_listing\<lparr>ls_DownloadVersion := Max (insert (ls_DownloadVersion sample_listing)
       (dw_Mtime ` download_rows sample_vfs_env [sample_vfs_record]))\<rparr>"
proof (rule directory_view [where docs = "\<lambda>st c idx. mem_docs st idx" and c = PrimaryOpenSearch])
  show "search_contract (ve_es sample_vfs_env) (\<lambda>st c idx. mem_docs st idx)"
    by (simp add: sample_vfs_es mem_search_contract)
  show "[sample_vfs_record] = vfs_records (map snd (take 10000 (vfs_docs sample_vfs_env
      (vfs_id sample_vfs_env (''C.1'' # ''auto'' # butlast [''etc'', ''pw'']))
      (mem_docs (wd_store listed_world) (GetIndex (ve_org sample_vfs_env) TRANSIENT)))))"
    by (simp only: sample_vfs_id sample_vfs_docs) (simp add: decode_encode_vfs)
  show "latest_listing [sample_vfs_record] \<noteq> []" by code_simp
qed (simp_all add: sample_vfs_es sample_vfs_ops)

end
