(* ===== verification/Ingestion.thy ===== *)
theory Ingestion
  imports Hunts Vfs
begin

text \<open>
  The ingestor (\<open>ingestion\<close>): the messages of the clients, dispatched to the handlers that store
  them in the right index: enrolment, pings, client information, logs and results of collections
  and of event artifacts, flow statistics, hunt membership, uploads and VFS records.
\<close>

section \<open>Messages\<close>

text \<open>The parts of a message the ingestor reads; parts that may be nil are options.\<close>

record vql_response =
  vr_Query :: "(string \<times> string) option"
  vr_JSONLResponse :: string
  vr_TotalRows :: int
  vr_QueryStartRow :: int

record log_message =
  lm_Artifact :: string
  lm_Jsonl :: string
  lm_NumberOfRows :: int
  lm_Id :: int

record flow_stats =
  sm_TotalUploadedFiles :: int
  sm_TotalExpectedUploadedBytes :: int
  sm_TotalUploadedBytes :: int
  sm_TotalCollectedRows :: int
  sm_TotalLogs :: int
  sm_Timestamp :: int
  sm_QueryStatus :: "query_stat list"

record pathspec =
  fp_Path :: string
  fp_Accessor :: string
  fp_Components :: "string list"

record file_message =
  fm_Pathspec :: "pathspec option"
  fm_Eof :: bool
  fm_Size :: int
  fm_StoredSize :: int
  fm_UploadNumber :: int
  fm_IsSparse :: bool

record client_message =
  ms_Source :: string
  ms_OrgId :: string
  ms_SessionId :: string
  ms_Unauthenticated :: bool
  ms_Urgent :: bool
  ms_CSR :: "string option"
  ms_LogMessage :: "log_message option"
  ms_VQLResponse :: "vql_response option"
  ms_FlowStats :: "flow_stats option"
  ms_ForemanCheckin :: bool
  ms_FileBuffer :: "file_message option"

section \<open>Environment\<close>

text \<open>
  \<open>ig_org\<close> is the configuration of an organisation with the stores and result sets it gives; the
  rest is the library's part: the crypto manager, obfuscation, names of paths, JSON texts and
  hashes. The state is the store with the clock and the updaters of hunt statistics.
\<close>

record 's ingest_env =
  ig_OrgManager :: "go_error option"
  ig_org :: "string \<Rightarrow> 's vfs_env result"
  ig_AddCertificateRequest :: "string \<Rightarrow> string \<Rightarrow> 's \<Rightarrow> string result \<times> 's"
  ig_ClientInfoManager :: "go_error option"
  ig_Deobfuscate :: "vql_response \<Rightarrow> vql_response"
  ig_DeobfuscateString :: "string \<Rightarrow> string"
  ig_ExtractHuntId :: "string \<Rightarrow> string option"
  ig_SplitFullSourceName :: "string \<Rightarrow> string \<times> string"
  ig_ClientPath :: "string list \<Rightarrow> string"
  ig_LogPath :: "string \<Rightarrow> string \<Rightarrow> string"
  ig_UploadMetadata :: "string \<Rightarrow> string \<Rightarrow> string"
  ig_ArtifactPath :: "string \<Rightarrow> string \<Rightarrow> string \<Rightarrow> path_manager"
  ig_ArtifactLogPath :: "string \<Rightarrow> string \<Rightarrow> string \<Rightarrow> path_manager"
  ig_AppendJsonlItem :: "string \<Rightarrow> string \<Rightarrow> string \<Rightarrow> string"
  ig_VFSListRow :: "string \<Rightarrow> (string \<times> string list \<times> (int \<times> int) option) result"
  ig_time :: "int \<Rightarrow> json"
  ig_MONITORING_WELL_KNOWN_FLOW :: string

record 's ingest_state =
  is_world :: "'s world"
  is_stats :: "unit hunt_stats"

text \<open>A write to the store, and a reading of the clock.\<close>

definition in_store :: "('s \<Rightarrow> go_error option \<times> 's) \<Rightarrow> 's ingest_state \<Rightarrow> go_error option \<times> 's ingest_state" where
  "in_store f st = (case f (wd_store (is_world st)) of
     (e, s) \<Rightarrow> (e, st\<lparr>is_world := (is_world st)\<lparr>wd_store := s\<rparr>\<rparr>))"

definition ig_Now :: "'s flow_env \<Rightarrow> 's ingest_state \<Rightarrow> int \<times> 's ingest_state" where
  "ig_Now fl st = (case Now (fl_rs fl) (is_world st) of (t, w) \<Rightarrow> (t, st\<lparr>is_world := w\<rparr>))"

abbreviation fl_es :: "'s flow_env \<Rightarrow> 's elastic" where
  "fl_es fl \<equiv> rs_es (fl_rs fl)"

abbreviation fl_org :: "'s flow_env \<Rightarrow> string" where
  "fl_org fl \<equiv> rs_org_id (fl_rs fl)"

definition index_async ::
  "'s flow_env \<Rightarrow> string \<Rightarrow> string \<Rightarrow> string \<Rightarrow> json \<Rightarrow> 's ingest_state \<Rightarrow> go_error option \<times> 's ingest_state" where
  "index_async fl idx i action rec st =
     (case SetElasticIndexAsync (fl_es fl) (fl_org fl) idx i action rec (wd_bulk (is_world st)) (wd_store (is_world st)) of
        (e, b, s) \<Rightarrow> (e, st\<lparr>is_world := (is_world st)\<lparr>wd_bulk := b, wd_store := s\<rparr>\<rparr>))"

section \<open>Enrolment, pings and interrogation\<close>

definition HandleEnrolment ::
  "'s ingest_env \<Rightarrow> 's flow_env \<Rightarrow> client_message \<Rightarrow> 's ingest_state \<Rightarrow> go_error option \<times> 's ingest_state" where
  "HandleEnrolment env fl m st =
     (case ms_CSR m of
        None \<Rightarrow> (None, st)
      | Some pem \<Rightarrow> in_store (\<lambda>s. case ig_AddCertificateRequest env (fl_org fl) pem s of
            (Inl e, s1) \<Rightarrow> (Some e, s1) | (Inr cid, s1) \<Rightarrow> (None, s1)) st)"

definition ping_record :: "string \<Rightarrow> int \<Rightarrow> int \<Rightarrow> ClientRecord" where
  "ping_record cid now later = empty_client\<lparr>cr_ClientId := cid, cr_Type := ''ping'',
     cr_Ping := u64 now, cr_DocType := ''clients'', cr_Timestamp := u64 (later div 1000000000)\<rparr>"

definition HandlePing ::
  "'s flow_env \<Rightarrow> client_message \<Rightarrow> 's ingest_state \<Rightarrow> go_error option \<times> 's ingest_state" where
  "HandlePing fl m st =
     (case ig_Now fl st of (now, st1) \<Rightarrow> case ig_Now fl st1 of (later, st2) \<Rightarrow>
        case in_store (SetElasticIndex (fl_es fl) (fl_org fl) PERSISTED (ms_Source m @ ''_ping'')
                (encode_client (ping_record (ms_Source m) now later))) st2 of
          (None, st3) \<Rightarrow> (None, st3)
        | (Some e, st3) \<Rightarrow>
            (if Contains (err_text e) ''document_missing_exception'' then None else Some e, st3))"

definition interrogation_record :: "string \<Rightarrow> string \<Rightarrow> int \<Rightarrow> ClientRecord" where
  "interrogation_record cid sid now = empty_client\<lparr>cr_ClientId := cid,
     cr_Type := ''interrogation'', cr_LastInterrogate := sid, cr_DocType := ''clients'',
     cr_Timestamp := u64 (now div 1000000000)\<rparr>"

definition HandleInterrogation ::
  "'s flow_env \<Rightarrow> client_message \<Rightarrow> 's ingest_state \<Rightarrow> go_error option \<times> 's ingest_state" where
  "HandleInterrogation fl m st =
     (case ig_Now fl st of (now, st1) \<Rightarrow>
        (None, snd (index_async fl PERSISTED (ms_Source m @ ''_interrogate'') ''index''
           (encode_client (interrogation_record (ms_Source m) (ms_SessionId m) now)) st1)))"

section \<open>Client information (registration.go)\<close>

text \<open>
  \<open>bufio.Scanner\<close> over a text, with a buffer of its length: lines without their line end, but a
  text that has no line feed fills the buffer and gives no line.
\<close>

fun text_lines :: "string \<Rightarrow> string \<Rightarrow> string list" where
  "text_lines acc [] = (if acc = [] then [] else [rev acc])"
| "text_lines acc (c # s) = (if c = CHR ''\<newline>'' then rev acc # text_lines [] s else text_lines (c # acc) s)"

definition drop_cr :: "string \<Rightarrow> string" where
  "drop_cr l = (if l \<noteq> [] \<and> last l = CHR 0x0D then butlast l else l)"

definition scan_lines :: "string \<Rightarrow> string list" where
  "scan_lines s = (if CHR ''\<newline>'' \<in> set s then map drop_cr (text_lines [] s) else [])"

record ClientInfoUpdate =
  cu_ClientId :: string
  cu_Hostname :: string
  cu_Release :: string
  cu_Architecture :: string
  cu_ClientVersion :: string
  cu_BuildTime :: string
  cu_System :: string
  cu_InstallTime :: int

definition decode_update :: "json \<Rightarrow> ClientInfoUpdate result" where
  "decode_update j =
     bindR (Json.get_str ''client_id'' j) (\<lambda>a1. bindR (Json.get_str ''hostname'' j) (\<lambda>a2.
     bindR (Json.get_str ''release'' j) (\<lambda>a3. bindR (Json.get_str ''architecture'' j) (\<lambda>a4.
     bindR (Json.get_str ''client_version'' j) (\<lambda>a5. bindR (Json.get_str ''build_time'' j) (\<lambda>a6.
     bindR (Json.get_str ''system'' j) (\<lambda>a7. bindR (get_u64 ''install_time'' j) (\<lambda>a8.
       Inr \<lparr>cu_ClientId = a1, cu_Hostname = a2, cu_Release = a3, cu_Architecture = a4, cu_ClientVersion = a5,
            cu_BuildTime = a6, cu_System = a7, cu_InstallTime = a8\<rparr>))))))))"

definition unmarshal_line :: "'s flow_env \<Rightarrow> string \<Rightarrow> json result" where
  "unmarshal_line fl l = (case unmarshal (fl_te fl) l of None \<Rightarrow> Inl (Err ''invalid JSON'') | Some j \<Rightarrow> Inr j)"

definition updated_info :: "string \<Rightarrow> ClientInfoUpdate \<Rightarrow> ClientInfo" where
  "updated_info cid row =
     \<lparr>ci_ClientId = cid, ci_Hostname = cu_Hostname row, ci_Fqdn = cu_Hostname row,
      ci_System = cu_System row, ci_Release = [], ci_Architecture = cu_Architecture row,
      ci_MacAddresses = [], ci_FirstSeenAt = cu_InstallTime row, ci_Ping = 0, ci_LastHuntTimestamp = 0,
      ci_LastEventTableVersion = 0, ci_BuildTime = cu_BuildTime row, ci_Labels = [],
      ci_LastInterrogateFlowId = []\<rparr>"

fun set_infos ::
  "'s flow_env \<Rightarrow> string \<Rightarrow> string list \<Rightarrow> 's ingest_state \<Rightarrow> go_error option \<times> 's ingest_state" where
  "set_infos fl cid [] st = (None, st)"
| "set_infos fl cid (l # ls) st =
     (case bindR (unmarshal_line fl l) decode_update of
        Inl e \<Rightarrow> (Some e, st)
      | Inr row \<Rightarrow>
          (case ig_Now fl st of (now, st1) \<Rightarrow>
             case in_store (client_Set (fl_es fl) (fl_org fl) (now div 1000000000) (updated_info cid row)) st1 of
               (Some e, st2) \<Rightarrow> (Some e, st2)
             | (None, st2) \<Rightarrow> set_infos fl cid ls st2))"

definition HandleClientInfoUpdates ::
  "'s ingest_env \<Rightarrow> client_message \<Rightarrow> 's ingest_state \<Rightarrow> go_error option \<times> 's ingest_state" where
  "HandleClientInfoUpdates env m st =
     (case ms_VQLResponse m of
        None \<Rightarrow> (None, st)
      | Some r \<Rightarrow>
          (case ig_OrgManager env of
             Some e \<Rightarrow> (Some e, st)
           | None \<Rightarrow>
               (case ig_org env (ms_OrgId m) of
                  Inl e \<Rightarrow> (Some e, st)
                | Inr ve \<Rightarrow>
                    (case ig_ClientInfoManager env of
                       Some e \<Rightarrow> (Some e, st)
                     | None \<Rightarrow> set_infos (ve_fl ve) (ms_Source m) (scan_lines (vr_JSONLResponse r)) st))))"

section \<open>Event artifacts (monitoring\_logs.go)\<close>

definition timed_write ::
  "'s flow_env \<Rightarrow> path_manager \<Rightarrow> string \<Rightarrow> 's ingest_state \<Rightarrow> 's ingest_state" where
  "timed_write fl pm text st = st\<lparr>is_world := timed_WriteJSONL (fl_rs fl) pm text (is_world st)\<rparr>"

definition HandleMonitoringLogs ::
  "'s ingest_env \<Rightarrow> 's flow_env \<Rightarrow> client_message \<Rightarrow> log_message \<Rightarrow> 's ingest_state \<Rightarrow> go_error option \<times> 's ingest_state" where
  "HandleMonitoringLogs env fl m row st =
     (let artifact_name = ig_DeobfuscateString env (lm_Artifact row)
      in if artifact_name = ''Client.Info.Updates'' then (None, st)
         else (None, timed_write fl (ig_ArtifactLogPath env (ms_Source m) (ms_SessionId m) artifact_name)
                 (ig_DeobfuscateString env (lm_Jsonl row)) st))"

definition response_name :: "vql_response \<Rightarrow> string" where
  "response_name r = (case vr_Query r of None \<Rightarrow> [] | Some (name, vql) \<Rightarrow> name)"

definition HandleMonitoringResponses ::
  "'s ingest_env \<Rightarrow> 's flow_env \<Rightarrow> client_message \<Rightarrow> vql_response \<Rightarrow> 's ingest_state \<Rightarrow> go_error option \<times> 's ingest_state" where
  "HandleMonitoringResponses env fl m r st =
     (if response_name r = [] then (None, st)
      else (let r1 = ig_Deobfuscate env r
            in if response_name r1 = ''Server.Internal.ClientInfo'' then
                 HandleClientInfoUpdates env (m\<lparr>ms_VQLResponse := Some r1\<rparr>) st
               else (None, timed_write fl (ig_ArtifactPath env (ms_Source m) (ms_SessionId m) (response_name r1))
                       (ig_AppendJsonlItem env (vr_JSONLResponse r1) ''ClientId'' (ms_Source m)) st)))"

section \<open>Hunts (hunts.go)\<close>

definition count_hunt ::
  "(stats_updater \<Rightarrow> stats_updater) \<Rightarrow> string \<Rightarrow> 's ingest_state \<Rightarrow> 's ingest_state" where
  "count_hunt inc hunt_id st =
     (case Update hunt_id (is_stats st) of (r, x) \<Rightarrow> st\<lparr>is_stats := on_updater inc r x\<rparr>)"

definition write_hunt_flow ::
  "'s flow_env \<Rightarrow> string \<Rightarrow> string \<Rightarrow> string \<Rightarrow> string \<Rightarrow> 's ingest_state \<Rightarrow> go_error option \<times> 's ingest_state" where
  "write_hunt_flow fl hunt_id cid flow_id status st =
     (case ig_Now fl st of (now, st1) \<Rightarrow>
        in_store (SetElasticIndex (fl_es fl) (fl_org fl) TRANSIENT []
          (encode_hunt_flow (hunt_flow_entry now hunt_id cid flow_id status))) st1)"

definition maybeHandleHuntResponse ::
  "'s ingest_env \<Rightarrow> 's flow_env \<Rightarrow> client_message \<Rightarrow> 's ingest_state \<Rightarrow> go_error option \<times> 's ingest_state" where
  "maybeHandleHuntResponse env fl m st =
     (case ig_ExtractHuntId env (ms_SessionId m) of
        None \<Rightarrow> (None, st)
      | Some hunt_id \<Rightarrow>
          (case ms_VQLResponse m of
             None \<Rightarrow> (None, st)
           | Some r \<Rightarrow>
               (case vr_Query r of
                  None \<Rightarrow> (None, st)
                | Some (name, vql) \<Rightarrow>
                    if Contains vql ''Starting Hunt'' then
                      write_hunt_flow fl hunt_id (ms_Source m) (ms_SessionId m) ''started''
                        (count_hunt IncScheduled hunt_id st)
                    else (None, st))))"

text \<open>\<open>GENERIC_ERROR\<close> is the status 1 of the library; the walk ends at a query in progress.\<close>

fun calcFlowOutcome_from :: "bool \<Rightarrow> query_stat list \<Rightarrow> bool \<times> bool" where
  "calcFlowOutcome_from failed [] = (failed, True)"
| "calcFlowOutcome_from failed (s # ss) =
     (case qs_Status s of
        STATUS_PROGRESS \<Rightarrow> (False, False)
      | STATUS_other n \<Rightarrow> calcFlowOutcome_from (if n = 1 then True else failed) ss)"

definition calcFlowOutcome :: "flow_context \<Rightarrow> bool \<times> bool" where
  "calcFlowOutcome c = calcFlowOutcome_from False (fc_QueryStats c)"

definition maybeHandleHuntFlowStats ::
  "'s ingest_env \<Rightarrow> 's flow_env \<Rightarrow> flow_context \<Rightarrow> bool \<Rightarrow> bool \<Rightarrow> 's ingest_state \<Rightarrow> go_error option \<times> 's ingest_state" where
  "maybeHandleHuntFlowStats env fl c failed ended st =
     (if \<not> ended then (None, st)
      else case ig_ExtractHuntId env (fc_SessionId c) of
        None \<Rightarrow> (None, st)
      | Some hunt_id \<Rightarrow>
          write_hunt_flow fl hunt_id (fc_ClientId c) (fc_SessionId c) ''updated''
            (count_hunt (if failed then IncError else IncCompleted) hunt_id st))"

section \<open>Flow statistics (flow\_stats.go)\<close>

definition stats_context :: "client_message \<Rightarrow> flow_stats \<Rightarrow> flow_context" where
  "stats_context m s = empty_flow\<lparr>fc_ClientId := ms_Source m, fc_SessionId := ms_SessionId m,
     fc_TotalUploadedFiles := sm_TotalUploadedFiles s,
     fc_TotalExpectedUploadedBytes := sm_TotalExpectedUploadedBytes s,
     fc_TotalUploadedBytes := sm_TotalUploadedBytes s, fc_TotalCollectedRows := sm_TotalCollectedRows s,
     fc_TotalLogs := sm_TotalLogs s, fc_ActiveTime := sm_Timestamp s, fc_QueryStats := sm_QueryStatus s\<rparr>"

definition HandleFlowStats ::
  "'s ingest_env \<Rightarrow> 's flow_env \<Rightarrow> client_message \<Rightarrow> 's ingest_state \<Rightarrow> go_error option \<times> 's ingest_state" where
  "HandleFlowStats env fl m st =
     (case ms_FlowStats m of
        None \<Rightarrow> (None, st)
      | Some s \<Rightarrow>
          if ms_Source m = [] \<or> ms_SessionId m = [] then (None, st)
          else (let c = stats_context m s;
                    (failed, ended) = calcFlowOutcome c;
                    doc_id = GetDocumentIdForCollection (ms_Source m) (ms_SessionId m)
                               (if ended then ''completed'' else ''stats'')
                in case ArtifactCollectorRecordFromProto fl c doc_id (is_world st) of
                     (r, w1) \<Rightarrow>
                       (case in_store (SetElasticIndex (fl_es fl) (fl_org fl) TRANSIENT []
                               (encode_collection (r\<lparr>ar_Type := ''stats''\<rparr>))) (st\<lparr>is_world := w1\<rparr>) of
                          (Some e, st1) \<Rightarrow> (Some e, st1)
                        | (None, st1) \<Rightarrow> maybeHandleHuntFlowStats env fl c failed ended st1)))"

section \<open>Logs, results and uploads of collections\<close>

text \<open>
  A writer of a result set is created, written to by \<open>use\<close>, and closed. The outer \<open>None\<close> is a
  run that has not returned within the fuel of the flush.
\<close>

definition with_writer ::
  "'s flow_env \<Rightarrow> string \<Rightarrow> bool \<Rightarrow> (rs_writer \<Rightarrow> 's world \<Rightarrow> (rs_writer \<times> 's world) option)
     \<Rightarrow> 's ingest_state \<Rightarrow> (go_error option \<times> 's ingest_state) option" where
  "with_writer fl log_path synchronous use st =
     (case NewResultSetWriter (fl_rs fl) log_path synchronous False (is_world st) of
        (Inl e, w1) \<Rightarrow> Some (Some e, st\<lparr>is_world := w1\<rparr>)
      | (Inr rw, w1) \<Rightarrow>
          (case use rw w1 of
             None \<Rightarrow> None
           | Some (rw1, w2) \<Rightarrow>
               (case rs_Close (fl_rs fl) (fl_fuel fl) rw1 w2 of
                  None \<Rightarrow> None
                | Some (rw2, w3) \<Rightarrow> Some (None, st\<lparr>is_world := w3\<rparr>))))"

definition HandleLogs ::
  "'s ingest_env \<Rightarrow> 's flow_env \<Rightarrow> client_message \<Rightarrow> log_message \<Rightarrow> 's ingest_state
     \<Rightarrow> (go_error option \<times> 's ingest_state) option" where
  "HandleLogs env fl m msg st =
     (if lm_Jsonl msg = [] then Some (Some (Err ''Invalid log messages response''), st)
      else with_writer fl (ig_LogPath env (ms_Source m) (ms_SessionId m)) False
             (\<lambda>rw. let rw1 = rs_SetStartRow (lm_Id msg) rw
                    in rs_WriteJSONL (fl_rs fl) (fl_fuel fl) (lm_Jsonl msg) (lm_NumberOfRows msg)
                         (if ms_Urgent m then rs_SetSync rw1 else rw1)) st)"

text \<open>The UTC date of a time in nanoseconds: the proleptic Gregorian calendar.\<close>

definition civil_date :: "int \<Rightarrow> int \<times> int \<times> int" where
  "civil_date t =
     (let z = t div 86400000000000 + 719468;
          era = z div 146097; doe = z mod 146097;
          yoe = (doe - doe div 1460 + doe div 36524 - doe div 146096) div 365;
          doy = doe - (365 * yoe + yoe div 4 - yoe div 100);
          mp = (5 * doy + 2) div 153;
          month = (if mp < 10 then mp + 3 else mp - 9)
      in (yoe + era * 400 + (if month \<le> 2 then 1 else 0), month, doy - (153 * mp + 2) div 5 + 1))"

definition pad2 :: "string \<Rightarrow> string" where
  "pad2 s = (if length s < 2 then CHR ''0'' # s else s)"

definition getDayName :: "'s flow_env \<Rightarrow> 's ingest_state \<Rightarrow> string \<times> 's ingest_state" where
  "getDayName fl st =
     (case ig_Now fl st of (now, st1) \<Rightarrow> case civil_date now of (y, mo, d) \<Rightarrow>
        (itoa (fl_te fl) y @ ''-'' @ pad2 (itoa (fl_te fl) mo) @ ''-'' @ pad2 (itoa (fl_te fl) d), st1))"

definition getFSPathSpec ::
  "'s ingest_env \<Rightarrow> 's flow_env \<Rightarrow> client_message \<Rightarrow> string \<Rightarrow> 's ingest_state \<Rightarrow> string \<times> 's ingest_state" where
  "getFSPathSpec env fl m full_artifact_name st =
     (case ig_SplitFullSourceName env full_artifact_name of (base, src) \<Rightarrow>
        if ms_SessionId m = ''F.Monitoring'' then
          (case getDayName fl st of (day, st1) \<Rightarrow>
             (ig_ClientPath env ([ms_Source m, ''monitoring'', base] @ (if src \<noteq> [] then [src] else []) @ [day]), st1))
        else (ig_ClientPath env ([ms_Source m, ''artifacts'', base, ms_SessionId m] @
                (if src \<noteq> [] then [src] else [])), st))"

definition upload_row ::
  "'s ingest_env \<Rightarrow> pathspec \<Rightarrow> file_message \<Rightarrow> string list \<Rightarrow> string \<Rightarrow> string \<Rightarrow> int \<Rightarrow> int \<Rightarrow> json" where
  "upload_row env p b components sfx typ now later = JObj
     [(''Timestamp'', JInt (now div 1000000000)), (''started'', ig_time env later),
      (''vfs_path'', JStr (fp_Path p @ sfx)), (''_Components'', jstrs components),
      (''_Type'', JStr typ), (''file_size'', JInt (fm_Size b)), (''_accessor'', JStr (fp_Accessor p)),
      (''_client_components'', jstrs (fp_Components p)), (''uploaded_size'', JInt (fm_StoredSize b))]"

definition write_upload_row ::
  "'s ingest_env \<Rightarrow> 's flow_env \<Rightarrow> pathspec \<Rightarrow> file_message \<Rightarrow> string list \<Rightarrow> string \<Rightarrow> string
     \<Rightarrow> rs_writer \<Rightarrow> 's world \<Rightarrow> (rs_writer \<times> 's world) option" where
  "write_upload_row env fl p b components sfx typ rw w =
     (case Now (fl_rs fl) w of (now, w1) \<Rightarrow> case Now (fl_rs fl) w1 of (later, w2) \<Rightarrow>
        rs_Write (fl_rs fl) (fl_fuel fl) (upload_row env p b components sfx typ now later) rw w2)"

definition HandleUploads ::
  "'s ingest_env \<Rightarrow> 's vfs_env \<Rightarrow> client_message \<Rightarrow> 's ingest_state \<Rightarrow> (go_error option \<times> 's ingest_state) option" where
  "HandleUploads env ve m st =
     (case ms_FileBuffer m of
        None \<Rightarrow> Some (None, st)
      | Some b \<Rightarrow>
          (case fm_Pathspec b of
             None \<Rightarrow> Some (None, st)
           | Some p \<Rightarrow>
               if \<not> fm_Eof b then Some (None, st)
               else
                 (let fl = ve_fl ve;
                      components = S3ComponentsForClientUpload (ve_sha256 ve)
                        \<lparr>UploadRequest_ClientId = ve_ClientIdFromSource ve (ms_Source m),
                         UploadRequest_SessionId = ms_SessionId m, UploadRequest_Accessor = fp_Accessor p,
                         UploadRequest_Components = fp_Components p, UploadRequest_Type = []\<rparr>
                  in with_writer fl (ig_UploadMetadata env (ms_Source m) (ms_SessionId m)) False
                       (\<lambda>rw w. case write_upload_row env fl p b components [] []
                                  (rs_SetStartRow (i64 (fm_UploadNumber b)) rw) w of
                            None \<Rightarrow> None
                          | Some (rw1, w1) \<Rightarrow>
                              if fm_IsSparse b then write_upload_row env fl p b components ''.idx'' ''idx'' rw1 w1
                              else Some (rw1, w1)) st)))"

section \<open>The VFS (vfs.go)\<close>

definition or_auto :: "string \<Rightarrow> string" where
  "or_auto a = (if a = [] then ''auto'' else a)"

definition listing_record ::
  "'s vfs_env \<Rightarrow> client_message \<Rightarrow> string list \<Rightarrow> int \<Rightarrow> int \<Rightarrow> int \<Rightarrow> int \<Rightarrow> VFSRecord" where
  "listing_record ve m components start_idx end_idx now later =
     \<lparr>vf_Id = vfs_id ve components, vf_ClientId = ms_Source m, vf_FlowId = [],
      vf_Components = components, vf_Downloads = [],
      vf_JSONData = ve_render_listing ve (empty_listing\<lparr>ls_Timestamp := u64 now, ls_ClientId := ms_Source m,
        ls_FlowId := ms_SessionId m, ls_TotalRows := u64 (end_idx - start_idx),
        ls_Artifact := ''System.VFS.ListDirectory/Listing'', ls_StartIdx := start_idx, ls_EndIdx := end_idx\<rparr>),
      vf_DocType = ''vfs'', vf_DocId = vfs_id ve components, vf_Timestamp = later\<rparr>"

fun list_directory ::
  "'s ingest_env \<Rightarrow> 's vfs_env \<Rightarrow> client_message \<Rightarrow> string list \<Rightarrow> 's ingest_state \<Rightarrow> go_error option \<times> 's ingest_state"
where
  "list_directory env ve m [] st = (None, st)"
| "list_directory env ve m (l # ls) st =
     (case ig_VFSListRow env l of
        Inr (acc, components, Some (start_idx, end_idx)) \<Rightarrow>
          (case ig_Now (ve_fl ve) st of (now, st1) \<Rightarrow> case ig_Now (ve_fl ve) st1 of (later, st2) \<Rightarrow>
             case index_async (ve_fl ve) TRANSIENT [] ''create'' (encode_vfs (listing_record ve m
                    ([ms_Source m, or_auto acc] @ components) start_idx end_idx now later)) st2 of
               (Some e, st3) \<Rightarrow> (Some e, st3)
             | (None, st3) \<Rightarrow> list_directory env ve m ls st3)
      | _ \<Rightarrow> list_directory env ve m ls st)"

definition HandleSystemVfsListDirectory ::
  "'s ingest_env \<Rightarrow> 's vfs_env \<Rightarrow> client_message \<Rightarrow> vql_response \<Rightarrow> 's ingest_state \<Rightarrow> go_error option \<times> 's ingest_state"
where
  "HandleSystemVfsListDirectory env ve m r st = list_directory env ve m (scan_lines (vr_JSONLResponse r)) st"

definition uploaded_row :: "'s vfs_env \<Rightarrow> client_message \<Rightarrow> DownloadRow \<Rightarrow> int \<Rightarrow> DownloadRow" where
  "uploaded_row ve m row now = row\<lparr>
     dw_FSComponents := S3ComponentsForClientUpload (ve_sha256 ve)
       \<lparr>UploadRequest_ClientId = ve_ClientIdFromSource ve (ms_Source m), UploadRequest_SessionId = ms_SessionId m,
        UploadRequest_Accessor = or_auto (dw_Accessor row), UploadRequest_Components = dw_Components row,
        UploadRequest_Type = []\<rparr>,
     dw_Mtime := u64 (now div 1000000000)\<rparr>"

definition upload_record :: "'s vfs_env \<Rightarrow> client_message \<Rightarrow> DownloadRow \<Rightarrow> int \<Rightarrow> int \<Rightarrow> VFSRecord" where
  "upload_record ve m row now later =
     (let prefix = [ms_Source m, or_auto (dw_Accessor row)]
      in \<lparr>vf_Id = vfs_id ve (prefix @ butlast (dw_Components row)), vf_ClientId = ms_Source m,
          vf_FlowId = ms_SessionId m, vf_Components = [],
          vf_Downloads = [ve_marshal ve (encode_download (uploaded_row ve m row now))],
          vf_JSONData = [], vf_DocType = ''vfs'',
          vf_DocId = ''download_'' @ vfs_id ve (prefix @ dw_Components row), vf_Timestamp = later\<rparr>)"

fun vfs_uploads ::
  "'s vfs_env \<Rightarrow> client_message \<Rightarrow> string list \<Rightarrow> 's ingest_state \<Rightarrow> go_error option \<times> 's ingest_state" where
  "vfs_uploads ve m [] st = (None, st)"
| "vfs_uploads ve m (l # ls) st =
     (case bindR (unmarshal_text ve l) (decode_download (empty_download\<lparr>dw_FlowId := ms_SessionId m\<rparr>)) of
        Inl e \<Rightarrow> (Some e, st)
      | Inr row \<Rightarrow>
          if dw_Components row = [] then vfs_uploads ve m ls st
          else (case ig_Now (ve_fl ve) st of (now, st1) \<Rightarrow> case ig_Now (ve_fl ve) st1 of (later, st2) \<Rightarrow>
                  vfs_uploads ve m ls (snd (index_async (ve_fl ve) TRANSIENT [] ''create''
                    (encode_vfs (upload_record ve m row now later)) st2))))"

definition HandleSystemVfsUpload ::
  "'s vfs_env \<Rightarrow> client_message \<Rightarrow> vql_response \<Rightarrow> 's ingest_state \<Rightarrow> go_error option \<times> 's ingest_state" where
  "HandleSystemVfsUpload ve m r st = vfs_uploads ve m (scan_lines (vr_JSONLResponse r)) st"

section \<open>Results of collections (collections.go)\<close>

text \<open>The errors of the handlers of special results are dropped.\<close>

definition special_response ::
  "'s ingest_env \<Rightarrow> 's vfs_env \<Rightarrow> client_message \<Rightarrow> vql_response \<Rightarrow> 's ingest_state \<Rightarrow> 's ingest_state" where
  "special_response env ve m r st =
     (if response_name r = ''System.VFS.ListDirectory/Stats'' then snd (HandleSystemVfsListDirectory env ve m r st)
      else if response_name r = ''Generic.Client.Info/BasicInformation'' \<or>
              response_name r = ''Custom.Generic.Client.Info/BasicInformation''
      then snd (HandleInterrogation (ve_fl ve) m st)
      else if response_name r = ''System.VFS.DownloadFile'' then snd (HandleSystemVfsUpload ve m r st)
      else st)"

definition HandleResponses ::
  "'s ingest_env \<Rightarrow> 's vfs_env \<Rightarrow> client_message \<Rightarrow> vql_response \<Rightarrow> 's ingest_state
     \<Rightarrow> (go_error option \<times> 's ingest_state) option" where
  "HandleResponses env ve m r st =
     (if response_name r = [] then Some (None, st)
      else
        (let fl = ve_fl ve; r1 = ig_Deobfuscate env r;
             st1 = special_response env ve m r1 st;
             (log_path, st2) = getFSPathSpec env fl m (response_name r1) st1
         in with_writer fl log_path (ms_Urgent m)
              (\<lambda>rw. rs_WriteJSONL (fl_rs fl) (fl_fuel fl) (vr_JSONLResponse r1) (vr_TotalRows r1)
                 (rs_SetStartRow (i64 (vr_QueryStartRow r1)) rw)) st2))"

section \<open>Dispatch (ingestor.go)\<close>

definition Process ::
  "'s ingest_env \<Rightarrow> client_message \<Rightarrow> 's ingest_state \<Rightarrow> (go_error option \<times> 's ingest_state) option" where
  "Process env m st =
     (case ig_OrgManager env of
        Some e \<Rightarrow> Some (Some e, st)
      | None \<Rightarrow>
     (case ig_org env (ms_OrgId m) of
        Inl e \<Rightarrow> Some (Some e, st)
      | Inr ve \<Rightarrow>
          (let fl = ve_fl ve
           in if ms_Unauthenticated m then Some (HandleEnrolment env fl m st)
              else if ms_SessionId m = ig_MONITORING_WELL_KNOWN_FLOW env then
                (case ms_LogMessage m of
                   Some row \<Rightarrow> Some (HandleMonitoringLogs env fl m row st)
                 | None \<Rightarrow>
                     (case ms_VQLResponse m of
                        Some r \<Rightarrow> Some (HandleMonitoringResponses env fl m r st)
                      | None \<Rightarrow> Some (None, st)))
              else
                (case maybeHandleHuntResponse env fl m st of
                   (Some e, st1) \<Rightarrow> Some (Some e, st1)
                 | (None, st1) \<Rightarrow>
                     (case ms_LogMessage m of
                        Some msg \<Rightarrow> HandleLogs env fl m msg st1
                      | None \<Rightarrow>
                     (case ms_VQLResponse m of
                        Some r \<Rightarrow> HandleResponses env ve m r st1
                      | None \<Rightarrow>
                          if ms_FlowStats m \<noteq> None then Some (HandleFlowStats env fl m st1)
                          else if ms_ForemanCheckin m then Some (HandlePing fl m st1)
                          else if ms_FileBuffer m \<noteq> None then HandleUploads env ve m st1
                          else Some (None, st1)))))))"

definition NewIngestor :: "('s, 'z) elastic_scheme \<Rightarrow> cluster result" where
  "NewIngestor es = GetElasticClientByType es PrimaryOpenSearch"

end
