(* ===== verification/IngestedRows.thy ===== *)
theory IngestedRows
  imports Ingestion
begin

text \<open>
  The ingestor and the result sets together: the results of a query arrive in several messages
  and are read back as one table.
\<close>

section \<open>Messages of one query\<close>

fun Process_all ::
  "'s ingest_env \<Rightarrow> client_message list \<Rightarrow> 's ingest_state \<Rightarrow> 's ingest_state option" where
  "Process_all env [] st = Some st"
| "Process_all env (m # ms) st =
     (case Process env m st of None \<Rightarrow> None | Some (e, st1) \<Rightarrow> Process_all env ms st1)"

definition special_names :: "string list" where
  "special_names = [''System.VFS.ListDirectory/Stats'', ''Generic.Client.Info/BasicInformation'',
     ''Custom.Generic.Client.Info/BasicInformation'', ''System.VFS.DownloadFile'']"

text \<open>
  An urgent result message of a client for a query of a collection that is not part of a hunt,
  with the lines \<open>bl\<close> as the rows from \<open>k\<close> on.
\<close>

definition result_message ::
  "'s ingest_env \<Rightarrow> 's vfs_env \<Rightarrow> string \<Rightarrow> string \<Rightarrow> string \<Rightarrow> nat \<Rightarrow> string list \<Rightarrow> client_message \<Rightarrow> bool" where
  "result_message env ve cid sid name k bl m \<longleftrightarrow>
     ig_OrgManager env = None \<and> ig_org env (ms_OrgId m) = Inr ve \<and> \<not> ms_Unauthenticated m \<and>
     sid \<noteq> ig_MONITORING_WELL_KNOWN_FLOW env \<and> sid \<noteq> ''F.Monitoring'' \<and> ig_ExtractHuntId env sid = None \<and>
     ms_Source m = cid \<and> ms_SessionId m = sid \<and> ms_LogMessage m = None \<and> ms_Urgent m \<and>
     (\<exists>r. ms_VQLResponse m = Some r \<and> response_name r \<noteq> [] \<and>
        response_name (ig_Deobfuscate env r) = name \<and> name \<notin> set special_names \<and>
        vr_JSONLResponse (ig_Deobfuscate env r) = concat bl \<and>
        vr_TotalRows (ig_Deobfuscate env r) = int (length bl) \<and>
        i64 (vr_QueryStartRow (ig_Deobfuscate env r)) = int k)"

definition collection_path :: "'s ingest_env \<Rightarrow> string \<Rightarrow> string \<Rightarrow> string \<Rightarrow> string" where
  "collection_path env cid sid name =
     (case ig_SplitFullSourceName env name of (base, src) \<Rightarrow>
        ig_ClientPath env ([cid, ''artifacts'', base, sid] @ (if src \<noteq> [] then [src] else [])))"

lemma Process_result:
  assumes "result_message env ve cid sid name k bl m"
  shows "Process env m st = with_writer (ve_fl ve) (collection_path env cid sid name) True
    (\<lambda>rw. rs_WriteJSONL (fl_rs (ve_fl ve)) (fl_fuel (ve_fl ve)) (concat bl) (int (length bl))
       (rs_SetStartRow (int k) rw)) st"
proof -
  obtain r where r: "ms_VQLResponse m = Some r" "response_name r \<noteq> []"
    "response_name (ig_Deobfuscate env r) = name" "name \<notin> set special_names"
    "vr_JSONLResponse (ig_Deobfuscate env r) = concat bl"
    "vr_TotalRows (ig_Deobfuscate env r) = int (length bl)"
    "i64 (vr_QueryStartRow (ig_Deobfuscate env r)) = int k"
    using assms by (auto simp: result_message_def)
  have "special_response env ve m (ig_Deobfuscate env r) st = st"
    using r(3,4) by (simp add: special_response_def special_names_def)
  moreover have "maybeHandleHuntResponse env (ve_fl ve) m st = (None, st)"
    using assms by (simp add: maybeHandleHuntResponse_def result_message_def)
  moreover have "getFSPathSpec env (ve_fl ve) m name st = (collection_path env cid sid name, st)"
    using assms by (simp add: getFSPathSpec_def collection_path_def result_message_def split: prod.splits)
  ultimately show ?thesis
    using assms r by (simp add: Process_def Let_def HandleResponses_def result_message_def)
qed

section \<open>The rows of the result set\<close>

text \<open>The result set at a path of which the ingestor has written \<open>rows\<close>.\<close>

definition ingested ::
  "'s rs_env \<Rightarrow> ('s \<Rightarrow> cluster \<Rightarrow> string \<Rightarrow> index_docs) \<Rightarrow> cluster \<Rightarrow> string \<Rightarrow> string list \<Rightarrow> 's world \<Rightarrow> bool" where
  "ingested rs docs c P rows w \<longleftrightarrow>
     (if rows = [] then mds_of P (all_docs rs docs c w) = [] \<and> packets_of P [] (all_docs rs docs c w) = []
      else \<exists>rw. writer_ok rs docs c P rw w rows [] \<and> rw_version rw = [])"

lemma ingest_batch:
  assumes "reliable_store (rs_es rs) docs" and "GetElasticClient (rs_es rs) (rs_org_id rs) = Inr c"
    and "\<And>i j. i < j \<Longrightarrow> rs_now rs i < rs_now rs j" and "fl_rs fl = rs" and "0 < fl_fuel fl"
    and "ingested rs docs c P rows (is_world st)" and "bl \<noteq> []"
  shows "\<exists>st'. with_writer fl P True (\<lambda>rw. rs_WriteJSONL rs (fl_fuel fl) (concat bl) (int (length bl))
      (rs_SetStartRow (int (length rows)) rw)) st = Some (None, st') \<and> ingested rs docs c P (rows @ bl) (is_world st')"
proof -
  obtain fuel where fuel: "fl_fuel fl = Suc fuel" using assms(5) by (cases "fl_fuel fl") auto
  obtain rw w1 where new: "NewResultSetWriter rs P True False (is_world st) = (Inr rw, w1)"
    and at: "writer_at rs docs c P rw w1 rows []" and v: "rw_version rw = []"
  proof (cases "rows = []")
    case True
    then show ?thesis using New_first [OF assms(1,2)] assms(6) that by (auto simp: ingested_def)
  next
    case False
    then obtain rw0 where "writer_ok rs docs c P rw0 (is_world st) rows []" "rw_version rw0 = []"
      using assms(6) by (auto simp: ingested_def)
    then show ?thesis using New_append [OF assms(1-3)] writer_ok_at that by metis
  qed
  have at': "writer_at rs docs c P (rs_SetStartRow (int (length rows)) rw) w1 rows []"
    using at by (simp add: writer_at_def rs_SetStartRow_def)
  obtain rw1 w2 rw2 w3 where "rs_WriteJSONL rs (Suc fuel) (concat bl) (int (length bl)) (rs_SetStartRow (int (length rows)) rw) w1 = Some (rw1, w2)"
    "rs_Close rs (Suc fuel) rw1 w2 = Some (rw2, w3)" "writer_ok rs docs c P rw2 w3 (rows @ bl) []"
    "rw_version rw2 = []"
    using JSONL_session [OF assms(1-3) at' assms(7), of fuel] v by (auto simp: rs_SetStartRow_def)
  then show ?thesis
    using new assms(4,7) fuel by (auto simp: with_writer_def ingested_def)
qed

text \<open>Messages that carry the batches one after the other, from row \<open>k\<close> on.\<close>

fun result_messages ::
  "'s ingest_env \<Rightarrow> 's vfs_env \<Rightarrow> string \<Rightarrow> string \<Rightarrow> string \<Rightarrow> nat \<Rightarrow> string list list \<Rightarrow> client_message list \<Rightarrow> bool"
where
  "result_messages env ve cid sid name k [] ms \<longleftrightarrow> ms = []"
| "result_messages env ve cid sid name k (bl # bls) ms \<longleftrightarrow>
     (case ms of [] \<Rightarrow> False
      | m # ms' \<Rightarrow> bl \<noteq> [] \<and> list_all is_line bl \<and> result_message env ve cid sid name k bl m \<and>
          result_messages env ve cid sid name (k + length bl) bls ms')"

lemma ingest_batches:
  assumes "reliable_store (rs_es rs) docs" and "GetElasticClient (rs_es rs) (rs_org_id rs) = Inr c"
    and "\<And>i j. i < j \<Longrightarrow> rs_now rs i < rs_now rs j" and "fl_rs (ve_fl ve) = rs" and "0 < fl_fuel (ve_fl ve)"
    and "P = collection_path env cid sid name"
  shows "result_messages env ve cid sid name (length rows) bls ms \<Longrightarrow> ingested rs docs c P rows (is_world st) \<Longrightarrow>
    \<exists>st'. Process_all env ms st = Some st' \<and> ingested rs docs c P (rows @ concat bls) (is_world st') \<and>
      (\<forall>l \<in> set (concat bls). is_line l)"
proof (induction bls arbitrary: rows ms st)
  case (Cons bl bls)
  then obtain m ms' where ms: "ms = m # ms'" and bl: "bl \<noteq> []" "list_all is_line bl"
    and m: "result_message env ve cid sid name (length rows) bl m"
    and rest: "result_messages env ve cid sid name (length (rows @ bl)) bls ms'"
    by (auto split: list.splits)
  obtain st1 where st1: "Process env m st = Some (None, st1)" "ingested rs docs c P (rows @ bl) (is_world st1)"
    using ingest_batch [OF assms(1-5) Cons.prems(2) bl(1)] Process_result [OF m] assms(4,6) by auto
  obtain st' where "Process_all env ms' st1 = Some st'" "ingested rs docs c P ((rows @ bl) @ concat bls) (is_world st')"
    "\<forall>l \<in> set (concat bls). is_line l"
    using Cons.IH [OF rest st1(2)] by blast
  then show ?case using ms st1(1) bl(2) by (auto simp: list_all_iff)
qed auto


section \<open>An example query\<close>

definition query_response :: "string \<Rightarrow> int \<Rightarrow> int \<Rightarrow> vql_response" where
  "query_response rows n k = \<lparr>vr_Query = Some (''Linux.Sys.Users'', []), vr_JSONLResponse = rows,
     vr_TotalRows = n, vr_QueryStartRow = k\<rparr>"

definition blank_message :: client_message where
  "blank_message = \<lparr>ms_Source = ''C.1'', ms_OrgId = ''root'', ms_SessionId = ''F.1'', ms_Unauthenticated = False,
     ms_Urgent = True, ms_CSR = None, ms_LogMessage = None, ms_VQLResponse = None, ms_FlowStats = None,
     ms_ForemanCheckin = False, ms_FileBuffer = None\<rparr>"

definition query_message :: "string \<Rightarrow> int \<Rightarrow> int \<Rightarrow> client_message" where
  "query_message rows n k = blank_message\<lparr>ms_VQLResponse := Some (query_response rows n k)\<rparr>"

definition row_line :: "char \<Rightarrow> string" where
  "row_line ch = [ch, CHR ''\<newline>'']"

definition no_hunt :: "string \<Rightarrow> string option" where
  "no_hunt sid = None"

definition sample_ingest_env :: "mem_es_state ingest_env" where
  "sample_ingest_env =
     \<lparr>ig_OrgManager = None, ig_org = (\<lambda>org. Inr sample_vfs_env),
      ig_AddCertificateRequest = (\<lambda>org pem s. (Inr ''C.1'', s)), ig_ClientInfoManager = None,
      ig_Deobfuscate = (\<lambda>r. r), ig_DeobfuscateString = (\<lambda>t. t), ig_ExtractHuntId = no_hunt,
      ig_SplitFullSourceName = (\<lambda>n. (n, [])), ig_ClientPath = (\<lambda>cs. ''/clients/'' @ Join ''/'' cs),
      ig_LogPath = (\<lambda>c f. ''/logs/'' @ c @ f), ig_UploadMetadata = (\<lambda>c f. ''/uploads/'' @ c @ f),
      ig_ArtifactPath = (\<lambda>c f a. ArtifactPathManager c f a (c @ f @ a)),
      ig_ArtifactLogPath = (\<lambda>c f a. ArtifactLogPathManager c f a (c @ f @ a)),
      ig_AppendJsonlItem = (\<lambda>t k v. t), ig_VFSListRow = (\<lambda>l. Inl (Err l)),
      ig_time = (\<lambda>t. JInt t), ig_MONITORING_WELL_KNOWN_FLOW = ''F.Monitoring''\<rparr>"

definition sample_ingest_state :: "mem_es_state ingest_state" where
  "sample_ingest_state = \<lparr>is_world = sample_world, is_stats = StartHuntStatsUpdater ()\<rparr>"

lemma sample_ingest_rs: "fl_rs (ve_fl sample_vfs_env) = sample_rs_env\<lparr>rs_now := (\<lambda>n. 90000000000 + int n)\<rparr>"
  "fl_fuel (ve_fl sample_vfs_env) = 9"
  by (simp_all add: sample_vfs_env_def sample_flow_env_def)


end
