(* ===== verification/Ownership.thy ===== *)
theory Ownership
  imports IngestedRows
begin

text \<open>
  What a message of a client can write: the frame of the store's operations, through the writers
  of result sets and the handlers, up to \<open>Process\<close>.
\<close>

section \<open>The frame of a write\<close>

text \<open>
  \<open>cells s\<close> is what the store holds or has queued in its bulk indexer, with the index of each
  document. An operation adds at most the document it was given; a refresh adds nothing.
\<close>

definition write_frame :: "('s, 'z) elastic_scheme \<Rightarrow> ('s \<Rightarrow> (string \<times> json) set) \<Rightarrow> bool" where
  "write_frame es cells \<longleftrightarrow>
     (\<forall>c idx i j s. cells (snd (os_Index es c idx i j s)) \<subseteq> insert (idx, j) (cells s)) \<and>
     (\<forall>item s. cells (snd (os_BulkAdd es item s)) \<subseteq> insert (bi_Index item, bi_Body item) (cells s)) \<and>
     (\<forall>c idxs s. cells (snd (os_Refresh es c idxs s)) \<subseteq> cells s)"

lemma write_frameD:
  assumes "write_frame es cells"
  shows "cells (snd (os_Index es c idx i j s)) \<subseteq> insert (idx, j) (cells s)"
    and "cells (snd (os_BulkAdd es item s)) \<subseteq> insert (bi_Index item, bi_Body item) (cells s)"
    and "cells (snd (os_Refresh es c idxs s)) \<subseteq> cells s"
  using assms by (simp_all add: write_frame_def)

lemma frame_retry:
  assumes "\<And>s. cells (snd (cb s)) \<subseteq> insert x (cells s)"
  shows "cells (snd (retry_from n e cb s)) \<subseteq> insert x (cells s)"
proof (induction n arbitrary: e s)
  case (Suc n)
  obtain r s1 where s1: "cb s = (r, s1)" by fastforce
  have "cells s1 \<subseteq> insert x (cells s)" using assms [of s] s1 by simp
  moreover have "cells (snd (retry_from n r cb s1)) \<subseteq> insert x (cells s1)" for r by (rule Suc.IH)
  ultimately show ?case using s1 by (cases r) auto
qed auto

lemma frame_Set:
  assumes "write_frame es cells"
  shows "cells (snd (SetElasticIndex es org idx i j s)) \<subseteq> insert (GetIndex org idx, j) (cells s)"
  unfolding SetElasticIndex_def retry_def
proof (rule frame_retry)
  fix s
  show "cells (snd (SetElasticIndex_once es org idx i j s)) \<subseteq> insert (GetIndex org idx, j) (cells s)"
  proof (cases "GetElasticClient es org")
    case (Inr c)
    then show ?thesis
      using write_frameD(1) [OF assms, of c "GetIndex org idx" i j s]
      by (auto simp: SetElasticIndex_once_def write_outcome_def split: prod.splits sum.splits)
  qed (auto simp: SetElasticIndex_once_def)
qed

lemma frame_Async:
  assumes "write_frame es cells"
  shows "cells (snd (snd (SetElasticIndexAsync es org idx i a j b s))) \<subseteq> insert (GetIndex org idx, j) (cells s)"
proof (cases b)
  case (Some bulk)
  then show ?thesis
    using write_frameD(2) [OF assms, of "\<lparr>bi_Index = GetIndex org idx, bi_Action = a, bi_DocumentID = i, bi_Body = j\<rparr>" s]
    by (auto simp: SetElasticIndexAsync_def bulk_Add_def split: prod.splits)
qed (auto simp: SetElasticIndexAsync_def)

lemma frame_Flush:
  assumes "write_frame es cells"
  shows "cells (snd (FlushIndex es org idx s)) \<subseteq> cells s"
  using write_frameD(3) [OF assms, where s = s]
  by (auto simp: FlushIndex_def split: sum.splits prod.splits) (metis snd_conv subsetD)+

lemma mem_write_frame: "write_frame mem_es (\<lambda>st. {(idx, j). \<exists>i. (i, j) \<in> set (mem_docs st idx)})"
proof -
  have flt: "map_of (filter (\<lambda>(k, v). k \<noteq> idx) st) k = (if k = idx then None else map_of st k)"
    for idx k and st :: mem_es_state
    by (induction st) auto
  have put: "\<exists>i'. (i', v) \<in> set (mem_docs (mem_put idx ds st) k) \<Longrightarrow>
      (k = idx \<and> (\<exists>i'. (i', v) \<in> set ds)) \<or> (\<exists>i'. (i', v) \<in> set (mem_docs st k))" for v idx ds st k
    by (auto simp: mem_docs_def mem_put_def flt split: if_splits option.splits)
  have dp: "(x, v) \<in> set (doc_put i j ds) \<Longrightarrow> v = j \<or> (\<exists>i'. (i', v) \<in> set ds)" for x v i j ds
    by (induction ds) (auto split: if_splits)
  have da: "(x, v) \<in> set (doc_add i j ds) \<Longrightarrow> v = j \<or> (\<exists>i'. (i', v) \<in> set ds)" for x v i j ds
    using dp by (auto simp: doc_add_def split: if_splits)
  have cell: "(x, v) \<in> set (mem_docs (mem_put idx (doc_add i j (mem_docs st idx)) st) k) \<Longrightarrow>
      (k = idx \<and> v = j) \<or> (\<exists>i'. (i', v) \<in> set (mem_docs st k))" for x v idx i j st k
    using put [of v idx "doc_add i j (mem_docs st idx)" st k] da [of _ v i j "mem_docs st idx"] by metis
  show ?thesis by (auto simp: write_frame_def mem_es_def dest!: cell)
qed

section \<open>Writers of result sets\<close>

definition rs_cells :: "'s rs_env \<Rightarrow> string \<Rightarrow> (string \<times> json) set" where
  "rs_cells env P = {(GetIndex (rs_org_id env) TRANSIENT, encode_record r) | r. rr_VFSPath r = P} \<union>
     {(GetIndex (rs_org_id env) TRANSIENT, encode_md md) | md. md_VFSPath md = P}"

definition writes_to :: "string \<Rightarrow> rs_writer \<Rightarrow> bool" where
  "writes_to P rw \<longleftrightarrow> rw_log_path rw = P \<and> md_VFSPath (rw_md rw) = P"

lemma writes_to_buffer [simp]:
  "writes_to P (rw\<lparr>rw_buff := b, rw_buffered_rows := n\<rparr>) = writes_to P rw"
  "writes_to P (rs_SetStartRow k rw) = writes_to P rw" "writes_to P (rs_SetSync rw) = writes_to P rw"
  by (simp_all add: writes_to_def rs_SetStartRow_def rs_SetSync_def)

definition adds :: "('s \<Rightarrow> (string \<times> json) set) \<Rightarrow> (string \<times> json) set \<Rightarrow> 's \<Rightarrow> 's \<Rightarrow> bool" where
  "adds cells X s s' \<longleftrightarrow> cells s' \<subseteq> cells s \<union> X"

lemma adds_refl [simp, intro]: "adds cells X s s"
  by (simp add: adds_def)

lemma adds_trans: "adds cells X s s1 \<Longrightarrow> adds cells X s1 s2 \<Longrightarrow> adds cells X s s2"
  by (auto simp: adds_def)

lemma adds_mono: "adds cells X s s' \<Longrightarrow> X \<subseteq> Y \<Longrightarrow> adds cells Y s s'"
  by (auto simp: adds_def)

lemma adds_Set:
  "write_frame es cells \<Longrightarrow> SetElasticIndex es org idx i j s = (e, s') \<Longrightarrow> (GetIndex org idx, j) \<in> X \<Longrightarrow>
    adds cells X s s'"
  using frame_Set [of es cells org idx i j s] by (auto simp: adds_def)

lemma adds_Async:
  "write_frame es cells \<Longrightarrow> SetElasticIndexAsync es org idx i a j b s = (e, b', s') \<Longrightarrow>
    (GetIndex org idx, j) \<in> X \<Longrightarrow> adds cells X s s'"
  using frame_Async [of es cells org idx i a j b s] by (auto simp: adds_def)

lemma adds_Flush:
  "write_frame es cells \<Longrightarrow> FlushIndex es org idx s = (e, s') \<Longrightarrow> adds cells X s s'"
  using frame_Flush [of es cells org idx s] by (auto simp: adds_def)

lemma adds_metadata:
  assumes "write_frame (rs_es env) cells" and "SetResultSetMetadata env md w = (e, md', w')"
    and "md_VFSPath md = P"
  shows "adds cells (rs_cells env P) (wd_store w) (wd_store w') \<and> md_VFSPath md' = P"
proof -
  obtain s where s: "SetElasticIndex (rs_es env) (rs_org_id env) TRANSIENT [] (encode_md md') (wd_store w) = (e, s)"
    "wd_store w' = s" "md_VFSPath md' = P"
    using assms(2,3) by (auto simp: SetResultSetMetadata_def Now_def Let_def split: prod.splits)
  have "(GetIndex (rs_org_id env) TRANSIENT, encode_md md') \<in> rs_cells env P"
    using s(3) by (auto simp: rs_cells_def)
  then show ?thesis using adds_Set [OF assms(1) s(1)] s(2,3) by simp
qed

lemma adds_writeJSONL:
  assumes fr: "write_frame (rs_es env) cells" and run: "rs_writeJSONL env flush d n rw w = Some (rw', w')"
    and P: "writes_to P rw"
    and flush: "\<And>rw w rw' w'. flush rw w = Some (rw', w') \<Longrightarrow> writes_to P rw \<Longrightarrow>
      adds cells (rs_cells env P) (wd_store w) (wd_store w') \<and> writes_to P rw'"
  shows "adds cells (rs_cells env P) (wd_store w) (wd_store w') \<and> writes_to P rw'"
proof -
  define rec where "rec = (NewSimpleResultSetRecord (rw_log_path rw) (rw_version rw))
            \<lparr>rr_JSONData := d, rr_StartRow := rw_start_row rw, rr_EndRow := rw_start_row rw + n,
             rr_Timestamp := rs_now env (wd_ticks w) div 1000000000,
             rr_ID := rw_version rw, rr_Type := ''result_set'', rr_TotalRows := rw_start_row rw + n\<rparr>"
  define rw1 where "rw1 = rw\<lparr>rw_start_row := rr_EndRow rec, rw_md := (rw_md rw)\<lparr>md_EndRow := rr_EndRow rec\<rparr>\<rparr>"
  have cell: "(GetIndex (rs_org_id env) TRANSIENT, encode_record rec) \<in> rs_cells env P"
    using P by (auto simp: rs_cells_def rec_def writes_to_def NewSimpleResultSetRecord_def)
  have P1: "writes_to P rw1" "writes_to P (rw1\<lparr>rw_md := (rw_md rw1)\<lparr>md_TotalRows := -1, md_EndRow := -1\<rparr>\<rparr>)"
    using P by (simp_all add: rw1_def writes_to_def)
  show ?thesis
  proof (cases "rw_sync rw")
    case True
    obtain e s where s: "SetElasticIndex (rs_es env) (rs_org_id env) TRANSIENT [] (encode_record rec) (wd_store w) = (e, s)"
      by fastforce
    have a: "adds cells (rs_cells env P) (wd_store w) s" by (rule adds_Set [OF fr s cell])
    show ?thesis
    proof (cases e)
      case None
      then show ?thesis
        using run True s a P1 by (auto simp: rs_writeJSONL_def Now_def Let_def simp flip: rec_def rw1_def)
    next
      case (Some err)
      then have "flush (rw1\<lparr>rw_md := (rw_md rw1)\<lparr>md_TotalRows := -1, md_EndRow := -1\<rparr>\<rparr>)
          (w\<lparr>wd_ticks := Suc (wd_ticks w), wd_store := s\<rparr>) = Some (rw', w')"
        using run True s by (simp add: rs_writeJSONL_def Now_def Let_def rs_Abort_with_def flip: rec_def rw1_def)
      then show ?thesis using flush P1(2) adds_trans [OF a] by fastforce
    qed
  next
    case False
    obtain e b s where s: "SetElasticIndexAsync (rs_es env) (rs_org_id env) TRANSIENT [] ''create''
        (encode_record rec) (wd_bulk w) (wd_store w) = (e, b, s)"
      using prod_cases3 by blast
    show ?thesis
      using run False s adds_Async [OF fr s cell] P
      by (auto simp: rs_writeJSONL_def Now_def Let_def writes_to_def simp flip: rec_def)
  qed
qed

lemma adds_rs_Flush:
  assumes fr: "write_frame (rs_es env) cells"
  shows "rs_Flush env fuel rw w = Some (rw', w') \<Longrightarrow> writes_to P rw \<Longrightarrow>
    adds cells (rs_cells env P) (wd_store w) (wd_store w') \<and> writes_to P rw'"
proof (induction fuel arbitrary: rw w rw' w')
  case (Suc fuel)
  show ?case
  proof (cases "rw_buffered_rows rw = 0")
    case False
    then obtain rw1 w1 e md w2 e2 s where 1: "rs_writeJSONL env (rs_Flush env fuel) (rw_buff rw) (rw_buffered_rows rw) rw w = Some (rw1, w1)"
      and 2: "SetResultSetMetadata env (rw_md rw1) w1 = (e, md, w2)"
      and 3: "FlushIndex (rs_es env) (rs_org_id env) TRANSIENT (wd_store w2) = (e2, s)"
      and 4: "rw' = rw1\<lparr>rw_buff := [], rw_buffered_rows := 0, rw_md := md, rw_truncated := True\<rparr>"
        "w' = w2\<lparr>wd_store := s\<rparr>"
      using Suc.prems(1) by (auto split: option.splits prod.splits)
    have a: "adds cells (rs_cells env P) (wd_store w) (wd_store w1) \<and> writes_to P rw1"
      by (rule adds_writeJSONL [OF fr 1 Suc.prems(2) Suc.IH])
    then have b: "adds cells (rs_cells env P) (wd_store w1) (wd_store w2) \<and> md_VFSPath md = P"
      using adds_metadata [OF fr 2] by (simp add: writes_to_def)
    have "adds cells (rs_cells env P) (wd_store w2) s" by (rule adds_Flush [OF fr 3])
    then show ?thesis using a b 4 by (auto simp: writes_to_def intro: adds_trans)
  qed (use Suc.prems in auto)
qed simp

lemma metadata_path:
  assumes "search_contract (rs_es env) docs" and "P \<noteq> []" and "GetResultSetMetadata env P w = Inr md"
  shows "md_VFSPath md = P"
proof (cases "GetElasticClient (rs_es env) (rs_org_id env)")
  case (Inl e)
  then show ?thesis using assms(3) by (simp add: GetResultSetMetadata_def QueryElasticRaw_def run_search_def)
next
  case (Inr c)
  let ?D = "docs (wd_store w) c (GetIndex (rs_org_id env) TRANSIENT)"
  define hits where "hits = search_hits (result_md_query P) ?D"
  have q: "QueryElasticRaw (rs_es env) (rs_org_id env) TRANSIENT (result_md_query P) (wd_store w) =
      Inr (map snd hits, int (length (filter (\<lambda>d. matches (sq_query (result_md_query P)) (snd d)) ?D)))"
    unfolding hits_def
    by (rule QueryElasticRaw_hits [OF assms(1) Inr]) (simp add: result_md_query_def query_of_def)
  show ?thesis
  proof (cases hits)
    case Nil
    then show ?thesis using assms(3) q by (auto simp: GetResultSetMetadata_def)
  next
    case (Cons h hs)
    have "h \<in> set hits" using Cons by simp
    then have "matches (sq_query (result_md_query P)) (snd h)"
      by (auto simp: hits_def search_hits_def sorted_hits_def after_hits_def result_md_query_def query_of_def
          dest!: in_set_takeD in_set_dropD)
    then have v: "JStr P \<in> set (field_values ''vfs_path'' (snd h))"
      by (simp add: result_md_query_def query_of_def)
    have "decode_md (snd h) = Inr md" using assms(3) q Cons by (simp add: GetResultSetMetadata_def)
    then have "Json.get_str ''vfs_path'' (snd h) = Inr (md_VFSPath md)"
      by (auto simp: decode_md_def bindR_Inr_iff)
    then show ?thesis using v
      by (auto simp: field_values_def Json.get_str_def split: option.splits json.splits)
  qed
qed

lemma adds_NewWriter:
  assumes "write_frame (rs_es env) cells" and "search_contract (rs_es env) docs" and "P \<noteq> []"
    and "NewResultSetWriter env P synchronous False w = (r, w')"
  shows "adds cells (rs_cells env P) (wd_store w) (wd_store w') \<and> (\<forall>rw. r = Inr rw \<longrightarrow> writes_to P rw)"
proof -
  define w2 where "w2 = snd (Now env (snd (GetGUID env w)))"
  have st: "wd_store w2 = wd_store w" by (simp add: w2_def Now_def GetGUID_def)
  show ?thesis
  proof (cases "GetResultSetMetadata env P w2")
    case (Inr md)
    then show ?thesis using assms(4) metadata_path [OF assms(2,3) Inr] st
      by (auto simp: NewResultSetWriter_def Let_def writes_to_def w2_def Now_def GetGUID_def)
  next
    case (Inl e)
    obtain e' md1 w3 where 3: "SetResultSetMetadata env \<lparr>md_Timestamp = fst (Now env (snd (GetGUID env w))),
        md_VFSPath = P, md_ID = fst (GetGUID env w), md_EndRow = 0, md_TotalRows = 0,
        md_Type = ''rs_metadata''\<rparr> w2 = (e', md1, w3)"
      using prod_cases3 by blast
    note a = adds_metadata [OF assms(1) 3, of P]
    show ?thesis
      using assms(4) Inl 3 a st
      by (auto simp: NewResultSetWriter_def Let_def writes_to_def w2_def Now_def GetGUID_def
          split: option.splits)
  qed
qed

lemma adds_with_writer:
  assumes fr: "write_frame (rs_es (fl_rs fl)) cells" and sc: "search_contract (rs_es (fl_rs fl)) docs"
    and P: "P \<noteq> []" and run: "with_writer fl P synchronous f st = Some (e, st')"
    and f: "\<And>rw w rw' w'. f rw w = Some (rw', w') \<Longrightarrow> writes_to P rw \<Longrightarrow>
      adds cells (rs_cells (fl_rs fl) P) (wd_store w) (wd_store w') \<and> writes_to P rw'"
  shows "adds cells (rs_cells (fl_rs fl) P) (wd_store (is_world st)) (wd_store (is_world st'))"
proof -
  obtain r w1 where 1: "NewResultSetWriter (fl_rs fl) P synchronous False (is_world st) = (r, w1)" by fastforce
  note a = adds_NewWriter [OF fr sc P 1]
  show ?thesis
  proof (cases r)
    case (Inl e')
    then show ?thesis using run 1 a by (simp add: with_writer_def) auto
  next
    case (Inr rw)
    then obtain rw1 w2 rw2 w3 where 2: "f rw w1 = Some (rw1, w2)"
      "rs_Flush (fl_rs fl) (fl_fuel fl) rw1 w2 = Some (rw2, w3)" "is_world st' = w3"
      using run 1 by (auto simp: with_writer_def rs_Close_def split: option.splits)
    have "adds cells (rs_cells (fl_rs fl) P) (wd_store w1) (wd_store w2) \<and> writes_to P rw1"
      using f [OF 2(1)] a Inr by simp
    then show ?thesis using adds_rs_Flush [OF fr 2(2)] 2(3) a by (blast intro: adds_trans)
  qed
qed

lemma adds_flush_if_large:
  assumes "write_frame (rs_es env) cells" and "rs_flush_if_large env fuel rw w = Some (rw', w')" and "writes_to P rw"
  shows "adds cells (rs_cells env P) (wd_store w) (wd_store w') \<and> writes_to P rw'"
  using assms adds_rs_Flush [OF assms(1)] by (auto simp: rs_flush_if_large_def split: if_splits)

lemma adds_WriteJSONL:
  assumes "write_frame (rs_es env) cells" and "rs_WriteJSONL env fuel d n rw w = Some (rw', w')" and "writes_to P rw"
  shows "adds cells (rs_cells env P) (wd_store w) (wd_store w') \<and> writes_to P rw'"
  using adds_flush_if_large [OF assms(1), of fuel] assms(2,3) by (simp add: rs_WriteJSONL_def)

lemma adds_Write:
  assumes "write_frame (rs_es env) cells" and "rs_Write env fuel row rw w = Some (rw', w')" and "writes_to P rw"
  shows "adds cells (rs_cells env P) (wd_store w) (wd_store w') \<and> writes_to P rw'"
  using adds_flush_if_large [OF assms(1), of fuel] assms(2,3)
  by (auto simp: rs_Write_def split: sum.splits)

section \<open>The documents of a client\<close>

definition own_path :: "'s ingest_env \<Rightarrow> string \<Rightarrow> string \<Rightarrow> bool" where
  "own_path env cid p \<longleftrightarrow> (\<exists>f. p = ig_LogPath env cid f) \<or> (\<exists>f. p = ig_UploadMetadata env cid f) \<or>
     (\<exists>c. p = ig_ClientPath env (cid # c))"

definition own_manager :: "'s ingest_env \<Rightarrow> string \<Rightarrow> path_manager \<Rightarrow> bool" where
  "own_manager env cid pm \<longleftrightarrow> (\<exists>f a. pm = ig_ArtifactPath env cid f a \<or> pm = ig_ArtifactLogPath env cid f a)"

definition own_document :: "'s ingest_env \<Rightarrow> string \<Rightarrow> json \<Rightarrow> bool" where
  "own_document env cid j \<longleftrightarrow>
     (\<exists>r. j = encode_collection r \<and> ar_ClientId r = cid) \<or>
     (\<exists>r. j = encode_hunt_flow r \<and> hf_ClientId r = cid) \<or>
     (\<exists>r. j = encode_vfs r \<and> vf_ClientId r = cid) \<or>
     (\<exists>pm t t' d. j = encode_timed ((NewTimedResultSetRecord t t' pm)\<lparr>tr_JSONData := d\<rparr>) \<and> own_manager env cid pm) \<or>
     (\<exists>r. j = encode_record r \<and> own_path env cid (rr_VFSPath r)) \<or>
     (\<exists>r. j = encode_md r \<and> own_path env cid (md_VFSPath r))"

definition own_cells :: "'s ingest_env \<Rightarrow> 's flow_env \<Rightarrow> string \<Rightarrow> (string \<times> json) set" where
  "own_cells env fl cid =
     {(GetIndex (fl_org fl) PERSISTED, encode_client r) | r. cr_ClientId r = cid \<and> cr_DocType r = ''clients''} \<union>
     {(GetIndex (fl_org fl) TRANSIENT, j) | j. own_document env cid j}"

abbreviation sto :: "'s ingest_state \<Rightarrow> 's" where
  "sto st \<equiv> wd_store (is_world st)"

lemma own_persisted:
  "cr_ClientId r = cid \<Longrightarrow> cr_DocType r = ''clients'' \<Longrightarrow>
    (GetIndex (fl_org fl) PERSISTED, encode_client r) \<in> own_cells env fl cid"
  unfolding own_cells_def by blast

lemma own_transient:
  "own_document env cid j \<Longrightarrow> (GetIndex (fl_org fl) TRANSIENT, j) \<in> own_cells env fl cid"
  unfolding own_cells_def by blast

lemma own_documents:
  "ar_ClientId r1 = cid \<Longrightarrow> own_document env cid (encode_collection r1)"
  "hf_ClientId r2 = cid \<Longrightarrow> own_document env cid (encode_hunt_flow r2)"
  "vf_ClientId r3 = cid \<Longrightarrow> own_document env cid (encode_vfs r3)"
  "own_manager env cid pm \<Longrightarrow> own_document env cid (encode_timed ((NewTimedResultSetRecord t t' pm)\<lparr>tr_JSONData := d\<rparr>))"
  unfolding own_document_def by blast+

lemma rs_own: "own_path env cid P \<Longrightarrow> rs_cells (fl_rs fl) P \<subseteq> own_cells env fl cid"
  unfolding rs_cells_def own_cells_def own_document_def by blast

lemmas own_intros = own_persisted own_transient own_documents

lemma in_storeD: "in_store f st = (e, st') \<Longrightarrow> f (sto st) = (e, sto st')"
  by (auto simp: in_store_def split: prod.splits)

lemma ig_Now_store [simp]: "ig_Now fl st = (t, st') \<Longrightarrow> sto st' = sto st"
  by (auto simp: ig_Now_def Now_def)

lemma count_hunt_store [simp]: "sto (count_hunt f h st) = sto st"
  by (simp add: count_hunt_def split: prod.splits)

text \<open>
  The hypotheses on the store and the paths, and what a step of the ingestor adds to the store
  on behalf of a client.
\<close>

definition framed :: "'s ingest_env \<Rightarrow> 's flow_env \<Rightarrow> ('s \<Rightarrow> (string \<times> json) set)
    \<Rightarrow> ('s \<Rightarrow> cluster \<Rightarrow> string \<Rightarrow> index_docs) \<Rightarrow> string \<Rightarrow> bool" where
  "framed env fl cells docs cid \<longleftrightarrow> write_frame (fl_es fl) cells \<and> search_contract (fl_es fl) docs \<and>
     (\<forall>P. own_path env cid P \<longrightarrow> P \<noteq> [])"

definition own :: "'s ingest_env \<Rightarrow> 's flow_env \<Rightarrow> ('s \<Rightarrow> (string \<times> json) set) \<Rightarrow> string
    \<Rightarrow> 's ingest_state \<Rightarrow> 's ingest_state \<Rightarrow> bool" where
  "own env fl cells cid st st' \<longleftrightarrow> adds cells (own_cells env fl cid) (sto st) (sto st')"

lemma own_refl [simp, intro]: "own env fl cells cid st st"
  by (simp add: own_def)

lemma own_trans: "own env fl cells cid st st1 \<Longrightarrow> own env fl cells cid st1 st2 \<Longrightarrow> own env fl cells cid st st2"
  unfolding own_def by (rule adds_trans)

lemma own_store: "sto st1 = sto st \<Longrightarrow> own env fl cells cid st1 st2 \<longleftrightarrow> own env fl cells cid st st2"
  by (simp add: own_def)

lemma framedD:
  assumes "framed env fl cells docs cid"
  shows "write_frame (fl_es fl) cells" and "search_contract (fl_es fl) docs"
    and "own_path env cid P \<Longrightarrow> P \<noteq> []"
  using assms by (simp_all add: framed_def)

lemma own_Now: "own env fl cells cid st1 st' \<Longrightarrow> ig_Now fl st = (t, st1) \<Longrightarrow> own env fl cells cid st st'"
  by (simp add: own_def ig_Now_store)

lemma own_Set:
  assumes "framed env fl cells docs cid"
    and "in_store (SetElasticIndex (fl_es fl) (fl_org fl) idx i j) st = (e, st')"
    and "(GetIndex (fl_org fl) idx, j) \<in> own_cells env fl cid"
  shows "own env fl cells cid st st'"
  unfolding own_def by (rule adds_Set [OF framedD(1) [OF assms(1)] in_storeD [OF assms(2)] assms(3)])

lemma own_Async:
  assumes "framed env fl cells docs cid" and "index_async fl idx i a j st = (e, st')"
    and "(GetIndex (fl_org fl) idx, j) \<in> own_cells env fl cid"
  shows "own env fl cells cid st st'"
proof -
  obtain b where "SetElasticIndexAsync (fl_es fl) (fl_org fl) idx i a j (wd_bulk (is_world st)) (sto st) = (e, b, sto st')"
    using assms(2) by (auto simp: index_async_def split: prod.splits)
  then show ?thesis
    unfolding own_def by (rule adds_Async [OF framedD(1) [OF assms(1)] _ assms(3)])
qed

lemma own_writer:
  assumes "framed env fl cells docs cid" and "own_path env cid P"
    and "with_writer fl P synchronous f st = Some (e, st')"
    and "\<And>rw w rw' w'. f rw w = Some (rw', w') \<Longrightarrow> writes_to P rw \<Longrightarrow>
      adds cells (rs_cells (fl_rs fl) P) (wd_store w) (wd_store w') \<and> writes_to P rw'"
  shows "own env fl cells cid st st'"
  unfolding own_def
  by (rule adds_mono [OF adds_with_writer [OF framedD(1,2) [OF assms(1)] framedD(3) [OF assms(1,2)] assms(3,4)]
        rs_own [OF assms(2)]])

section \<open>The handlers\<close>

lemma own_HandlePing:
  assumes "framed env fl cells docs (ms_Source m)" and "HandlePing fl m st = (e, st')"
  shows "own env fl cells (ms_Source m) st st'"
proof -
  obtain now st1 later st2 where n: "ig_Now fl st = (now, st1)" "ig_Now fl st1 = (later, st2)"
    using prod.exhaust by metis
  obtain e3 where "in_store (SetElasticIndex (fl_es fl) (fl_org fl) PERSISTED (ms_Source m @ ''_ping'')
       (encode_client (ping_record (ms_Source m) now later))) st2 = (e3, st')"
    using assms(2) n by (auto simp: HandlePing_def split: prod.splits option.splits)
  then have "own env fl cells (ms_Source m) st2 st'"
    by (rule own_Set [OF assms(1)]) (simp add: own_persisted ping_record_def)
  then show ?thesis by (rule own_Now [OF own_Now [OF _ n(2)] n(1)])
qed

lemma own_Async_snd:
  assumes "framed env fl cells docs cid" and "(GetIndex (fl_org fl) idx, j) \<in> own_cells env fl cid"
  shows "own env fl cells cid st (snd (index_async fl idx i a j st))"
  by (rule own_Async [OF assms(1) prod.collapse [symmetric] assms(2)])

lemma own_HandleInterrogation:
  assumes "framed env fl cells docs (ms_Source m)"
  shows "own env fl cells (ms_Source m) st (snd (HandleInterrogation fl m st))"
proof -
  obtain now st1 where n: "ig_Now fl st = (now, st1)" using prod.exhaust by metis
  have "own env fl cells (ms_Source m) st1 (snd (index_async fl PERSISTED (ms_Source m @ ''_interrogate'') ''index''
       (encode_client (interrogation_record (ms_Source m) (ms_SessionId m) now)) st1))"
    by (rule own_Async_snd [OF assms(1)]) (simp add: own_persisted interrogation_record_def)
  then show ?thesis using own_Now [OF _ n] n by (simp add: HandleInterrogation_def)
qed

lemma own_set_infos:
  assumes "framed env fl cells docs cid"
  shows "set_infos fl cid ls st = (e, st') \<Longrightarrow> own env fl cells cid st st'"
proof (induction ls arbitrary: st)
  case (Cons l ls)
  show ?case
  proof (cases "bindR (unmarshal_line fl l) decode_update")
    case (Inr row)
    obtain now st1 where n: "ig_Now fl st = (now, st1)" using prod.exhaust by metis
    obtain e2 st2 where w: "in_store (client_Set (fl_es fl) (fl_org fl) (now div 1000000000) (updated_info cid row)) st1 = (e2, st2)"
      by fastforce
    have "in_store (SetElasticIndex (fl_es fl) (fl_org fl) PERSISTED cid
        (encode_client (client_set_record (now div 1000000000) (updated_info cid row)))) st1 = (e2, st2)"
      using w by (simp add: client_Set_def [abs_def] updated_info_def)
    then have "own env fl cells cid st1 st2"
      by (rule own_Set [OF assms]) (simp add: own_persisted client_set_record_def updated_info_def)
    then show ?thesis
      using Cons n w Inr by (auto split: option.splits intro: own_trans [OF own_Now])
  qed (use Cons.prems in auto)
qed auto

lemma own_HandleClientInfoUpdates:
  assumes "framed env fl cells docs (ms_Source m)" and "ig_org env (ms_OrgId m) = Inr ve" and "ve_fl ve = fl"
    and "HandleClientInfoUpdates env m st = (e, st')"
  shows "own env fl cells (ms_Source m) st st'"
  using own_set_infos [OF assms(1)] assms(2-4)
  by (auto simp: HandleClientInfoUpdates_def split: option.splits)

lemma own_timed_write:
  assumes "framed env fl cells docs cid" and "own_manager env cid pm"
  shows "own env fl cells cid st (timed_write fl pm txt st)"
proof -
  obtain t t' w1 where n: "timed_new_record (fl_rs fl) pm (is_world st) = (NewTimedResultSetRecord t t' pm, w1)"
    "wd_store w1 = sto st"
    by (cases pm) (auto simp: timed_new_record_def Now_def Let_def)
  obtain e s where s: "SetElasticIndex (fl_es fl) (fl_org fl) TRANSIENT []
      (encode_timed ((NewTimedResultSetRecord t t' pm)\<lparr>tr_JSONData := txt\<rparr>)) (wd_store w1) = (e, s)"
    by fastforce
  have "adds cells (own_cells env fl cid) (wd_store w1) s"
    by (rule adds_Set [OF framedD(1) [OF assms(1)] s own_transient [OF own_documents(4) [OF assms(2)]]])
  then show ?thesis using n s by (simp add: own_def timed_write_def timed_WriteJSONL_def)
qed

lemma own_HandleMonitoringLogs:
  assumes "framed env fl cells docs (ms_Source m)" and "HandleMonitoringLogs env fl m row st = (e, st')"
  shows "own env fl cells (ms_Source m) st st'"
proof -
  have "own_manager env (ms_Source m) (ig_ArtifactLogPath env (ms_Source m) f a)" for f a
    by (auto simp: own_manager_def)
  then show ?thesis
    using assms(2) own_timed_write [OF assms(1)] by (auto simp: HandleMonitoringLogs_def Let_def split: if_splits)
qed

lemma own_HandleMonitoringResponses:
  assumes "framed env fl cells docs (ms_Source m)" and "ig_org env (ms_OrgId m) = Inr ve" and "ve_fl ve = fl"
    and "HandleMonitoringResponses env fl m r st = (e, st')"
  shows "own env fl cells (ms_Source m) st st'"
proof -
  have "own_manager env (ms_Source m) (ig_ArtifactPath env (ms_Source m) f a)" for f a
    by (auto simp: own_manager_def)
  then show ?thesis
    using assms(4) own_timed_write [OF assms(1)]
      own_HandleClientInfoUpdates [of env fl cells docs "m\<lparr>ms_VQLResponse := v\<rparr>" for v] assms(1-3)
    by (auto simp: HandleMonitoringResponses_def Let_def split: if_splits)
qed

lemma own_write_hunt_flow:
  assumes "framed env fl cells docs cid" and "write_hunt_flow fl h cid f status st = (e, st')"
  shows "own env fl cells cid st st'"
proof -
  obtain now st1 where n: "ig_Now fl st = (now, st1)" using prod.exhaust by metis
  have "in_store (SetElasticIndex (fl_es fl) (fl_org fl) TRANSIENT []
      (encode_hunt_flow (hunt_flow_entry now h cid f status))) st1 = (e, st')"
    using assms(2) n by (simp add: write_hunt_flow_def)
  then have "own env fl cells cid st1 st'"
    by (rule own_Set [OF assms(1)]) (simp add: own_transient own_documents hunt_flow_entry_def)
  then show ?thesis by (rule own_Now [OF _ n])
qed

lemma own_counted_flow:
  assumes "framed env fl cells docs cid" and "write_hunt_flow fl h cid f status (count_hunt g k st) = (e, st')"
  shows "own env fl cells cid st st'"
  using own_write_hunt_flow [OF assms] by (simp add: own_def)

lemma own_maybeHandleHuntResponse:
  assumes "framed env fl cells docs (ms_Source m)" and "maybeHandleHuntResponse env fl m st = (e, st')"
  shows "own env fl cells (ms_Source m) st st'"
  using assms(2) own_counted_flow [OF assms(1)]
  by (auto simp: maybeHandleHuntResponse_def split: option.splits if_splits)

lemma own_HandleFlowStats:
  assumes "framed env fl cells docs (ms_Source m)" and "HandleFlowStats env fl m st = (e, st')"
  shows "own env fl cells (ms_Source m) st st'"
proof (cases "ms_FlowStats m = None \<or> ms_Source m = [] \<or> ms_SessionId m = []")
  case True
  then show ?thesis using assms(2) by (auto simp: HandleFlowStats_def split: option.splits)
next
  case False
  then obtain s where s: "ms_FlowStats m = Some s" "ms_Source m \<noteq> []" "ms_SessionId m \<noteq> []" by auto
  define c where "c = stats_context m s"
  have cid: "fc_ClientId c = ms_Source m" by (simp add: c_def stats_context_def)
  obtain failed ended where o: "calcFlowOutcome c = (failed, ended)" by fastforce
  obtain r w1 where r: "ArtifactCollectorRecordFromProto fl c (GetDocumentIdForCollection (ms_Source m) (ms_SessionId m)
      (if ended then ''completed'' else ''stats'')) (is_world st) = (r, w1)" by fastforce
  have rw: "ar_ClientId r = ms_Source m" "wd_store w1 = sto st"
    using r cid by (auto simp: ArtifactCollectorRecordFromProto_def Now_def)
  obtain e1 st1 where w: "in_store (SetElasticIndex (fl_es fl) (fl_org fl) TRANSIENT []
      (encode_collection (r\<lparr>ar_Type := ''stats''\<rparr>))) (st\<lparr>is_world := w1\<rparr>) = (e1, st1)" by fastforce
  have "own env fl cells (ms_Source m) (st\<lparr>is_world := w1\<rparr>) st1"
    by (rule own_Set [OF assms(1) w]) (simp add: own_transient own_documents rw)
  then have "own env fl cells (ms_Source m) st st1" by (simp add: own_def rw(2))
  moreover have "own env fl cells (ms_Source m) st1 st2"
    if "maybeHandleHuntFlowStats env fl c failed ended st1 = (e2, st2)" for e2 st2
    using that own_counted_flow [OF assms(1)] cid
    by (auto simp: maybeHandleHuntFlowStats_def split: option.splits if_splits)
  ultimately show ?thesis
    using assms(2) s o r w by (auto simp: HandleFlowStats_def Let_def c_def intro: own_trans split: option.splits)
qed

lemma own_HandleLogs:
  assumes "framed env fl cells docs (ms_Source m)" and "HandleLogs env fl m msg st = Some (e, st')"
  shows "own env fl cells (ms_Source m) st st'"
proof (cases "lm_Jsonl msg = []")
  case False
  let ?P = "ig_LogPath env (ms_Source m) (ms_SessionId m)"
  have P: "own_path env (ms_Source m) ?P" by (auto simp: own_path_def)
  show ?thesis
    using assms(2) False adds_WriteJSONL [OF framedD(1) [OF assms(1)], of "fl_fuel fl" "lm_Jsonl msg" "lm_NumberOfRows msg"]
    by (auto simp: HandleLogs_def Let_def split: if_splits intro: own_writer [OF assms(1) P])
qed (use assms(2) in \<open>simp add: HandleLogs_def\<close>)

lemma adds_upload_row:
  assumes "write_frame (fl_es fl) cells"
    and "write_upload_row env fl p b components sfx typ rw w = Some (rw', w')" and "writes_to P rw"
  shows "adds cells (rs_cells (fl_rs fl) P) (wd_store w) (wd_store w') \<and> writes_to P rw'"
proof -
  obtain now later w2 where "rs_Write (fl_rs fl) (fl_fuel fl) (upload_row env p b components sfx typ now later) rw w2 = Some (rw', w')"
    and st: "wd_store w2 = wd_store w"
    using assms(2) by (auto simp: write_upload_row_def Now_def)
  then show ?thesis using adds_Write [OF assms(1) _ assms(3)] st by metis
qed

lemma own_HandleUploads:
  assumes "framed env (ve_fl ve) cells docs (ms_Source m)" and "HandleUploads env ve m st = Some (e, st')"
  shows "own env (ve_fl ve) cells (ms_Source m) st st'"
proof -
  let ?P = "ig_UploadMetadata env (ms_Source m) (ms_SessionId m)"
  let ?rs = "fl_rs (ve_fl ve)"
  have P: "own_path env (ms_Source m) ?P" by (auto simp: own_path_def)
  note row = adds_upload_row [OF framedD(1) [OF assms(1)]]
  have rows: "adds cells (rs_cells ?rs ?P) (wd_store w) (wd_store w') \<and> writes_to ?P rw'"
    if run: "(case write_upload_row env (ve_fl ve) p b components [] [] (rs_SetStartRow n rw) w of
                            None \<Rightarrow> None
                          | Some (rw1, w1) \<Rightarrow>
                              if fm_IsSparse b then write_upload_row env (ve_fl ve) p b components ''.idx'' ''idx'' rw1 w1
                              else Some (rw1, w1)) = Some (rw', w')"
      and to: "writes_to ?P rw" for p b components n rw w rw' w'
  proof -
    obtain rw1 w1 where 1: "write_upload_row env (ve_fl ve) p b components [] [] (rs_SetStartRow n rw) w = Some (rw1, w1)"
      "(if fm_IsSparse b then write_upload_row env (ve_fl ve) p b components ''.idx'' ''idx'' rw1 w1
                              else Some (rw1, w1)) = Some (rw', w')"
      using run by (auto split: option.splits)
    have a: "adds cells (rs_cells ?rs ?P) (wd_store w) (wd_store w1) \<and> writes_to ?P rw1"
      using row [OF 1(1)] to by simp
    show ?thesis using 1(2) a row [of env p b components "''.idx''" "''idx''" rw1 w1 rw' w' ?P]
      by (auto split: if_splits intro: adds_trans)
  qed
  show ?thesis
    using assms(2)
    by (auto simp: HandleUploads_def Let_def split: option.splits if_splits intro: own_writer [OF assms(1) P _ rows])
qed

lemma own_list_directory:
  assumes "framed env (ve_fl ve) cells docs (ms_Source m)"
  shows "own env (ve_fl ve) cells (ms_Source m) st (snd (list_directory env ve m ls st))"
proof (induction ls arbitrary: st)
  case (Cons l ls)
  show ?case
  proof (cases "\<exists>acc comps a b. ig_VFSListRow env l = Inr (acc, comps, Some (a, b))")
    case True
    then obtain acc comps a b where l: "ig_VFSListRow env l = Inr (acc, comps, Some (a, b))" by blast
    obtain now st1 later st2 where n: "ig_Now (ve_fl ve) st = (now, st1)" "ig_Now (ve_fl ve) st1 = (later, st2)"
      using prod.exhaust by metis
    obtain e st3 where w: "index_async (ve_fl ve) TRANSIENT [] ''create'' (encode_vfs (listing_record ve m
        ([ms_Source m, or_auto acc] @ comps) a b now later)) st2 = (e, st3)" by fastforce
    have "own env (ve_fl ve) cells (ms_Source m) st2 st3"
      by (rule own_Async [OF assms w]) (simp add: own_transient own_documents listing_record_def)
    then have "own env (ve_fl ve) cells (ms_Source m) st st3" by (rule own_Now [OF own_Now [OF _ n(2)] n(1)])
    then show ?thesis using l n w Cons.IH [of st3] by (auto split: option.splits intro: own_trans)
  qed (use Cons.IH in \<open>auto split: sum.splits option.splits\<close>)
qed simp

lemma own_vfs_uploads:
  assumes "framed env (ve_fl ve) cells docs (ms_Source m)"
  shows "own env (ve_fl ve) cells (ms_Source m) st (snd (vfs_uploads ve m ls st))"
proof (induction ls arbitrary: st)
  case (Cons l ls)
  show ?case
  proof (cases "bindR (unmarshal_text ve l) (decode_download (empty_download\<lparr>dw_FlowId := ms_SessionId m\<rparr>))")
    case (Inr row)
    obtain now st1 later st2 where n: "ig_Now (ve_fl ve) st = (now, st1)" "ig_Now (ve_fl ve) st1 = (later, st2)"
      using prod.exhaust by metis
    let ?st3 = "snd (index_async (ve_fl ve) TRANSIENT [] ''create'' (encode_vfs (upload_record ve m row now later)) st2)"
    have "own env (ve_fl ve) cells (ms_Source m) st2 ?st3"
      by (rule own_Async_snd [OF assms]) (simp add: own_transient own_documents upload_record_def Let_def)
    then have "own env (ve_fl ve) cells (ms_Source m) st ?st3" by (rule own_Now [OF own_Now [OF _ n(2)] n(1)])
    then show ?thesis using Inr n Cons.IH by (auto intro: own_trans)
  qed simp
qed simp

lemma own_special_response:
  assumes "framed env (ve_fl ve) cells docs (ms_Source m)"
  shows "own env (ve_fl ve) cells (ms_Source m) st (special_response env ve m r st)"
  using own_list_directory [OF assms] own_HandleInterrogation [OF assms] own_vfs_uploads [OF assms]
  by (auto simp: special_response_def HandleSystemVfsListDirectory_def HandleSystemVfsUpload_def)

lemma own_HandleResponses:
  assumes "framed env (ve_fl ve) cells docs (ms_Source m)" and "HandleResponses env ve m r st = Some (e, st')"
  shows "own env (ve_fl ve) cells (ms_Source m) st st'"
proof (cases "response_name r = []")
  case False
  define r1 st1 where "r1 = ig_Deobfuscate env r" and "st1 = special_response env ve m r1 st"
  obtain P st2 where p: "getFSPathSpec env (ve_fl ve) m (response_name r1) st1 = (P, st2)" by fastforce
  have P: "own_path env (ms_Source m) P" and st2: "sto st2 = sto st1"
    using p by (auto simp: getFSPathSpec_def own_path_def getDayName_def split: prod.splits if_splits)
  have run: "with_writer (ve_fl ve) P (ms_Urgent m)
              (\<lambda>rw. rs_WriteJSONL (fl_rs (ve_fl ve)) (fl_fuel (ve_fl ve)) (vr_JSONLResponse r1) (vr_TotalRows r1)
                 (rs_SetStartRow (i64 (vr_QueryStartRow r1)) rw)) st2 = Some (e, st')"
    using assms(2) False p by (simp add: HandleResponses_def Let_def r1_def st1_def)
  have "own env (ve_fl ve) cells (ms_Source m) st2 st'"
    by (rule own_writer [OF assms(1) P run])
      (use adds_WriteJSONL [OF framedD(1) [OF assms(1)]] in fastforce)
  moreover have "own env (ve_fl ve) cells (ms_Source m) st st2"
    using own_special_response [OF assms(1), of st r1] st2 by (simp add: own_def st1_def)
  ultimately show ?thesis by (rule own_trans [rotated])
qed (use assms(2) in \<open>simp add: HandleResponses_def\<close>)

lemma own_Process:
  assumes "framed env (ve_fl ve) cells docs (ms_Source m)" and "ig_org env (ms_OrgId m) = Inr ve"
    and "\<not> ms_Unauthenticated m" and "Process env m st = Some (e, st')"
  shows "own env (ve_fl ve) cells (ms_Source m) st st'"
proof (cases "ig_OrgManager env \<noteq> None \<or> ms_SessionId m = ig_MONITORING_WELL_KNOWN_FLOW env")
  case True
  then show ?thesis
    using assms(2-4) own_HandleMonitoringLogs [OF assms(1)] own_HandleMonitoringResponses [OF assms(1,2) HOL.refl]
    by (auto simp: Process_def Let_def split: option.splits if_splits)
next
  case False
  obtain e1 st1 where h: "maybeHandleHuntResponse env (ve_fl ve) m st = (e1, st1)" by fastforce
  have "own env (ve_fl ve) cells (ms_Source m) st st1" by (rule own_maybeHandleHuntResponse [OF assms(1) h])
  moreover have "own env (ve_fl ve) cells (ms_Source m) st1 st'"
    using assms(2-4) False h own_HandleLogs [OF assms(1)] own_HandleResponses [OF assms(1)]
      own_HandleFlowStats [OF assms(1)] own_HandlePing [OF assms(1)] own_HandleUploads [OF assms(1)]
    by (auto simp: Process_def Let_def split: option.splits if_splits)
  ultimately show ?thesis by (rule own_trans)
qed

text \<open>
  C6. A client writes only its own documents: whatever an authenticated message holds, all that
  \<open>Process\<close> adds to the store or to its bulk queue is, in the two indexes of the message's
  organisation, well-formed client records with the client id of the message's source,
  collection, hunt and VFS records with that client id, and result sets under its paths.
\<close>

theorem ingested_documents_own:
  assumes "framed env (ve_fl ve) cells docs (ms_Source m)" and "ig_org env (ms_OrgId m) = Inr ve"
    and "\<not> ms_Unauthenticated m" and "Process env m st = Some (e, st')"
  shows "cells (sto st') \<subseteq> cells (sto st) \<union> own_cells env (ve_fl ve) (ms_Source m)"
  using own_Process [OF assms] by (simp add: own_def adds_def)

lemma sample_framed:
  "framed sample_ingest_env (ve_fl sample_vfs_env) (\<lambda>st. {(idx, j). \<exists>i. (i, j) \<in> set (mem_docs st idx)})
     (\<lambda>st c idx. mem_docs st idx) cid"
proof -
  have "fl_es (ve_fl sample_vfs_env) = mem_es" by (simp add: sample_ingest_rs sample_rs_env_def)
  moreover have "P \<noteq> []" if "own_path sample_ingest_env cid P" for P
    using that by (auto simp: own_path_def sample_ingest_env_def)
  ultimately show ?thesis by (simp add: framed_def mem_write_frame mem_search_contract)
qed

theorem ingested_documents_own_witness:
  "\<exists>e st'. Process sample_ingest_env (blank_message\<lparr>ms_ForemanCheckin := True\<rparr>) sample_ingest_state = Some (e, st') \<and>
     {(idx, j). \<exists>i. (i, j) \<in> set (mem_docs (sto st') idx)} \<subseteq>
       {(idx, j). \<exists>i. (i, j) \<in> set (mem_docs (sto sample_ingest_state) idx)} \<union>
       own_cells sample_ingest_env (ve_fl sample_vfs_env) (ms_Source (blank_message\<lparr>ms_ForemanCheckin := True\<rparr>))"
proof -
  let ?m = "blank_message\<lparr>ms_ForemanCheckin := True\<rparr>"
  have "Process sample_ingest_env ?m sample_ingest_state \<noteq> None"
    by (simp add: Process_def sample_ingest_env_def blank_message_def maybeHandleHuntResponse_def no_hunt_def Let_def)
  then obtain e st' where run: "Process sample_ingest_env ?m sample_ingest_state = Some (e, st')" by force
  have env: "ig_org sample_ingest_env (ms_OrgId ?m) = Inr sample_vfs_env" "\<not> ms_Unauthenticated ?m"
    by (simp_all add: sample_ingest_env_def blank_message_def)
  show ?thesis using run ingested_documents_own [OF sample_framed env run] by blast
qed

end
