(* ===== verification/Handlers.thy ===== *)
theory Handlers
  imports Ownership
begin

text \<open>
  Properties of single handlers of the ingestor: flow statistics, client information and the
  VFS.
\<close>

section \<open>The outcome of a flow\<close>

definition in_progress :: "query_stat list \<Rightarrow> bool" where
  "in_progress qs \<longleftrightarrow> list_ex (\<lambda>q. qs_Status q = STATUS_PROGRESS) qs"

definition some_failed :: "query_stat list \<Rightarrow> bool" where
  "some_failed qs \<longleftrightarrow> list_ex (\<lambda>q. qs_Status q = STATUS_other 1) qs"

lemma calcFlowOutcome_from_spec:
  "calcFlowOutcome_from failed qs =
     (if in_progress qs then (False, False) else (failed \<or> some_failed qs, True))"
  by (induction qs arbitrary: failed) (auto simp: in_progress_def some_failed_def split: query_status.splits)

definition stats_record :: "'s flow_env \<Rightarrow> client_message \<Rightarrow> flow_stats \<Rightarrow> int \<Rightarrow> collector_record" where
  "stats_record fl m s t =
     \<lparr>ar_ClientId = ms_Source m, ar_SessionId = ms_SessionId m, ar_Raw = fl_render fl (stats_context m s),
      ar_Tasks = [], ar_Type = ''stats'', ar_Timestamp = t, ar_Doc_Type = ''collection'',
      ar_ID = ms_SessionId m @ ''_'' @ ms_Source m @
        (if in_progress (sm_QueryStatus s) then ''_stats'' else ''_completed'')\<rparr>"

lemma stats_context_fields [simp]:
  "fc_ClientId (stats_context m s) = ms_Source m" "fc_SessionId (stats_context m s) = ms_SessionId m"
  "fc_QueryStats (stats_context m s) = sm_QueryStatus s"
  by (simp_all add: stats_context_def)

lemma stats_record_from:
  "ArtifactCollectorRecordFromProto fl (stats_context m s) (GetDocumentIdForCollection (ms_Source m) (ms_SessionId m)
     (if \<not> in_progress (sm_QueryStatus s) then ''completed'' else ''stats'')) w =
     ((stats_record fl m s (rs_now (fl_rs fl) (wd_ticks w)))\<lparr>ar_Type := []\<rparr>, w\<lparr>wd_ticks := Suc (wd_ticks w)\<rparr>)"
  by (simp add: ArtifactCollectorRecordFromProto_def Now_def stats_record_def GetDocumentIdForCollection_def)

text \<open>What a completed flow adds for its hunt.\<close>

definition hunt_done :: "'s ingest_env \<Rightarrow> client_message \<Rightarrow> flow_stats \<Rightarrow> string option" where
  "hunt_done env m s = (if in_progress (sm_QueryStatus s) then None else ig_ExtractHuntId env (ms_SessionId m))"

lemma hunt_flow_stored:
  assumes "store_contract (fl_es fl) docs" and "GetElasticClient (fl_es fl) (fl_org fl) = Inr c"
  shows "\<exists>st' j. write_hunt_flow fl h cid f status st = (None, st') \<and> is_stats st' = is_stats st \<and>
    docs (sto st') c (GetIndex (fl_org fl) TRANSIENT) = docs (sto st) c (GetIndex (fl_org fl) TRANSIENT) @
      [(j, encode_hunt_flow (hunt_flow_entry (rs_now (fl_rs fl) (wd_ticks (is_world st))) h cid f status))]"
proof -
  let ?e = "encode_hunt_flow (hunt_flow_entry (rs_now (fl_rs fl) (wd_ticks (is_world st))) h cid f status)"
  obtain j s where s: "SetElasticIndex (fl_es fl) (fl_org fl) TRANSIENT [] ?e (sto st) = (None, s)"
    "docs s c (GetIndex (fl_org fl) TRANSIENT) = docs (sto st) c (GetIndex (fl_org fl) TRANSIENT) @ [(j, ?e)]"
    using SetElasticIndex_fresh [OF assms] by blast
  define st1 where "st1 = st\<lparr>is_world := (is_world st)\<lparr>wd_ticks := Suc (wd_ticks (is_world st))\<rparr>\<rparr>"
  define st' where "st' = st1\<lparr>is_world := (is_world st1)\<lparr>wd_store := s\<rparr>\<rparr>"
  have "ig_Now fl st = (rs_now (fl_rs fl) (wd_ticks (is_world st)), st1)"
    by (simp add: ig_Now_def Now_def st1_def)
  moreover have "sto st1 = sto st" "is_stats st1 = is_stats st" by (simp_all add: st1_def)
  ultimately have "write_hunt_flow fl h cid f status st = (None, st')"
    using s(1) by (simp add: write_hunt_flow_def in_store_def st'_def)
  moreover have "sto st' = s" "is_stats st' = is_stats st" by (simp_all add: st'_def st1_def)
  ultimately show ?thesis using s(2) by blast
qed


definition hunting_env :: "mem_es_state ingest_env" where
  "hunting_env = sample_ingest_env\<lparr>ig_ExtractHuntId := \<lambda>f. Some ''H.1''\<rparr>"

definition failed_stats :: flow_stats where
  "failed_stats = \<lparr>sm_TotalUploadedFiles = 0, sm_TotalExpectedUploadedBytes = 0, sm_TotalUploadedBytes = 0,
     sm_TotalCollectedRows = 3, sm_TotalLogs = 0, sm_Timestamp = 7,
     sm_QueryStatus = [\<lparr>qs_Status = STATUS_other 0, qs_Other = JNull\<rparr>, \<lparr>qs_Status = STATUS_other 1, qs_Other = JNull\<rparr>]\<rparr>"

lemma sample_fl_es: "fl_es (ve_fl sample_vfs_env) = mem_es" "fl_org (ve_fl sample_vfs_env) = ''root''"
  by (simp_all add: sample_ingest_rs sample_rs_env_def)


section \<open>Client information\<close>

text \<open>
  An update of the client information that is one line without a line feed at its end is
  lost without an error: the scanner's buffer is exactly as long as the text, so it is full
  before the end of the text is seen, and the error of the scanner is not looked at.
\<close>

theorem unterminated_update_lost:
  assumes "ms_VQLResponse m = Some r" and "CHR ''\<newline>'' \<notin> set (vr_JSONLResponse r)"
    and "ig_OrgManager env = None" and "ig_org env (ms_OrgId m) = Inr ve" and "ig_ClientInfoManager env = None"
  shows "HandleClientInfoUpdates env m st = (None, st)"
  using assms by (simp add: HandleClientInfoUpdates_def scan_lines_def)

theorem unterminated_update_lost_witness:
  "HandleClientInfoUpdates sample_ingest_env (query_message ''{}'' 1 0) sample_ingest_state = (None, sample_ingest_state)"
  by (rule unterminated_update_lost [of _ "query_response ''{}'' 1 0" _ sample_vfs_env])
    (simp_all add: query_message_def blank_message_def query_response_def sample_ingest_env_def)

section \<open>Downloads in the VFS\<close>

text \<open>
  A file that was downloaded with no accessor in its row has two different places: the row
  that is stored names the object of the accessor \<open>auto\<close>, the listing of the directory that is
  made from the same row names the object of an empty accessor.
\<close>

theorem default_accessor_two_places:
  "dw_FSComponents (uploaded_row ve m (row\<lparr>dw_Accessor := []\<rparr>) now) \<noteq>
   di_Components (download_entry ve cid (uploaded_row ve m (row\<lparr>dw_Accessor := []\<rparr>) now))"
  by (simp add: uploaded_row_def download_entry_def S3ComponentsForClientUpload_def Let_def or_auto_def)

text \<open>A download that is started, and then completed by a message of the client.\<close>

definition completed_row :: DownloadRow where
  "completed_row = empty_download\<lparr>dw_Accessor := ''auto'', dw_Components := [''etc'', ''pw''],
     dw_FSComponents := [''clients'', ''C.1'', ''collections'', ''F.1'', ''uploads'', ''auto'', ''etc'' @ [CHR 0x00] @ ''pw''],
     dw_Sha256 := ''00'', dw_Mtime := 90, dw_FlowId := ''F.1''\<rparr>"

definition download_text :: "string \<Rightarrow> json option" where
  "download_text l = (if l = ''row'' then Some (encode_download (completed_row\<lparr>dw_FSComponents := [], dw_Mtime := 0\<rparr>))
     else if l = ''end'' then Some (encode_download completed_row) else sample_text l)"

definition download_env :: "mem_es_state vfs_env" where
  "download_env = sample_vfs_env\<lparr>
     ve_fl := (ve_fl sample_vfs_env)\<lparr>fl_te := (fl_te sample_flow_env)\<lparr>unmarshal := download_text\<rparr>\<rparr>,
     ve_marshal := \<lambda>j. if j = encode_download flight_row then ''start''
       else if j = encode_download completed_row then ''end'' else []\<rparr>"

definition started_world :: "mem_es_state world" where
  "started_world = snd (WriteDownloadInfo download_env ''C.1'' ''auto'' [''etc'', ''pw''] in_flight
     (listed_world\<lparr>wd_bulk := Some \<lparr>bulk_instance_type = PrimaryOpenSearch, bulk_indexes = []\<rparr>\<rparr>))"

definition ended_state :: "mem_es_state ingest_state" where
  "ended_state = snd (HandleSystemVfsUpload download_env blank_message (query_response ''row\<newline>'' 1 0)
     \<lparr>is_world = started_world, is_stats = StartHuntStatsUpdater ()\<rparr>)"

text \<open>
  The version of the downloads of a directory goes back when a download completes: the
  service stamps the start of a download in nanoseconds, the ingestor stamps its end in seconds
  and replaces the record of the start.
\<close>

theorem download_version_goes_back:
  "map_sum id ls_DownloadVersion (StatDirectory download_env ''C.1'' [''auto'', ''etc''] started_world) = Inr 90000000000 \<and>
   map_sum id ls_DownloadVersion (StatDirectory download_env ''C.1'' [''auto'', ''etc''] (is_world ended_state)) = Inr 90"
  by (rule conjI; code_simp)

end
