(* ===== verification/Scheduler.thy ===== *)
theory Scheduler
  imports Elastic
begin

text \<open>
  The scheduler of notebook jobs (\<open>services/scheduler/scheduler.go\<close>): jobs are documents of the
  root organisation that workers lease, run and replace by their results. Each request to the
  store is a step of its own, so the steps of the workers interleave.
\<close>

section \<open>Jobs and results as documents\<close>

record SchedulerRecordType =
  sr_Timestamp :: int
  sr_ID :: string
  sr_Queue :: string
  sr_Job :: string
  sr_OrgId :: string
  sr_State :: string
  sr_Type :: string

definition encode_job :: "SchedulerRecordType \<Rightarrow> json" where
  "encode_job r = JObj
     [(''timestamp'', JInt (sr_Timestamp r)), (''key'', JStr (sr_ID r)), (''name'', JStr (sr_Queue r)),
      (''data'', JStr (sr_Job r)), (''org_id'', JStr (sr_OrgId r)), (''state'', JStr (sr_State r)),
      (''type'', JStr (sr_Type r))]"

definition decode_job :: "json \<Rightarrow> SchedulerRecordType result" where
  "decode_job j =
     bindR (get_int ''timestamp'' j) (\<lambda>t. bindR (get_str ''key'' j) (\<lambda>k.
     bindR (get_str ''name'' j) (\<lambda>n. bindR (get_str ''data'' j) (\<lambda>d.
     bindR (get_str ''org_id'' j) (\<lambda>g. bindR (get_str ''state'' j) (\<lambda>s.
     bindR (get_str ''type'' j) (\<lambda>y.
       Inr \<lparr>sr_Timestamp = t, sr_ID = k, sr_Queue = n, sr_Job = d, sr_OrgId = g, sr_State = s,
            sr_Type = y\<rparr>)))))))"

record SchedulerResponseRecord =
  sp_Timestamp :: int
  sp_ID :: string
  sp_Type :: string
  sp_Data :: string
  sp_Error :: string

definition encode_result :: "SchedulerResponseRecord \<Rightarrow> json" where
  "encode_result r = JObj
     [(''timestamp'', JInt (sp_Timestamp r)), (''key'', JStr (sp_ID r)), (''type'', JStr (sp_Type r)),
      (''data'', JStr (sp_Data r)), (''state'', JStr (sp_Error r))]"

definition decode_result :: "json \<Rightarrow> SchedulerResponseRecord result" where
  "decode_result j =
     bindR (get_int ''timestamp'' j) (\<lambda>t. bindR (get_str ''key'' j) (\<lambda>k.
     bindR (get_str ''type'' j) (\<lambda>y. bindR (get_str ''data'' j) (\<lambda>d.
     bindR (get_str ''state'' j) (\<lambda>e.
       Inr \<lparr>sp_Timestamp = t, sp_ID = k, sp_Type = y, sp_Data = d, sp_Error = e\<rparr>)))))"

lemmas job_codecs = encode_job_def decode_job_def encode_result_def decode_result_def
  get_str_def get_int_def

lemma decode_job_encode [simp]: "decode_job (encode_job r) = Inr r"
  by (simp add: job_codecs)

lemma decode_result_encode [simp]: "decode_result (encode_result r) = Inr r"
  by (simp add: job_codecs)

section \<open>Environment and state\<close>

text \<open>A job a worker holds: what it is given, and what its completion function has captured.\<close>

record leased_job =
  lj_Queue :: string
  lj_Job :: string
  lj_OrgId :: string
  lj_doc_id :: string
  lj_request :: SchedulerRecordType

record scheduler_job =
  jb_Queue :: string
  jb_Job :: string
  jb_OrgId :: string

text \<open>The store, the clock in seconds and the generator of identifiers, by the calls made so far.\<close>

record 's sched_env =
  sc_es :: "'s elastic"
  sc_ROOT_ORG_ID :: string
  sc_now :: "nat \<Rightarrow> int"
  sc_guid :: "nat \<Rightarrow> string"

record 's sched_world =
  sw_store :: 's
  sw_ticks :: nat
  sw_guids :: nat

section \<open>Leasing a job (getOneJob)\<close>

definition get_next_available_job :: search_req where
  "get_next_available_job = (query_of (Must [Match ''type'' (JStr ''scheduler''), Match ''state'' (JStr ''available'')]))
     \<lparr>sq_size := Some 1, sq_source := False\<rparr>"

text \<open>
  The script takes the new state from \<open>params.id\<close>; the request passes the worker as \<open>key\<close>, and a
  missing parameter is null.
\<close>

definition lease_script :: "(string \<times> json) list \<Rightarrow> json \<Rightarrow> json option" where
  "lease_script params src =
     (case src of
        JObj kvs \<Rightarrow>
          Some (if map_of kvs ''state'' = Some (JStr ''available'')
                then JObj (kv_set ''state'' (case map_of params ''id'' of None \<Rightarrow> JNull | Some v \<Rightarrow> v) kvs)
                else src)
      | _ \<Rightarrow> None)"

definition lease_update :: "string \<Rightarrow> update_req" where
  "lease_update worker_id = \<lparr>up_script = lease_script [(''key'', JStr worker_id)], up_upsert = None\<rparr>"

definition find_jobs :: "'s sched_env \<Rightarrow> 's \<Rightarrow> string list result" where
  "find_jobs env s =
     bindR (QueryElasticIds (sc_es env) (sc_ROOT_ORG_ID env) PERSISTED get_next_available_job s) (\<lambda>(ids, n). Inr ids)"

definition lease_job :: "'s sched_env \<Rightarrow> string \<Rightarrow> string \<Rightarrow> 's \<Rightarrow> go_error option \<times> 's" where
  "lease_job env worker_id doc_id s =
     UpdateIndex (sc_es env) (sc_ROOT_ORG_ID env) PERSISTED doc_id (lease_update worker_id) s"

definition read_job :: "'s sched_env \<Rightarrow> string \<Rightarrow> 's \<Rightarrow> leased_job result" where
  "read_job env doc_id s =
     bindR (GetElasticRecord (sc_es env) (sc_ROOT_ORG_ID env) PERSISTED doc_id s) (\<lambda>hit.
     bindR (decode_job hit) (\<lambda>r.
       Inr \<lparr>lj_Queue = sr_Queue r, lj_Job = sr_Job r, lj_OrgId = sr_OrgId r, lj_doc_id = doc_id,
            lj_request = r\<rparr>))"

fun take_job :: "'s sched_env \<Rightarrow> string \<Rightarrow> string list \<Rightarrow> 's \<Rightarrow> leased_job result \<times> 's" where
  "take_job env worker_id [] s = (Inl NotFoundError, s)"
| "take_job env worker_id (doc_id # ids) s =
     (case lease_job env worker_id doc_id s of
        (Some e, s1) \<Rightarrow> take_job env worker_id ids s1
      | (None, s1) \<Rightarrow>
          (case read_job env doc_id s1 of
             Inl e \<Rightarrow> take_job env worker_id ids s1
           | Inr j \<Rightarrow> (Inr j, s1)))"

definition getOneJob :: "'s sched_env \<Rightarrow> string \<Rightarrow> 's \<Rightarrow> leased_job result \<times> 's" where
  "getOneJob env worker_id s =
     (case find_jobs env s of
        Inl e \<Rightarrow> (Inl NotFoundError, s)
      | Inr ids \<Rightarrow> take_job env worker_id ids s)"

section \<open>Completion and scheduling\<close>

definition result_record :: "int \<Rightarrow> string \<Rightarrow> go_error option \<Rightarrow> SchedulerRecordType \<Rightarrow> SchedulerResponseRecord" where
  "result_record now res err request = \<lparr>sp_Timestamp = now, sp_ID = sr_ID request,
     sp_Type = ''scheduler_result'', sp_Data = res,
     sp_Error = (case err of None \<Rightarrow> [] | Some e \<Rightarrow> err_text e)\<rparr>"

definition jobDone ::
  "'s sched_env \<Rightarrow> string \<Rightarrow> go_error option \<Rightarrow> leased_job \<Rightarrow> 's sched_world \<Rightarrow> 's sched_world" where
  "jobDone env res err j w =
     w\<lparr>sw_store := snd (SetElasticIndex (sc_es env) (sc_ROOT_ORG_ID env) PERSISTED (lj_doc_id j)
          (encode_result (result_record (sc_now env (sw_ticks w)) res err (lj_request j))) (sw_store w)),
       sw_ticks := Suc (sw_ticks w)\<rparr>"

definition job_record :: "int \<Rightarrow> string \<Rightarrow> scheduler_job \<Rightarrow> SchedulerRecordType" where
  "job_record now job_id job = \<lparr>sr_Timestamp = now, sr_ID = job_id, sr_Queue = jb_Queue job,
     sr_Job = jb_Job job, sr_OrgId = jb_OrgId job, sr_State = ''available'', sr_Type = ''scheduler''\<rparr>"

text \<open>\<open>Schedule\<close> gives the identifier the caller waits for.\<close>

definition Schedule ::
  "'s sched_env \<Rightarrow> scheduler_job \<Rightarrow> 's sched_world \<Rightarrow> string result \<times> 's sched_world" where
  "Schedule env job w =
     (if jb_Queue job \<noteq> ''Notebook'' then (Inl (Err ''InlineScheduler: Queue not supported''), w)
      else (let job_id = sc_guid env (sw_guids w);
                w1 = w\<lparr>sw_guids := Suc (sw_guids w), sw_ticks := Suc (sw_ticks w)\<rparr>
            in case SetElasticIndex (sc_es env) (sc_ROOT_ORG_ID env) PERSISTED []
                      (encode_job (job_record (sc_now env (sw_ticks w)) job_id job)) (sw_store w) of
                 (Some e, s) \<Rightarrow> (Inl e, w1\<lparr>sw_store := s\<rparr>)
               | (None, s) \<Rightarrow> (Inr job_id, w1\<lparr>sw_store := s\<rparr>)))"

definition result_query :: "string \<Rightarrow> search_req" where
  "result_query job_id = (query_of (Must [Match ''type'' (JStr ''scheduler_result''), Match ''key'' (JStr job_id)]))
     \<lparr>sq_size := Some 1\<rparr>"

definition poll_result :: "'s sched_env \<Rightarrow> string \<Rightarrow> 's \<Rightarrow> (string \<times> go_error option) option" where
  "poll_result env job_id s =
     (case GetElasticRecordByQuery (sc_es env) (sc_ROOT_ORG_ID env) PERSISTED (result_query job_id) s of
        Inr (Some hit) \<Rightarrow>
          (case decode_result hit of
             Inl e \<Rightarrow> None
           | Inr r \<Rightarrow> Some (sp_Data r, if sp_Error r \<noteq> [] then Some (Err (sp_Error r)) else None))
      | _ \<Rightarrow> None)"

text \<open>
  The wait for the result, over the store as each poll finds it; \<open>None\<close> is the channel closed
  with no answer.
\<close>

fun wait_from :: "nat \<Rightarrow> nat \<Rightarrow> 's sched_env \<Rightarrow> string \<Rightarrow> (nat \<Rightarrow> 's) \<Rightarrow> (string \<times> go_error option) option" where
  "wait_from 0 i env job_id stores = None"
| "wait_from (Suc n) i env job_id stores =
     (case poll_result env job_id (stores i) of
        None \<Rightarrow> wait_from n (Suc i) env job_id stores
      | Some r \<Rightarrow> Some r)"

definition wait_result :: "'s sched_env \<Rightarrow> string \<Rightarrow> (nat \<Rightarrow> 's) \<Rightarrow> (string \<times> go_error option) option" where
  "wait_result env job_id stores = wait_from 1000 0 env job_id stores"

section \<open>Workers as interleaved steps (RegisterWorker)\<close>

text \<open>
  A worker polls, tries to lease the ids it found, reads the document it leased and offers the
  job to its channel. A job that was taken runs while its worker polls again; a worker whose
  context ends while it offers a job drops it.
\<close>

datatype worker =
    Polling
  | Leasing "string list"
  | Reading string "string list"
  | Offering leased_job
  | Stopped "leased_job option"

record 's sched_config =
  cf_workers :: "string \<Rightarrow> worker"
  cf_running :: "leased_job list"
  cf_world :: "'s sched_world"

abbreviation cf_store :: "'s sched_config \<Rightarrow> 's" where
  "cf_store cf \<equiv> sw_store (cf_world cf)"

definition with_worker :: "string \<Rightarrow> worker \<Rightarrow> 's sched_config \<Rightarrow> 's sched_config" where
  "with_worker a x cf = cf\<lparr>cf_workers := (cf_workers cf)(a := x)\<rparr>"

definition with_store :: "'s \<Rightarrow> 's sched_config \<Rightarrow> 's sched_config" where
  "with_store s cf = cf\<lparr>cf_world := (cf_world cf)\<lparr>sw_store := s\<rparr>\<rparr>"

lemma with_simps [simp]:
  "cf_workers (with_worker a x cf) = (cf_workers cf)(a := x)"
  "cf_workers (with_store s cf) = cf_workers cf"
  "cf_running (with_worker a x cf) = cf_running cf"
  "cf_running (with_store s cf) = cf_running cf"
  "cf_world (with_worker a x cf) = cf_world cf"
  "sw_store (cf_world (with_store s cf)) = s"
  "with_worker a x (with_worker a y cf) = with_worker a x cf"
  "with_store s (with_worker a x cf) = with_worker a x (with_store s cf)"
  "with_store s (with_store t cf) = with_store s cf"
  by (simp_all add: with_worker_def with_store_def)

inductive sched_step :: "'s sched_env \<Rightarrow> 's sched_config \<Rightarrow> 's sched_config \<Rightarrow> bool" for env where
  poll: "cf_workers cf a = Polling \<Longrightarrow> find_jobs env (cf_store cf) = Inr ids \<Longrightarrow>
    sched_step env cf (with_worker a (Leasing ids) cf)"
| leased: "cf_workers cf a = Leasing (i # ids) \<Longrightarrow> lease_job env a i (cf_store cf) = (None, s) \<Longrightarrow>
    sched_step env cf (with_worker a (Reading i ids) (with_store s cf))"
| refused: "cf_workers cf a = Leasing (i # ids) \<Longrightarrow> lease_job env a i (cf_store cf) = (Some e, s) \<Longrightarrow>
    sched_step env cf (with_worker a (Leasing ids) (with_store s cf))"
| exhausted: "cf_workers cf a = Leasing [] \<Longrightarrow> sched_step env cf (with_worker a Polling cf)"
| read: "cf_workers cf a = Reading i ids \<Longrightarrow> read_job env i (cf_store cf) = Inr j \<Longrightarrow>
    sched_step env cf (with_worker a (Offering j) cf)"
| unread: "cf_workers cf a = Reading i ids \<Longrightarrow> read_job env i (cf_store cf) = Inl e \<Longrightarrow>
    sched_step env cf (with_worker a (Leasing ids) cf)"
| taken: "cf_workers cf a = Offering j \<Longrightarrow>
    sched_step env cf (with_worker a Polling (cf\<lparr>cf_running := j # cf_running cf\<rparr>))"
| dropped: "cf_workers cf a = Offering j \<Longrightarrow> sched_step env cf (with_worker a (Stopped (Some j)) cf)"
| stopped: "cf_workers cf a = Polling \<Longrightarrow> sched_step env cf (with_worker a (Stopped None) cf)"
| finished: "j \<in> set (cf_running cf) \<Longrightarrow>
    sched_step env cf (cf\<lparr>cf_running := remove1 j (cf_running cf), cf_world := jobDone env res err j (cf_world cf)\<rparr>)"
| scheduled: "Schedule env job (cf_world cf) = (r, w) \<Longrightarrow> sched_step env cf (cf\<lparr>cf_world := w\<rparr>)"

text \<open>\<open>getOneJob\<close> is a run of these steps.\<close>

lemma take_job_steps:
  "cf_workers cf a = Leasing ids \<Longrightarrow> take_job env a ids (cf_store cf) = (Inr j, s) \<Longrightarrow>
   (sched_step env)\<^sup>*\<^sup>* cf (with_worker a (Offering j) (with_store s cf))"
proof (induction ids arbitrary: cf)
  case (Cons i ids)
  obtain e s1 where l: "lease_job env a i (cf_store cf) = (e, s1)" by fastforce
  let ?R = "with_worker a (Reading i ids) (with_store s1 cf)"
  let ?L = "with_worker a (Leasing ids) (with_store s1 cf)"
  show ?case
  proof (cases e)
    case None
    note first = sched_step.leased [OF Cons.prems(1) l [unfolded None]]
    show ?thesis
    proof (cases "read_job env i s1")
      case (Inl e1)
      have "sched_step env ?R (with_worker a (Leasing ids) ?R)"
        by (rule sched_step.unread [where i = i and ids = ids and e = e1]) (simp_all add: Inl)
      then have "(sched_step env)\<^sup>*\<^sup>* cf ?L"
        using first by (simp add: rtranclp.rtrancl_into_rtrancl)
      moreover have "(sched_step env)\<^sup>*\<^sup>* ?L (with_worker a (Offering j) (with_store s ?L))"
        using Cons.prems(2) l None Inl by (intro Cons.IH) simp_all
      ultimately have "(sched_step env)\<^sup>*\<^sup>* cf (with_worker a (Offering j) (with_store s ?L))"
        by (rule rtranclp_trans)
      then show ?thesis by simp
    next
      case (Inr j1)
      then have j: "j1 = j" "s1 = s" using Cons.prems(2) l None by simp_all
      have "sched_step env ?R (with_worker a (Offering j1) ?R)"
        by (rule sched_step.read [where i = i and ids = ids]) (simp_all add: Inr)
      then show ?thesis using first j by (simp add: rtranclp.rtrancl_into_rtrancl)
    qed
  next
    case (Some e1)
    have "sched_step env cf ?L"
      using sched_step.refused [OF Cons.prems(1) l [unfolded Some]] .
    moreover have "(sched_step env)\<^sup>*\<^sup>* ?L (with_worker a (Offering j) (with_store s ?L))"
      using Cons.prems(2) l Some by (intro Cons.IH) simp_all
    ultimately show ?thesis by (simp add: converse_rtranclp_into_rtranclp)
  qed
qed simp

lemma getOneJob_steps:
  assumes "cf_workers cf a = Polling" and "getOneJob env a (cf_store cf) = (Inr j, s)"
  shows "(sched_step env)\<^sup>*\<^sup>* cf (with_worker a (Offering j) (with_store s cf))"
proof -
  obtain ids where i: "find_jobs env (cf_store cf) = Inr ids" "take_job env a ids (cf_store cf) = (Inr j, s)"
    using assms(2) by (auto simp: getOneJob_def split: sum.splits)
  have "(sched_step env)\<^sup>*\<^sup>* (with_worker a (Leasing ids) cf)
      (with_worker a (Offering j) (with_store s (with_worker a (Leasing ids) cf)))"
    using i(2) by (intro take_job_steps) simp_all
  then show ?thesis
    using sched_step.poll [OF assms(1) i(1)] by (simp add: converse_rtranclp_into_rtranclp)
qed

section \<open>No job is lost\<close>

definition is_job :: "json \<Rightarrow> bool" where
  "is_job src \<longleftrightarrow> jget ''type'' src = Some (JStr ''scheduler'')"

definition available_job :: "json \<Rightarrow> bool" where
  "available_job src \<longleftrightarrow> is_job src \<and> jget ''state'' src = Some (JStr ''available'')"

fun holds :: "worker \<Rightarrow> string set" where
  "holds (Reading i ids) = {i}"
| "holds (Offering j) = {lj_doc_id j}"
| "holds (Stopped (Some j)) = {lj_doc_id j}"
| "holds _ = {}"

fun knows :: "worker \<Rightarrow> string set" where
  "knows (Leasing ids) = set ids"
| "knows (Reading i ids) = insert i (set ids)"
| "knows (Offering j) = {lj_doc_id j}"
| "knows (Stopped (Some j)) = {lj_doc_id j}"
| "knows _ = {}"

definition held :: "'s sched_config \<Rightarrow> string set" where
  "held cf = (\<Union>a. holds (cf_workers cf a)) \<union> lj_doc_id ` set (cf_running cf)"

definition known :: "'s sched_config \<Rightarrow> string set" where
  "known cf = (\<Union>a. knows (cf_workers cf a)) \<union> lj_doc_id ` set (cf_running cf)"

text \<open>
  What the scheduler relies on: the documented store, and that the ids it makes are not empty.
\<close>

definition sched_contract :: "'s sched_env \<Rightarrow> ('s \<Rightarrow> cluster \<Rightarrow> string \<Rightarrow> index_docs) \<Rightarrow> cluster \<Rightarrow> bool" where
  "sched_contract env docs c \<longleftrightarrow> store_contract (sc_es env) docs \<and> ids_contract (sc_es env) docs \<and>
     GetElasticClient (sc_es env) (sc_ROOT_ORG_ID env) = Inr c \<and>
     (\<forall>s j r s' i. os_Index (sc_es env) c (GetIndex (sc_ROOT_ORG_ID env) PERSISTED) [] j s = (Inr r, s') \<longrightarrow>
        docs s' c (GetIndex (sc_ROOT_ORG_ID env) PERSISTED) =
          docs s c (GetIndex (sc_ROOT_ORG_ID env) PERSISTED) @ [(i, j)] \<longrightarrow> i \<noteq> [])"

abbreviation job_docs :: "'s sched_env \<Rightarrow> ('s \<Rightarrow> cluster \<Rightarrow> string \<Rightarrow> index_docs) \<Rightarrow> cluster \<Rightarrow> 's \<Rightarrow> index_docs" where
  "job_docs env docs c s \<equiv> docs s c (GetIndex (sc_ROOT_ORG_ID env) PERSISTED)"

lemma sched_contractD:
  assumes "sched_contract env docs c"
  shows "store_contract (sc_es env) docs" and "ids_contract (sc_es env) docs"
    and "GetElasticClient (sc_es env) (sc_ROOT_ORG_ID env) = Inr c"
  using assms by (simp_all add: sched_contract_def)

lemma doc_put_keys: "i \<in> fst ` set ds \<Longrightarrow> map fst (doc_put i j ds) = map fst ds"
  by (induction i j ds rule: doc_put.induct) auto

lemma in_doc_put: "distinct (map fst ds) \<Longrightarrow> x \<in> set (doc_put i j ds) \<Longrightarrow> x = (i, j) \<or> x \<in> set ds \<and> fst x \<noteq> i"
  by (induction ds) (auto split: if_splits)

lemma found_ids:
  assumes "sched_contract env docs c" and "find_jobs env s = Inr ids"
  shows "set ids \<subseteq> fst ` set (job_docs env docs c s)"
proof -
  have "set (sorted_hits None l) = set l" for l by (simp add: sorted_hits_def)
  then have sub: "set (search_hits get_next_available_job ds) \<subseteq> set ds" for ds
    by (auto simp: search_hits_def get_next_available_job_def query_of_def after_hits_def dest: in_set_takeD)
  have "ids = map fst (search_hits get_next_available_job (job_docs env docs c s))"
    using assms QueryElasticIds_hits [OF sched_contractD(2,3) [OF assms(1)],
        of get_next_available_job PERSISTED s]
    by (simp add: find_jobs_def get_next_available_job_def query_of_def)
  then show ?thesis using sub by auto
qed

text \<open>A document after a lease: it is the same job, no longer available if it was.\<close>

definition leased_doc :: "json \<Rightarrow> json" where
  "leased_doc src = the (lease_script [] src)"

lemma lease_script_any: "lease_script [(''key'', w)] src = lease_script [] src"
  by (simp add: lease_script_def split: json.splits)

lemma leased_doc_kvs:
  "leased_doc (JObj kvs) =
     (if map_of kvs ''state'' = Some (JStr ''available'') then JObj (kv_set ''state'' JNull kvs) else JObj kvs)"
  by (simp add: leased_doc_def lease_script_def)

lemma leased_doc_job: "is_job (leased_doc (JObj kvs)) \<longleftrightarrow> is_job (JObj kvs)"
  by (simp add: leased_doc_kvs is_job_def map_of_kv_set)

lemma get_other_field:
  "f \<noteq> g \<Longrightarrow> get_str f (JObj (kv_set g v kvs)) = get_str f (JObj kvs)"
  "f \<noteq> g \<Longrightarrow> get_int f (JObj (kv_set g v kvs)) = get_int f (JObj kvs)"
  "get_str g (JObj (kv_set g JNull kvs)) = Inr []"
  by (simp_all add: get_str_def get_int_def map_of_kv_set)

lemma leased_doc_decode:
  assumes "decode_job (JObj kvs) = Inr r"
  shows "\<exists>st. decode_job (leased_doc (JObj kvs)) = Inr (r\<lparr>sr_State := st\<rparr>)"
proof (cases "map_of kvs ''state'' = Some (JStr ''available'')")
  case True
  then show ?thesis using assms
    by (simp add: leased_doc_kvs decode_job_def get_other_field bindR_Inr_iff) auto
next
  case False
  then show ?thesis using assms by (intro exI [of _ "sr_State r"]) (simp add: leased_doc_kvs)
qed

lemma leased_doc_obj: "\<exists>kvs'. leased_doc (JObj kvs) = JObj kvs'"
  by (simp add: leased_doc_def lease_script_def)

lemma lease_leases:
  assumes "sched_contract env docs c" and "(i, JObj kvs) \<in> set (job_docs env docs c s)"
    and "distinct (map fst (job_docs env docs c s))"
  shows "\<exists>s'. lease_job env a i s = (None, s') \<and>
    job_docs env docs c s' = doc_put i (leased_doc (JObj kvs)) (job_docs env docs c s)"
proof -
  have "map_of (job_docs env docs c s) i = Some (JObj kvs)" using assms(2,3) by simp
  moreover have "up_script (lease_update a) (JObj kvs) = Some (leased_doc (JObj kvs))"
    by (simp add: lease_update_def lease_script_any leased_doc_def lease_script_def)
  ultimately show ?thesis
    unfolding lease_job_def
    by (rule UpdateIndex_script [OF sched_contractD(1,3) [OF assms(1)]])
qed

lemma read_reads:
  assumes "sched_contract env docs c" and "(i, src) \<in> set (job_docs env docs c s)"
    and "distinct (map fst (job_docs env docs c s))" and "decode_job src = Inr r"
  shows "\<exists>j. read_job env i s = Inr j \<and> lj_doc_id j = i \<and> lj_Job j = sr_Job r \<and> lj_Queue j = sr_Queue r \<and>
    lj_OrgId j = sr_OrgId r \<and> lj_request j = r"
proof -
  have "map_of (job_docs env docs c s) i = Some src" using assms(2,3) by simp
  then show ?thesis
    using GetElasticRecord_found [OF sched_contractD(1,3) [OF assms(1)]] assms(4)
    by (simp add: read_job_def)
qed

lemma read_doc_id: "read_job env i s = Inr j \<Longrightarrow> lj_doc_id j = i"
  by (auto simp: read_job_def bindR_Inr_iff)

section \<open>The invariant\<close>

definition job_doc_ok :: "string set \<Rightarrow> string \<times> json \<Rightarrow> bool" where
  "job_doc_ok H d \<longleftrightarrow> fst d \<noteq> [] \<and> (\<exists>kvs. snd d = JObj kvs) \<and>
     (is_job (snd d) \<longrightarrow> (\<exists>r. decode_job (snd d) = Inr r) \<and> (available_job (snd d) \<or> fst d \<in> H))"

definition jobs_kept ::
  "'s sched_env \<Rightarrow> ('s \<Rightarrow> cluster \<Rightarrow> string \<Rightarrow> index_docs) \<Rightarrow> cluster \<Rightarrow> 's sched_config \<Rightarrow> bool" where
  "jobs_kept env docs c cf \<longleftrightarrow>
     distinct (map fst (job_docs env docs c (cf_store cf))) \<and>
     (\<forall>d \<in> set (job_docs env docs c (cf_store cf)). job_doc_ok (held cf) d) \<and>
     known cf \<subseteq> fst ` set (job_docs env docs c (cf_store cf))"

lemma job_doc_ok_mono: "job_doc_ok H d \<Longrightarrow> H \<subseteq> K \<Longrightarrow> job_doc_ok K d"
  by (auto simp: job_doc_ok_def)

lemma held_known: "held cf \<subseteq> known cf"
proof -
  have "holds w \<subseteq> knows w" for w by (cases w rule: holds.cases) auto
  then show ?thesis unfolding held_def known_def by blast
qed

lemma held_but: "holds (cf_workers cf a) \<subseteq> H \<union> holds x \<Longrightarrow> held cf \<subseteq> H \<union> held (with_worker a x cf)"
proof -
  assume h: "holds (cf_workers cf a) \<subseteq> H \<union> holds x"
  have "holds (cf_workers cf b) \<subseteq> H \<union> (\<Union>b. holds (((cf_workers cf)(a := x)) b))" for b
  proof (cases "b = a")
    case True
    have "holds x \<subseteq> (\<Union>b. holds (((cf_workers cf)(a := x)) b))" by (rule order_trans [OF _ UN_upper [of a]]) simp_all
    then show ?thesis using h True by auto
  next
    case False
    have "holds (cf_workers cf b) \<subseteq> (\<Union>b. holds (((cf_workers cf)(a := x)) b))"
      by (rule order_trans [OF _ UN_upper [of b]]) (simp_all add: False)
    then show ?thesis by auto
  qed
  then show ?thesis unfolding held_def with_simps by (meson UN_least Un_least Un_upper1 Un_upper2 le_supI1 le_supI2 order_refl sup_assoc subset_Un_eq le_sup_iff order_trans)
qed

lemma held_with: "holds (cf_workers cf a) \<subseteq> holds x \<Longrightarrow> held cf \<subseteq> held (with_worker a x cf)"
  using held_but [of cf a "{}" x] by simp

lemma held_new: "holds x \<subseteq> held (with_worker a x cf)"
  by (auto simp: held_def)

lemma held_store [simp]: "held (with_store s cf) = held cf" "known (with_store s cf) = known cf"
  by (simp_all add: held_def known_def)

lemma known_with: "known (with_worker a x cf) \<subseteq> knows x \<union> known cf"
  by (auto simp: known_def split: if_splits)

lemma knows_known: "knows (cf_workers cf a) \<subseteq> known cf"
  by (auto simp: known_def)

lemma kept_same_store:
  assumes "jobs_kept env docs c cf" and "cf_store cf' = cf_store cf" and "held cf \<subseteq> held cf'"
    and "known cf' \<subseteq> known cf \<union> fst ` set (job_docs env docs c (cf_store cf))"
  shows "jobs_kept env docs c cf'"
proof -
  have "job_doc_ok (held cf') d" if "job_doc_ok (held cf) d" for d
    using job_doc_ok_mono [OF that assms(3)] .
  then show ?thesis
    using assms(1,2,4) by (simp add: jobs_kept_def) (meson order_trans sup.boundedI order_refl)
qed

lemma kept_put:
  assumes "jobs_kept env docs c cf" and "job_docs env docs c (cf_store cf') = doc_put i src (job_docs env docs c (cf_store cf))"
    and "i \<in> known cf" and "job_doc_ok (held cf') (i, src)" and "held cf - {i} \<subseteq> held cf'" and "known cf' \<subseteq> known cf"
  shows "jobs_kept env docs c cf'"
proof -
  let ?D = "job_docs env docs c (cf_store cf)"
  have D: "distinct (map fst ?D)" "known cf \<subseteq> fst ` set ?D" and ok: "\<forall>d \<in> set ?D. job_doc_ok (held cf) d"
    using assms(1) by (auto simp: jobs_kept_def)
  have keys: "map fst (doc_put i src ?D) = map fst ?D" using D(2) assms(3) by (intro doc_put_keys) auto
  then have "fst ` set (doc_put i src ?D) = fst ` set ?D" by (metis list.set_map)
  moreover have "job_doc_ok (held cf') d" if "d \<in> set (doc_put i src ?D)" for d
    using in_doc_put [OF D(1) that] ok assms(4,5) by (auto simp: job_doc_ok_def)
  ultimately show ?thesis
    using D assms(2,6) keys by (auto simp: jobs_kept_def)
qed

lemma kept_add:
  assumes "jobs_kept env docs c cf" and "job_docs env docs c (cf_store cf') = job_docs env docs c (cf_store cf) @ [(i, src)]"
    and "i \<notin> fst ` set (job_docs env docs c (cf_store cf))" and "job_doc_ok (held cf') (i, src)"
    and "held cf' = held cf" and "known cf' = known cf"
  shows "jobs_kept env docs c cf'"
  using assms by (auto simp: jobs_kept_def)

lemma new_job_ok: "i \<noteq> [] \<Longrightarrow> job_doc_ok H (i, encode_job (job_record now k job))"
  by (simp add: job_doc_ok_def available_job_def is_job_def)
    (simp add: encode_job_def job_record_def)

lemma result_ok: "i \<noteq> [] \<Longrightarrow> job_doc_ok H (i, encode_result (result_record now res err request))"
  by (simp add: job_doc_ok_def is_job_def encode_result_def result_record_def)

text \<open>\<open>Schedule\<close> adds one available job, \<open>jobDone\<close> replaces the document of the job.\<close>

lemma Schedule_adds:
  assumes "sched_contract env docs c"
  shows "(\<exists>e. jb_Queue job \<noteq> ''Notebook'' \<and> Schedule env job w = (Inl e, w)) \<or>
    (\<exists>i w'. Schedule env job w = (Inr (sc_guid env (sw_guids w)), w') \<and> jb_Queue job = ''Notebook'' \<and> i \<noteq> [] \<and>
       i \<notin> fst ` set (job_docs env docs c (sw_store w)) \<and>
       job_docs env docs c (sw_store w') = job_docs env docs c (sw_store w) @
         [(i, encode_job (job_record (sc_now env (sw_ticks w)) (sc_guid env (sw_guids w)) job))])"
proof (cases "jb_Queue job = ''Notebook''")
  case True
  let ?j = "encode_job (job_record (sc_now env (sw_ticks w)) (sc_guid env (sw_guids w)) job)"
  let ?X = "GetIndex (sc_ROOT_ORG_ID env) PERSISTED"
  obtain r i s' where st: "os_Index (sc_es env) c ?X [] ?j (sw_store w) = (Inr r, s')" "\<not> rp_IsError r"
    "i \<notin> fst ` set (docs (sw_store w) c ?X)" "docs s' c ?X = docs (sw_store w) c ?X @ [(i, ?j)]"
    using store_contractD(2) [OF sched_contractD(1) [OF assms]] by blast
  moreover have "i \<noteq> []" using assms st(1,4) unfolding sched_contract_def by blast
  ultimately show ?thesis
    using True sched_contractD(3) [OF assms]
    by (simp add: Schedule_def Let_def SetElasticIndex_def SetElasticIndex_once_def write_outcome_def retry_success)
next
  case False
  then show ?thesis by (simp add: Schedule_def)
qed

lemma jobDone_puts:
  assumes "sched_contract env docs c" and "lj_doc_id j \<noteq> []"
  shows "job_docs env docs c (sw_store (jobDone env res err j w)) =
    doc_put (lj_doc_id j) (encode_result (result_record (sc_now env (sw_ticks w)) res err (lj_request j)))
      (job_docs env docs c (sw_store w))"
proof -
  let ?r = "encode_result (result_record (sc_now env (sw_ticks w)) res err (lj_request j))"
  obtain s' where "SetElasticIndex (sc_es env) (sc_ROOT_ORG_ID env) PERSISTED (lj_doc_id j) ?r (sw_store w) = (None, s')"
    "job_docs env docs c s' = doc_put (lj_doc_id j) ?r (job_docs env docs c (sw_store w))"
    using SetElasticIndex_put [OF sched_contractD(1,3) [OF assms(1)] assms(2)] by blast
  then show ?thesis by (simp add: jobDone_def)
qed

lemma sched_step_kept:
  assumes "sched_step env cf cf'" and "sched_contract env docs c" and "jobs_kept env docs c cf"
  shows "jobs_kept env docs c cf'"
  using assms(1,3)
proof cases
  case (poll a ids)
  show ?thesis unfolding poll(1)
  proof (rule kept_same_store [OF assms(3)])
    show "held cf \<subseteq> held (with_worker a (Leasing ids) cf)" by (rule held_with) (simp add: poll)
    show "known (with_worker a (Leasing ids) cf) \<subseteq> known cf \<union> fst ` set (job_docs env docs c (cf_store cf))"
      using known_with [of a "Leasing ids" cf] found_ids [OF assms(2) poll(3)] by auto
  qed simp
next
  case (leased a i ids s)
  have D: "distinct (map fst (job_docs env docs c (cf_store cf)))" using assms(3) by (simp add: jobs_kept_def)
  have kn: "i \<in> known cf" "set ids \<subseteq> known cf" using knows_known [of cf a] leased(2) by auto
  then obtain src where src: "(i, src) \<in> set (job_docs env docs c (cf_store cf))" "job_doc_ok (held cf) (i, src)"
    using assms(3) by (fastforce simp: jobs_kept_def)
  then obtain kvs where kvs: "src = JObj kvs" by (auto simp: job_doc_ok_def)
  obtain s' where s': "lease_job env a i (cf_store cf) = (None, s')"
    "job_docs env docs c s' = doc_put i (leased_doc src) (job_docs env docs c (cf_store cf))"
    using lease_leases [OF assms(2) src(1) [unfolded kvs] D] unfolding kvs by blast
  let ?cf = "with_worker a (Reading i ids) (with_store s cf)"
  have h: "held cf \<subseteq> held ?cf" "i \<in> held ?cf"
    using held_with [of "with_store s cf" a "Reading i ids"] held_new [of "Reading i ids" a "with_store s cf"] leased(2)
    by auto
  have "job_doc_ok (held ?cf) (i, leased_doc src)"
    using src(2) h(2) leased_doc_job leased_doc_decode leased_doc_obj unfolding kvs job_doc_ok_def by fastforce
  moreover have "known ?cf \<subseteq> known cf" using known_with [of a "Reading i ids" "with_store s cf"] kn by auto
  ultimately show ?thesis
    unfolding leased(1) using kn(1) h(1) s' leased(3) by (intro kept_put [OF assms(3)]) auto
next
  case (refused a i ids e s)
  have "i \<in> known cf" using knows_known [of cf a] refused(2) by auto
  then obtain kvs where "(i, JObj kvs) \<in> set (job_docs env docs c (cf_store cf))"
    using assms(3) by (fastforce simp: jobs_kept_def job_doc_ok_def)
  moreover have "distinct (map fst (job_docs env docs c (cf_store cf)))" using assms(3) by (simp add: jobs_kept_def)
  ultimately obtain s' where "lease_job env a i (cf_store cf) = (None, s')"
    using lease_leases [OF assms(2)] by blast
  then show ?thesis using refused(3) by simp
next
  case (exhausted a)
  show ?thesis unfolding exhausted(1)
    using held_with [of cf a Polling] known_with [of a Polling cf] exhausted(2)
    by (intro kept_same_store [OF assms(3)]) auto
next
  case (read a i ids j)
  show ?thesis unfolding read(1)
    using held_with [of cf a "Offering j"] known_with [of a "Offering j" cf] knows_known [of cf a] read(2)
      read_doc_id [OF read(3)]
    by (intro kept_same_store [OF assms(3)]) auto
next
  case (unread a i ids e)
  let ?cf = "with_worker a (Leasing ids) cf"
  have D: "distinct (map fst (job_docs env docs c (cf_store cf)))" using assms(3) by (simp add: jobs_kept_def)
  have h: "held cf - {i} \<subseteq> held ?cf"
    using held_but [of cf a "{i}" "Leasing ids"] unread(2) by auto
  have ok: "job_doc_ok (held ?cf) d" if d: "d \<in> set (job_docs env docs c (cf_store cf))" for d
  proof -
    have ok: "job_doc_ok (held cf) d" using assms(3) d by (simp add: jobs_kept_def)
    have "\<not> is_job (snd d)" if "fst d = i"
      using read_reads [OF assms(2) _ D] d ok unread(3) that unfolding job_doc_ok_def by (metis prod.collapse sum.simps(4))
    then show ?thesis using ok h by (auto simp: job_doc_ok_def)
  qed
  have "known ?cf \<subseteq> known cf"
    using known_with [of a "Leasing ids" cf] knows_known [of cf a] unread(2) by auto
  moreover have "known cf \<subseteq> fst ` set (job_docs env docs c (cf_store cf))"
    using assms(3) by (simp add: jobs_kept_def)
  ultimately have kn: "known ?cf \<subseteq> fst ` set (job_docs env docs c (cf_store cf))" by (rule order_trans)
  have "\<forall>d \<in> set (job_docs env docs c (cf_store cf)). job_doc_ok (held ?cf) d" using ok by blast
  with D kn have "jobs_kept env docs c ?cf" by (simp only: jobs_kept_def with_simps)
  then show ?thesis unfolding unread(1) .
next
  case (taken a j)
  let ?cf = "cf\<lparr>cf_running := j # cf_running cf\<rparr>"
  have "held (with_worker a Polling ?cf) = insert (lj_doc_id j) (held (with_worker a Polling cf))"
    and "known (with_worker a Polling ?cf) = insert (lj_doc_id j) (known (with_worker a Polling cf))"
    by (simp_all add: held_def known_def)
  then have "held cf \<subseteq> held (with_worker a Polling ?cf)" "known (with_worker a Polling ?cf) \<subseteq> known cf"
    using held_but [of cf a "{lj_doc_id j}" Polling] known_with [of a Polling cf] knows_known [of cf a] taken(2) by auto
  then show ?thesis unfolding taken(1) by (intro kept_same_store [OF assms(3)]) auto
next
  case (dropped a j)
  show ?thesis unfolding dropped(1)
    using held_with [of cf a "Stopped (Some j)"] known_with [of a "Stopped (Some j)" cf] knows_known [of cf a] dropped(2)
    by (intro kept_same_store [OF assms(3)]) auto
next
  case (stopped a)
  show ?thesis unfolding stopped(1)
    using held_with [of cf a "Stopped None"] known_with [of a "Stopped None" cf] stopped(2)
    by (intro kept_same_store [OF assms(3)]) auto
next
  case (finished j res err)
  let ?cf = "cf\<lparr>cf_running := remove1 j (cf_running cf), cf_world := jobDone env res err j (cf_world cf)\<rparr>"
  have kn: "lj_doc_id j \<in> known cf" using finished(2) by (auto simp: known_def)
  then have ne: "lj_doc_id j \<noteq> []" using assms(3) by (fastforce simp: jobs_kept_def job_doc_ok_def)
  have "set (cf_running cf) - {j} \<subseteq> set (remove1 j (cf_running cf))"
    by (metis DiffE in_set_remove1 insertI1 subsetI)
  then have "held cf - {lj_doc_id j} \<subseteq> held ?cf" by (fastforce simp: held_def)
  moreover have "known ?cf \<subseteq> known cf" using set_remove1_subset [of j "cf_running cf"] by (auto simp: known_def)
  ultimately show ?thesis
    unfolding finished(1)
    by (intro kept_put [OF assms(3) _ kn result_ok [OF ne]]) (simp_all add: jobDone_puts [OF assms(2) ne])
next
  case (scheduled job r w)
  have same: "held (cf\<lparr>cf_world := w\<rparr>) = held cf" "known (cf\<lparr>cf_world := w\<rparr>) = known cf"
    by (simp_all add: held_def known_def)
  show ?thesis
    using Schedule_adds [OF assms(2), of job "cf_world cf"]
  proof
    assume "\<exists>e. jb_Queue job \<noteq> ''Notebook'' \<and> Schedule env job (cf_world cf) = (Inl e, cf_world cf)"
    then show ?thesis using scheduled assms(3) by simp
  qed (use scheduled same kept_add [OF assms(3), of "cf\<lparr>cf_world := w\<rparr>"] new_job_ok in fastforce)
qed

section \<open>Results reach their caller\<close>

lemma filter_doc_put:
  "distinct (map fst ds) \<Longrightarrow> (i, d) \<in> set ds \<Longrightarrow> \<forall>x \<in> set ds. \<not> P x \<Longrightarrow> P (i, j) \<Longrightarrow>
   filter P (doc_put i j ds) = [(i, j)]"
proof (induction ds)
  case (Cons x ds)
  show ?case
  proof (cases "fst x = i")
    case True
    then show ?thesis using Cons.prems by (cases x) (auto simp: filter_empty_conv)
  next
    case False
    then show ?thesis using Cons by (cases x) auto
  qed
qed simp

lemma poll_result_docs:
  assumes "sched_contract env docs c"
  shows "poll_result env k s =
    (case match_docs (sq_query (result_query k)) (job_docs env docs c s) of
       [] \<Rightarrow> None
     | d # ds \<Rightarrow> (case decode_result (snd d) of Inl e \<Rightarrow> None
         | Inr r \<Rightarrow> Some (sp_Data r, if sp_Error r \<noteq> [] then Some (Err (sp_Error r)) else None)))"
proof -
  let ?q = "result_query k" and ?X = "GetIndex (sc_ROOT_ORG_ID env) PERSISTED"
  have "sq_source ?q" by (simp add: result_query_def query_of_def)
  then obtain tx where "os_Search (sc_es env) c ?X ?q s = Inr \<lparr>rp_IsError = False, rp_text = tx, rp_json = Some
          (render_hits (search_hits ?q (docs s c ?X)) (length (match_docs (sq_query ?q) (docs s c ?X))))\<rparr>"
    using store_contractD(1) [OF sched_contractD(1) [OF assms]] unfolding search_contract_def match_docs_def by metis
  moreover have "search_hits ?q ds = take 1 (match_docs (sq_query ?q) ds)" for ds
    by (simp add: search_hits_def match_docs_def result_query_def query_of_def sorted_hits_def after_hits_def)
  ultimately show ?thesis
    using sched_contractD(3) [OF assms]
    by (simp add: poll_result_def GetElasticRecordByQuery_def decode_render split_def split: list.splits)
qed

lemma wait_from_first:
  "m < n \<Longrightarrow> \<forall>l < m. poll_result env k (stores (i + l)) = None \<Longrightarrow> poll_result env k (stores (i + m)) = Some r \<Longrightarrow>
   wait_from n i env k stores = Some r"
proof (induction n arbitrary: i m)
  case (Suc n)
  show ?case
  proof (cases m)
    case (Suc m')
    have "poll_result env k (stores i) = None" using Suc.prems(2) Suc by force
    moreover have "wait_from n (Suc i) env k stores = Some r"
      using Suc.prems Suc by (intro Suc.IH [of m']) auto
    ultimately show ?thesis by simp
  qed (use Suc.prems in simp)
qed simp

lemma sched_steps_kept:
  assumes "(sched_step env)\<^sup>*\<^sup>* cf cf'" and "sched_contract env docs c" and "jobs_kept env docs c cf"
  shows "jobs_kept env docs c cf'"
  using assms(1,3) by (induction rule: rtranclp_induct) (auto intro: sched_step_kept [OF _ assms(2)])

text \<open>A start: no worker has a job, and the jobs that are stored are available.\<close>

definition fresh_start ::
  "'s sched_env \<Rightarrow> ('s \<Rightarrow> cluster \<Rightarrow> string \<Rightarrow> index_docs) \<Rightarrow> cluster \<Rightarrow> 's sched_config \<Rightarrow> bool" where
  "fresh_start env docs c cf \<longleftrightarrow> (\<forall>a. cf_workers cf a = Polling) \<and> cf_running cf = [] \<and>
     distinct (map fst (job_docs env docs c (cf_store cf))) \<and>
     list_all (job_doc_ok {}) (job_docs env docs c (cf_store cf))"

lemma fresh_start_kept: "fresh_start env docs c cf \<Longrightarrow> jobs_kept env docs c cf"
  using job_doc_ok_mono [of "{}"] by (fastforce simp: fresh_start_def jobs_kept_def known_def list_all_iff)

lemma answered_poll:
  assumes "sched_contract env docs c" and "sr_ID (lj_request j) = k"
    and "lj_doc_id j = i" and "i \<noteq> []" and "distinct (map fst (L @ [(i, src)]))"
    and "\<forall>d \<in> set (L @ [(i, src)]). \<not> matches (sq_query (result_query k)) (snd d)"
    and "job_docs env docs c (sw_store w) = L @ [(i, src)]"
  shows "poll_result env k (sw_store (jobDone env res err j w)) =
    Some (res, case err of None \<Rightarrow> None | Some e \<Rightarrow> if err_text e \<noteq> [] then Some (Err (err_text e)) else None)"
proof -
  let ?r = "result_record (sc_now env (sw_ticks w)) res err (lj_request j)"
  have "matches (sq_query (result_query k)) (encode_result ?r)"
    using assms(2) by (simp add: result_query_def query_of_def field_values_def encode_result_def result_record_def)
  then have "filter (\<lambda>d. matches (sq_query (result_query k)) (snd d)) (doc_put i (encode_result ?r) (L @ [(i, src)])) =
      [(i, encode_result ?r)]"
    using assms(5,6) by (intro filter_doc_put [where d = src]) auto
  moreover have "job_docs env docs c (sw_store (jobDone env res err j w)) = doc_put i (encode_result ?r) (L @ [(i, src)])"
    using jobDone_puts [OF assms(1), of j] assms(3,4,7) by simp
  ultimately have "match_docs (sq_query (result_query k)) (job_docs env docs c (sw_store (jobDone env res err j w))) =
      [(i, encode_result ?r)]"
    by (simp only: match_docs_def)
  then show ?thesis
    by (simp add: poll_result_docs [OF assms(1)] result_record_def split: option.splits)
qed

lemma first_available:
  assumes "sched_contract env docs c" and "job_docs env docs c s = L @ [(i, encode_job r)]"
    and "\<forall>d \<in> set L. \<not> matches (sq_query get_next_available_job) (snd d)"
    and "sr_Type r = ''scheduler''" and "sr_State r = ''available''"
  shows "find_jobs env s = Inr [i]"
proof -
  have "match_docs (sq_query get_next_available_job) (job_docs env docs c s) = [(i, encode_job r)]"
    using assms(2-5) by (simp add: match_docs_def filter_empty_conv get_next_available_job_def query_of_def
        field_values_def encode_job_def)
  moreover have "search_hits get_next_available_job ds = take 1 (match_docs (sq_query get_next_available_job) ds)" for ds
    by (simp add: search_hits_def match_docs_def get_next_available_job_def query_of_def sorted_hits_def after_hits_def)
  ultimately show ?thesis
    using QueryElasticIds_hits [OF sched_contractD(2,3) [OF assms(1)], of get_next_available_job PERSISTED s]
    by (simp add: find_jobs_def get_next_available_job_def query_of_def)
qed

lemma lease_and_read:
  assumes "sched_contract env docs c" and "cf_workers cf a = Leasing (i # ids)"
    and "(i, JObj kvs) \<in> set (job_docs env docs c (cf_store cf))" and "decode_job (JObj kvs) = Inr r"
    and "distinct (map fst (job_docs env docs c (cf_store cf)))"
  shows "\<exists>j s kvs' st. (sched_step env)\<^sup>*\<^sup>* cf (with_worker a (Offering j) (with_store s cf)) \<and>
    lj_doc_id j = i \<and> lj_Job j = sr_Job r \<and> (i, JObj kvs') \<in> set (job_docs env docs c s) \<and>
    decode_job (JObj kvs') = Inr (r\<lparr>sr_State := st\<rparr>) \<and> distinct (map fst (job_docs env docs c s))"
proof -
  let ?D = "job_docs env docs c (cf_store cf)"
  obtain s where s: "lease_job env a i (cf_store cf) = (None, s)"
    "job_docs env docs c s = doc_put i (leased_doc (JObj kvs)) ?D"
    using lease_leases [OF assms(1,3,5)] by blast
  have i: "i \<in> fst ` set ?D" using assms(3) by force
  have D: "distinct (map fst (job_docs env docs c s))" using assms(5) doc_put_keys [OF i] s(2) by simp
  obtain kvs' where kvs': "leased_doc (JObj kvs) = JObj kvs'" using leased_doc_obj by blast
  have "map_of (job_docs env docs c s) i = Some (JObj kvs')" by (simp add: s(2) map_of_doc_put kvs')
  then have in_docs: "(i, JObj kvs') \<in> set (job_docs env docs c s)" by (rule map_of_SomeD)
  obtain st where st: "decode_job (JObj kvs') = Inr (r\<lparr>sr_State := st\<rparr>)"
    using leased_doc_decode [OF assms(4)] kvs' by auto
  obtain j where j: "read_job env i s = Inr j" "lj_doc_id j = i" "lj_Job j = sr_Job r"
    using read_reads [OF assms(1) in_docs D st] by auto
  let ?R = "with_worker a (Reading i ids) (with_store s cf)"
  have "sched_step env cf ?R" using sched_step.leased [OF assms(2) s(1)] .
  moreover have "sched_step env ?R (with_worker a (Offering j) ?R)"
    by (rule sched_step.read [where i = i and ids = ids]) (simp_all add: j(1))
  ultimately have "(sched_step env)\<^sup>*\<^sup>* cf (with_worker a (Offering j) (with_store s cf))"
    by (simp add: rtranclp.rtrancl_into_rtrancl)
  then show ?thesis using j in_docs st D by blast
qed

section \<open>Properties\<close>


text \<open>
  A scheduled job is answered: a job that was scheduled, taken by a worker and completed is
  the job as it was given, and the wait of its caller ends with the result and the error text of
  the completion, if that is there at one of the thousand polls.
\<close>

theorem scheduled_job_answered:
  assumes "sched_contract env docs c" and "jb_Queue job = ''Notebook''" and "L = job_docs env docs c (sw_store w)"
    and "distinct (map fst L)" and "k = sc_guid env (sw_guids w)"
    and "\<forall>d \<in> set L. \<not> matches (sq_query get_next_available_job) (snd d) \<and>
      \<not> matches (sq_query (result_query k)) (snd d)"
  shows "\<exists>w1 j s. Schedule env job w = (Inr k, w1) \<and> getOneJob env a (sw_store w1) = (Inr j, s) \<and>
    lj_Queue j = jb_Queue job \<and> lj_Job j = jb_Job job \<and> lj_OrgId j = jb_OrgId job \<and>
    (\<forall>m stores. m < 1000 \<longrightarrow> (\<forall>l < m. stores l \<in> {sw_store w1, s}) \<longrightarrow>
       stores m = sw_store (jobDone env res err j (w1\<lparr>sw_store := s\<rparr>)) \<longrightarrow>
       wait_result env k stores = Some (res, case err of None \<Rightarrow> None
         | Some e \<Rightarrow> if err_text e \<noteq> [] then Some (Err (err_text e)) else None))"
proof -
  let ?rec = "job_record (sc_now env (sw_ticks w)) k job"
  obtain i w1 where w1: "Schedule env job w = (Inr k, w1)" "i \<noteq> []" "i \<notin> fst ` set L"
    "job_docs env docs c (sw_store w1) = L @ [(i, encode_job ?rec)]"
    using Schedule_adds [OF assms(1), of job w] assms(2,3,5) by auto
  have D: "distinct (map fst (job_docs env docs c (sw_store w1)))" using w1(3,4) assms(4) by simp
  have found: "find_jobs env (sw_store w1) = Inr [i]"
    using first_available [OF assms(1) w1(4)] assms(6) by (simp add: job_record_def)
  obtain kvs where kvs: "encode_job ?rec = JObj kvs" by (simp add: encode_job_def)
  obtain s where s: "lease_job env a i (sw_store w1) = (None, s)"
    "job_docs env docs c s = doc_put i (leased_doc (encode_job ?rec)) (L @ [(i, encode_job ?rec)])"
    using lease_leases [OF assms(1) _ D, of i kvs a] unfolding kvs [symmetric] w1(4) by auto
  have put: "doc_put i x (L @ [(i, encode_job ?rec)]) = L @ [(i, x)]" for x
    using w1(3) by (induction L) auto
  obtain st where st: "decode_job (leased_doc (encode_job ?rec)) = Inr (?rec\<lparr>sr_State := st\<rparr>)"
    using leased_doc_decode [of kvs ?rec] unfolding kvs [symmetric] by auto
  have s2: "job_docs env docs c s = L @ [(i, leased_doc (encode_job ?rec))]" using s(2) put by simp
  obtain j where j: "read_job env i s = Inr j" "lj_doc_id j = i" "lj_Job j = jb_Job job" "lj_Queue j = jb_Queue job"
    "lj_OrgId j = jb_OrgId job" "sr_ID (lj_request j) = k"
    using read_reads [OF assms(1) _ _ st, of i s] s2 w1(3) assms(4) by (auto simp: job_record_def)
  have fresh: "\<forall>d \<in> set (L @ [(i, x)]). \<not> matches (sq_query (result_query k)) (snd d)"
    if "jget ''type'' x = Some (JStr ''scheduler'')" for x
    using assms(6) that by (auto simp: result_query_def query_of_def field_values_def)
  have types: "jget ''type'' (encode_job ?rec) = Some (JStr ''scheduler'')"
    "jget ''type'' (leased_doc (encode_job ?rec)) = Some (JStr ''scheduler'')"
    using leased_doc_job [of kvs] unfolding kvs [symmetric] is_job_def by (simp_all add: encode_job_def job_record_def)
  have none: "poll_result env k t = None" if "t \<in> {sw_store w1, s}" for t
    using that fresh [OF types(1)] fresh [OF types(2)] w1(4) s2
    by (auto simp: poll_result_docs [OF assms(1)] match_docs_def filter_empty_conv split: list.splits)
  show ?thesis
  proof (intro exI conjI allI impI)
    show "getOneJob env a (sw_store w1) = (Inr j, s)" by (simp add: getOneJob_def found s(1) j(1))
    fix m :: nat and stores
    assume "m < 1000" "\<forall>l < m. stores l \<in> {sw_store w1, s}"
      "stores m = sw_store (jobDone env res err j (w1\<lparr>sw_store := s\<rparr>))"
    then show "wait_result env k stores = Some (res, case err of None \<Rightarrow> None
         | Some e \<Rightarrow> if err_text e \<noteq> [] then Some (Err (err_text e)) else None)"
      unfolding wait_result_def
      using answered_poll [OF assms(1), of j k i L "leased_doc (encode_job ?rec)" "w1\<lparr>sw_store := s\<rparr>" res err]
        j w1(2,3) assms(4) s2 fresh [OF types(2)] none
      by (intro wait_from_first [where m = m]) auto
  qed (fact w1(1) j(3-5))+
qed

text \<open>
  C40. A lease does not keep other workers out: when two workers have found the same document, one
  after the other leases it and both offer its job, since the script makes no difference between
  a lease that changed the state and one that did not.
\<close>

theorem lease_not_exclusive:
  assumes "sched_contract env docs c" and "cf_workers cf a = Leasing (i # is)" and "cf_workers cf b = Leasing (i # js)"
    and "a \<noteq> b" and "(i, encode_job r) \<in> set (job_docs env docs c (cf_store cf))"
    and "distinct (map fst (job_docs env docs c (cf_store cf)))"
  shows "\<exists>cf' j j'. (sched_step env)\<^sup>*\<^sup>* cf cf' \<and>
    cf_workers cf' a = Offering j \<and> lj_doc_id j = i \<and> lj_Job j = sr_Job r \<and>
    cf_workers cf' b = Offering j' \<and> lj_doc_id j' = i \<and> lj_Job j' = sr_Job r"
proof -
  obtain kvs where kvs: "encode_job r = JObj kvs" by (simp add: encode_job_def)
  have dec: "decode_job (JObj kvs) = Inr r" unfolding kvs [symmetric] by simp
  obtain j s kvs' st where 1: "(sched_step env)\<^sup>*\<^sup>* cf (with_worker a (Offering j) (with_store s cf))"
    "lj_doc_id j = i" "lj_Job j = sr_Job r" "(i, JObj kvs') \<in> set (job_docs env docs c s)"
    "decode_job (JObj kvs') = Inr (r\<lparr>sr_State := st\<rparr>)" "distinct (map fst (job_docs env docs c s))"
    using lease_and_read [OF assms(1,2) assms(5) [unfolded kvs] dec assms(6)] by blast
  let ?A = "with_worker a (Offering j) (with_store s cf)"
  obtain j' s' where 2: "(sched_step env)\<^sup>*\<^sup>* ?A (with_worker b (Offering j') (with_store s' ?A))"
    "lj_doc_id j' = i" "lj_Job j' = sr_Job r"
    using lease_and_read [OF assms(1) _ _ 1(5), of ?A b i js] assms(3,4) 1(4,6) by auto
  show ?thesis
    using rtranclp_trans [OF 1(1) 2(1)] 1(2,3) 2(2,3) assms(4)
    by (intro exI [of _ "with_worker b (Offering j') (with_store s' ?A)"]) auto
qed

text \<open>
  A worker that comes late runs the result of a finished job as a job: leasing a document that
  has been replaced by its result succeeds, and what the worker offers is the text of the result.
\<close>

theorem finished_job_runs_again:
  assumes "sched_contract env docs c" and "cf_workers cf b = Leasing (i # js)"
    and "(i, encode_result x) \<in> set (job_docs env docs c (cf_store cf))"
    and "distinct (map fst (job_docs env docs c (cf_store cf)))"
  shows "\<exists>cf' j. (sched_step env)\<^sup>*\<^sup>* cf cf' \<and> cf_workers cf' b = Offering j \<and> lj_doc_id j = i \<and> lj_Job j = sp_Data x"
proof -
  obtain kvs where kvs: "encode_result x = JObj kvs" by (simp add: encode_result_def)
  have "decode_job (JObj kvs) = Inr \<lparr>sr_Timestamp = sp_Timestamp x, sr_ID = sp_ID x, sr_Queue = [],
      sr_Job = sp_Data x, sr_OrgId = [], sr_State = sp_Error x, sr_Type = sp_Type x\<rparr>"
    unfolding kvs [symmetric] by (simp add: job_codecs)
  then show ?thesis
    using lease_and_read [OF assms(1,2) assms(3) [unfolded kvs] _ assms(4)] by fastforce
qed

section \<open>A run\<close>

definition sample_sched_env :: "mem_es_state sched_env" where
  "sample_sched_env = \<lparr>sc_es = mem_es, sc_ROOT_ORG_ID = ''root'', sc_now = (\<lambda>n. 100 + int n),
     sc_guid = (\<lambda>n. ''G'' @ replicate n (CHR ''x''))\<rparr>"

definition notebook_job :: scheduler_job where
  "notebook_job = \<lparr>jb_Queue = ''Notebook'', jb_Job = ''{}'', jb_OrgId = ''O1''\<rparr>"

definition empty_sched :: "mem_es_state sched_world" where
  "empty_sched = \<lparr>sw_store = [], sw_ticks = 0, sw_guids = 0\<rparr>"

definition sched_world_after :: "mem_es_state sched_world" where
  "sched_world_after = snd (Schedule sample_sched_env notebook_job empty_sched)"

definition start_config :: "mem_es_state sched_config" where
  "start_config = \<lparr>cf_workers = (\<lambda>a. Polling), cf_running = [], cf_world = sched_world_after\<rparr>"

lemma sample_sched_contract: "sched_contract sample_sched_env (\<lambda>st c idx. mem_docs st idx) PrimaryOpenSearch"
  using mem_store_contract mem_ids_contract
  by (auto simp: sched_contract_def sample_sched_env_def) (auto simp: mem_es_def doc_add_def)

lemma sample_scheduled:
  "Schedule sample_sched_env notebook_job empty_sched = (Inr ''G'', sched_world_after)"
  "mem_docs (sw_store sched_world_after) ''persisted'' = [(''r'', encode_job (job_record 100 ''G'' notebook_job))]"
  by code_simp+

lemma sched_sample_index: "GetIndex ''root'' PERSISTED = ''persisted''"
  by (simp add: GetIndex_def PERSISTED_def)

lemma sample_leased:
  "\<exists>j s. getOneJob sample_sched_env ''W'' (sw_store sched_world_after) = (Inr j, s) \<and> lj_doc_id j = ''r'' \<and>
    mem_docs s ''persisted'' = [(''r'', leased_doc (encode_job (job_record 100 ''G'' notebook_job)))]"
proof -
  define j where "j = (case fst (getOneJob sample_sched_env ''W'' (sw_store sched_world_after)) of Inr j \<Rightarrow> j)"
  define s where "s = snd (getOneJob sample_sched_env ''W'' (sw_store sched_world_after))"
  have "getOneJob sample_sched_env ''W'' (sw_store sched_world_after) = (Inr j, s) \<and> lj_doc_id j = ''r'' \<and>
    mem_docs s ''persisted'' = [(''r'', leased_doc (encode_job (job_record 100 ''G'' notebook_job)))]"
    unfolding j_def s_def by code_simp
  then show ?thesis by blast
qed


theorem scheduled_job_answered_witness:
  "\<exists>w1 j s. Schedule sample_sched_env notebook_job empty_sched = (Inr ''G'', w1) \<and>
    getOneJob sample_sched_env ''W'' (sw_store w1) = (Inr j, s) \<and> lj_Job j = ''{}'' \<and>
    wait_result sample_sched_env ''G''
      (\<lambda>m. sw_store (jobDone sample_sched_env ''done'' (Some (Err ''late'')) j (w1\<lparr>sw_store := s\<rparr>))) =
    Some (''done'', Some (Err ''late''))"
proof -
  have d: "job_docs sample_sched_env (\<lambda>st c idx. mem_docs st idx) PrimaryOpenSearch (sw_store empty_sched) = []"
    by (simp add: empty_sched_def mem_docs_def)
  have k: "''G'' = sc_guid sample_sched_env (sw_guids empty_sched)" by (simp add: sample_sched_env_def empty_sched_def)
  have q: "jb_Queue notebook_job = ''Notebook''" "jb_Job notebook_job = ''{}''" by (simp_all add: notebook_job_def)
  obtain w1 j s where r: "Schedule sample_sched_env notebook_job empty_sched = (Inr ''G'', w1)"
    "getOneJob sample_sched_env ''W'' (sw_store w1) = (Inr j, s)" "lj_Job j = jb_Job notebook_job"
    "\<forall>m stores. m < 1000 \<longrightarrow> (\<forall>l < m. stores l \<in> {sw_store w1, s}) \<longrightarrow>
       stores m = sw_store (jobDone sample_sched_env ''done'' (Some (Err ''late'')) j (w1\<lparr>sw_store := s\<rparr>)) \<longrightarrow>
       wait_result sample_sched_env ''G'' stores = Some (''done'', case Some (Err ''late'') of None \<Rightarrow> None
         | Some e \<Rightarrow> if err_text e \<noteq> [] then Some (Err (err_text e)) else None)"
    using scheduled_job_answered [OF sample_sched_contract q(1) d [symmetric] _ k, of "''W''" "''done''" "Some (Err ''late'')"]
    by auto
  show ?thesis
    using r(1-3) q(2) r(4) [rule_format, of 0 "\<lambda>m. sw_store (jobDone sample_sched_env ''done'' (Some (Err ''late'')) j (w1\<lparr>sw_store := s\<rparr>))"]
    by (intro exI [of _ w1] exI [of _ j] exI [of _ s]) simp
qed

definition both_found :: "mem_es_state sched_config" where
  "both_found = \<lparr>cf_workers = (\<lambda>a. Leasing [''r'']), cf_running = [], cf_world = sched_world_after\<rparr>"

theorem lease_not_exclusive_witness:
  "\<exists>cf j j'. (sched_step sample_sched_env)\<^sup>*\<^sup>* both_found cf \<and>
    cf_workers cf ''V'' = Offering j \<and> lj_doc_id j = ''r'' \<and> lj_Job j = ''{}'' \<and>
    cf_workers cf ''W'' = Offering j' \<and> lj_doc_id j' = ''r'' \<and> lj_Job j' = ''{}''"
  using lease_not_exclusive [OF sample_sched_contract, of both_found "''V''" "''r''" "[]" "''W''" "[]"
      "job_record 100 ''G'' notebook_job"]
  by (simp add: both_found_def sample_sched_env_def sched_sample_index sample_scheduled(2) job_record_def notebook_job_def)

theorem finished_job_runs_again_witness:
  "\<exists>cf j. (sched_step sample_sched_env)\<^sup>*\<^sup>* (both_found\<lparr>cf_world := \<lparr>sw_store =
      [(''persisted'', [(''r'', encode_result (result_record 101 ''text'' None (job_record 100 ''G'' notebook_job)))])],
      sw_ticks = 2, sw_guids = 1\<rparr>\<rparr>) cf \<and>
    cf_workers cf ''W'' = Offering j \<and> lj_doc_id j = ''r'' \<and> lj_Job j = ''text''"
  using finished_job_runs_again [OF sample_sched_contract, of "both_found\<lparr>cf_world := \<lparr>sw_store =
      [(''persisted'', [(''r'', encode_result (result_record 101 ''text'' None (job_record 100 ''G'' notebook_job)))])],
      sw_ticks = 2, sw_guids = 1\<rparr>\<rparr>" "''W''" "''r''" "[]"
      "result_record 101 ''text'' None (job_record 100 ''G'' notebook_job)"]
  by (simp add: both_found_def sample_sched_env_def sched_sample_index mem_docs_def) (simp add: result_record_def)

end
