(* ===== verification/Datastore.thy ===== *)
theory Datastore
  imports Elastic
begin

text \<open>
  The data store of subjects (\<open>datastore/\<close>): each write adds a document to the transient
  index, which cannot be updated in place, and a read takes the newest document of the path.
\<close>

section \<open>Records\<close>

record DatastoreRecord =
  ds_Timestamp :: int
  ds_ClientId :: string
  ds_VFSPath :: string
  ds_FlowId :: string
  ds_Artifact :: string
  ds_Type :: string
  ds_DocType :: string
  ds_JSONData :: string
  ds_ID :: string

definition empty_subject :: DatastoreRecord where
  "empty_subject = \<lparr>ds_Timestamp = 0, ds_ClientId = [], ds_VFSPath = [], ds_FlowId = [], ds_Artifact = [],
     ds_Type = [], ds_DocType = [], ds_JSONData = [], ds_ID = []\<rparr>"

definition encode_subject :: "DatastoreRecord \<Rightarrow> json" where
  "encode_subject r = JObj
     [(''timestamp'', JInt (ds_Timestamp r)), (''client_id'', JStr (ds_ClientId r)),
      (''vfs_path'', JStr (ds_VFSPath r)), (''flow_id'', JStr (ds_FlowId r)),
      (''artifact'', JStr (ds_Artifact r)), (''type'', JStr (ds_Type r)),
      (''doc_type'', JStr (ds_DocType r)), (''data'', JStr (ds_JSONData r)), (''id'', JStr (ds_ID r))]"

definition decode_subject :: "json \<Rightarrow> DatastoreRecord result" where
  "decode_subject j =
     bindR (get_int ''timestamp'' j) (\<lambda>t. bindR (get_str ''client_id'' j) (\<lambda>c.
     bindR (get_str ''vfs_path'' j) (\<lambda>v. bindR (get_str ''flow_id'' j) (\<lambda>f.
     bindR (get_str ''artifact'' j) (\<lambda>a. bindR (get_str ''type'' j) (\<lambda>y.
     bindR (get_str ''doc_type'' j) (\<lambda>d. bindR (get_str ''data'' j) (\<lambda>x.
     bindR (get_str ''id'' j) (\<lambda>i.
       Inr \<lparr>ds_Timestamp = t, ds_ClientId = c, ds_VFSPath = v, ds_FlowId = f, ds_Artifact = a,
            ds_Type = y, ds_DocType = d, ds_JSONData = x, ds_ID = i\<rparr>)))))))))"

definition DSPathSpecToRecord :: "string \<Rightarrow> DatastoreRecord result" where
  "DSPathSpecToRecord client_path = Inr (empty_subject\<lparr>ds_Type := ''Generic'', ds_VFSPath := client_path\<rparr>)"

lemma decode_encode_subject [simp]: "decode_subject (encode_subject r) = Inr r"
  by (simp add: encode_subject_def decode_subject_def get_str_def get_int_def)

section \<open>Environment\<close>

text \<open>
  The library's part: the text of a path, the hash, the JSON of a message and the directory of a
  path; a path is its components.
\<close>

record ('s, 'm) ds_env =
  ds_es :: "'s elastic"
  ds_org :: string
  ds_sha1 :: "string \<Rightarrow> string"
  ds_now :: "nat \<Rightarrow> int"
  ds_AsClientPath :: "string list \<Rightarrow> string"
  ds_marshal :: "'m \<Rightarrow> string result"
  ds_unmarshal :: "string \<Rightarrow> 'm result"
  ds_directory :: "string list \<Rightarrow> string result"
  ds_SplitComponents :: "string \<Rightarrow> string list"

record 's ds_world =
  dw_store :: 's
  dw_ticks :: nat

section \<open>Queries\<close>

definition list_children_query :: "string \<Rightarrow> search_req" where
  "list_children_query dir = (query_of (Must [Prefix ''vfs_path'' dir, Match ''doc_type'' (JStr ''datastore'')]))
     \<lparr>sq_sort := Some (''timestamp'', True), sq_size := Some 1\<rparr>"

definition delete_datastore_doc_query :: "string \<Rightarrow> search_req" where
  "delete_datastore_doc_query p = query_of (Must [Prefix ''vfs_path'' p, Match ''doc_type'' (JStr ''datastore'')])"

definition get_datastore_doc_query :: "string \<Rightarrow> search_req" where
  "get_datastore_doc_query i = (query_of (Must [Prefix ''id'' i, Match ''doc_type'' (JStr ''datastore'')]))
     \<lparr>sq_sort := Some (''timestamp'', True), sq_size := Some 1\<rparr>"

section \<open>Operations\<close>

definition subject_id :: "('s, 'm) ds_env \<Rightarrow> string list \<Rightarrow> string" where
  "subject_id env p = MakeId (ds_sha1 env) (ds_AsClientPath env p)"

text \<open>\<open>Inr None\<close> is the return at the end of the loop, which leaves the message as it was.\<close>

fun first_subject :: "('s, 'm) ds_env \<Rightarrow> json list \<Rightarrow> 'm option result" where
  "first_subject env [] = Inr None"
| "first_subject env (hit # hits) =
     bindR (decode_subject hit) (\<lambda>r. bindR (ds_unmarshal env (ds_JSONData r)) (\<lambda>m. Inr (Some m)))"

definition GetSubject :: "('s, 'm) ds_env \<Rightarrow> string list \<Rightarrow> 's ds_world \<Rightarrow> 'm option result" where
  "GetSubject env p w =
     bindR (QueryElasticRaw (ds_es env) (ds_org env) TRANSIENT (get_datastore_doc_query (subject_id env p)) (dw_store w))
       (\<lambda>(hits, n). if hits = [] then Inl NotFoundError else first_subject env hits)"

definition subject_record :: "('s, 'm) ds_env \<Rightarrow> string list \<Rightarrow> string \<Rightarrow> int \<Rightarrow> DatastoreRecord" where
  "subject_record env p serialized now = empty_subject\<lparr>ds_ID := subject_id env p, ds_Type := ''Generic'',
     ds_VFSPath := ds_AsClientPath env p, ds_JSONData := serialized, ds_DocType := ''datastore'',
     ds_Timestamp := now\<rparr>"

definition SetSubject ::
  "('s, 'm) ds_env \<Rightarrow> string list \<Rightarrow> 'm \<Rightarrow> 's ds_world \<Rightarrow> go_error option \<times> 's ds_world" where
  "SetSubject env p message w =
     (case ds_marshal env message of
        Inl e \<Rightarrow> (Some e, w)
      | Inr serialized \<Rightarrow>
          (case SetElasticIndex (ds_es env) (ds_org env) TRANSIENT []
                  (encode_subject (subject_record env p serialized (ds_now env (dw_ticks w)))) (dw_store w) of
             (e, s) \<Rightarrow> (e, w\<lparr>dw_store := s, dw_ticks := Suc (dw_ticks w)\<rparr>)))"

text \<open>The completion function is not called.\<close>

definition SetSubjectWithCompletion ::
  "('s, 'm) ds_env \<Rightarrow> string list \<Rightarrow> 'm \<Rightarrow> 's ds_world \<Rightarrow> go_error option \<times> 's ds_world" where
  "SetSubjectWithCompletion env p message w = SetSubject env p message w"

definition DeleteSubject ::
  "('s, 'm) ds_env \<Rightarrow> string list \<Rightarrow> 's ds_world \<Rightarrow> go_error option \<times> 's ds_world" where
  "DeleteSubject env p w =
     (case DeleteDocumentByQuery (ds_es env) (ds_org env) TRANSIENT
             (delete_datastore_doc_query (subject_id env p)) True (dw_store w) of
        (e, s) \<Rightarrow> (e, w\<lparr>dw_store := s\<rparr>))"

definition DeleteSubjectWithCompletion ::
  "('s, 'm) ds_env \<Rightarrow> string list \<Rightarrow> 's ds_world \<Rightarrow> go_error option \<times> 's ds_world" where
  "DeleteSubjectWithCompletion env p w =
     (case DeleteDocumentByQuery (ds_es env) (ds_org env) TRANSIENT
             (delete_datastore_doc_query (subject_id env p)) False (dw_store w) of
        (e, s) \<Rightarrow> (e, w\<lparr>dw_store := s\<rparr>))"

fun take_children :: "('s, 'm) ds_env \<Rightarrow> json list \<Rightarrow> string list list" where
  "take_children env [] = []"
| "take_children env (hit # hits) =
     (case decode_subject hit of
        Inl e \<Rightarrow> take_children env hits
      | Inr r \<Rightarrow> ds_SplitComponents env (ds_VFSPath r) # take_children env hits)"

definition ListChildren :: "('s, 'm) ds_env \<Rightarrow> string list \<Rightarrow> 's ds_world \<Rightarrow> string list list result" where
  "ListChildren env p w =
     bindR (ds_directory env p) (\<lambda>dir.
     bindR (QueryElasticRaw (ds_es env) (ds_org env) TRANSIENT (list_children_query dir) (dw_store w))
       (\<lambda>(hits, n). Inr (take_children env hits)))"

section \<open>What a delete by query does\<close>

text \<open>
  The documented effect: the documents that match are gone, and the refresh that follows a
  synchronous delete changes no document.
\<close>

definition delete_contract :: "('s, 'z) elastic_scheme \<Rightarrow> ('s \<Rightarrow> cluster \<Rightarrow> string \<Rightarrow> index_docs) \<Rightarrow> bool" where
  "delete_contract es docs \<longleftrightarrow>
     (\<forall>c idx q s. \<exists>r s'. os_DeleteByQuery es c idx q s = (Inr r, s') \<and>
        docs s' c idx = filter (\<lambda>d. \<not> matches (sq_query q) (snd d)) (docs s c idx)) \<and>
     (\<forall>c idxs s. \<exists>r s'. os_Refresh es c idxs s = (Inr r, s') \<and> docs s' = docs s)"

lemma mem_delete_contract: "delete_contract mem_es (\<lambda>st c idx. mem_docs st idx)"
  by (simp add: delete_contract_def mem_es_def ok_reply_def)

lemma DeleteDocumentByQuery_removes:
  assumes "delete_contract es docs" and "GetElasticClient es org = Inr c"
  shows "\<exists>s'. DeleteDocumentByQuery es org idx q sync s = (None, s') \<and>
    docs s' c (GetIndex org idx) = filter (\<lambda>d. \<not> matches (sq_query q) (snd d)) (docs s c (GetIndex org idx))"
proof -
  obtain r s1 where d: "os_DeleteByQuery es c (GetIndex org idx) q s = (Inr r, s1)"
    "docs s1 c (GetIndex org idx) = filter (\<lambda>d. \<not> matches (sq_query q) (snd d)) (docs s c (GetIndex org idx))"
    using assms(1) unfolding delete_contract_def by blast
  obtain r' s2 where "os_Refresh es c [GetIndex org idx] s1 = (Inr r', s2)" "docs s2 = docs s1"
    using assms(1) unfolding delete_contract_def by blast
  then show ?thesis
    using d assms(2) by (cases sync) (simp_all add: DeleteDocumentByQuery_def sync_refresh_def)
qed

section \<open>Reading what was written\<close>

definition subject_docs :: "('s, 'm) ds_env \<Rightarrow> string list \<Rightarrow> index_docs \<Rightarrow> index_docs" where
  "subject_docs env p ds = match_docs (sq_query (get_datastore_doc_query (subject_id env p))) ds"

text \<open>The newest of the documents in a descending order of time.\<close>

lemma sort_key_max_last:
  assumes "\<forall>x \<in> set xs. k x < k m"
  shows "sort_key k (m # xs) = sort_key k xs @ [m]"
proof -
  have "insort_key k m l = l @ [m]" if "\<forall>x \<in> set l. k x < k m" for l
    using that by (induction l) auto
  then show ?thesis using assms by simp
qed

lemma GetSubject_newest:
  assumes "search_contract (ds_es env) docs" and "GetElasticClient (ds_es env) (ds_org env) = Inr c"
    and "subject_docs env p (docs (dw_store w) c (GetIndex (ds_org env) TRANSIENT)) = L @ [(i, encode_subject r)]"
    and "\<forall>d \<in> set L. key_of ''timestamp'' d < KInt (ds_Timestamp r)"
    and "ds_unmarshal env (ds_JSONData r) = Inr m"
  shows "GetSubject env p w = Inr (Some m)"
proof -
  let ?q = "get_datastore_doc_query (subject_id env p)"
  let ?D = "docs (dw_store w) c (GetIndex (ds_org env) TRANSIENT)"
  have "sorted_hits (Some (''timestamp'', True)) (L @ [(i, encode_subject r)]) =
      (i, encode_subject r) # rev (sort_key (key_of ''timestamp'') (rev L))"
    using assms(4) sort_key_max_last [of "rev L" "key_of ''timestamp''" "(i, encode_subject r)"]
    by (simp add: sorted_hits_def key_of_def encode_subject_def)
  then have "search_hits ?q ?D = [(i, encode_subject r)]"
    using assms(3)
    by (simp add: search_hits_def subject_docs_def match_docs_def get_datastore_doc_query_def query_of_def after_hits_def)
  then show ?thesis
    using QueryElasticRaw_hits [OF assms(1,2), of ?q TRANSIENT "dw_store w"] assms(5)
    by (simp add: GetSubject_def get_datastore_doc_query_def query_of_def)
qed

lemma SetSubject_adds:
  assumes "store_contract (ds_es env) docs" and "GetElasticClient (ds_es env) (ds_org env) = Inr c"
    and "ds_marshal env m = Inr t"
  shows "\<exists>w' i. SetSubject env p m w = (None, w') \<and>
    docs (dw_store w') c (GetIndex (ds_org env) TRANSIENT) = docs (dw_store w) c (GetIndex (ds_org env) TRANSIENT) @
      [(i, encode_subject (subject_record env p t (ds_now env (dw_ticks w))))]"
  using SetElasticIndex_fresh [OF assms(1,2), of TRANSIENT "encode_subject (subject_record env p t (ds_now env (dw_ticks w)))" "dw_store w"]
    assms(3) by (fastforce simp: SetSubject_def)

lemma subject_record_found:
  "matches (sq_query (get_datastore_doc_query (subject_id env p))) (encode_subject (subject_record env p t n))"
  by (simp add: get_datastore_doc_query_def query_of_def field_values_def encode_subject_def subject_record_def
      HasPrefix_def)

text \<open>
  A subject that was set is read back, and is still read back after it was deleted: the delete
  looks for the hash of the path at the start of the stored paths, where it is not.
\<close>

theorem deleted_subject_still_read:
  assumes "store_contract (ds_es env) docs" and "delete_contract (ds_es env) docs"
    and "GetElasticClient (ds_es env) (ds_org env) = Inr c"
    and "ds_marshal env m = Inr t" and "ds_unmarshal env t = Inr m"
    and "D = docs (dw_store w) c (GetIndex (ds_org env) TRANSIENT)"
    and "\<forall>d \<in> set (subject_docs env p D). key_of ''timestamp'' d < KInt (ds_now env (dw_ticks w))"
    and "\<not> HasPrefix (ds_AsClientPath env p) (subject_id env p)"
  shows "\<exists>w1 w2. SetSubject env p m w = (None, w1) \<and> GetSubject env p w1 = Inr (Some m) \<and>
    DeleteSubject env p w1 = (None, w2) \<and> GetSubject env p w2 = Inr (Some m)"
proof -
  let ?r = "subject_record env p t (ds_now env (dw_ticks w))"
  let ?X = "GetIndex (ds_org env) TRANSIENT"
  obtain w1 i where w1: "SetSubject env p m w = (None, w1)" "docs (dw_store w1) c ?X = D @ [(i, encode_subject ?r)]"
    using SetSubject_adds [OF assms(1,3,4)] assms(6) by blast
  have r: "ds_Timestamp ?r = ds_now env (dw_ticks w)" "ds_JSONData ?r = t" by (simp_all add: subject_record_def)
  have read: "GetSubject env p v = Inr (Some m)"
    if "docs (dw_store v) c ?X = E @ [(i, encode_subject ?r)]" "set E \<subseteq> set D" for v E
  proof (rule GetSubject_newest [OF store_contractD(1) [OF assms(1)] assms(3)])
    show "subject_docs env p (docs (dw_store v) c ?X) = subject_docs env p E @ [(i, encode_subject ?r)]"
      using that(1) subject_record_found [of env p t] by (simp add: subject_docs_def match_docs_def)
    show "\<forall>d \<in> set (subject_docs env p E). key_of ''timestamp'' d < KInt (ds_Timestamp ?r)"
      using that(2) assms(7) unfolding r by (auto simp: subject_docs_def match_docs_def)
  qed (simp add: r assms(5))
  let ?q = "delete_datastore_doc_query (subject_id env p)"
  obtain s where s: "DeleteDocumentByQuery (ds_es env) (ds_org env) TRANSIENT ?q True (dw_store w1) = (None, s)"
    "docs s c ?X = filter (\<lambda>d. \<not> matches (sq_query ?q) (snd d)) (docs (dw_store w1) c ?X)"
    using DeleteDocumentByQuery_removes [OF assms(2,3)] by blast
  have "\<not> matches (sq_query ?q) (encode_subject ?r)"
    using assms(8) by (simp add: delete_datastore_doc_query_def query_of_def field_values_def encode_subject_def
        subject_record_def)
  then have "docs s c ?X = filter (\<lambda>d. \<not> matches (sq_query ?q) (snd d)) D @ [(i, encode_subject ?r)]"
    using s(2) w1(2) by simp
  then have "GetSubject env p (w1\<lparr>dw_store := s\<rparr>) = Inr (Some m)" by (intro read) auto
  moreover have "DeleteSubject env p w1 = (None, w1\<lparr>dw_store := s\<rparr>)" by (simp add: DeleteSubject_def s(1))
  moreover have "GetSubject env p w1 = Inr (Some m)" by (rule read [OF w1(2)]) simp
  ultimately show ?thesis using w1(1) by blast
qed

text \<open>
  A directory shows at most one of its children, whatever it holds: the query takes the newest
  document only.
\<close>

theorem children_at_most_one:
  assumes "search_contract (ds_es env) docs" and "GetElasticClient (ds_es env) (ds_org env) = Inr c"
    and "ListChildren env p w = Inr children"
  shows "length children \<le> 1"
proof -
  have "length (take_children env hits) \<le> length hits" for hits
    by (induction hits) (auto split: sum.splits)
  moreover obtain dir where "children = take_children env
      (map snd (search_hits (list_children_query dir) (docs (dw_store w) c (GetIndex (ds_org env) TRANSIENT))))"
    using assms QueryElasticRaw_hits [OF assms(1,2), of _ TRANSIENT "dw_store w"]
    by (auto simp: ListChildren_def bindR_Inr_iff list_children_query_def query_of_def)
  moreover have "length (search_hits (list_children_query dir) ds) \<le> 1" for dir ds
    by (simp add: search_hits_def list_children_query_def query_of_def)
  ultimately show ?thesis by (metis length_map order_trans)
qed

section \<open>A run\<close>

definition sample_ds_env :: "(mem_es_state, string) ds_env" where
  "sample_ds_env = \<lparr>ds_es = mem_es, ds_org = ''root'', ds_sha1 = (\<lambda>s. ''f'' @ s), ds_now = (\<lambda>n. 10 + int n),
     ds_AsClientPath = (\<lambda>p. ''/'' @ Join ''/'' p), ds_marshal = Inr, ds_unmarshal = Inr,
     ds_directory = (\<lambda>p. Inr (''/'' @ Join ''/'' p)), ds_SplitComponents = Split (CHR ''/'')\<rparr>"

definition empty_ds :: "mem_es_state ds_world" where
  "empty_ds = \<lparr>dw_store = [], dw_ticks = 0\<rparr>"

lemma mem_docs_empty: "mem_docs [] idx = []"
  by (simp add: mem_docs_def)

theorem deleted_subject_still_read_witness:
  "\<exists>w1 w2. SetSubject sample_ds_env [''a''] ''x'' empty_ds = (None, w1) \<and>
    GetSubject sample_ds_env [''a''] w1 = Inr (Some ''x'') \<and>
    DeleteSubject sample_ds_env [''a''] w1 = (None, w2) \<and> GetSubject sample_ds_env [''a''] w2 = Inr (Some ''x'')"
  by (rule deleted_subject_still_read [of sample_ds_env "\<lambda>st c idx. mem_docs st idx" PrimaryOpenSearch "''x''" "''x''" "[]"])
    (simp_all add: sample_ds_env_def empty_ds_def mem_store_contract mem_delete_contract mem_docs_empty subject_docs_def
      match_docs_def subject_id_def MakeId_def HasPrefix_def)

definition two_children :: "mem_es_state ds_world" where
  "two_children = snd (SetSubject sample_ds_env [''a'', ''c''] ''y'' (snd (SetSubject sample_ds_env [''a'', ''b''] ''x'' empty_ds)))"

theorem children_at_most_one_witness:
  "ListChildren sample_ds_env [''a''] two_children = Inr [[[], ''a'', ''c'']] \<and> length [[[], ''a'', ''c'']] \<le> (1 :: nat)"
proof -
  have l: "ListChildren sample_ds_env [''a''] two_children = Inr [[[], ''a'', ''c'']]" by code_simp
  show ?thesis
    using l children_at_most_one [of sample_ds_env "\<lambda>st c idx. mem_docs st idx" PrimaryOpenSearch, OF _ _ l]
    by (simp add: sample_ds_env_def mem_search_contract)
qed

end
