(* ===== verification/Acl.thy ===== *)
theory Acl
  imports Elastic Caches
begin

text \<open>
  The policies of principals and the access check (\<open>services/acl_manager/acl_manager.go\<close>), with
  the cache the manager shares between organisations. The cache holds the policy objects
  themselves: what is done to an object that was read is done to the cached one.
\<close>

section \<open>Policies\<close>

record ACLRecord =
  al_ACL :: string
  al_DocType :: string

definition encode_acl :: "ACLRecord \<Rightarrow> json" where
  "encode_acl r = JObj [(''acl'', JStr (al_ACL r)), (''doc_type'', JStr (al_DocType r))]"

definition decode_acl :: "json \<Rightarrow> ACLRecord result" where
  "decode_acl j = bindR (get_str ''acl'' j) (\<lambda>a. bindR (get_str ''doc_type'' j) (\<lambda>d.
     Inr \<lparr>al_ACL = a, al_DocType = d\<rparr>))"

lemma decode_encode_acl [simp]: "decode_acl (encode_acl r) = Inr r"
  by (simp add: encode_acl_def decode_acl_def get_str_def)

text \<open>The roles of a policy and the permissions that are set in it, by name.\<close>

record policy =
  pl_Roles :: "string list"
  pl_Permissions :: "string list"

definition empty_policy :: policy where
  "empty_policy = \<lparr>pl_Roles = [], pl_Permissions = []\<rparr>"

section \<open>Environment and state\<close>

text \<open>
  The library's part: the JSON of a policy, the permissions of roles, which it sets in the policy
  it is given, the check of one permission and the known roles.
\<close>

record 's acl_env =
  ac_es :: "'s elastic"
  ac_OrgId :: string
  ac_PinnedServerName :: "string option"
  ac_parse :: "string \<Rightarrow> policy result"
  ac_render :: "policy \<Rightarrow> string"
  ac_GetRolePermissions :: "string list \<Rightarrow> policy \<Rightarrow> go_error option \<times> policy"
  ac_CheckAccessWithToken :: "policy \<Rightarrow> string \<Rightarrow> bool \<times> go_error option"
  ac_ValidateRole :: "string \<Rightarrow> bool"

record 's acl_state =
  ax_store :: 's
  ax_lru :: "policy ttl_cache"

definition acl_ttl :: int where
  "acl_ttl = 10"

text \<open>The cache keeps its default: a hit extends the life of an entry.\<close>

definition acl_key :: "'s acl_env \<Rightarrow> string \<Rightarrow> string" where
  "acl_key env who = ac_OrgId env @ ''/'' @ who"

section \<open>Operations\<close>

definition read_policy :: "'s acl_env \<Rightarrow> string \<Rightarrow> 's \<Rightarrow> policy result" where
  "read_policy env who s =
     bindR (GetElasticRecord (ac_es env) (ac_OrgId env) PERSISTED (who @ ''_acl'') s) (\<lambda>hit.
     bindR (decode_acl hit) (\<lambda>r. ac_parse env (al_ACL r)))"

definition GetPolicy :: "'s acl_env \<Rightarrow> int \<Rightarrow> string \<Rightarrow> 's acl_state \<Rightarrow> policy result \<times> 's acl_state" where
  "GetPolicy env now who st =
     (case ttl_hit acl_ttl now (acl_key env who) (ax_lru st) of
        (Some p, c) \<Rightarrow> (Inr p, st\<lparr>ax_lru := c\<rparr>)
      | (None, c) \<Rightarrow>
          (case read_policy env who (ax_store st) of
             Inl e \<Rightarrow> (Inl e, st\<lparr>ax_lru := c\<rparr>)
           | Inr p \<Rightarrow> (Inr p, st\<lparr>ax_lru := ttl_set acl_ttl now (acl_key env who) p c\<rparr>)))"

text \<open>The permissions of the roles are set in the object that \<open>GetPolicy\<close> returned, the cached one.\<close>

definition GetEffectivePolicy :: "'s acl_env \<Rightarrow> int \<Rightarrow> string \<Rightarrow> 's acl_state \<Rightarrow> policy result \<times> 's acl_state" where
  "GetEffectivePolicy env now who st =
     (case GetPolicy env now who st of
        (Inl e, st1) \<Rightarrow> (Inl e, st1)
      | (Inr p, st1) \<Rightarrow>
          (case ac_GetRolePermissions env (pl_Roles p) p of
             (e, p') \<Rightarrow>
               (case e of None \<Rightarrow> Inr p' | Some x \<Rightarrow> Inl x,
                st1\<lparr>ax_lru := ttl_change (acl_key env who) p' (ax_lru st1)\<rparr>)))"

definition SetPolicy :: "'s acl_env \<Rightarrow> int \<Rightarrow> string \<Rightarrow> policy \<Rightarrow> 's acl_state \<Rightarrow> go_error option \<times> 's acl_state" where
  "SetPolicy env now who acl_obj st =
     (let c = ttl_set acl_ttl now (acl_key env who) acl_obj (ax_lru st)
      in case SetElasticIndex (ac_es env) (ac_OrgId env) PERSISTED (who @ ''_acl'')
                (encode_acl \<lparr>al_ACL = ac_render env acl_obj, al_DocType = ''acls''\<rparr>) (ax_store st) of
           (e, s) \<Rightarrow> (e, \<lparr>ax_store = s, ax_lru = c\<rparr>))"

fun check_all :: "'s acl_env \<Rightarrow> policy \<Rightarrow> string list \<Rightarrow> bool \<times> go_error option" where
  "check_all env p [] = (True, None)"
| "check_all env p (permission # permissions) =
     (case ac_CheckAccessWithToken env p permission of
        (ok, err) \<Rightarrow> if \<not> ok \<or> err \<noteq> None then (ok, err) else check_all env p permissions)"

definition CheckAccess ::
  "'s acl_env \<Rightarrow> int \<Rightarrow> string \<Rightarrow> string list \<Rightarrow> 's acl_state \<Rightarrow> (bool \<times> go_error option) \<times> 's acl_state" where
  "CheckAccess env now who permissions st =
     (if ac_PinnedServerName env = Some who then ((True, None), st)
      else if who = [] then ((False, None), st)
      else (case GetEffectivePolicy env now who st of
              (Inl e, st1) \<Rightarrow> ((False, Some e), st1)
            | (Inr p, st1) \<Rightarrow> (check_all env p permissions, st1)))"

fun take_roles :: "'s acl_env \<Rightarrow> string list \<Rightarrow> string list \<Rightarrow> string list result" where
  "take_roles env [] acc = Inr acc"
| "take_roles env (role # roles) acc =
     (if InString acc role then take_roles env roles acc
      else if \<not> ac_ValidateRole env role then Inl (Err (''Invalid role '' @ role))
      else take_roles env roles (acc @ [role]))"

definition GrantRoles ::
  "'s acl_env \<Rightarrow> int \<Rightarrow> string \<Rightarrow> string list \<Rightarrow> 's acl_state \<Rightarrow> go_error option \<times> 's acl_state" where
  "GrantRoles env now who roles st =
     (case take_roles env roles [] of
        Inl e \<Rightarrow> (Some e, st)
      | Inr rs \<Rightarrow> SetPolicy env now who (empty_policy\<lparr>pl_Roles := rs\<rparr>) st)"

section \<open>The cache\<close>

text \<open>What is left of an entry after a read at a time: the same policy, until ten seconds later.\<close>

lemma GetPolicy_hit:
  assumes "ttl_get now (acl_key env who) (ax_lru st) = Some p"
  shows "GetPolicy env now who st =
    (Inr p, st\<lparr>ax_lru := ttl_set acl_ttl now (acl_key env who) p (ax_lru st)\<rparr>)"
  using assms by (simp add: GetPolicy_def ttl_hit_def)

lemma GetPolicy_then_cached:
  assumes "GetPolicy env now who st = (Inr p, st')" and "t < now + acl_ttl"
  shows "ttl_get t (acl_key env who) (ax_lru st') = Some p"
  using assms by (auto simp: GetPolicy_def ttl_hit_def ttl.get_put split: option.splits sum.splits)

lemma effective_then_cached:
  assumes "GetEffectivePolicy env now who st = (Inr p, st')" and "t < now + acl_ttl"
  shows "ttl_get t (acl_key env who) (ax_lru st') = Some p"
  using assms GetPolicy_then_cached [OF _ assms(2), of env who st]
  by (auto simp: GetEffectivePolicy_def ttl_get_change split: sum.splits option.splits prod.splits)

section \<open>Properties\<close>

text \<open>The policy of a principal is read at a sequence of times, while others change the store.\<close>

fun read_policies ::
  "'s acl_env \<Rightarrow> string \<Rightarrow> (int \<times> ('s \<Rightarrow> 's)) list \<Rightarrow> 's acl_state \<Rightarrow> policy result list" where
  "read_policies env who [] st = []"
| "read_policies env who ((now, change) # rest) st =
     (case GetPolicy env now who (st\<lparr>ax_store := change (ax_store st)\<rparr>) of
        (r, st1) \<Rightarrow> r # read_policies env who rest st1)"

lemma reads_from_cache:
  assumes "\<And>u. u < t + acl_ttl \<Longrightarrow> ttl_get u (acl_key env who) (ax_lru st) = Some p"
    and "gaps_below acl_ttl t (map fst reads)"
  shows "read_policies env who reads st = replicate (length reads) (Inr p)"
  using assms
proof (induction reads arbitrary: t st)
  case (Cons x reads)
  obtain now change where x: "x = (now, change)" by fastforce
  let ?st = "st\<lparr>ax_store := change (ax_store st)\<rparr>"
  let ?st' = "?st\<lparr>ax_lru := ttl_set acl_ttl now (acl_key env who) p (ax_lru st)\<rparr>"
  have "GetPolicy env now who ?st = (Inr p, ?st')"
    using GetPolicy_hit [of now env who ?st p] Cons.prems x by simp
  moreover have "read_policies env who reads ?st' = replicate (length reads) (Inr p)"
    using Cons.prems(2) x by (intro Cons.IH [of now]) (simp_all add: ttl.get_put)
  ultimately show ?case by (simp add: x)
qed simp

text \<open>
  A change of a policy elsewhere is not seen while its principal is active: as long as the
  policy is read again within ten seconds of the last read, every read gives the policy of the
  first one, whatever the store holds by then.
\<close>

theorem active_principal_keeps_policy:
  assumes "GetPolicy env t who st = (Inr p, st')" and "gaps_below 10 t (map fst reads)"
  shows "read_policies env who reads st' = replicate (length reads) (Inr p)"
  using reads_from_cache [of t env who st' p reads] GetPolicy_then_cached [OF assms(1)] assms(2)
  by (simp add: acl_ttl_def)

text \<open>
  A policy whose write failed is in force: \<open>SetPolicy\<close> returns the error of the store, and for
  ten seconds the policy is what the manager reads.
\<close>

theorem failed_policy_in_force:
  assumes "SetPolicy env t who p st = (Some e, st')" and "u < t + 10"
  shows "fst (GetPolicy env u who st') = Inr p"
proof -
  have "ttl_get u (acl_key env who) (ax_lru st') = Some p"
    using assms by (auto simp: SetPolicy_def Let_def ttl.get_put acl_ttl_def split: prod.splits)
  then show ?thesis by (simp add: GetPolicy_hit)
qed

text \<open>
  Taking a role away keeps what it allowed: an access check sets the permissions of the roles
  in the cached policy, so the policy that is read next has them as its own, and writing it back
  with no roles stores them.
\<close>

theorem removed_role_keeps_permissions:
  assumes "store_contract (ac_es env) docs" and "GetElasticClient (ac_es env) (ac_OrgId env) = Inr c"
    and "GetPolicy env t who st = (Inr p, st0)"
    and "ac_GetRolePermissions env (pl_Roles p) p = (None, p')"
    and "ac_PinnedServerName env \<noteq> Some who" and "who \<noteq> []" and "u < t + 10"
  shows "\<exists>answer st1 st2 st3. CheckAccess env t who perms st = (answer, st1) \<and>
    GetPolicy env u who st1 = (Inr p', st2) \<and>
    SetPolicy env u who (p'\<lparr>pl_Roles := []\<rparr>) st2 = (None, st3) \<and>
    map_of (docs (ax_store st3) c (GetIndex (ac_OrgId env) PERSISTED)) (who @ ''_acl'') =
      Some (encode_acl \<lparr>al_ACL = ac_render env (p'\<lparr>pl_Roles := []\<rparr>), al_DocType = ''acls''\<rparr>)"
proof -
  let ?st1 = "st0\<lparr>ax_lru := ttl_change (acl_key env who) p' (ax_lru st0)\<rparr>"
  have eff: "GetEffectivePolicy env t who st = (Inr p', ?st1)"
    using assms(3,4) by (simp add: GetEffectivePolicy_def)
  let ?st2 = "?st1\<lparr>ax_lru := ttl_set acl_ttl u (acl_key env who) p' (ax_lru ?st1)\<rparr>"
  have get: "GetPolicy env u who ?st1 = (Inr p', ?st2)"
    using effective_then_cached [OF eff] assms(7) by (intro GetPolicy_hit) (simp add: acl_ttl_def)
  let ?p = "p'\<lparr>pl_Roles := []\<rparr>"
  let ?d = "encode_acl \<lparr>al_ACL = ac_render env ?p, al_DocType = ''acls''\<rparr>"
  obtain s where "SetElasticIndex (ac_es env) (ac_OrgId env) PERSISTED (who @ ''_acl'') ?d (ax_store ?st2) = (None, s)"
    "docs s c (GetIndex (ac_OrgId env) PERSISTED) =
      doc_put (who @ ''_acl'') ?d (docs (ax_store ?st2) c (GetIndex (ac_OrgId env) PERSISTED))"
    using SetElasticIndex_put [OF assms(1,2), of "who @ ''_acl''"] by blast
  then have "SetPolicy env u who ?p ?st2 =
      (None, \<lparr>ax_store = s, ax_lru = ttl_set acl_ttl u (acl_key env who) ?p (ax_lru ?st2)\<rparr>)"
    "map_of (docs s c (GetIndex (ac_OrgId env) PERSISTED)) (who @ ''_acl'') = Some ?d"
    by (simp_all add: SetPolicy_def map_of_doc_put)
  then show ?thesis
    using eff get assms(5,6) unfolding CheckAccess_def by fastforce
qed

text \<open>
  C31. The decision of an access check: the server itself is always allowed, an empty principal
  never; with no policy in the cache another principal is allowed exactly when each permission
  that is asked for is in its stored policy with the permissions of its roles, and a policy that
  cannot be read allows nothing.
\<close>

theorem access_decision:
  assumes "\<And>p a. ac_CheckAccessWithToken env p a = (a \<in> set (pl_Permissions p), None)"
    and "\<And>rs p. ac_GetRolePermissions env rs p = (None, p\<lparr>pl_Permissions := pl_Permissions p @ grants rs\<rparr>)"
    and "ttl_get t (acl_key env who) (ax_lru st) = None"
  shows "fst (CheckAccess env t who perms st) =
    (if ac_PinnedServerName env = Some who then (True, None)
     else if who = [] then (False, None)
     else case read_policy env who (ax_store st) of
            Inl e \<Rightarrow> (False, Some e)
          | Inr p \<Rightarrow> (set perms \<subseteq> set (pl_Permissions p) \<union> set (grants (pl_Roles p)), None))"
proof -
  have "check_all env p ps = (set ps \<subseteq> set (pl_Permissions p), None)" for p ps
    using assms(1) by (induction ps) auto
  then show ?thesis
    using assms(2,3)
    by (auto simp: CheckAccess_def GetEffectivePolicy_def GetPolicy_def ttl_hit_def split: sum.splits)
qed

section \<open>A run\<close>

definition role_grants :: "string list \<Rightarrow> string list" where
  "role_grants rs = (if ''reader'' \<in> set rs then [''READ_RESULTS''] else [])"

definition sample_acl_env :: "mem_es_state acl_env" where
  "sample_acl_env = \<lparr>ac_es = mem_es, ac_OrgId = ''O1'', ac_PinnedServerName = Some ''server'',
     ac_parse = (\<lambda>t. Inr \<lparr>pl_Roles = [t], pl_Permissions = []\<rparr>), ac_render = (\<lambda>p. Join '','' (pl_Permissions p)),
     ac_GetRolePermissions = (\<lambda>rs p. (None, p\<lparr>pl_Permissions := pl_Permissions p @ role_grants rs\<rparr>)),
     ac_CheckAccessWithToken = (\<lambda>p a. (a \<in> set (pl_Permissions p), None)), ac_ValidateRole = (\<lambda>r. r = ''reader'')\<rparr>"

definition bob_policy :: policy where
  "bob_policy = \<lparr>pl_Roles = [''reader''], pl_Permissions = []\<rparr>"

definition bob_state :: "mem_es_state acl_state" where
  "bob_state = \<lparr>ax_store = [(''o1_persisted'', [(''bob_acl'', encode_acl \<lparr>al_ACL = ''reader'', al_DocType = ''acls''\<rparr>)])],
     ax_lru = []\<rparr>"

lemma sample_acl_sel:
  "ac_es sample_acl_env = mem_es" "ac_OrgId sample_acl_env = ''O1''" "ac_PinnedServerName sample_acl_env = Some ''server''"
  "ac_render sample_acl_env q = Join '','' (pl_Permissions q)"
  "ac_GetRolePermissions sample_acl_env rs q = (None, q\<lparr>pl_Permissions := pl_Permissions q @ role_grants rs\<rparr>)"
  "ac_CheckAccessWithToken sample_acl_env q a = (a \<in> set (pl_Permissions q), None)"
  by (simp_all add: sample_acl_env_def)

lemma bob_read: "fst (GetPolicy sample_acl_env 0 ''bob'' bob_state) = Inr bob_policy"
  by code_simp

theorem active_principal_keeps_policy_witness:
  "read_policies sample_acl_env ''bob'' [(9, \<lambda>s. []), (18, \<lambda>s. [])] (snd (GetPolicy sample_acl_env 0 ''bob'' bob_state)) =
    [Inr bob_policy, Inr bob_policy]"
  using active_principal_keeps_policy [of sample_acl_env 0 "''bob''" bob_state bob_policy _ "[(9, \<lambda>s. []), (18, \<lambda>s. [])]",
      OF prod_eqI] bob_read by simp

definition full_disk :: "mem_es_state elastic" where
  "full_disk = mem_es\<lparr>os_Index := (\<lambda>c idx i j s. (Inl IOError, s))\<rparr>"

theorem failed_policy_in_force_witness:
  "fst (GetPolicy (sample_acl_env\<lparr>ac_es := full_disk\<rparr>) 9 ''eve''
     (snd (SetPolicy (sample_acl_env\<lparr>ac_es := full_disk\<rparr>) 0 ''eve'' bob_policy bob_state))) = Inr bob_policy"
proof -
  have "fst (SetPolicy (sample_acl_env\<lparr>ac_es := full_disk\<rparr>) 0 ''eve'' bob_policy bob_state) = Some IOError"
    by code_simp
  then show ?thesis
    by (intro failed_policy_in_force [of _ 0 "''eve''" bob_policy bob_state IOError]) (simp_all add: prod_eq_iff)
qed

theorem removed_role_keeps_permissions_witness:
  "\<exists>answer st1 st2 st3. CheckAccess sample_acl_env 0 ''bob'' [''READ_RESULTS''] bob_state = (answer, st1) \<and>
    GetPolicy sample_acl_env 5 ''bob'' st1 = (Inr (bob_policy\<lparr>pl_Permissions := [''READ_RESULTS'']\<rparr>), st2) \<and>
    SetPolicy sample_acl_env 5 ''bob'' \<lparr>pl_Roles = [], pl_Permissions = [''READ_RESULTS'']\<rparr> st2 = (None, st3) \<and>
    map_of (mem_docs (ax_store st3) ''o1_persisted'') ''bob_acl'' =
      Some (encode_acl \<lparr>al_ACL = ''READ_RESULTS'', al_DocType = ''acls''\<rparr>)"
proof -
  have x: "GetIndex ''O1'' PERSISTED = ''o1_persisted''" by code_simp
  show ?thesis
    using removed_role_keeps_permissions [of sample_acl_env "\<lambda>st c idx. mem_docs st idx" PrimaryOpenSearch 0 "''bob''"
        bob_state bob_policy "snd (GetPolicy sample_acl_env 0 ''bob'' bob_state)"
        "bob_policy\<lparr>pl_Permissions := [''READ_RESULTS'']\<rparr>" 5 "[''READ_RESULTS'']"]
      bob_read mem_store_contract
    by (simp add: prod_eq_iff [of "GetPolicy sample_acl_env 0 ''bob'' bob_state"] sample_acl_sel x bob_policy_def
        role_grants_def)
qed

theorem access_decision_witness:
  "fst (CheckAccess sample_acl_env 0 ''bob'' [''READ_RESULTS''] bob_state) = (True, None) \<and>
   fst (CheckAccess sample_acl_env 0 ''bob'' [''COLLECT''] bob_state) = (False, None)"
proof -
  have "read_policy sample_acl_env ''bob'' (ax_store bob_state) = Inr bob_policy" by code_simp
  moreover have "ttl_get 0 (acl_key sample_acl_env ''bob'') (ax_lru bob_state) = None"
    by (simp add: bob_state_def ttl_get_def)
  ultimately show ?thesis
    using access_decision [of sample_acl_env role_grants 0 "''bob''" bob_state]
    by (simp add: sample_acl_sel bob_policy_def role_grants_def)
qed

end
