(* ===== verification/Users.thy ===== *)
theory Users
  imports Elastic Caches
begin

text \<open>
  The storage of users and of their GUI options (\<open>services/users/storage.go\<close>, \<open>users.go\<close>), in
  the index of the root organisation.
\<close>

section \<open>Records\<close>

record UserRecord =
  ur_Username :: string
  ur_Record :: string
  ur_DocType :: string

definition encode_user :: "UserRecord \<Rightarrow> json" where
  "encode_user r = JObj [(''username'', JStr (ur_Username r)), (''record'', JStr (ur_Record r)),
     (''doc_type'', JStr (ur_DocType r))]"

definition decode_user :: "json \<Rightarrow> UserRecord result" where
  "decode_user j = bindR (get_str ''username'' j) (\<lambda>u. bindR (get_str ''record'' j) (\<lambda>r.
     bindR (get_str ''doc_type'' j) (\<lambda>d. Inr \<lparr>ur_Username = u, ur_Record = r, ur_DocType = d\<rparr>)))"

record UserGUIOptions =
  ug_Username :: string
  ug_GUIOptions :: string
  ug_DocType :: string
  ug_Type :: string

definition encode_options :: "UserGUIOptions \<Rightarrow> json" where
  "encode_options r = JObj [(''username'', JStr (ug_Username r)), (''gui_options'', JStr (ug_GUIOptions r)),
     (''doc_type'', JStr (ug_DocType r)), (''type'', JStr (ug_Type r))]"

definition decode_options :: "json \<Rightarrow> UserGUIOptions result" where
  "decode_options j = bindR (get_str ''username'' j) (\<lambda>u. bindR (get_str ''gui_options'' j) (\<lambda>g.
     bindR (get_str ''doc_type'' j) (\<lambda>d. bindR (get_str ''type'' j) (\<lambda>t.
       Inr \<lparr>ug_Username = u, ug_GUIOptions = g, ug_DocType = d, ug_Type = t\<rparr>))))"

lemma user_codecs [simp]:
  "decode_user (encode_user r) = Inr r" "decode_options (encode_options g) = Inr g"
  by (simp_all add: encode_user_def decode_user_def encode_options_def decode_options_def get_str_def)

text \<open>The library's messages, with the fields the program reads or writes.\<close>

record user_org =
  uo_Id :: string
  uo_Name :: string

record velo_user =
  vu_Name :: string
  vu_Orgs :: "user_org list"
  vu_Other :: json

record gui_options =
  go_Lang :: string
  go_Theme :: string
  go_Timezone :: string
  go_Org :: string
  go_Options :: string
  go_DefaultPassword :: string
  go_DefaultDownloadsLock :: bool
  go_Links :: "string list"
  go_DisableServerEvents :: "bool option"

definition empty_gui :: gui_options where
  "empty_gui = \<lparr>go_Lang = [], go_Theme = [], go_Timezone = [], go_Org = [], go_Options = [],
     go_DefaultPassword = [], go_DefaultDownloadsLock = False, go_Links = [], go_DisableServerEvents = None\<rparr>"

section \<open>Environment and state\<close>

text \<open>
  The names the configuration reserves, \<open>None\<close> where its section is missing, the JSON of the
  messages, the organisation manager and the merge of links.
\<close>

record 's user_env =
  us_es :: "'s elastic"
  us_ROOT_ORG_ID :: string
  us_API_PinnedGwName :: "string option"
  us_Client_PinnedServerName :: "string option"
  us_PinnedGwName :: string
  us_PinnedServerName :: string
  us_parse_user :: "string \<Rightarrow> velo_user result"
  us_render_user :: "velo_user \<Rightarrow> string result"
  us_parse_options :: "string \<Rightarrow> gui_options \<times> go_error option"
  us_render_options :: "gui_options \<Rightarrow> string result"
  us_OrgName :: "(string \<Rightarrow> string option) result"
  us_MergeGUILinks :: "string list \<Rightarrow> string list \<Rightarrow> string list"
  us_GUI_Links :: "string list option"
  us_DefaultLinks :: "string list"

text \<open>
  What is in the cache: the type an entry is looked up with, and the type it is set with. The
  field \<open>gui_options\<close> of the former is never used.
\<close>

datatype cached_user =
    CachedUserObject "velo_user option"
  | CachedUser velo_user

record 's user_state =
  ut_store :: 's
  ut_lru :: "cached_user ttl_cache"

definition user_ttl :: int where
  "user_ttl = 60"

section \<open>Names\<close>

definition user_char :: "char \<Rightarrow> bool" where
  "user_char c \<longleftrightarrow> (CHR ''a'' \<le> c \<and> c \<le> CHR ''z'') \<or> (CHR ''A'' \<le> c \<and> c \<le> CHR ''Z'') \<or>
     (CHR ''0'' \<le> c \<and> c \<le> CHR ''9'') \<or> c \<in> set ''@.-_#+''"

text \<open>\<open>validUsernameRegEx\<close>.\<close>

definition valid_name :: "string \<Rightarrow> bool" where
  "valid_name s \<longleftrightarrow> s \<noteq> [] \<and> list_all user_char s"

definition validateUsername :: "'s user_env \<Rightarrow> string \<Rightarrow> go_error option" where
  "validateUsername env name =
     (if \<not> valid_name name then Some (Err (''Unacceptable username '' @ name))
      else if us_API_PinnedGwName env = Some name then Some (Err (''Username is reserved: '' @ name))
      else if us_Client_PinnedServerName env = Some name then Some (Err (''Username is reserved: '' @ name))
      else if name = us_PinnedGwName env \<or> name = us_PinnedServerName env
           then Some (Err (''Username is reserved: '' @ name))
      else None)"

section \<open>Users\<close>

definition name_orgs :: "(string \<Rightarrow> string option) \<Rightarrow> velo_user \<Rightarrow> velo_user" where
  "name_orgs OrgName u = u\<lparr>vu_Orgs := map (\<lambda>g. case OrgName (uo_Id g) of None \<Rightarrow> g | Some n \<Rightarrow> g\<lparr>uo_Name := n\<rparr>) (vu_Orgs u)\<rparr>"

definition read_user :: "'s user_env \<Rightarrow> string \<Rightarrow> 's \<Rightarrow> velo_user result" where
  "read_user env username s =
     bindR (GetElasticRecord (us_es env) (us_ROOT_ORG_ID env) PERSISTED username s) (\<lambda>serialized.
     bindR (decode_user serialized) (\<lambda>r. bindR (us_parse_user env (ur_Record r)) (\<lambda>u.
     bindR (us_OrgName env) (\<lambda>OrgName. Inr (name_orgs OrgName u)))))"

definition GetUserWithHashes :: "'s user_env \<Rightarrow> int \<Rightarrow> string \<Rightarrow> 's user_state \<Rightarrow> velo_user result \<times> 's user_state" where
  "GetUserWithHashes env now username st =
     (if username = [] then (Inl (Err ''Must set a username''), st)
      else (case ttl_hit user_ttl now username (ut_lru st) of
         (Some (CachedUserObject (Some u)), c) \<Rightarrow> (Inr u, st\<lparr>ut_lru := c\<rparr>)
       | (_, c) \<Rightarrow>
           (case validateUsername env username of
              Some e \<Rightarrow> (Inl e, st\<lparr>ut_lru := c\<rparr>)
            | None \<Rightarrow>
                (case read_user env username (ut_store st) of
                   Inl e \<Rightarrow> (Inl e, st\<lparr>ut_lru := c\<rparr>)
                 | Inr u \<Rightarrow> (Inr u, st\<lparr>ut_lru := ttl_set user_ttl now username (CachedUser u) c\<rparr>)))))"

text \<open>The object \<open>SetUser\<close> changes is that of the cache when one of its type is there.\<close>

definition SetUser :: "'s user_env \<Rightarrow> int \<Rightarrow> velo_user \<Rightarrow> 's user_state \<Rightarrow> go_error option \<times> 's user_state" where
  "SetUser env now u st =
     (if vu_Name u = [] then (Some (Err ''Must set a username''), st)
      else (case validateUsername env (vu_Name u) of
         Some e \<Rightarrow> (Some e, st)
       | None \<Rightarrow>
           (let c = (case ttl_hit user_ttl now (vu_Name u) (ut_lru st) of
                  (Some (CachedUserObject x), c) \<Rightarrow> ttl_change (vu_Name u) (CachedUserObject (Some u)) c
                | (_, c) \<Rightarrow> c)
            in case us_render_user env u of
                 Inl e \<Rightarrow> (Some e, st\<lparr>ut_lru := c\<rparr>)
               | Inr serialized \<Rightarrow>
                   (case SetElasticIndex (us_es env) (us_ROOT_ORG_ID env) PERSISTED (vu_Name u)
                           (encode_user \<lparr>ur_Username = vu_Name u, ur_Record = serialized, ur_DocType = ''users''\<rparr>)
                           (ut_store st) of
                      (e, s) \<Rightarrow> (e, \<lparr>ut_store = s, ut_lru = c\<rparr>)))))"

fun take_users :: "'s user_env \<Rightarrow> json list \<Rightarrow> velo_user list" where
  "take_users env [] = []"
| "take_users env (hit # hits) =
     (case bindR (decode_user hit) (\<lambda>r. us_parse_user env (ur_Record r)) of
        Inl e \<Rightarrow> take_users env hits
      | Inr u \<Rightarrow> u # take_users env hits)"

definition ListAllUsers :: "'s user_env \<Rightarrow> 's \<Rightarrow> velo_user list result" where
  "ListAllUsers env s =
     bindR (QueryElasticRaw (us_es env) (us_ROOT_ORG_ID env) PERSISTED (query_of MatchAll) s)
       (\<lambda>(hits, n). Inr (take_users env hits))"

definition DeleteUser :: "string \<Rightarrow> go_error option" where
  "DeleteUser username = Some (Err ''UserManager.DeleteUser not implemented'')"

definition GetFavorites :: "string \<Rightarrow> string \<Rightarrow> json result" where
  "GetFavorites who fav_type = Inl (Err ''UserManager.GetFavorites Not implemented'')"

definition NewUserStorageManager :: "'s \<Rightarrow> 's user_state" where
  "NewUserStorageManager s = \<lparr>ut_store = s, ut_lru = []\<rparr>"

section \<open>GUI options\<close>

definition options_id :: "string \<Rightarrow> string" where
  "options_id username = username @ ''_options''"

definition doc_type_query :: "string \<Rightarrow> string \<Rightarrow> search_req" where
  "doc_type_query i t = (query_of (Must [Match ''_id'' (JStr i), Match ''doc_type'' (JStr t)]))
     \<lparr>sq_sort := Some (''timestamp'', True), sq_size := Some 1\<rparr>"

text \<open>
  A reply with no document is nil with no error, and decoding it fails. An error of parsing the
  options is returned together with what was read.
\<close>

definition GetUserOptions :: "'s user_env \<Rightarrow> string \<Rightarrow> 's \<Rightarrow> gui_options \<times> go_error option" where
  "GetUserOptions env username s =
     (case GetElasticRecordByQuery (us_es env) (us_ROOT_ORG_ID env) PERSISTED
             (doc_type_query (options_id username) ''user_options'') s of
        Inl e \<Rightarrow> (empty_gui, if e = ErrNotExist then None else Some e)
      | Inr None \<Rightarrow> (empty_gui, Some (Err ''unexpected end of JSON input''))
      | Inr (Some serialized) \<Rightarrow>
          (case decode_options serialized of
             Inl e \<Rightarrow> (empty_gui, Some e)
           | Inr r \<Rightarrow>
               (if ug_GUIOptions r = [] then (empty_gui, None)
                else (case us_parse_options env (ug_GUIOptions r) of
                        (g, err) \<Rightarrow>
                          (let links = (case us_GUI_Links env of None \<Rightarrow> go_Links g
                                        | Some l \<Rightarrow> us_MergeGUILinks env (go_Links g) l)
                           in (g\<lparr>go_DisableServerEvents := Some True,
                                 go_Links := us_MergeGUILinks env links (us_DefaultLinks env)\<rparr>, err))))))"

definition keep_or :: "string \<Rightarrow> string \<Rightarrow> string" where
  "keep_or old new = (if new \<noteq> [] then new else old)"

definition merge_options :: "gui_options \<Rightarrow> gui_options \<Rightarrow> gui_options" where
  "merge_options old new = old\<lparr>
     go_Links := [],
     go_Lang := keep_or (go_Lang old) (go_Lang new),
     go_Theme := keep_or (go_Theme old) (go_Theme new),
     go_Timezone := keep_or (go_Timezone old) (go_Timezone new),
     go_Org := keep_or (go_Org old) (go_Org new),
     go_Options := keep_or (go_Options old) (go_Options new),
     go_DefaultPassword := (if go_DefaultPassword new = [] then go_DefaultPassword old
        else if go_DefaultPassword new = ''-'' then [] else go_DefaultPassword new),
     go_DefaultDownloadsLock := go_DefaultDownloadsLock new\<rparr>"

definition SetUserOptions :: "'s user_env \<Rightarrow> string \<Rightarrow> gui_options \<Rightarrow> 's \<Rightarrow> go_error option \<times> 's" where
  "SetUserOptions env username options s =
     (let old = (case GetUserOptions env username s of (g, None) \<Rightarrow> g | (g, Some e) \<Rightarrow> empty_gui)
      in case us_render_options env (merge_options old options) of
           Inl e \<Rightarrow> (Some e, s)
         | Inr serialized \<Rightarrow>
             SetElasticIndex (us_es env) (us_ROOT_ORG_ID env) PERSISTED (options_id username)
               (encode_options \<lparr>ug_Username = username, ug_GUIOptions = serialized, ug_DocType = ''user_options'',
                  ug_Type = ''user_options''\<rparr>) s)"

section \<open>The cache is never used\<close>

definition no_objects :: "cached_user ttl_cache \<Rightarrow> bool" where
  "no_objects c \<longleftrightarrow> list_all (\<lambda>(k, t, x). case x of CachedUserObject _ \<Rightarrow> False | CachedUser _ \<Rightarrow> True) c"

text \<open>The states of a storage manager: it starts empty, reads and writes users.\<close>

inductive user_reach :: "'s user_env \<Rightarrow> 's user_state \<Rightarrow> bool" for env where
  start: "user_reach env (NewUserStorageManager s)"
| get: "user_reach env st \<Longrightarrow> user_reach env (snd (GetUserWithHashes env now username st))"
| set_user: "user_reach env st \<Longrightarrow> user_reach env (snd (SetUser env now u st))"
| other: "user_reach env st \<Longrightarrow> user_reach env (st\<lparr>ut_store := s\<rparr>)"

lemma no_objects_get: "no_objects c \<Longrightarrow> ttl_get now k c = Some x \<Longrightarrow> \<exists>u. x = CachedUser u"
proof -
  assume "no_objects c" "ttl_get now k c = Some x"
  then obtain t where "(k, t, x) \<in> set c"
    by (auto simp: ttl_get_def split: option.splits if_splits dest: map_of_SomeD)
  then show ?thesis using \<open>no_objects c\<close> by (cases x) (auto simp: no_objects_def list_all_iff)
qed

lemma no_objects_set: "no_objects c \<Longrightarrow> no_objects (ttl_set d now k (CachedUser u) c)"
  unfolding ttl_set_def no_objects_def by (induction c) auto

lemma no_objects_hit:
  assumes "no_objects c"
  shows "no_objects (snd (ttl_hit d now k c)) \<and>
    (fst (ttl_hit d now k c) = None \<or> (\<exists>u. fst (ttl_hit d now k c) = Some (CachedUser u)))"
  using assms no_objects_get [OF assms] no_objects_set [OF assms]
  by (fastforce simp: ttl_hit_def split: option.splits)

lemma GetUser_reads:
  assumes "no_objects (ut_lru st)"
  shows "fst (GetUserWithHashes env now username st) =
    (if username = [] then Inl (Err ''Must set a username'')
     else case validateUsername env username of
            Some e \<Rightarrow> Inl e | None \<Rightarrow> read_user env username (ut_store st))"
    and "no_objects (ut_lru (snd (GetUserWithHashes env now username st)))"
    and "ut_store (snd (GetUserWithHashes env now username st)) = ut_store st"
  using no_objects_hit [OF assms, of user_ttl now username] assms
  by (cases "ttl_hit user_ttl now username (ut_lru st)";
      auto simp: GetUserWithHashes_def no_objects_set split: option.splits sum.splits)+

lemma user_reach_no_objects: "user_reach env st \<Longrightarrow> no_objects (ut_lru st)"
proof (induction rule: user_reach.induct)
  case (start s)
  then show ?case by (simp add: NewUserStorageManager_def no_objects_def)
next
  case (get st now username)
  then show ?case by (rule_tac GetUser_reads(2)) simp
next
  case (set_user st now u)
  then show ?case
    using no_objects_hit [of "ut_lru st" user_ttl now "vu_Name u"]
    by (cases "ttl_hit user_ttl now (vu_Name u) (ut_lru st)")
      (auto simp: SetUser_def Let_def split: option.splits sum.splits prod.splits)
qed simp

section \<open>What the options rely on\<close>

text \<open>
  The search for a document id, which is not a field of the document, and the write under an id.
\<close>

definition id_docs :: "string \<Rightarrow> string \<Rightarrow> index_docs \<Rightarrow> index_docs" where
  "id_docs i t ds = filter (\<lambda>d. fst d = i \<and> matches (Match ''doc_type'' (JStr t)) (snd d)) ds"

definition id_contract :: "('s, 'z) elastic_scheme \<Rightarrow> ('s \<Rightarrow> cluster \<Rightarrow> string \<Rightarrow> index_docs) \<Rightarrow> bool" where
  "id_contract es docs \<longleftrightarrow>
     (\<forall>c idx i t s. \<exists>tx. os_Search es c idx (doc_type_query i t) s = Inr \<lparr>rp_IsError = False, rp_text = tx,
        rp_json = Some (render_hits (id_docs i t (docs s c idx)) (length (id_docs i t (docs s c idx))))\<rparr>) \<and>
     (\<forall>c idx i j s. i \<noteq> [] \<longrightarrow> (\<exists>r s'. os_Index es c idx i j s = (Inr r, s') \<and> \<not> rp_IsError r \<and>
        docs s' c idx = doc_put i j (docs s c idx)))"

lemma id_search:
  assumes "id_contract es docs" and "GetElasticClient es org = Inr c"
  shows "GetElasticRecordByQuery es org idx (doc_type_query i t) s =
    Inr (case id_docs i t (docs s c (GetIndex org idx)) of [] \<Rightarrow> None | d # ds \<Rightarrow> Some (snd d))"
proof -
  obtain tx where "os_Search es c (GetIndex org idx) (doc_type_query i t) s = Inr \<lparr>rp_IsError = False, rp_text = tx,
      rp_json = Some (render_hits (id_docs i t (docs s c (GetIndex org idx)))
        (length (id_docs i t (docs s c (GetIndex org idx)))))\<rparr>"
    using assms(1) unfolding id_contract_def by blast
  then show ?thesis
    by (simp add: GetElasticRecordByQuery_def assms(2) decode_render split_def split: list.splits)
qed

lemma id_put:
  assumes "id_contract es docs" and "GetElasticClient es org = Inr c" and "i \<noteq> []"
  shows "\<exists>s'. SetElasticIndex es org idx i j s = (None, s') \<and>
    docs s' c (GetIndex org idx) = doc_put i j (docs s c (GetIndex org idx))"
proof -
  obtain r s' where "os_Index es c (GetIndex org idx) i j s = (Inr r, s')" "\<not> rp_IsError r"
    "docs s' c (GetIndex org idx) = doc_put i j (docs s c (GetIndex org idx))"
    using assms(1,3) unfolding id_contract_def by blast
  then show ?thesis
    using assms(2) by (simp add: SetElasticIndex_def SetElasticIndex_once_def write_outcome_def retry_success)
qed

lemma id_docs_put:
  "distinct (map fst ds) \<Longrightarrow> matches (Match ''doc_type'' (JStr t)) j \<Longrightarrow> id_docs i t (doc_put i j ds) = [(i, j)]"
  by (induction i j ds rule: doc_put.induct) (auto simp: id_docs_def filter_empty_conv)

section \<open>Properties\<close>

text \<open>
  The cache of users serves nobody: in every state of a storage manager a user is what the
  store has under the name, checked for reserved names first, with the names its organisations
  have now. The entries are set with one type and looked up with another.
\<close>

theorem users_read_from_store:
  assumes "user_reach env st"
  shows "fst (GetUserWithHashes env now username st) =
    (if username = [] then Inl (Err ''Must set a username'')
     else case validateUsername env username of
            Some e \<Rightarrow> Inl e | None \<Rightarrow> read_user env username (ut_store st))"
  using GetUser_reads(1) [OF user_reach_no_objects [OF assms]] .

text \<open>
  A user that was set is read back by every storage manager on the same store, with the names
  its organisations have now.
\<close>

theorem user_set_then_get:
  assumes "store_contract (us_es env) docs" and "GetElasticClient (us_es env) (us_ROOT_ORG_ID env) = Inr c"
    and "vu_Name u \<noteq> []" and "validateUsername env (vu_Name u) = None"
    and "us_render_user env u = Inr t" and "us_parse_user env t = Inr u" and "us_OrgName env = Inr names"
    and "user_reach env st1"
  shows "\<exists>st'. SetUser env now u st = (None, st') \<and>
    (ut_store st1 = ut_store st' \<longrightarrow> fst (GetUserWithHashes env later (vu_Name u) st1) = Inr (name_orgs names u))"
proof -
  let ?r = "encode_user \<lparr>ur_Username = vu_Name u, ur_Record = t, ur_DocType = ''users''\<rparr>"
  obtain s' where s': "SetElasticIndex (us_es env) (us_ROOT_ORG_ID env) PERSISTED (vu_Name u) ?r (ut_store st) = (None, s')"
    "docs s' c (GetIndex (us_ROOT_ORG_ID env) PERSISTED) =
      doc_put (vu_Name u) ?r (docs (ut_store st) c (GetIndex (us_ROOT_ORG_ID env) PERSISTED))"
    using SetElasticIndex_put [OF assms(1-3)] by blast
  have "GetElasticRecord (us_es env) (us_ROOT_ORG_ID env) PERSISTED (vu_Name u) s' = Inr ?r"
    by (rule GetElasticRecord_found [OF assms(1,2)]) (simp add: s'(2) map_of_doc_put)
  then have "read_user env (vu_Name u) s' = Inr (name_orgs names u)"
    by (simp add: read_user_def assms(6,7))
  then show ?thesis
    using s'(1) assms(3-5) GetUser_reads(1) [OF user_reach_no_objects [OF assms(8)], of env later "vu_Name u"]
    by (auto simp: SetUser_def Let_def)
qed

text \<open>
  The options a user sets are merged with the old ones field by field and read back: an empty
  field keeps the old value, the password \<open>-\<close> clears it, the lock of downloads is always set, and
  the links are those of the configuration and the default ones, never those of the request.
\<close>

theorem user_options_merged:
  assumes "id_contract (us_es env) docs" and "GetElasticClient (us_es env) (us_ROOT_ORG_ID env) = Inr c"
    and "distinct (map fst (docs s c (GetIndex (us_ROOT_ORG_ID env) PERSISTED)))"
    and "old = (case GetUserOptions env username s of (g, None) \<Rightarrow> g | (g, Some e) \<Rightarrow> empty_gui)"
    and "us_render_options env (merge_options old new) = Inr t" and "t \<noteq> []"
    and "us_parse_options env t = (merge_options old new, None)"
  shows "\<exists>s'. SetUserOptions env username new s = (None, s') \<and>
    GetUserOptions env username s' =
      ((merge_options old new)\<lparr>go_DisableServerEvents := Some True,
         go_Links := us_MergeGUILinks env (case us_GUI_Links env of None \<Rightarrow> [] | Some l \<Rightarrow> us_MergeGUILinks env [] l)
           (us_DefaultLinks env)\<rparr>, None)"
proof -
  let ?r = "encode_options \<lparr>ug_Username = username, ug_GUIOptions = t, ug_DocType = ''user_options'',
      ug_Type = ''user_options''\<rparr>"
  have "options_id username \<noteq> []" by (simp add: options_id_def)
  then obtain s' where s': "SetElasticIndex (us_es env) (us_ROOT_ORG_ID env) PERSISTED (options_id username) ?r s = (None, s')"
    "docs s' c (GetIndex (us_ROOT_ORG_ID env) PERSISTED) =
      doc_put (options_id username) ?r (docs s c (GetIndex (us_ROOT_ORG_ID env) PERSISTED))"
    using id_put [OF assms(1,2)] by blast
  have "matches (Match ''doc_type'' (JStr ''user_options'')) ?r"
    by (simp add: field_values_def encode_options_def)
  then have "id_docs (options_id username) ''user_options'' (docs s' c (GetIndex (us_ROOT_ORG_ID env) PERSISTED)) =
      [(options_id username, ?r)]"
    unfolding s'(2) by (rule id_docs_put [OF assms(3)])
  moreover have no_links: "go_Links (merge_options old new) = []" by (simp add: merge_options_def)
  ultimately have "GetUserOptions env username s' =
      ((merge_options old new)\<lparr>go_DisableServerEvents := Some True,
         go_Links := us_MergeGUILinks env (case us_GUI_Links env of None \<Rightarrow> [] | Some l \<Rightarrow> us_MergeGUILinks env [] l)
           (us_DefaultLinks env)\<rparr>, None)"
    using assms(6,7) no_links
    by (cases "us_GUI_Links env") (simp_all add: GetUserOptions_def id_search [OF assms(1,2)] Let_def)
  moreover have "SetUserOptions env username new s = (None, s')"
    using s'(1) assms(5) unfolding assms(4) by (simp add: SetUserOptions_def Let_def)
  ultimately show ?thesis by blast
qed

text \<open>
  A user with no options gets an error instead of the default ones: a search with no hit
  returns no record and no error, and decoding nothing fails.
\<close>

theorem new_user_options_error:
  assumes "id_contract (us_es env) docs" and "GetElasticClient (us_es env) (us_ROOT_ORG_ID env) = Inr c"
    and "\<forall>d \<in> set (docs s c (GetIndex (us_ROOT_ORG_ID env) PERSISTED)). fst d \<noteq> options_id username"
  shows "GetUserOptions env username s = (empty_gui, Some (Err ''unexpected end of JSON input''))"
proof -
  have "id_docs (options_id username) ''user_options'' (docs s c (GetIndex (us_ROOT_ORG_ID env) PERSISTED)) = []"
    using assms(3) by (auto simp: id_docs_def filter_empty_conv)
  then show ?thesis by (simp add: GetUserOptions_def id_search [OF assms(1,2)])
qed

text \<open>
  The list of all users is made of the first ten documents of the index of the root
  organisation, of whatever kind: users beyond them are not listed.
\<close>

theorem list_users_first_ten:
  assumes "search_contract (us_es env) docs" and "GetElasticClient (us_es env) (us_ROOT_ORG_ID env) = Inr c"
  shows "ListAllUsers env s =
    Inr (take_users env (map snd (take 10 (docs s c (GetIndex (us_ROOT_ORG_ID env) PERSISTED)))))"
  using QueryElasticRaw_hits [OF assms, of "query_of MatchAll" PERSISTED s]
  by (simp add: ListAllUsers_def query_of_def search_hits_def sorted_hits_def after_hits_def)

section \<open>A run\<close>

definition mem_id_es :: "mem_es_state elastic" where
  "mem_id_es = mem_es\<lparr>os_Search := (\<lambda>c idx q st. case sq_query q of
      Must [Match f (JStr i), Match g (JStr t)] \<Rightarrow>
        (if f = ''_id'' then ok_reply (render_hits (id_docs i t (mem_docs st idx)) (length (id_docs i t (mem_docs st idx))))
         else os_Search mem_es c idx q st)
    | _ \<Rightarrow> os_Search mem_es c idx q st)\<rparr>"

lemma mem_id_contract: "id_contract mem_id_es (\<lambda>st c idx. mem_docs st idx)"
  by (simp add: id_contract_def mem_id_es_def doc_type_query_def query_of_def ok_reply_def)
    (simp add: mem_es_def ok_reply_def doc_add_def)

lemma mem_id_client: "GetElasticClient mem_id_es org = Inr PrimaryOpenSearch"
  by (simp add: GetElasticClient_def mem_id_es_def mem_es_def)

definition bob :: velo_user where
  "bob = \<lparr>vu_Name = ''bob'', vu_Orgs = [\<lparr>uo_Id = ''O1'', uo_Name = []\<rparr>], vu_Other = JNull\<rparr>"

definition dark :: gui_options where
  "dark = empty_gui\<lparr>go_Theme := ''dark'', go_Links := [''mine'']\<rparr>"

definition sample_user_env :: "mem_es_state elastic \<Rightarrow> mem_es_state user_env" where
  "sample_user_env es = \<lparr>us_es = es, us_ROOT_ORG_ID = ''root'', us_API_PinnedGwName = None,
     us_Client_PinnedServerName = Some ''server'', us_PinnedGwName = ''gw'', us_PinnedServerName = ''server'',
     us_parse_user = (\<lambda>t. if t = ''b'' then Inr bob else Inl IOError), us_render_user = (\<lambda>u. Inr ''b''),
     us_parse_options = (\<lambda>t. (empty_gui\<lparr>go_Theme := t\<rparr>, None)), us_render_options = (\<lambda>g. Inr (go_Theme g)),
     us_OrgName = Inr [''O1'' \<mapsto> ''First''], us_MergeGUILinks = (@), us_GUI_Links = None, us_DefaultLinks = [''docs'']\<rparr>"

lemma sample_user_sel:
  "us_es (sample_user_env es) = es" "us_ROOT_ORG_ID (sample_user_env es) = ''root''"
  "us_render_user (sample_user_env es) u = Inr ''b''" "us_parse_user (sample_user_env es) ''b'' = Inr bob"
  "us_OrgName (sample_user_env es) = Inr [''O1'' \<mapsto> ''First'']"
  "us_render_options (sample_user_env es) g = Inr (go_Theme g)" "us_MergeGUILinks (sample_user_env es) = (@)"
  "us_parse_options (sample_user_env es) t = (empty_gui\<lparr>go_Theme := t\<rparr>, None)"
  "us_GUI_Links (sample_user_env es) = None" "us_DefaultLinks (sample_user_env es) = [''docs'']"
  by (simp_all add: sample_user_env_def)

lemma no_mem_docs: "mem_docs [] idx = []"
  by (simp add: mem_docs_def)

lemma bob_valid: "validateUsername (sample_user_env es) ''bob'' = None"
  by (simp add: validateUsername_def valid_name_def user_char_def sample_user_env_def)

theorem users_read_from_store_witness:
  "fst (GetUserWithHashes (sample_user_env mem_es) 0 ''bob'' (NewUserStorageManager [])) =
    read_user (sample_user_env mem_es) ''bob'' []"
  using users_read_from_store [OF user_reach.start [of "sample_user_env mem_es" "[]"], of 0 "''bob''"] bob_valid [of mem_es]
  by (simp add: NewUserStorageManager_def)

theorem user_set_then_get_witness:
  "\<exists>st'. SetUser (sample_user_env mem_es) 0 bob (NewUserStorageManager []) = (None, st') \<and>
    fst (GetUserWithHashes (sample_user_env mem_es) 9 ''bob'' (NewUserStorageManager (ut_store st'))) =
      Inr (bob\<lparr>vu_Orgs := [\<lparr>uo_Id = ''O1'', uo_Name = ''First''\<rparr>]\<rparr>)"
proof -
  let ?env = "sample_user_env mem_es"
  have n: "vu_Name bob = ''bob''" "name_orgs [''O1'' \<mapsto> ''First''] bob = bob\<lparr>vu_Orgs := [\<lparr>uo_Id = ''O1'', uo_Name = ''First''\<rparr>]\<rparr>"
    by (simp_all add: bob_def name_orgs_def)
  define st' where "st' = snd (SetUser ?env 0 bob (NewUserStorageManager []))"
  have "\<exists>x. SetUser ?env 0 bob (NewUserStorageManager []) = (None, x) \<and>
      (ut_store (NewUserStorageManager (ut_store st')) = ut_store x \<longrightarrow>
       fst (GetUserWithHashes ?env 9 (vu_Name bob) (NewUserStorageManager (ut_store st'))) =
         Inr (name_orgs [''O1'' \<mapsto> ''First''] bob))"
    by (rule user_set_then_get [of ?env "\<lambda>st c idx. mem_docs st idx" PrimaryOpenSearch bob "''b''"])
      (simp_all add: sample_user_sel mem_store_contract n bob_valid user_reach.start)
  then show ?thesis by (auto simp: st'_def NewUserStorageManager_def n)
qed

theorem user_options_merged_witness:
  "\<exists>s'. SetUserOptions (sample_user_env mem_id_es) ''bob'' dark [] = (None, s') \<and>
    GetUserOptions (sample_user_env mem_id_es) ''bob'' s' =
      (empty_gui\<lparr>go_Theme := ''dark'', go_Links := [''docs''], go_DisableServerEvents := Some True\<rparr>, None)"
proof -
  let ?env = "sample_user_env mem_id_es"
  have old: "empty_gui = (case GetUserOptions ?env ''bob'' [] of (g, None) \<Rightarrow> g | (g, Some e) \<Rightarrow> empty_gui)"
    using id_search [OF mem_id_contract mem_id_client]
    by (simp add: GetUserOptions_def sample_user_sel no_mem_docs id_docs_def)
  have m: "merge_options empty_gui dark = empty_gui\<lparr>go_Theme := ''dark''\<rparr>"
    by (simp add: merge_options_def dark_def keep_or_def empty_gui_def)
  show ?thesis
    using user_options_merged [of ?env "\<lambda>st c idx. mem_docs st idx" PrimaryOpenSearch "[]" empty_gui "''bob''" dark "''dark''",
        OF _ _ _ old] mem_id_contract mem_id_client
    by (simp add: sample_user_sel m no_mem_docs) (simp add: empty_gui_def)
qed

theorem new_user_options_error_witness:
  "GetUserOptions (sample_user_env mem_id_es) ''bob'' [] = (empty_gui, Some (Err ''unexpected end of JSON input''))"
  using new_user_options_error [of "sample_user_env mem_id_es" "\<lambda>st c idx. mem_docs st idx"] mem_id_contract mem_id_client
  by (simp add: sample_user_sel no_mem_docs)

definition crowded :: mem_es_state where
  "crowded = [(''persisted'', map (\<lambda>n. (''C'', JObj [])) [0..<10] @
     [(''bob'', encode_user \<lparr>ur_Username = ''bob'', ur_Record = ''b'', ur_DocType = ''users''\<rparr>)])]"

theorem list_users_first_ten_witness:
  "ListAllUsers (sample_user_env mem_es) crowded = Inr []"
proof -
  have "GetIndex ''root'' PERSISTED = ''persisted''" by code_simp
  then have d: "take 10 (mem_docs crowded (GetIndex ''root'' PERSISTED)) = replicate 10 (''C'', JObj [])"
    by (simp add: crowded_def mem_docs_def map_replicate_trivial numeral_eq_Suc upt_rec)
  have "take_users (sample_user_env mem_es) (replicate n (JObj [])) = []" for n
    by (induction n) (simp_all add: decode_user_def get_str_def sample_user_env_def)
  then show ?thesis
    using list_users_first_ten [of "sample_user_env mem_es" "\<lambda>st c idx. mem_docs st idx" PrimaryOpenSearch crowded]
      mem_search_contract by (simp add: sample_user_sel d)
qed

end
