(* ===== verification/Schema.thy ===== *)
theory Schema
  imports Elastic
begin

text \<open>
  The installation of the index templates and the removal of the indexes of an organisation
  (\<open>schema/initialize.go\<close>).
\<close>

section \<open>Environment\<close>

text \<open>
  The embedded template files with their texts, the JSON they hold, and the two administrative
  requests of the client: the deletion of the indexes a pattern names and of a data stream. Their
  replies are not looked at, so only an error of the request is left of them. \<open>sm_order\<close> is the
  order in which the map of clients is walked.
\<close>

record 's schema_env =
  sm_es :: "'s elastic"
  sm_files :: "(string \<times> string) list"
  sm_template :: "string \<Rightarrow> json"
  sm_order :: "cluster list"
  sm_IndicesDelete :: "cluster \<Rightarrow> string \<Rightarrow> 's \<Rightarrow> go_error option \<times> 's"
  sm_DeleteDataStream :: "cluster \<Rightarrow> string \<Rightarrow> 's \<Rightarrow> go_error option \<times> 's"

definition template_name :: "string \<Rightarrow> string" where
  "template_name filename = hd (Split (CHR ''.'') filename)"

section \<open>Removing the indexes of an organisation\<close>

text \<open>A missing index is no error.\<close>

definition unless_missing :: "go_error option \<times> 's \<Rightarrow> go_error option \<times> 's" where
  "unless_missing p = (case p of (e, s) \<Rightarrow> (if e = Some ErrNotExist then None else e, s))"

fun delete_streams ::
  "'s schema_env \<Rightarrow> cluster \<Rightarrow> string \<Rightarrow> (string \<times> string) list \<Rightarrow> 's \<Rightarrow> go_error option \<times> 's" where
  "delete_streams env client org_id [] s = (None, s)"
| "delete_streams env client org_id ((filename, text_data) # files) s =
     (if Contains text_data ''data_stream''
      then orElse (unless_missing (sm_DeleteDataStream env client (GetIndex org_id (template_name filename)) s))
             (delete_streams env client org_id files)
      else delete_streams env client org_id files s)"

definition schema_Delete :: "'s schema_env \<Rightarrow> string \<Rightarrow> 's \<Rightarrow> go_error option \<times> 's" where
  "schema_Delete env org_id s =
     (case GetElasticClient (sm_es env) org_id of
        Inl e \<Rightarrow> (Some e, s)
      | Inr client \<Rightarrow>
          orElse (unless_missing (sm_IndicesDelete env client (org_id @ ''*'') s))
            (delete_streams env client org_id (sm_files env)))"

text \<open>\<open>strings.Split\<close> with a separator of more than one byte.\<close>

function split_on :: "string \<Rightarrow> string \<Rightarrow> string \<Rightarrow> string list" where
  "split_on sep acc [] = [rev acc]"
| "sep \<noteq> [] \<and> HasPrefix (c # s) sep \<Longrightarrow>
     split_on sep acc (c # s) = rev acc # split_on sep [] (drop (length sep) (c # s))"
| "\<not> (sep \<noteq> [] \<and> HasPrefix (c # s) sep) \<Longrightarrow> split_on sep acc (c # s) = split_on sep (c # acc) s"
  by (metis neq_Nil_conv prod_cases3) auto

termination
  by (relation "measure (\<lambda>(sep, acc, s). length s)") auto

definition org_parts :: "string \<Rightarrow> string list" where
  "org_parts idx = (case split_on ''_results'' [] idx of [a, b] \<Rightarrow> [a] | _ \<Rightarrow> [])"

definition getAllOrgs :: "'s schema_env \<Rightarrow> 's \<Rightarrow> string list result" where
  "getAllOrgs env s =
     bindR (ListIndexes (sm_es env) (sm_order env) s) (\<lambda>indexes. Inr (''root'' # concat (map org_parts indexes)))"

fun delete_orgs :: "'s schema_env \<Rightarrow> string list \<Rightarrow> 's \<Rightarrow> go_error option \<times> 's" where
  "delete_orgs env [] s = (None, s)"
| "delete_orgs env (org_id # orgs) s = orElse (schema_Delete env org_id s) (delete_orgs env orgs)"

definition DeleteAllOrgs :: "'s schema_env \<Rightarrow> 's \<Rightarrow> go_error option \<times> 's" where
  "DeleteAllOrgs env s =
     (case getAllOrgs env s of
        Inl e \<Rightarrow> (Some e, s)
      | Inr all_orgs \<Rightarrow> delete_orgs env (''root'' # all_orgs) s)"

section \<open>Installing the templates\<close>

text \<open>A template that is there is left alone; errors of the installation are logged only.\<close>

definition install_template :: "'s schema_env \<Rightarrow> bool \<Rightarrow> string \<times> string \<Rightarrow> 's \<Rightarrow> 's" where
  "install_template env secondary f s =
     (let name = template_name (fst f)
      in if DoesTemplateExist (sm_es env) (sm_order env) name s = None then s
         else (let s1 = snd (PutTemplate (sm_es env) name (sm_template env (snd f)) PrimaryOpenSearch s)
               in if secondary then snd (PutTemplate (sm_es env) name (sm_template env (snd f)) SecondaryOpenSearch s1)
                  else s1))"

definition InstallIndexTemplates :: "'s schema_env \<Rightarrow> bool \<Rightarrow> 's \<Rightarrow> go_error option \<times> 's" where
  "InstallIndexTemplates env secondary s = (None, fold (install_template env secondary) (sm_files env) s)"

section \<open>What the requests do\<close>

text \<open>
  The documented effect: a pattern that ends in a star names the indexes with the text before it
  as a prefix, a data stream is named by itself; nothing else changes.
\<close>

definition admin_contract :: "'s schema_env \<Rightarrow> ('s \<Rightarrow> cluster \<Rightarrow> string \<Rightarrow> index_docs) \<Rightarrow> bool" where
  "admin_contract env docs \<longleftrightarrow>
     (\<forall>c p s. \<exists>s'. sm_IndicesDelete env c (p @ ''*'') s = (None, s') \<and>
        (\<forall>idx. docs s' c idx = (if HasPrefix idx p then [] else docs s c idx))) \<and>
     (\<forall>c name s. \<exists>e s'. unless_missing (sm_DeleteDataStream env c name s) = (e, s') \<and>
        (\<forall>idx. idx \<noteq> name \<longrightarrow> docs s' c idx = docs s c idx))"

lemma delete_streams_others:
  assumes "admin_contract env docs" and "\<forall>f \<in> set files. idx \<noteq> GetIndex org (template_name (fst f)) \<or>
    \<not> Contains (snd f) ''data_stream''"
  shows "docs (snd (delete_streams env c org files s)) c idx = docs s c idx"
  using assms(2)
proof (induction files arbitrary: s)
  case (Cons f files)
  obtain filename tx where f: "f = (filename, tx)" by fastforce
  show ?case
  proof (cases "Contains tx ''data_stream''")
    case True
    obtain e s' where s': "unless_missing (sm_DeleteDataStream env c (GetIndex org (template_name filename)) s) = (e, s')"
      "\<forall>x. x \<noteq> GetIndex org (template_name filename) \<longrightarrow> docs s' c x = docs s c x"
      using assms(1) unfolding admin_contract_def by metis
    then have "docs s' c idx = docs s c idx" using Cons.prems f True by simp
    then show ?thesis using s'(1) Cons f True by (cases e) auto
  next
    case False
    then show ?thesis using Cons f by simp
  qed
qed simp

lemma index_of_upper_org:
  assumes "ToLower org \<noteq> org" and "org \<noteq> []"
  shows "\<not> HasPrefix (GetIndex org name) org"
proof -
  have "org \<noteq> ''root''"
  proof
    assume "org = ''root''"
    moreover have "ToLower ''root'' = ''root''" by code_simp
    ultimately show False using assms(1) by simp
  qed
  then have i: "GetIndex org name = ToLower org @ ''_'' @ name" using assms(2) by (simp add: GetIndex_def)
  have "length (ToLower org) = length org" by (simp add: ToLower_def)
  then have "take (length org) (GetIndex org name) = ToLower org" unfolding i by simp
  then show ?thesis using assms(1) by (simp add: HasPrefix_def)
qed

text \<open>
  C32. Removing an organisation keeps its persistent documents when its id has an upper case
  letter, as all ids the program makes have: the pattern is the id as it is, the index names have
  it in lower case.
\<close>

theorem deleted_schema_keeps_documents:
  assumes "admin_contract env docs" and "GetElasticClient (sm_es env) org = Inr c"
    and "ToLower org \<noteq> org"
    and "\<forall>f \<in> set (sm_files env). template_name (fst f) = PERSISTED \<longrightarrow> \<not> Contains (snd f) ''data_stream''"
  shows "docs (snd (schema_Delete env org s)) c (GetIndex org PERSISTED) = docs s c (GetIndex org PERSISTED)"
proof -
  have ne: "org \<noteq> []" using assms(3) by (auto simp: ToLower_def)
  obtain s' where s': "sm_IndicesDelete env c (org @ ''*'') s = (None, s')"
    "\<forall>idx. docs s' c idx = (if HasPrefix idx org then [] else docs s c idx)"
    using assms(1) unfolding admin_contract_def by blast
  have inj: "a = b" if "GetIndex org a = GetIndex org b" for a b
    using that by (auto simp: GetIndex_def split: if_splits)
  have "docs (snd (delete_streams env c org (sm_files env) s')) c (GetIndex org PERSISTED) = docs s' c (GetIndex org PERSISTED)"
    using assms(4) inj by (intro delete_streams_others [OF assms(1)]) metis
  then show ?thesis
    using s' index_of_upper_org [OF assms(3) ne] by (simp add: schema_Delete_def assms(2) unless_missing_def)
qed

section \<open>A run\<close>

definition sample_schema_env :: "mem_es_state schema_env" where
  "sample_schema_env = \<lparr>sm_es = mem_es,
     sm_files = [(''persisted.json'', ''{}''), (''transient.json'', ''{data_stream}'')], sm_template = JStr,
     sm_order = [PrimaryOpenSearch],
     sm_IndicesDelete = (\<lambda>c p s. (None, filter (\<lambda>(k, v). \<not> HasPrefix k (butlast p)) s)),
     sm_DeleteDataStream = (\<lambda>c name s. (None, filter (\<lambda>(k, v). k \<noteq> name) s))\<rparr>"

lemma mem_docs_filter: "mem_docs (filter (\<lambda>(k, v). P k) st) idx = (if P idx then mem_docs st idx else [])"
  by (induction st) (auto simp: mem_docs_def split: option.splits)

lemma sample_admin_contract: "admin_contract sample_schema_env (\<lambda>st c idx. mem_docs st idx)"
  by (simp add: admin_contract_def sample_schema_env_def unless_missing_def mem_docs_filter)

definition two_orgs :: mem_es_state where
  "two_orgs = [(''o1_persisted'', [(''C.1'', JObj [])]), (''o1_transient'', [(''x'', JObj [])])]"

theorem deleted_schema_keeps_documents_witness:
  "mem_docs (snd (schema_Delete sample_schema_env ''O1'' two_orgs)) (GetIndex ''O1'' PERSISTED) =
    mem_docs two_orgs (GetIndex ''O1'' PERSISTED)"
proof -
  have "ToLower ''O1'' \<noteq> ''O1''" "template_name ''transient.json'' \<noteq> PERSISTED" "\<not> Contains ''{}'' ''data_stream''"
    by code_simp+
  then show ?thesis
    using deleted_schema_keeps_documents [OF sample_admin_contract, of "''O1''" PrimaryOpenSearch two_orgs]
    by (simp add: sample_schema_env_def)
qed

end
