(* ===== verification/Orgs.thy ===== *)
theory Orgs
  imports Schema "HOL-Library.AList"
begin

text \<open>
  The organisations of a server (\<open>services/orgs/orgs.go\<close>, \<open>services.go\<close>, \<open>delete.go\<close>,
  \<open>ids.go\<close>): their records in the index of the root organisation, the contexts a server keeps in
  memory, and the nonces by which clients name them.
\<close>

section \<open>Records and contexts\<close>

record org_record =
  og_OrgId :: string
  og_Id :: string
  og_Name :: string
  og_Nonce :: string
  og_DocType :: string

definition encode_org :: "org_record \<Rightarrow> json" where
  "encode_org r = JObj [(''org_id'', JStr (og_OrgId r)), (''id'', JStr (og_Id r)), (''name'', JStr (og_Name r)),
     (''nonce'', JStr (og_Nonce r)), (''doc_type'', JStr (og_DocType r))]"

definition decode_org :: "json \<Rightarrow> org_record result" where
  "decode_org j = bindR (get_str ''org_id'' j) (\<lambda>a. bindR (get_str ''id'' j) (\<lambda>b.
     bindR (get_str ''name'' j) (\<lambda>c. bindR (get_str ''nonce'' j) (\<lambda>d. bindR (get_str ''doc_type'' j) (\<lambda>e.
       Inr \<lparr>og_OrgId = a, og_Id = b, og_Name = c, og_Nonce = d, og_DocType = e\<rparr>)))))"

lemma decode_encode_org [simp]: "decode_org (encode_org r) = Inr r"
  by (simp add: encode_org_def decode_org_def get_str_def)

text \<open>The part of a configuration the program sets for an organisation.\<close>

record org_config =
  cg_OrgId :: string
  cg_OrgName :: string
  cg_ClientNonce :: "string option"

record org_context =
  oc_record :: org_record
  oc_config :: org_config

section \<open>Environment and state\<close>

text \<open>
  The root's configuration; the set-up of the stores and repositories of a new context, which may
  fail at each attempt, and of the services before the first one; the random bytes; the removal of
  an organisation from its users; the order of Go's map.
\<close>

record 's org_env =
  or_schema :: "'s schema_env"
  or_ROOT_ORG_ID :: string
  or_ORG_PREFIX :: string
  or_config :: org_config
  or_setup :: "nat \<Rightarrow> org_config \<Rightarrow> go_error option"
  or_services :: "'s \<Rightarrow> go_error option \<times> 's"
  or_repository :: "go_error option"
  or_rand2 :: "nat \<Rightarrow> nat \<times> nat"
  or_nonce :: "nat \<Rightarrow> string"
  or_RandomNonce :: string
  or_RemoveOrgFromUsers :: "string \<Rightarrow> string \<Rightarrow> 's \<Rightarrow> go_error option \<times> 's"
  or_order :: "(string \<times> org_context) list \<Rightarrow> (string \<times> org_context) list"

abbreviation or_es :: "'s org_env \<Rightarrow> 's elastic" where
  "or_es env \<equiv> sm_es (or_schema env)"

record 's org_state =
  om_store :: 's
  om_orgs :: "(string \<times> org_context) list"
  om_nonces :: "string \<rightharpoonup> string"
  om_rand :: nat

definition IsRootOrg :: "string \<Rightarrow> bool" where
  "IsRootOrg org_id \<longleftrightarrow> org_id = [] \<or> org_id = ''root''"

section \<open>Identifiers\<close>

text \<open>
  \<open>base32.HexEncoding\<close> of two bytes, without the padding: five bits for each of the first three
  digits and one bit for the last.
\<close>

definition hex32 :: "nat \<Rightarrow> char" where
  "hex32 n = ''0123456789ABCDEFGHIJKLMNOPQRSTUV'' ! n"

definition base32_two :: "nat \<Rightarrow> nat \<Rightarrow> string" where
  "base32_two a b =
     [hex32 (a div 8), hex32 (a mod 8 * 4 + b div 64), hex32 (b div 2 mod 32), hex32 (b mod 2 * 16)]"

definition NewOrgId :: "'s org_env \<Rightarrow> nat \<Rightarrow> string" where
  "NewOrgId env n = or_ORG_PREFIX env @ (case or_rand2 env n of (a, b) \<Rightarrow> base32_two a b)"

definition NewNonce :: "'s org_env \<Rightarrow> nat \<Rightarrow> string" where
  "NewNonce env n = or_nonce env n"

section \<open>Look-ups\<close>

definition ListOrgs :: "'s org_env \<Rightarrow> 's org_state \<Rightarrow> org_record list" where
  "ListOrgs env st = map (\<lambda>(k, c). oc_record c) (or_order env (om_orgs st))"

definition getContext :: "string \<Rightarrow> 's org_state \<Rightarrow> org_context result" where
  "getContext org_id st =
     (case map_of (om_orgs st) (if org_id = [] then ''root'' else org_id) of
        None \<Rightarrow> Inl (Err (''Unknown org id: '' @ (if org_id = [] then ''root'' else org_id)))
      | Some c \<Rightarrow> Inr c)"

definition GetOrgConfig :: "string \<Rightarrow> 's org_state \<Rightarrow> org_config result" where
  "GetOrgConfig org_id st = bindR (getContext org_id st) (\<lambda>c. Inr (oc_config c))"

definition GetOrg :: "'s org_env \<Rightarrow> string \<Rightarrow> 's org_state \<Rightarrow> org_record result" where
  "GetOrg env org_id st =
     (case map_of (om_orgs st) (if IsRootOrg org_id then or_ROOT_ORG_ID env else org_id) of
        None \<Rightarrow> Inl NotFoundError
      | Some c \<Rightarrow> Inr (oc_record c))"

definition OrgIdByNonce :: "'s org_env \<Rightarrow> string \<Rightarrow> 's org_state \<Rightarrow> string result" where
  "OrgIdByNonce env nonce st =
     (if cg_ClientNonce (or_config env) = Some nonce then Inr []
      else (case om_nonces st nonce of None \<Rightarrow> Inl NotFoundError | Some i \<Rightarrow> Inr i))"

section \<open>New contexts\<close>

definition makeNewConfigObj :: "'s org_env \<Rightarrow> org_record \<Rightarrow> org_config" where
  "makeNewConfigObj env r = (or_config env)\<lparr>cg_OrgId := og_Id r, cg_OrgName := og_Name r,
     cg_ClientNonce := (case cg_ClientNonce (or_config env) of None \<Rightarrow> None | Some n \<Rightarrow> Some (og_Nonce r))\<rparr>"

text \<open>The root's record is fixed; \<open>None\<close> is the dereference of a missing client section.\<close>

definition org_record_of :: "'s org_env \<Rightarrow> string \<Rightarrow> string \<Rightarrow> string \<Rightarrow> org_record option" where
  "org_record_of env org_id name nonce =
     (if IsRootOrg org_id
      then (case cg_ClientNonce (or_config env) of
              None \<Rightarrow> None
            | Some n \<Rightarrow> Some \<lparr>og_OrgId = ''root'', og_Id = ''root'', og_Name = ''<root>'', og_Nonce = n, og_DocType = ''orgs''\<rparr>)
      else Some \<lparr>og_OrgId = org_id, og_Id = org_id, og_Name = name, og_Nonce = nonce, og_DocType = ''orgs''\<rparr>)"

definition org_context_of :: "'s org_env \<Rightarrow> org_record \<Rightarrow> org_context" where
  "org_context_of env r = \<lparr>oc_record = r, oc_config = makeNewConfigObj env r\<rparr>"

text \<open>The context is registered before the set-up that may fail.\<close>

definition makeNewOrgContext ::
  "'s org_env \<Rightarrow> string \<Rightarrow> string \<Rightarrow> string \<Rightarrow> 's org_state \<Rightarrow> org_context result \<times> 's org_state" where
  "makeNewOrgContext env org_id name nonce st =
     (case org_record_of env org_id name nonce of
        None \<Rightarrow> (Inl NilDereference, st)
      | Some r \<Rightarrow>
          (let c = org_context_of env r;
               st1 = st\<lparr>om_orgs := AList.update (og_OrgId r) c (om_orgs st), om_rand := Suc (om_rand st)\<rparr>
           in case or_setup env (om_rand st) (oc_config c) of
                Some e \<Rightarrow> (Inl e, st1)
              | None \<Rightarrow> (Inr c, st1)))"

text \<open>The context of a client, under the key of the root whatever its id.\<close>

definition makeClientOrgContext ::
  "'s org_env \<Rightarrow> string \<Rightarrow> string \<Rightarrow> string \<Rightarrow> 's org_state \<Rightarrow> org_context result \<times> 's org_state" where
  "makeClientOrgContext env org_id name nonce st =
     (case org_record_of env org_id name nonce of
        None \<Rightarrow> (Inl NilDereference, st)
      | Some r \<Rightarrow>
          (let c = org_context_of env r;
               st1 = st\<lparr>om_orgs := AList.update ''root'' c (om_orgs st), om_rand := Suc (om_rand st)\<rparr>
           in case or_setup env (om_rand st) (oc_config c) of
                Some e \<Rightarrow> (Inl e, st1)
              | None \<Rightarrow> (Inr c, st1)))"

definition register_org :: "string \<Rightarrow> string \<Rightarrow> org_context \<Rightarrow> 's org_state \<Rightarrow> 's org_state" where
  "register_org org_id nonce c st =
     st\<lparr>om_orgs := AList.update org_id c (om_orgs st), om_nonces := (om_nonces st)(nonce \<mapsto> org_id)\<rparr>"

section \<open>Creating, scanning and deleting\<close>

definition CreateNewOrg ::
  "'s org_env \<Rightarrow> string \<Rightarrow> string \<Rightarrow> string \<Rightarrow> 's org_state \<Rightarrow> (org_record result \<times> go_error option) \<times> 's org_state"
where
  "CreateNewOrg env name i nonce st =
     (case (if i = [] then Inl NotFoundError else GetOrg env i st) of
        Inr r \<Rightarrow> ((Inr r, None), st)
      | Inl _ \<Rightarrow>
          (let st1 = st\<lparr>om_rand := Suc (om_rand st)\<rparr>;
               i1 = (if i = [] then NewOrgId env (om_rand st) else i);
               nonce1 = (if nonce = or_RandomNonce env then NewNonce env (om_rand st) else nonce)
           in case makeNewOrgContext env i1 name nonce1 st1 of
                (Inl e, st2) \<Rightarrow> ((Inl e, Some e), st2)
              | (Inr c, st2) \<Rightarrow>
                  (let st3 = register_org (og_Id (oc_record c)) (og_Nonce (oc_record c)) c st2
                   in case SetElasticIndex (or_es env) (or_ROOT_ORG_ID env) PERSISTED (og_Id (oc_record c))
                             (encode_org (oc_record c)) (om_store st3) of
                        (e, s) \<Rightarrow> ((Inr (oc_record c), e), st3\<lparr>om_store := s\<rparr>))))"

definition orgs_query :: search_req where
  "orgs_query = (query_of (Must [Match ''doc_type'' (JStr ''orgs'')]))\<lparr>sq_size := Some 10000\<rparr>"

text \<open>
  A record as the scan reads it: old records have only \<open>org_id\<close>, and the root's is fixed, with the
  nonce of the client section, which the start has looked for.
\<close>

definition scanned_record :: "'s org_env \<Rightarrow> org_record \<Rightarrow> org_record" where
  "scanned_record env r0 =
     (let r = (if og_OrgId r0 \<noteq> [] \<and> og_Id r0 = [] then r0\<lparr>og_Id := og_OrgId r0\<rparr> else r0)
      in if IsRootOrg (og_Id r)
         then r\<lparr>og_Id := ''root'', og_Name := ''<root>'',
                og_Nonce := (case cg_ClientNonce (or_config env) of None \<Rightarrow> [] | Some n \<Rightarrow> n)\<rparr>
         else r)"

definition scan_record :: "'s org_env \<Rightarrow> org_record \<Rightarrow> 's org_state \<Rightarrow> 's org_state" where
  "scan_record env r st =
     (case map_of (om_orgs st) (og_Id r) of
        Some c \<Rightarrow> st
      | None \<Rightarrow>
          (case makeNewOrgContext env (og_Id r) (og_Name r) (og_Nonce r) st of
             (Inl e, st1) \<Rightarrow> st1
           | (Inr c, st1) \<Rightarrow> register_org (og_Id r) (og_Nonce r) c st1))"

definition scan_hit :: "'s org_env \<Rightarrow> json \<Rightarrow> 's org_state \<Rightarrow> 's org_state" where
  "scan_hit env hit st =
     (case decode_org hit of Inl e \<Rightarrow> st | Inr r \<Rightarrow> scan_record env (scanned_record env r) st)"

definition Scan :: "'s org_env \<Rightarrow> 's org_state \<Rightarrow> go_error option \<times> 's org_state" where
  "Scan env st =
     (case QueryElasticRaw (or_es env) (or_ROOT_ORG_ID env) PERSISTED orgs_query (om_store st) of
        Inl e \<Rightarrow> (Some e, st)
      | Inr (hits, n) \<Rightarrow> (None, fold (scan_hit env) hits st))"

definition DeleteOrg :: "'s org_env \<Rightarrow> string \<Rightarrow> string \<Rightarrow> 's org_state \<Rightarrow> go_error option \<times> 's org_state" where
  "DeleteOrg env who org_id st =
     (if IsRootOrg org_id then (Some (Err ''Can not remove root org.''), st)
      else (case or_RemoveOrgFromUsers env who org_id (om_store st) of
         (Some e, s) \<Rightarrow> (Some e, st\<lparr>om_store := s\<rparr>)
       | (None, s) \<Rightarrow>
           (case DeleteDocument (or_es env) (or_ROOT_ORG_ID env) PERSISTED org_id True s of
              (Some e, s1) \<Rightarrow> (Some e, st\<lparr>om_store := s1\<rparr>)
            | (None, s1) \<Rightarrow>
                (case schema_Delete (or_schema env) org_id s1 of
                   (e, s2) \<Rightarrow> (e, st\<lparr>om_store := s2, om_orgs := AList.delete org_id (om_orgs st),
                                  om_nonces := (om_nonces st)(org_id := None)\<rparr>)))))"

section \<open>Start\<close>

definition NewOrgManager_state :: "'s \<Rightarrow> 's org_state" where
  "NewOrgManager_state s = \<lparr>om_store = s, om_orgs = [], om_nonces = Map.empty, om_rand = 0\<rparr>"

text \<open>
  The start of the server: the services, the root's context, a scan, the registration of the root,
  the root's repository and a second scan; \<open>Scan\<close> then runs every ten seconds.
\<close>

definition Start :: "'s org_env \<Rightarrow> 's org_state \<Rightarrow> go_error option \<times> 's org_state" where
  "Start env st =
     (case cg_ClientNonce (or_config env) of
        None \<Rightarrow> (Some (Err ''Config object is missing a Client section''), st)
      | Some nonce \<Rightarrow>
          (case or_services env (om_store st) of
             (Some e, s) \<Rightarrow> (Some e, st\<lparr>om_store := s\<rparr>)
           | (None, s) \<Rightarrow>
               (case makeNewOrgContext env ''root'' ''<root>'' nonce (st\<lparr>om_store := s\<rparr>) of
                  (Inl e, st1) \<Rightarrow> (Some e, st1)
                | (Inr c, st1) \<Rightarrow>
                    (case Scan env st1 of
                       (Some e, st2) \<Rightarrow> (Some e, st2)
                     | (None, st2) \<Rightarrow>
                         (let st3 = register_org (og_Id (oc_record c)) (og_Nonce (oc_record c)) c st2
                          in case or_repository env of
                               Some e \<Rightarrow> (Some e, st3)
                             | None \<Rightarrow> Scan env st3)))))"

definition NewOrgManager :: "'s org_env \<Rightarrow> 's \<Rightarrow> go_error option \<times> 's org_state" where
  "NewOrgManager env s = Start env (NewOrgManager_state s)"

definition StartClientOrgManager :: "'s org_env \<Rightarrow> 's org_state \<Rightarrow> go_error option \<times> 's org_state" where
  "StartClientOrgManager env st =
     (case cg_ClientNonce (or_config env) of
        None \<Rightarrow> (Some NilDereference, st)
      | Some nonce \<Rightarrow>
          (case makeClientOrgContext env ''root'' ''<root>'' nonce st of
             (Inl e, st1) \<Rightarrow> (Some e, st1)
           | (Inr c, st1) \<Rightarrow>
               (or_repository env, register_org (og_Id (oc_record c)) (og_Nonce (oc_record c)) c st1)))"

definition NewClientOrgManager :: "'s org_env \<Rightarrow> 's \<Rightarrow> go_error option \<times> 's org_state" where
  "NewClientOrgManager env s = StartClientOrgManager env (NewOrgManager_state s)"

section \<open>What a scan and a creation register\<close>

lemmas org_defs = makeNewOrgContext_def register_org_def org_context_of_def org_record_of_def Let_def

lemma scanned_id: "og_Id (scanned_record env r) \<noteq> []"
  by (simp add: scanned_record_def Let_def IsRootOrg_def)

lemma record_of_id:
  assumes "org_record_of env i name nonce = Some r" and "i \<noteq> []"
  shows "og_OrgId r = i" and "og_Id r = i"
  using assms by (auto simp: org_record_of_def IsRootOrg_def split: if_splits option.splits)

lemma scan_record_other:
  assumes "og_Id r \<noteq> []"
  shows "k \<noteq> og_Id r \<or> map_of (om_orgs st) k \<noteq> None \<Longrightarrow> map_of (om_orgs (scan_record env r st)) k = map_of (om_orgs st) k"
    and "n \<noteq> og_Nonce r \<Longrightarrow> om_nonces (scan_record env r st) n = om_nonces st n"
    and "om_store (scan_record env r st) = om_store st"
  using record_of_id(1) [OF _ assms]
  by (auto simp: scan_record_def makeNewOrgContext_def register_org_def Let_def update_conv'
      split: option.splits sum.splits)

lemma scan_hit_other:
  assumes "\<And>r. decode_org hit = Inr r \<Longrightarrow> og_Id (scanned_record env r) \<noteq> k \<or> map_of (om_orgs st) k \<noteq> None"
  shows "map_of (om_orgs (scan_hit env hit st)) k = map_of (om_orgs st) k"
proof (cases "decode_org hit")
  case (Inr r)
  then show ?thesis
    using scan_record_other(1) [OF scanned_id, of k env r st env] assms by (auto simp: scan_hit_def)
qed (simp add: scan_hit_def)

lemma scan_hit_nonce:
  assumes "\<And>r. decode_org hit = Inr r \<Longrightarrow> og_Nonce (scanned_record env r) \<noteq> n"
  shows "om_nonces (scan_hit env hit st) n = om_nonces st n"
proof (cases "decode_org hit")
  case (Inr r)
  then show ?thesis
    using scan_record_other(2) [OF scanned_id, of n env r env st] assms by (auto simp: scan_hit_def)
qed (simp add: scan_hit_def)

lemma scan_hits_keep:
  "map_of (om_orgs st) k = Some c \<Longrightarrow> map_of (om_orgs (fold (scan_hit env) hits st)) k = Some c"
  by (induction hits arbitrary: st) (simp_all add: scan_hit_other)

lemma scan_hits_other:
  "\<forall>h \<in> set hits. \<forall>r. decode_org h = Inr r \<longrightarrow> og_Id (scanned_record env r) \<noteq> k \<Longrightarrow>
   map_of (om_orgs (fold (scan_hit env) hits st)) k = map_of (om_orgs st) k"
  by (induction hits arbitrary: st) (simp_all add: scan_hit_other)

lemma scan_hits_nonce:
  "\<forall>h \<in> set hits. \<forall>r. decode_org h = Inr r \<longrightarrow> og_Nonce (scanned_record env r) \<noteq> n \<Longrightarrow>
   om_nonces (fold (scan_hit env) hits st) n = om_nonces st n"
  by (induction hits arbitrary: st) (simp_all add: scan_hit_nonce)

text \<open>A new record that can be set up is registered under its id and nonce.\<close>

lemma scan_hit_registers:
  assumes "decode_org hit = Inr r" and "scanned_record env r = r" and "\<not> IsRootOrg (og_Id r)" and "og_OrgId r = og_Id r"
    and "og_DocType r = ''orgs''" and "map_of (om_orgs st) (og_Id r) = None" and "\<And>n c. or_setup env n c = None"
  shows "map_of (om_orgs (scan_hit env hit st)) (og_Id r) = Some (org_context_of env r)"
    and "om_nonces (scan_hit env hit st) (og_Nonce r) = Some (og_Id r)"
proof -
  have "org_record_of env (og_Id r) (og_Name r) (og_Nonce r) = Some r"
    using assms(3-5) by (cases r) (simp add: org_record_of_def)
  then show "map_of (om_orgs (scan_hit env hit st)) (og_Id r) = Some (org_context_of env r)"
    and "om_nonces (scan_hit env hit st) (og_Nonce r) = Some (og_Id r)"
    using assms(1,2,4,6,7)
    by (simp_all add: scan_hit_def scan_record_def makeNewOrgContext_def register_org_def Let_def update_conv')
qed

lemma scan_registers:
  assumes "hits = xs @ h # ys" and "decode_org h = Inr r" and "scanned_record env r = r" and "\<not> IsRootOrg (og_Id r)"
    and "og_OrgId r = og_Id r" and "og_DocType r = ''orgs''" and "map_of (om_orgs st) (og_Id r) = None"
    and "\<And>n c. or_setup env n c = None"
    and "\<forall>x \<in> set xs \<union> set ys. \<forall>q. decode_org x = Inr q \<longrightarrow>
      og_Id (scanned_record env q) \<noteq> og_Id r \<and> og_Nonce (scanned_record env q) \<noteq> og_Nonce r"
  shows "map_of (om_orgs (fold (scan_hit env) hits st)) (og_Id r) = Some (org_context_of env r)"
    and "om_nonces (fold (scan_hit env) hits st) (og_Nonce r) = Some (og_Id r)"
proof -
  let ?st = "fold (scan_hit env) xs st"
  have "\<forall>x \<in> set xs. \<forall>q. decode_org x = Inr q \<longrightarrow> og_Id (scanned_record env q) \<noteq> og_Id r"
    using assms(9) by blast
  then have "map_of (om_orgs ?st) (og_Id r) = None" using scan_hits_other assms(7) by metis
  note new = scan_hit_registers [OF assms(2-6) this assms(8)]
  show "map_of (om_orgs (fold (scan_hit env) hits st)) (og_Id r) = Some (org_context_of env r)"
    unfolding assms(1) using scan_hits_keep [OF new(1)] by simp
  show "om_nonces (fold (scan_hit env) hits st) (og_Nonce r) = Some (og_Id r)"
  proof -
    have "\<forall>x \<in> set ys. \<forall>q. decode_org x = Inr q \<longrightarrow> og_Nonce (scanned_record env q) \<noteq> og_Nonce r"
      using assms(9) by blast
    from scan_hits_nonce [OF this, of "scan_hit env h ?st"] show ?thesis
      unfolding assms(1) using new(2) by simp
  qed
qed

section \<open>The invariant of the registrations\<close>

definition orgs_ok :: "'s org_state \<Rightarrow> bool" where
  "orgs_ok st \<longleftrightarrow>
     (\<forall>k c. map_of (om_orgs st) k = Some c \<longrightarrow> k \<noteq> [] \<and> og_Id (oc_record c) = k \<and> cg_OrgId (oc_config c) = k) \<and>
     (\<forall>n i. om_nonces st n = Some i \<longrightarrow> map_of (om_orgs st) i \<noteq> None)"

text \<open>The states a server reaches while no organisation is deleted, with other servers on the store.\<close>

inductive org_reach :: "'s org_env \<Rightarrow> 's org_state \<Rightarrow> bool" for env where
  new: "org_reach env (NewOrgManager_state s)"
| started: "org_reach env st \<Longrightarrow> org_reach env (snd (Start env st))"
| created: "org_reach env st \<Longrightarrow> org_reach env (snd (CreateNewOrg env name i nonce st))"
| scanned: "org_reach env st \<Longrightarrow> org_reach env (snd (Scan env st))"
| other: "org_reach env st \<Longrightarrow> org_reach env (st\<lparr>om_store := s\<rparr>)"

lemma orgs_ok_simps:
  "orgs_ok (st\<lparr>om_store := s\<rparr>) = orgs_ok st" "orgs_ok (st\<lparr>om_rand := n\<rparr>) = orgs_ok st"
  by (simp_all add: orgs_ok_def)

lemma record_keys:
  assumes "org_record_of env i name nonce = Some r"
  shows "og_OrgId r \<noteq> []" and "og_Id r = og_OrgId r"
  using assms by (auto simp: org_record_of_def IsRootOrg_def split: if_splits option.splits)

lemma orgs_ok_make:
  assumes "orgs_ok st"
  shows "orgs_ok (snd (makeNewOrgContext env i name nonce st))"
    and "makeNewOrgContext env i name nonce st = (Inr c, st1) \<Longrightarrow>
      map_of (om_orgs st1) (og_Id (oc_record c)) = Some c \<and> (i \<noteq> [] \<longrightarrow> og_Id (oc_record c) = i)"
proof -
  show "orgs_ok (snd (makeNewOrgContext env i name nonce st))"
    using assms record_keys [of env i name nonce]
    by (auto simp: makeNewOrgContext_def orgs_ok_def org_context_of_def makeNewConfigObj_def Let_def update_conv'
        split: option.splits)
  show "map_of (om_orgs st1) (og_Id (oc_record c)) = Some c \<and> (i \<noteq> [] \<longrightarrow> og_Id (oc_record c) = i)"
    if "makeNewOrgContext env i name nonce st = (Inr c, st1)"
    using that record_keys(2) [of env i name nonce] record_of_id(2) [of env i name nonce]
    by (auto simp: makeNewOrgContext_def org_context_of_def Let_def update_conv' split: option.splits)
qed

lemma orgs_ok_register:
  assumes "orgs_ok st" and "map_of (om_orgs st) i = Some c"
  shows "orgs_ok (register_org i nonce c st)"
  using assms by (auto simp: orgs_ok_def register_org_def update_conv')

lemma orgs_ok_scan_record:
  assumes "orgs_ok st" and "og_Id r \<noteq> []"
  shows "orgs_ok (scan_record env r st)"
proof (cases "map_of (om_orgs st) (og_Id r)")
  case None
  obtain x st1 where m: "makeNewOrgContext env (og_Id r) (og_Name r) (og_Nonce r) st = (x, st1)" by fastforce
  then have ok: "orgs_ok st1" using orgs_ok_make(1) [OF assms(1)] by (metis snd_conv)
  show ?thesis
  proof (cases x)
    case (Inr c)
    have "map_of (om_orgs st1) (og_Id r) = Some c"
      using orgs_ok_make(2) [OF assms(1) m [unfolded Inr]] assms(2) by metis
    then show ?thesis using orgs_ok_register [OF ok] m None Inr by (simp add: scan_record_def)
  qed (use ok m None in \<open>simp add: scan_record_def\<close>)
qed (use assms in \<open>simp add: scan_record_def\<close>)

lemma orgs_ok_scan: "orgs_ok st \<Longrightarrow> orgs_ok (snd (Scan env st))"
proof -
  assume ok: "orgs_ok st"
  have "orgs_ok (scan_hit env h t)" if "orgs_ok t" for h t
    using that orgs_ok_scan_record [OF that scanned_id [of env]] by (simp add: scan_hit_def split: sum.splits)
  then have "orgs_ok (fold (scan_hit env) hits st)" for hits
    using ok by (induction hits arbitrary: st) simp_all
  then show ?thesis using ok by (auto simp: Scan_def split: sum.splits)
qed

lemma orgs_ok_create: "orgs_ok st \<Longrightarrow> orgs_ok (snd (CreateNewOrg env name i nonce st))"
proof -
  assume ok: "orgs_ok st"
  define st0 where "st0 = st\<lparr>om_rand := Suc (om_rand st)\<rparr>"
  define i1 where "i1 = (if i = [] then NewOrgId env (om_rand st) else i)"
  define n1 where "n1 = (if nonce = or_RandomNonce env then NewNonce env (om_rand st) else nonce)"
  have ok0: "orgs_ok st0" using ok by (simp add: st0_def orgs_ok_simps)
  obtain x st1 where m: "makeNewOrgContext env i1 name n1 st0 = (x, st1)" by fastforce
  have ok1: "orgs_ok st1" using orgs_ok_make(1) [OF ok0] m by (metis snd_conv)
  have "orgs_ok (snd (case x of Inl e \<Rightarrow> ((Inl e, Some e), st1)
      | Inr c \<Rightarrow> (let st3 = register_org (og_Id (oc_record c)) (og_Nonce (oc_record c)) c st1
                  in case SetElasticIndex (or_es env) (or_ROOT_ORG_ID env) PERSISTED (og_Id (oc_record c))
                             (encode_org (oc_record c)) (om_store st3) of
                        (e, s) \<Rightarrow> ((Inr (oc_record c), e), st3\<lparr>om_store := s\<rparr>))))"
  proof (cases x)
    case (Inr c)
    have "orgs_ok (register_org (og_Id (oc_record c)) (og_Nonce (oc_record c)) c st1)"
      using orgs_ok_make(2) [OF ok0 m [unfolded Inr]] by (intro orgs_ok_register [OF ok1]) simp
    then show ?thesis using Inr by (simp add: orgs_ok_simps Let_def split: prod.splits)
  qed (use ok1 in simp)
  then show ?thesis
    using ok m unfolding CreateNewOrg_def Let_def st0_def [symmetric] i1_def [symmetric] n1_def [symmetric]
    by (auto split: sum.splits)
qed

lemma orgs_ok_start: "orgs_ok st \<Longrightarrow> orgs_ok (snd (Start env st))"
proof -
  assume ok: "orgs_ok st"
  have "orgs_ok (snd (case makeNewOrgContext env ''root'' ''<root>'' nonce t of
                  (Inl e, st1) \<Rightarrow> (Some e, st1)
                | (Inr c, st1) \<Rightarrow>
                    (case Scan env st1 of
                       (Some e, st2) \<Rightarrow> (Some e, st2)
                     | (None, st2) \<Rightarrow>
                         (let st3 = register_org (og_Id (oc_record c)) (og_Nonce (oc_record c)) c st2
                          in case or_repository env of
                               Some e \<Rightarrow> (Some e, st3)
                             | None \<Rightarrow> Scan env st3))))" if t: "orgs_ok t" for nonce t
  proof -
    obtain x st1 where m: "makeNewOrgContext env ''root'' ''<root>'' nonce t = (x, st1)" by fastforce
    have ok1: "orgs_ok st1" using orgs_ok_make(1) [OF t] m by (metis snd_conv)
    obtain e st2 where sc: "Scan env st1 = (e, st2)" by fastforce
    have ok2: "orgs_ok st2" using orgs_ok_scan [OF ok1] sc by (metis snd_conv)
    show ?thesis
    proof (cases x)
      case (Inr c)
      have "map_of (om_orgs st1) (og_Id (oc_record c)) = Some c" using orgs_ok_make(2) [OF t m [unfolded Inr]] by blast
      then have "map_of (om_orgs st2) (og_Id (oc_record c)) = Some c"
        using scan_hits_keep sc by (auto simp: Scan_def split: sum.splits)
      then have ok3: "orgs_ok (register_org (og_Id (oc_record c)) (og_Nonce (oc_record c)) c st2)"
        by (rule orgs_ok_register [OF ok2])
      show ?thesis using m sc Inr ok2 ok3 orgs_ok_scan [OF ok3] by (cases e) (auto simp: Let_def split: option.splits)
    qed (use m ok1 in simp)
  qed
  then show ?thesis
    using ok by (auto simp: Start_def orgs_ok_simps split: option.splits prod.splits)
qed

lemma org_reach_ok: "org_reach env st \<Longrightarrow> orgs_ok st"
proof (induction rule: org_reach.induct)
  case (new s)
  then show ?case by (simp add: orgs_ok_def NewOrgManager_state_def)
qed (simp_all add: orgs_ok_start orgs_ok_create orgs_ok_scan orgs_ok_simps)

lemma DeleteDocument_removes_org:
  "map_of (AList.delete k l) k = None"
  by (simp add: delete_conv')

section \<open>Identifiers are few\<close>

lemma hex32_inj: "a < 32 \<Longrightarrow> b < 32 \<Longrightarrow> hex32 a = hex32 b \<Longrightarrow> a = b"
proof -
  have "distinct ''0123456789ABCDEFGHIJKLMNOPQRSTUV''" by code_simp
  then show "a < 32 \<Longrightarrow> b < 32 \<Longrightarrow> hex32 a = hex32 b \<Longrightarrow> a = b"
    by (simp add: hex32_def nth_eq_iff_index_eq)
qed

lemma digits_inj: "x * 4 + y = x' * 4 + y' \<Longrightarrow> y < 4 \<Longrightarrow> y' < 4 \<Longrightarrow> x = x' \<and> y = y'" for x y x' y' :: nat
  by presburger

lemma base32_inj:
  assumes "a < 256" "b < 256" "c < 256" "d < 256" and "base32_two a b = base32_two c d"
  shows "a = c \<and> b = d"
proof -
  have e: "a div 8 = c div 8" "a mod 8 * 4 + b div 64 = c mod 8 * 4 + d div 64"
    "b div 2 mod 32 = d div 2 mod 32" "b mod 2 * 16 = d mod 2 * 16"
  proof -
    have h: "hex32 (a div 8) = hex32 (c div 8)" "hex32 (a mod 8 * 4 + b div 64) = hex32 (c mod 8 * 4 + d div 64)"
      "hex32 (b div 2 mod 32) = hex32 (d div 2 mod 32)" "hex32 (b mod 2 * 16) = hex32 (d mod 2 * 16)"
      using assms(5) by (simp_all only: base32_two_def list.inject)
    show "a div 8 = c div 8" using assms(1,3) by (intro hex32_inj h(1)) auto
    have "a mod 8 < 8" "c mod 8 < 8" "b div 64 < 4" "d div 64 < 4" using assms(2,4) by auto
    then show "a mod 8 * 4 + b div 64 = c mod 8 * 4 + d div 64" by (intro hex32_inj h(2)) linarith+
    show "b div 2 mod 32 = d div 2 mod 32" by (intro hex32_inj h(3)) auto
    have "b mod 2 < 2" "d mod 2 < 2" by auto
    then show "b mod 2 * 16 = d mod 2 * 16" by (intro hex32_inj h(4)) linarith+
  qed
  have "b div 64 < 4" "d div 64 < 4" using assms(2,4) by auto
  then have "a mod 8 = c mod 8" "b div 64 = d div 64" using digits_inj [OF e(2)] by simp_all
  then have "a = c" using e(1) by (metis div_mult_mod_eq)
  moreover have "b div 2 div 32 = d div 2 div 32" using \<open>b div 64 = d div 64\<close> by (simp flip: div_mult2_eq)
  then have "b div 2 = d div 2" using e(3) by (metis div_mult_mod_eq)
  moreover have "b mod 2 = d mod 2" using e(4) by simp
  ultimately show ?thesis by (metis div_mult_mod_eq)
qed

section \<open>Properties\<close>

text \<open>
  C23. A nonce leads to an organisation that is there: in every state a server reaches by starting,
  creating organisations, with success or not, and scanning, while other servers write to the
  store, the id found for a nonce has a context, and its configuration is that of the id.
\<close>

theorem org_nonces_resolve:
  assumes "org_reach env st" and "OrgIdByNonce env nonce st = Inr i" and "i \<noteq> []"
  shows "\<exists>c. GetOrgConfig i st = Inr c \<and> cg_OrgId c = i"
proof -
  have "om_nonces st nonce = Some i"
    using assms(2,3) by (auto simp: OrgIdByNonce_def split: if_splits option.splits)
  then obtain c where "map_of (om_orgs st) i = Some c" "cg_OrgId (oc_config c) = i"
    using org_reach_ok [OF assms(1)] by (fastforce simp: orgs_ok_def)
  then show ?thesis using assms(3) by (simp add: GetOrgConfig_def getContext_def)
qed

text \<open>
  The nonce of an organisation outlives it: after a deletion that succeeded the server still
  gives the id of the organisation for its nonce, although the id has no configuration any more.
\<close>

theorem deleted_org_nonce_stays:
  assumes "OrgIdByNonce env nonce st = Inr i" and "nonce \<noteq> i" and "i \<noteq> []"
    and "DeleteOrg env who i st = (None, st')"
  shows "OrgIdByNonce env nonce st' = Inr i \<and> GetOrgConfig i st' = Inl (Err (''Unknown org id: '' @ i))"
  using assms
  by (auto simp: DeleteOrg_def OrgIdByNonce_def GetOrgConfig_def getContext_def DeleteDocument_removes_org
      split: if_splits option.splits prod.splits)

text \<open>
  A new organisation with an id of its own making can take the place of another: the id has
  sixteen bits and is not compared with the ids in use. When it is that of an organisation, the
  record, the configuration and the document of that organisation are those of the new one, and
  the clients with the old nonce belong to the new organisation.
\<close>

theorem random_id_replaces_org:
  assumes "store_contract (or_es env) docs" and "GetElasticClient (or_es env) (or_ROOT_ORG_ID env) = Inr c"
    and "i = NewOrgId env (om_rand st)" and "\<not> IsRootOrg i" and "OrgIdByNonce env old st = Inr i"
    and "\<And>n cfg. or_setup env n cfg = None" and "nonce \<noteq> or_RandomNonce env" and "nonce \<noteq> old"
    and "r = \<lparr>og_OrgId = i, og_Id = i, og_Name = name, og_Nonce = nonce, og_DocType = ''orgs''\<rparr>"
  shows "\<exists>st'. CreateNewOrg env name [] nonce st = ((Inr r, None), st') \<and>
    GetOrg env i st' = Inr r \<and> GetOrgConfig i st' = Inr (makeNewConfigObj env r) \<and>
    OrgIdByNonce env old st' = Inr i \<and>
    map_of (docs (om_store st') c (GetIndex (or_ROOT_ORG_ID env) PERSISTED)) i = Some (encode_org r)"
proof -
  have i: "i \<noteq> []" using assms(4) by (auto simp: IsRootOrg_def)
  have rec: "org_record_of env i name nonce = Some r" using assms(4,9) by (simp add: org_record_of_def)
  have f: "og_Id r = i" "og_OrgId r = i" "og_Nonce r = nonce" using assms(9) by simp_all
  obtain s' where s': "SetElasticIndex (or_es env) (or_ROOT_ORG_ID env) PERSISTED i (encode_org r) (om_store st) = (None, s')"
    "docs s' c (GetIndex (or_ROOT_ORG_ID env) PERSISTED) =
      doc_put i (encode_org r) (docs (om_store st) c (GetIndex (or_ROOT_ORG_ID env) PERSISTED))"
    using SetElasticIndex_put [OF assms(1,2) i] by blast
  let ?c = "org_context_of env r"
  let ?st = "\<lparr>om_store = s', om_orgs = AList.update i ?c (AList.update i ?c (om_orgs st)),
      om_nonces = (om_nonces st)(nonce \<mapsto> i), om_rand = Suc (Suc (om_rand st))\<rparr>"
  have "CreateNewOrg env name [] nonce st = ((Inr r, None), ?st)"
    using assms(6,7) rec s'(1) assms(3) f
    by (simp add: CreateNewOrg_def makeNewOrgContext_def register_org_def org_context_of_def Let_def)
  moreover have "OrgIdByNonce env old ?st = Inr i"
    using assms(5,8) by (auto simp: OrgIdByNonce_def split: if_splits)
  ultimately show ?thesis
    using assms(4) i s'(2)
    by (auto simp: GetOrg_def GetOrgConfig_def getContext_def update_conv' org_context_of_def map_of_doc_put)
qed

text \<open>
  An organisation whose set-up failed at its first scan is never completed: its context is in
  the map, so later scans pass over its record, and its nonce is not known, whatever the store
  holds by then.
\<close>

theorem failed_org_never_completed:
  assumes "map_of (om_orgs st) i = Some c" and "om_nonces st nonce = None"
    and "\<And>hits n h r. QueryElasticRaw (or_es env) (or_ROOT_ORG_ID env) PERSISTED orgs_query (om_store st) = Inr (hits, n) \<Longrightarrow>
      h \<in> set hits \<Longrightarrow> decode_org h = Inr r \<Longrightarrow> og_Nonce (scanned_record env r) = nonce \<Longrightarrow>
      og_Id (scanned_record env r) = i"
  shows "om_nonces (snd (Scan env st)) nonce = None \<and> map_of (om_orgs (snd (Scan env st))) i = Some c"
proof -
  have step: "om_nonces (scan_hit env h t) nonce = None"
    if "map_of (om_orgs t) i = Some c" "om_nonces t nonce = None"
      "\<And>r. decode_org h = Inr r \<Longrightarrow> og_Nonce (scanned_record env r) = nonce \<Longrightarrow> og_Id (scanned_record env r) = i" for h t
  proof (cases "decode_org h")
    case (Inr r)
    show ?thesis
    proof (cases "og_Nonce (scanned_record env r) = nonce")
      case True
      then have "og_Id (scanned_record env r) = i" using that(3) Inr by blast
      then show ?thesis using that(1,2) Inr by (simp add: scan_hit_def scan_record_def)
    next
      case False
      then show ?thesis using scan_hit_nonce [of h env nonce t] that(2) Inr by simp
    qed
  qed (use that in \<open>simp add: scan_hit_def\<close>)
  have all: "om_nonces (fold (scan_hit env) hits t) nonce = None \<and> map_of (om_orgs (fold (scan_hit env) hits t)) i = Some c"
    if "map_of (om_orgs t) i = Some c" "om_nonces t nonce = None"
      "\<forall>h \<in> set hits. \<forall>r. decode_org h = Inr r \<longrightarrow> og_Nonce (scanned_record env r) = nonce \<longrightarrow> og_Id (scanned_record env r) = i"
      for hits t
    using that
  proof (induction hits arbitrary: t)
    case (Cons h hits)
    have "om_nonces (scan_hit env h t) nonce = None" using Cons.prems by (intro step) auto
    moreover have "map_of (om_orgs (scan_hit env h t)) i = Some c"
      using Cons.prems(1) scan_hit_other [of h env i t] by simp
    ultimately show ?case using Cons.IH [of "scan_hit env h t"] Cons.prems(3) by simp
  qed simp
  show ?thesis
  proof (cases "QueryElasticRaw (or_es env) (or_ROOT_ORG_ID env) PERSISTED orgs_query (om_store st)")
    case (Inr p)
    obtain hits n where p: "p = (hits, n)" by fastforce
    show ?thesis using all [OF assms(1,2), of hits] assms(3) Inr unfolding p Scan_def by auto
  qed (use assms(1,2) in \<open>simp add: Scan_def\<close>)
qed

lemma create_known:
  assumes "store_contract (or_es env) docs" and "GetElasticClient (or_es env) (or_ROOT_ORG_ID env) = Inr c"
    and "\<not> IsRootOrg i" and "map_of (om_orgs st) i = None" and "nonce \<noteq> or_RandomNonce env"
    and "\<And>n cfg. or_setup env n cfg = None"
    and "r = \<lparr>og_OrgId = i, og_Id = i, og_Name = name, og_Nonce = nonce, og_DocType = ''orgs''\<rparr>"
  shows "\<exists>st'. CreateNewOrg env name i nonce st = ((Inr r, None), st') \<and>
    docs (om_store st') c (GetIndex (or_ROOT_ORG_ID env) PERSISTED) =
      doc_put i (encode_org r) (docs (om_store st) c (GetIndex (or_ROOT_ORG_ID env) PERSISTED))"
proof -
  have i: "i \<noteq> []" using assms(3) by (auto simp: IsRootOrg_def)
  have rec: "org_record_of env i name nonce = Some r" using assms(3,7) by (simp add: org_record_of_def)
  have f: "og_Id r = i" using assms(7) by simp
  have g: "GetOrg env i st = Inl NotFoundError" using assms(3,4) by (simp add: GetOrg_def)
  obtain s' where "SetElasticIndex (or_es env) (or_ROOT_ORG_ID env) PERSISTED i (encode_org r) (om_store st) = (None, s')"
    "docs s' c (GetIndex (or_ROOT_ORG_ID env) PERSISTED) =
      doc_put i (encode_org r) (docs (om_store st) c (GetIndex (or_ROOT_ORG_ID env) PERSISTED))"
    using SetElasticIndex_put [OF assms(1,2) i] by blast
  then show ?thesis
    using assms(5,6) i rec f g
    by (simp add: CreateNewOrg_def makeNewOrgContext_def register_org_def org_context_of_def Let_def)
qed

lemma doc_put_split:
  "\<exists>xs ys. doc_put i j ds = xs @ (i, j) # ys \<and> set xs \<union> set ys \<subseteq> set ds"
proof (induction ds)
  case (Cons d ds)
  obtain k v where d: "d = (k, v)" by fastforce
  obtain xs ys where IH: "doc_put i j ds = xs @ (i, j) # ys" "set xs \<union> set ys \<subseteq> set ds" using Cons by blast
  show ?case
  proof (cases "k = i")
    case True
    then show ?thesis using d by (intro exI [of _ "[]"] exI [of _ ds]) auto
  next
    case False
    then show ?thesis using d IH by (intro exI [of _ "d # xs"] exI [of _ ys]) auto
  qed
qed auto


section \<open>A run\<close>

definition sample_org_env :: "mem_es_state org_env" where
  "sample_org_env = \<lparr>or_schema = sample_schema_env, or_ROOT_ORG_ID = ''root'', or_ORG_PREFIX = ''O'',
     or_config = \<lparr>cg_OrgId = [], cg_OrgName = [], cg_ClientNonce = Some ''n0''\<rparr>, or_setup = (\<lambda>n c. None),
     or_services = (\<lambda>s. (None, s)), or_repository = None, or_rand2 = (\<lambda>n. (0, 0)), or_nonce = (\<lambda>n. ''x''),
     or_RandomNonce = [], or_RemoveOrgFromUsers = (\<lambda>who i s. (None, s)), or_order = (\<lambda>l. l)\<rparr>"

lemma sample_org_sel:
  "or_es sample_org_env = mem_es" "or_ROOT_ORG_ID sample_org_env = ''root''" "or_setup sample_org_env n cf = None"
  "or_RandomNonce sample_org_env = []" "cg_ClientNonce (or_config sample_org_env) = Some ''n0''"
  "NewOrgId sample_org_env n = ''O0000''"
  by (simp_all add: sample_org_env_def sample_schema_env_def NewOrgId_def base32_two_def hex32_def)

definition one_org :: "mem_es_state org_state" where
  "one_org = snd (CreateNewOrg sample_org_env ''First'' ''O0000'' ''n1'' (NewOrgManager_state []))"

lemma one_org_known:
  "OrgIdByNonce sample_org_env ''n1'' one_org = Inr ''O0000''"
  "map_of (om_orgs one_org) ''O0000'' \<noteq> None"
  by code_simp+

theorem org_nonces_resolve_witness:
  "OrgIdByNonce sample_org_env ''n1'' one_org = Inr ''O0000'' \<and>
   (\<exists>c. GetOrgConfig ''O0000'' one_org = Inr c \<and> cg_OrgId c = ''O0000'')"
proof -
  have "org_reach sample_org_env one_org" unfolding one_org_def by (intro org_reach.intros)
  from org_nonces_resolve [OF this one_org_known(1)] show ?thesis using one_org_known(1) by simp
qed

theorem deleted_org_nonce_stays_witness:
  "OrgIdByNonce sample_org_env ''n1'' (snd (DeleteOrg sample_org_env ''admin'' ''O0000'' one_org)) = Inr ''O0000'' \<and>
   GetOrgConfig ''O0000'' (snd (DeleteOrg sample_org_env ''admin'' ''O0000'' one_org)) =
     Inl (Err ''Unknown org id: O0000'')"
proof -
  have d: "fst (DeleteOrg sample_org_env ''admin'' ''O0000'' one_org) = None" by code_simp
  then show ?thesis
    using deleted_org_nonce_stays [OF one_org_known(1), of "''admin''" "snd (DeleteOrg sample_org_env ''admin'' ''O0000'' one_org)"]
    by (simp add: prod_eq_iff)
qed

theorem random_id_replaces_org_witness:
  "\<exists>r st'. CreateNewOrg sample_org_env ''Second'' [] ''n2'' one_org = ((Inr r, None), st') \<and>
    GetOrg sample_org_env ''O0000'' st' = Inr r \<and> og_Name r = ''Second'' \<and>
    OrgIdByNonce sample_org_env ''n1'' st' = Inr ''O0000''"
proof -
  have c: "GetElasticClient (or_es sample_org_env) (or_ROOT_ORG_ID sample_org_env) = Inr PrimaryOpenSearch"
    by (simp add: sample_org_sel)
  show ?thesis
    using random_id_replaces_org [of sample_org_env "\<lambda>st c idx. mem_docs st idx", OF _ c HOL.refl _ _ _ _ _ HOL.refl,
        of one_org "''n1''" "''n2''" "''Second''"] mem_store_contract one_org_known(1)
    by (simp add: sample_org_sel IsRootOrg_def) (metis org_record.select_convs(3))
qed

definition failing_org_env :: "mem_es_state org_env" where
  "failing_org_env = sample_org_env\<lparr>or_setup := (\<lambda>n c. if n = 0 then Some IOError else None)\<rparr>"

definition late_server :: "mem_es_state org_state" where
  "late_server = snd (Scan failing_org_env (NewOrgManager_state (om_store one_org)))"

theorem failed_org_never_completed_witness:
  "om_nonces (snd (Scan failing_org_env late_server)) ''n1'' = None \<and>
   (\<exists>c. map_of (om_orgs (snd (Scan failing_org_env late_server))) ''O0000'' = Some c)"
proof -
  define c where "c = the (map_of (om_orgs late_server) ''O0000'')"
  let ?r = "\<lparr>og_OrgId = ''O0000'', og_Id = ''O0000'', og_Name = ''First'', og_Nonce = ''n1'', og_DocType = ''orgs''\<rparr>"
  have "map_of (om_orgs late_server) ''O0000'' \<noteq> None" and n: "om_nonces late_server ''n1'' = None"
    and q: "QueryElasticRaw (or_es failing_org_env) (or_ROOT_ORG_ID failing_org_env) PERSISTED orgs_query
      (om_store late_server) = Inr ([encode_org ?r], 1)"
    and i: "og_Id (scanned_record failing_org_env ?r) = ''O0000''"
    by code_simp+
  then have c: "map_of (om_orgs late_server) ''O0000'' = Some c" by (auto simp: c_def)
  have "om_nonces (snd (Scan failing_org_env late_server)) ''n1'' = None \<and>
      map_of (om_orgs (snd (Scan failing_org_env late_server))) ''O0000'' = Some c"
    using q i by (intro failed_org_never_completed [OF c n, of failing_org_env]) auto
  then show ?thesis by blast
qed


end
