(* ===== verification/ClientMonitoring.thy ===== *)
theory ClientMonitoring
  imports Foreman
begin

text \<open>
  The client event tables (\<open>services/client_monitoring/client_monitoring.go\<close>) and the listing of
  the events that were collected (\<open>services/client_monitoring/events.go\<close>).
\<close>

section \<open>Environment and state\<close>

text \<open>
  The service registry, the artifact compiler, the JSON of a table, the clock and the random
  numbers. A section of the configuration may be missing; reading through it panics then.
\<close>

record 's mon_env =
  mo_es :: "'s elastic"
  mo_OrgId :: string
  mo_DefaultArtifacts :: "string list option"
  mo_Defaults :: "(int \<times> int) option"
  mo_Launcher :: "(collector_args option \<Rightarrow> vql_args list result) result"
  mo_RepositoryManager :: "go_error option"
  mo_GlobalRepository :: "go_error option"
  mo_parse :: "string \<Rightarrow> client_event_table result"
  mo_render :: "client_event_table \<Rightarrow> string"
  mo_marshal :: "json \<Rightarrow> string"
  mo_now :: "nat \<Rightarrow> int"
  mo_rand :: "nat \<Rightarrow> int \<Rightarrow> int"
  mo_monitoring_flow :: string

record 's mon_world =
  mw_store :: 's
  mw_ticks :: nat
  mw_rands :: nat

record ConfigEntry =
  ce_Type :: string
  ce_Data :: string
  ce_DocType :: string

definition encode_config_entry :: "ConfigEntry \<Rightarrow> json" where
  "encode_config_entry e = JObj [(''type'', JStr (ce_Type e)), (''data'', JStr (ce_Data e)),
     (''doc_type'', JStr (ce_DocType e))]"

definition decode_config_entry :: "json \<Rightarrow> ConfigEntry result" where
  "decode_config_entry j = bindR (get_str ''type'' j) (\<lambda>a. bindR (get_str ''data'' j) (\<lambda>b.
     bindR (get_str ''doc_type'' j) (\<lambda>c. Inr \<lparr>ce_Type = a, ce_Data = b, ce_DocType = c\<rparr>)))"

lemma decode_encode_config_entry [simp]: "decode_config_entry (encode_config_entry e) = Inr e"
  by (simp add: encode_config_entry_def decode_config_entry_def get_str_def)

definition mon_now :: "'s mon_env \<Rightarrow> 's mon_world \<Rightarrow> int \<times> 's mon_world" where
  "mon_now env w = (mo_now env (mw_ticks w), w\<lparr>mw_ticks := Suc (mw_ticks w)\<rparr>)"

section \<open>Compiling a table\<close>

definition compileArtifactCollectorArgs :: "'s mon_env \<Rightarrow> collector_args option \<Rightarrow> vql_args list result" where
  "compileArtifactCollectorArgs env artifact =
     (case mo_Launcher env of
        Inl e \<Rightarrow> Inl e
      | Inr CompileCollectorArgs \<Rightarrow>
          (case mo_RepositoryManager env of
             Some e \<Rightarrow> Inl e
           | None \<Rightarrow> (case mo_GlobalRepository env of
                        Some e \<Rightarrow> Inl e
                      | None \<Rightarrow> CompileCollectorArgs artifact)))"

text \<open>
  The tables are changed in place: an error leaves those before it compiled. A compiled table
  without artifacts is a nil pointer.
\<close>

fun compile_labels :: "'s mon_env \<Rightarrow> label_table list \<Rightarrow> go_error option \<times> label_table list" where
  "compile_labels env [] = (None, [])"
| "compile_labels env (t # ts) =
     (case compileArtifactCollectorArgs env (lt_Artifacts t) of
        Inl e \<Rightarrow> (Some e, t # ts)
      | Inr compiled \<Rightarrow>
          (case lt_Artifacts t of
             None \<Rightarrow> (Some NilDereference, t # ts)
           | Some a \<Rightarrow>
               (case compile_labels env ts of
                  (e, ts') \<Rightarrow> (e, t\<lparr>lt_Artifacts := Some (a\<lparr>ca_CompiledCollectorArgs := compiled\<rparr>)\<rparr> # ts'))))"

definition table_artifacts :: "client_event_table \<Rightarrow> collector_args" where
  "table_artifacts state = (case cet_Artifacts state of None \<Rightarrow> empty_args | Some a \<Rightarrow> a)"

definition compileState :: "'s mon_env \<Rightarrow> client_event_table \<Rightarrow> go_error option \<times> client_event_table" where
  "compileState env state =
     (let a = table_artifacts state; state1 = state\<lparr>cet_Artifacts := Some a\<rparr>
      in case compileArtifactCollectorArgs env (Some a) of
           Inl e \<Rightarrow> (Some e, state1)
         | Inr compiled \<Rightarrow>
             (case compile_labels env (cet_LabelEvents state) of
                (e, ts) \<Rightarrow> (e, state1\<lparr>cet_Artifacts := Some (a\<lparr>ca_CompiledCollectorArgs := compiled\<rparr>),
                                     cet_LabelEvents := ts\<rparr>)))"

section \<open>Reading and writing the table\<close>

definition makeDefaultClientMonitoringLabel ::
  "'s mon_env \<Rightarrow> 's mon_world \<Rightarrow> client_event_table result \<times> 's mon_world" where
  "makeDefaultClientMonitoringLabel env w =
     (case mon_now env w of (now, w1) \<Rightarrow>
        (case mo_DefaultArtifacts env of
           None \<Rightarrow> Inl NilDereference
         | Some arts \<Rightarrow> Inr \<lparr>cet_Version = u64 now, cet_Artifacts = Some (empty_args\<lparr>ca_Artifacts := arts\<rparr>),
             cet_LabelEvents = [\<lparr>lt_Label = ''Quarantine'',
               lt_Artifacts = Some (empty_args\<lparr>ca_Artifacts := [''Windows.Remediation.QuarantineMonitor'']\<rparr>)\<rparr>]\<rparr>,
         w1))"

definition SetClientMonitoringState ::
  "'s mon_env \<Rightarrow> client_event_table \<Rightarrow> 's mon_world \<Rightarrow> go_error option \<times> 's mon_world" where
  "SetClientMonitoringState env state w =
     (case mon_now env w of (now, w1) \<Rightarrow>
        (case compileState env (state\<lparr>cet_Version := u64 now\<rparr>) of
           (Some e, _) \<Rightarrow> (Some e, w1)
         | (None, state1) \<Rightarrow>
             (case SetElasticIndex (mo_es env) (mo_OrgId env) PERSISTED ''client_monitoring''
                 (encode_config_entry \<lparr>ce_Type = ''client_monitoring'', ce_Data = mo_render env state1,
                    ce_DocType = ''config''\<rparr>) (mw_store w1) of
                (e, s) \<Rightarrow> (e, w1\<lparr>mw_store := s\<rparr>))))"

text \<open>The default table is stored, whatever comes of it, and returned as it is; its tables all have
  artifacts, so compiling it does not panic.\<close>

definition default_state :: "'s mon_env \<Rightarrow> 's mon_world \<Rightarrow> client_event_table result \<times> 's mon_world" where
  "default_state env w =
     (case makeDefaultClientMonitoringLabel env w of
        (Inl e, w1) \<Rightarrow> (Inl e, w1)
      | (Inr table, w1) \<Rightarrow>
          (case SetClientMonitoringState env table w1 of
             (e, w2) \<Rightarrow> (Inr table, w2)))"

definition GetClientMonitoringState :: "'s mon_env \<Rightarrow> 's mon_world \<Rightarrow> client_event_table result \<times> 's mon_world" where
  "GetClientMonitoringState env w =
     (case bindR (GetElasticRecord (mo_es env) (mo_OrgId env) PERSISTED ''client_monitoring'' (mw_store w))
             decode_config_entry of
        Inl e \<Rightarrow> default_state env w
      | Inr entry \<Rightarrow>
          (case mo_parse env (ce_Data entry) of
             Inl e \<Rightarrow> makeDefaultClientMonitoringLabel env w
           | Inr result \<Rightarrow>
               (case compileState env result of
                  (e, result1) \<Rightarrow> (if e = Some NilDereference then Inl NilDereference else Inr result1, w))))"

section \<open>The update message\<close>

fun labelled_events :: "(string \<Rightarrow> bool) \<Rightarrow> label_table list \<Rightarrow> vql_args list result" where
  "labelled_events isset [] = Inr []"
| "labelled_events isset (t # ts) =
     (if isset (lt_Label t) then
        (case lt_Artifacts t of
           None \<Rightarrow> Inl NilDereference
         | Some a \<Rightarrow> bindR (labelled_events isset ts) (\<lambda>es. Inr (ca_CompiledCollectorArgs a @ es)))
      else labelled_events isset ts)"

definition base_wait :: "int \<Rightarrow> vql_args \<Rightarrow> int" where
  "base_wait event_max_wait e =
     (let m = (if va_MaxWait e = 0 then event_max_wait else va_MaxWait e) in if m = 0 then 120 else m)"

definition wait_jitter :: "int \<Rightarrow> int" where
  "wait_jitter jitter = (if jitter = 0 then 20 else jitter)"

text \<open>A jitter that is not positive as an \<open>int\<close> is a panic of \<open>rand.Intn\<close>.\<close>

fun spread_events ::
  "'s mon_env \<Rightarrow> nat \<Rightarrow> vql_args list \<Rightarrow> vql_args list result \<times> nat" where
  "spread_events env n [] = (Inr [], n)"
| "spread_events env n (e # es) =
     (case mo_Defaults env of
        None \<Rightarrow> (Inl NilDereference, n)
      | Some (max_wait, jitter) \<Rightarrow>
          (let j = i64 (wait_jitter jitter) in
           if j \<le> 0 then (Inl (Err ''invalid argument to Intn''), n)
           else case spread_events env (Suc n) es of
                  (Inl x, k) \<Rightarrow> (Inl x, k)
                | (Inr es', k) \<Rightarrow>
                    (Inr (e\<lparr>va_MaxWait := u64 (base_wait max_wait e + mo_rand env n j), va_Timeout := 99999999\<rparr> # es'), k)))"

definition cm_GetClientUpdateEventTableMessage ::
  "'s mon_env \<Rightarrow> ClientRecord option \<Rightarrow> string \<Rightarrow> 's mon_world \<Rightarrow> velo_message result \<times> 's mon_world" where
  "cm_GetClientUpdateEventTableMessage env cached client_id w =
     (case GetClientMonitoringState env w of
        (Inl e, w1) \<Rightarrow> (Inl e, w1)
      | (Inr state, w1) \<Rightarrow>
          (case mon_now env w1 of (now, w2) \<Rightarrow>
             (case labelled_events (\<lambda>label. IsLabelSet (mo_es env) (mo_OrgId env) cached client_id label (mw_store w2))
                     (cet_LabelEvents state) of
                Inl e \<Rightarrow> (Inl e, w2)
              | Inr es \<Rightarrow>
                  (case spread_events env (mw_rands w2)
                          (ca_CompiledCollectorArgs (table_artifacts state) @ es) of
                     (Inl e, n) \<Rightarrow> (Inl e, w2\<lparr>mw_rands := n\<rparr>)
                   | (Inr es', n) \<Rightarrow>
                       (Inr \<lparr>vm_SessionId = mo_monitoring_flow env,
                          vm_UpdateEventTable = Some \<lparr>et_Version = u64 now, et_Event = es'\<rparr>,
                          vm_Other = JNull\<rparr>, w2\<lparr>mw_rands := n\<rparr>)))))"

definition CheckClientEventsVersion :: "string \<Rightarrow> int \<Rightarrow> bool" where
  "CheckClientEventsVersion client_id client_version = False"

section \<open>Collected events (events.go)\<close>

definition OPENSEARCH_MAX_BUCKETS :: nat where
  "OPENSEARCH_MAX_BUCKETS = 10000"

record available_event =
  av_Artifact :: string
  av_RowTimestamps :: "int list"

definition getAvailableArtifactsQuery :: "string \<Rightarrow> string \<Rightarrow> search_req" where
  "getAvailableArtifactsQuery client_id ty =
     (query_of (Must [Match ''client_id'' (JStr client_id), Match ''type'' (JStr ty),
        Match ''flow_id'' (JStr ''F.Monitoring'')]))
     \<lparr>sq_sort := Some (''artifact'', False), sq_size := Some 0, sq_agg := Some ''artifact''\<rparr>"

definition getAvailableServerArtifactsQuery :: "string \<Rightarrow> string \<Rightarrow> search_req" where
  "getAvailableServerArtifactsQuery client_id ty =
     (query_of (Must [Match ''client_id'' (JStr client_id), Match ''type'' (JStr ty)]))
     \<lparr>sq_sort := Some (''artifact'', False), sq_size := Some 0, sq_agg := Some ''artifact''\<rparr>"

definition listAvailableEventArtifacts :: "'s mon_env \<Rightarrow> string \<Rightarrow> 's \<Rightarrow> available_event list result" where
  "listAvailableEventArtifacts env client_id s =
     bindR (QueryElasticAggregations (mo_es env) (mo_marshal env) (mo_OrgId env) TRANSIENT
       (if client_id = [] \<or> client_id = ''server'' then getAvailableServerArtifactsQuery ''server'' ''results''
        else getAvailableArtifactsQuery client_id ''logs'') s)
     (\<lambda>hits. Inr (map (\<lambda>h. \<lparr>av_Artifact = h, av_RowTimestamps = []\<rparr>) hits))"

definition getAvailableEventTimesQuery :: "string \<Rightarrow> string \<Rightarrow> string \<Rightarrow> search_req" where
  "getAvailableEventTimesQuery client_id ty artifact =
     (query_of (Must [Match ''client_id'' (JStr client_id), Match ''type'' (JStr ty),
        Match ''artifact'' (JStr artifact), Match ''flow_id'' (JStr ''F.Monitoring'')]))
     \<lparr>sq_sort := Some (''date'', False), sq_size := Some 0, sq_agg := Some ''date''\<rparr>"

definition getAvailableServerEventTimesQuery :: "string \<Rightarrow> search_req" where
  "getAvailableServerEventTimesQuery artifact =
     (query_of (Must [Match ''client_id'' (JStr ''server''), Match ''type'' (JStr ''results''),
        Match ''artifact'' (JStr artifact)]))
     \<lparr>sq_sort := Some (''date'', False), sq_size := Some 0, sq_agg := Some ''date''\<rparr>"

text \<open>\<open>strconv.ParseInt(h, 10, 64)\<close>: a sign, digits, and a value of 64 bits.\<close>

definition digits_value :: "string \<Rightarrow> int option" where
  "digits_value h = (if h \<noteq> [] \<and> list_all (\<lambda>c. CHR ''0'' \<le> c \<and> c \<le> CHR ''9'') h
     then Some (foldl (\<lambda>n c. n * 10 + (of_char c - 48)) 0 h) else None)"

definition ParseInt :: "string \<Rightarrow> int option" where
  "ParseInt h =
     (case (case h of [] \<Rightarrow> None
            | c # cs \<Rightarrow> if c = CHR ''-'' then map_option uminus (digits_value cs)
                        else if c = CHR ''+'' then digits_value cs else digits_value h) of
        None \<Rightarrow> None
      | Some n \<Rightarrow> if - (2 ^ 63) \<le> n \<and> n < 2 ^ 63 then Some n else None)"

definition listAvailableEventTimestamps ::
  "'s mon_env \<Rightarrow> string \<Rightarrow> string \<Rightarrow> 's \<Rightarrow> available_event list result" where
  "listAvailableEventTimestamps env client_id artifact s =
     bindR (QueryElasticAggregations (mo_es env) (mo_marshal env) (mo_OrgId env) TRANSIENT
       (if client_id = [] \<or> client_id = ''server'' then getAvailableServerEventTimesQuery artifact
        else getAvailableEventTimesQuery client_id ''results'' artifact) s)
     (\<lambda>hits. Inr [\<lparr>av_Artifact = artifact, av_RowTimestamps = map i32 (List.map_filter ParseInt hits)\<rparr>])"

definition ListAvailableEventResults ::
  "'s mon_env \<Rightarrow> string \<Rightarrow> string \<Rightarrow> 's \<Rightarrow> available_event list result" where
  "ListAvailableEventResults env client_id artifact s =
     (if artifact = [] then listAvailableEventArtifacts env client_id s
      else listAvailableEventTimestamps env client_id artifact s)"

section \<open>A table that was stored\<close>

text \<open>The compiler reads the artifacts of a request and not what was compiled before.\<close>

definition compiler_stable :: "'s mon_env \<Rightarrow> bool" where
  "compiler_stable env \<longleftrightarrow> (\<forall>f a x. mo_Launcher env = Inr f \<longrightarrow>
     f (Some (a\<lparr>ca_CompiledCollectorArgs := x\<rparr>)) = f (Some a))"

lemma compile_stable:
  "compiler_stable env \<Longrightarrow> compileArtifactCollectorArgs env (Some (a\<lparr>ca_CompiledCollectorArgs := x\<rparr>)) =
    compileArtifactCollectorArgs env (Some a)"
  by (simp add: compileArtifactCollectorArgs_def compiler_stable_def split: sum.splits option.splits)

lemma compile_labels_again:
  assumes "compiler_stable env" and "compile_labels env ts = (None, ts')"
  shows "compile_labels env ts' = (None, ts')"
  using assms(2)
proof (induction ts arbitrary: ts')
  case (Cons t ts)
  then obtain compiled a us where *: "compileArtifactCollectorArgs env (Some a) = Inr compiled"
    "lt_Artifacts t = Some a" "compile_labels env ts = (None, us)"
    "ts' = t\<lparr>lt_Artifacts := Some (a\<lparr>ca_CompiledCollectorArgs := compiled\<rparr>)\<rparr> # us"
    by (auto split: sum.splits option.splits prod.splits)
  show ?case using Cons.IH [OF *(3)] by (simp add: *(1,4) compile_stable [OF assms(1)])
qed simp

lemma compileState_again:
  assumes "compiler_stable env" and "compileState env t = (None, t')"
  shows "compileState env t' = (None, t')"
proof -
  obtain compiled ts where *: "compileArtifactCollectorArgs env (Some (table_artifacts t)) = Inr compiled"
    "compile_labels env (cet_LabelEvents t) = (None, ts)"
    "t' = t\<lparr>cet_Artifacts := Some (table_artifacts t\<lparr>ca_CompiledCollectorArgs := compiled\<rparr>), cet_LabelEvents := ts\<rparr>"
    using assms(2) by (auto simp: compileState_def Let_def split: sum.splits prod.splits)
  have a: "table_artifacts t' = table_artifacts t\<lparr>ca_CompiledCollectorArgs := compiled\<rparr>"
    by (simp add: *(3) table_artifacts_def)
  show ?thesis
    using compile_labels_again [OF assms(1) *(2)]
    by (simp add: compileState_def Let_def a compile_stable [OF assms(1)] *(1)) (simp add: *(3))
qed

text \<open>
  A table that was set is read back, compiled and with the version of the write: compiling it
  again when it is read changes nothing while the artifacts stay the same.
\<close>

theorem monitoring_table_roundtrip:
  assumes "store_contract (mo_es env) docs" and "GetElasticClient (mo_es env) (mo_OrgId env) = Inr c"
    and "compiler_stable env" and "compileState env (state\<lparr>cet_Version := u64 (mo_now env (mw_ticks w))\<rparr>) = (None, t)"
    and "mo_parse env (mo_render env t) = Inr t"
  shows "\<exists>w'. SetClientMonitoringState env state w = (None, w') \<and> GetClientMonitoringState env w' = (Inr t, w')"
proof -
  let ?doc = "encode_config_entry \<lparr>ce_Type = ''client_monitoring'', ce_Data = mo_render env t, ce_DocType = ''config''\<rparr>"
  obtain s' where s': "SetElasticIndex (mo_es env) (mo_OrgId env) PERSISTED ''client_monitoring'' ?doc (mw_store w) = (None, s')"
    "docs s' c (GetIndex (mo_OrgId env) PERSISTED) =
      doc_put ''client_monitoring'' ?doc (docs (mw_store w) c (GetIndex (mo_OrgId env) PERSISTED))"
    using SetElasticIndex_put [OF assms(1,2), of "''client_monitoring''" PERSISTED ?doc "mw_store w"] by auto
  let ?w' = "w\<lparr>mw_ticks := Suc (mw_ticks w), mw_store := s'\<rparr>"
  have "SetClientMonitoringState env state w = (None, ?w')"
    using s'(1) assms(4) by (simp add: SetClientMonitoringState_def mon_now_def)
  moreover have "GetElasticRecord (mo_es env) (mo_OrgId env) PERSISTED ''client_monitoring'' s' = Inr ?doc"
    by (rule GetElasticRecord_found [OF assms(1,2)]) (simp add: s'(2) map_of_doc_put)
  then have "GetClientMonitoringState env ?w' = (Inr t, ?w')"
    using assms(5) compileState_again [OF assms(3,4)] by (simp add: GetClientMonitoringState_def)
  ultimately show ?thesis by blast
qed

section \<open>A table that cannot be read\<close>

lemma events_of_default:
  assumes "makeDefaultClientMonitoringLabel env w = (Inr t, w1)"
  shows "ca_CompiledCollectorArgs (table_artifacts t) = []" "labelled_events p (cet_LabelEvents t) = Inr []"
  using assms
  by (auto simp: makeDefaultClientMonitoringLabel_def mon_now_def table_artifacts_def empty_args_def
      split: option.splits)

text \<open>
  Any error of reading the table, an unreachable cluster as much as a missing document, replaces
  the stored table by the default one; the client that asked is sent an event table without any
  event, since the default is compiled only in the copy that is stored.
\<close>

theorem read_error_replaces_table:
  assumes "GetElasticRecord (mo_es env) (mo_OrgId env) PERSISTED ''client_monitoring'' (mw_store w) = Inl e"
    and "makeDefaultClientMonitoringLabel env w = (Inr t, w1)"
    and "compileState env (t\<lparr>cet_Version := u64 (mo_now env (mw_ticks w1))\<rparr>) = (None, t')"
  shows "\<exists>m w'. cm_GetClientUpdateEventTableMessage env cached client_id w = (Inr m, w') \<and>
    message_events m = [] \<and>
    mw_store w' = snd (SetElasticIndex (mo_es env) (mo_OrgId env) PERSISTED ''client_monitoring''
      (encode_config_entry \<lparr>ce_Type = ''client_monitoring'', ce_Data = mo_render env t', ce_DocType = ''config''\<rparr>)
      (mw_store w))"
proof -
  have st: "mw_store w1 = mw_store w"
    using assms(2) by (auto simp: makeDefaultClientMonitoringLabel_def mon_now_def split: option.splits)
  obtain er s where w: "SetElasticIndex (mo_es env) (mo_OrgId env) PERSISTED ''client_monitoring''
      (encode_config_entry \<lparr>ce_Type = ''client_monitoring'', ce_Data = mo_render env t', ce_DocType = ''config''\<rparr>)
      (mw_store w) = (er, s)" by fastforce
  let ?w2 = "w1\<lparr>mw_ticks := Suc (mw_ticks w1), mw_store := s\<rparr>"
  have "GetClientMonitoringState env w = (Inr t, ?w2)"
    using assms w
    by (simp add: GetClientMonitoringState_def default_state_def SetClientMonitoringState_def mon_now_def st)
  then show ?thesis
    using events_of_default [OF assms(2)] w
    by (simp add: cm_GetClientUpdateEventTableMessage_def mon_now_def message_events_def)
qed

section \<open>The events of a message\<close>

text \<open>\<open>rand.Intn(n)\<close> is below \<open>n\<close> and not negative.\<close>

definition rand_contract :: "'s mon_env \<Rightarrow> bool" where
  "rand_contract env \<longleftrightarrow> (\<forall>n k. 0 < k \<longrightarrow> 0 \<le> mo_rand env n k \<and> mo_rand env n k < k)"

text \<open>An event as it is sent for the event of a table.\<close>

definition sent_event :: "int \<Rightarrow> int \<Rightarrow> vql_args \<Rightarrow> vql_args \<Rightarrow> bool" where
  "sent_event max_wait jitter e e' \<longleftrightarrow> va_Query e' = va_Query e \<and> va_Timeout e' = 99999999 \<and>
     base_wait max_wait e \<le> va_MaxWait e' \<and> va_MaxWait e' < base_wait max_wait e + wait_jitter jitter"

lemma spread_events_sent:
  assumes "rand_contract env" and "mo_Defaults env = Some (max_wait, jitter)"
    and "0 \<le> jitter" and "jitter < 2 ^ 63"
    and "\<forall>e \<in> set es. 0 \<le> base_wait max_wait e \<and> base_wait max_wait e < 2 ^ 63"
  shows "\<exists>es' k. spread_events env n es = (Inr es', k) \<and> list_all2 (sent_event max_wait jitter) es es'"
  using assms(5)
proof (induction es arbitrary: n)
  case (Cons e es)
  have j: "i64 (wait_jitter jitter) = wait_jitter jitter" "0 < wait_jitter jitter" "wait_jitter jitter < 2 ^ 63"
    using assms(3,4) by (auto simp: wait_jitter_def intro!: i64_id)
  obtain es' k where IH: "spread_events env (Suc n) es = (Inr es', k)" "list_all2 (sent_event max_wait jitter) es es'"
    using Cons.IH [of "Suc n"] Cons.prems by auto
  have r: "0 \<le> mo_rand env n (wait_jitter jitter)" "mo_rand env n (wait_jitter jitter) < wait_jitter jitter"
    using assms(1) j(2) by (simp_all add: rand_contract_def)
  have b: "0 \<le> base_wait max_wait e" "base_wait max_wait e < 2 ^ 63" using Cons.prems by simp_all
  have "u64 (base_wait max_wait e + mo_rand env n (wait_jitter jitter)) =
      base_wait max_wait e + mo_rand env n (wait_jitter jitter)"
    using r b j(3) by (intro u64_id) simp_all
  then have "sent_event max_wait jitter e (e\<lparr>va_MaxWait := u64 (base_wait max_wait e +
      mo_rand env n (wait_jitter jitter)), va_Timeout := 99999999\<rparr>)"
    using r b by (simp add: sent_event_def)
  then show ?case using IH j assms(2) by (simp add: Let_def)
qed simp


section \<open>What is listed\<close>

text \<open>
  The documented answer of the cluster to a terms aggregation: the different values of the field in
  the matching documents, all of them when they are at most the size asked for.
\<close>

definition agg_values :: "search_req \<Rightarrow> string \<Rightarrow> index_docs \<Rightarrow> json set" where
  "agg_values q f ds = (\<Union>d \<in> set (match_docs (sq_query q) ds). set (field_values f (snd d)))"

definition agg_reply :: "json list \<Rightarrow> json" where
  "agg_reply ks = JObj [(''aggregations'', JObj [(''genres'', JObj [(''buckets'',
     JList (map (\<lambda>k. JObj [(''key'', k)]) ks))])])]"

definition agg_contract :: "('s, 'z) elastic_scheme \<Rightarrow> ('s \<Rightarrow> cluster \<Rightarrow> string \<Rightarrow> index_docs) \<Rightarrow> bool" where
  "agg_contract es docs \<longleftrightarrow> (\<forall>c idx q s f. sq_agg q = Some f \<longrightarrow>
     (\<exists>tx ks. distinct ks \<and> set ks \<subseteq> agg_values q f (docs s c idx) \<and>
        (card (agg_values q f (docs s c idx)) \<le> OPENSEARCH_MAX_BUCKETS \<longrightarrow> set ks = agg_values q f (docs s c idx)) \<and>
        os_Search es c idx q s = Inr \<lparr>rp_IsError = False, rp_text = tx, rp_json = Some (agg_reply ks)\<rparr>))"

lemma decode_agg_reply:
  "decode_response (Some (agg_reply ks)) = Inr \<lparr>er_Hits = [], er_Total = 0, er_Buckets = ks, er_Value = JNull\<rparr>"
  by (simp add: decode_response_def agg_reply_def get_raw_def get_list_def get_int_def comp_def)

lemma QueryElasticAggregations_values:
  assumes "agg_contract es docs" and "GetElasticClient es org = Inr c" and "sq_agg q = Some f"
    and "card (agg_values q f (docs s c (GetIndex org idx))) \<le> OPENSEARCH_MAX_BUCKETS"
  shows "\<exists>ks. QueryElasticAggregations es marshal org idx q s = Inr (map (to_string marshal) ks) \<and>
    distinct ks \<and> set ks = agg_values q f (docs s c (GetIndex org idx))"
proof -
  obtain tx ks where "distinct ks" "set ks = agg_values q f (docs s c (GetIndex org idx))"
    "os_Search es c (GetIndex org idx) q s = Inr \<lparr>rp_IsError = False, rp_text = tx, rp_json = Some (agg_reply ks)\<rparr>"
    using assms(1,3,4) unfolding agg_contract_def by metis
  then show ?thesis
    by (auto simp: QueryElasticAggregations_def run_search_def assms(2) decode_agg_reply)
qed

text \<open>
  The times listed for an artifact of a client are the days of its results, as numbers of 32
  bits, when there are at most ten thousand of them.
\<close>

theorem event_times_listed:
  assumes "agg_contract (mo_es env) docs" and "GetElasticClient (mo_es env) (mo_OrgId env) = Inr c"
    and "client_id \<noteq> []" and "client_id \<noteq> ''server''" and "artifact \<noteq> []"
    and "agg_values (getAvailableEventTimesQuery client_id ''results'' artifact) ''date''
           (docs s c (GetIndex (mo_OrgId env) TRANSIENT)) = JInt ` D"
    and "card D \<le> 10000" and "\<forall>d \<in> D. ParseInt (mo_marshal env (JInt d)) = Some d"
  shows "\<exists>ts. ListAvailableEventResults env client_id artifact s = Inr [\<lparr>av_Artifact = artifact, av_RowTimestamps = ts\<rparr>] \<and>
    set ts = i32 ` D"
proof -
  let ?q = "getAvailableEventTimesQuery client_id ''results'' artifact"
  have "card (JInt ` D) \<le> OPENSEARCH_MAX_BUCKETS"
    using assms(7) by (simp add: card_image [of JInt D] inj_on_def OPENSEARCH_MAX_BUCKETS_def)
  then obtain ks where ks: "QueryElasticAggregations (mo_es env) (mo_marshal env) (mo_OrgId env) TRANSIENT ?q s =
      Inr (map (to_string (mo_marshal env)) ks)" "set ks = JInt ` D"
    using QueryElasticAggregations_values [OF assms(1,2), of ?q "''date''" s TRANSIENT "mo_marshal env"] assms(6)
    by (auto simp: getAvailableEventTimesQuery_def)
  have "set (List.map_filter ParseInt (map (to_string (mo_marshal env)) ks)) = D"
  proof -
    have "ParseInt (to_string (mo_marshal env) (JInt d)) = Some d" if "d \<in> D" for d
      using assms(8) that by (simp add: to_string_def)
    then show ?thesis using ks(2) by (force simp: map_filter_def image_iff)
  qed
  then show ?thesis
    using ks(1) assms(3-5) by (simp add: ListAvailableEventResults_def listAvailableEventTimestamps_def)
qed

section \<open>A run\<close>

definition echo_launcher :: "collector_args option \<Rightarrow> vql_args list result" where
  "echo_launcher a = (case a of None \<Rightarrow> Inl IOError
     | Some x \<Rightarrow> Inr (map (\<lambda>n. \<lparr>va_MaxWait = 0, va_Timeout = 1, va_Query = JStr n\<rparr>) (ca_Artifacts x)))"

definition sample_mon_table :: client_event_table where
  "sample_mon_table = \<lparr>cet_Version = 7, cet_Artifacts = Some (empty_args\<lparr>ca_Artifacts := [''Proc'']\<rparr>),
     cet_LabelEvents = []\<rparr>"

text \<open>A table of this run is the text of its artifacts.\<close>

definition agg_es :: "mem_es_state elastic" where
  "agg_es = mem_es\<lparr>os_Search := (\<lambda>c idx q st. case sq_agg q of None \<Rightarrow> os_Search mem_es c idx q st
     | Some f \<Rightarrow> ok_reply (agg_reply (remdups (concat (map (\<lambda>d. field_values f (snd d))
         (match_docs (sq_query q) (mem_docs st idx)))))))\<rparr>"

lemma mem_agg_contract: "agg_contract agg_es (\<lambda>st c idx. mem_docs st idx)"
  unfolding agg_contract_def
proof (intro allI impI)
  fix c idx s f and q :: search_req assume f: "sq_agg q = Some f"
  let ?ks = "remdups (concat (map (\<lambda>d. field_values f (snd d)) (match_docs (sq_query q) (mem_docs s idx))))"
  have "os_Search agg_es c idx q s = ok_reply (agg_reply ?ks)" using f by (simp add: agg_es_def)
  then show "\<exists>tx ks. distinct ks \<and> set ks \<subseteq> agg_values q f (mem_docs s idx) \<and>
      (card (agg_values q f (mem_docs s idx)) \<le> OPENSEARCH_MAX_BUCKETS \<longrightarrow> set ks = agg_values q f (mem_docs s idx)) \<and>
      os_Search agg_es c idx q s = Inr \<lparr>rp_IsError = False, rp_text = tx, rp_json = Some (agg_reply ks)\<rparr>"
    by (intro exI [of _ "[]"] exI [of _ ?ks]) (simp add: ok_reply_def agg_values_def)
qed

definition sample_mon_env :: "mem_es_state elastic \<Rightarrow> mem_es_state mon_env" where
  "sample_mon_env es = \<lparr>mo_es = es, mo_OrgId = ''root'', mo_DefaultArtifacts = Some [''Default''],
     mo_Defaults = Some (0, 0), mo_Launcher = Inr echo_launcher, mo_RepositoryManager = None,
     mo_GlobalRepository = None,
     mo_parse = (\<lambda>t. Inr \<lparr>cet_Version = 100, cet_Artifacts = Some (empty_args\<lparr>ca_Artifacts := [''Proc''],
        ca_CompiledCollectorArgs := [\<lparr>va_MaxWait = 0, va_Timeout = 1, va_Query = JStr ''Proc''\<rparr>]\<rparr>), cet_LabelEvents = []\<rparr>),
     mo_render = (\<lambda>t. ''t''), mo_marshal = (\<lambda>j. ''17''), mo_now = (\<lambda>n. 100 + int n),
     mo_rand = (\<lambda>n k. k - 1), mo_monitoring_flow = ''F.Monitoring''\<rparr>"

lemma sample_mon_sel:
  "mo_es (sample_mon_env es) = es" "mo_OrgId (sample_mon_env es) = ''root''"
  "mo_DefaultArtifacts (sample_mon_env es) = Some [''Default'']" "mo_Defaults (sample_mon_env es) = Some (0, 0)"
  "mo_Launcher (sample_mon_env es) = Inr echo_launcher" "mo_RepositoryManager (sample_mon_env es) = None"
  "mo_GlobalRepository (sample_mon_env es) = None" "mo_now (sample_mon_env es) n = 100 + int n"
  "mo_rand (sample_mon_env es) n k = k - 1" "mo_marshal (sample_mon_env es) j = ''17''"
  "mo_render (sample_mon_env es) t = ''t''" "mo_monitoring_flow (sample_mon_env es) = ''F.Monitoring''"
  "mo_parse (sample_mon_env es) x = Inr \<lparr>cet_Version = 100, cet_Artifacts = Some (empty_args\<lparr>ca_Artifacts := [''Proc''],
        ca_CompiledCollectorArgs := [\<lparr>va_MaxWait = 0, va_Timeout = 1, va_Query = JStr ''Proc''\<rparr>]\<rparr>), cet_LabelEvents = []\<rparr>"
  by (simp_all add: sample_mon_env_def)

definition mon_start :: "mem_es_state mon_world" where
  "mon_start = \<lparr>mw_store = [], mw_ticks = 0, mw_rands = 0\<rparr>"

lemma mem_es_client: "GetElasticClient mem_es org = Inr PrimaryOpenSearch"
  by simp

lemma sample_compile: "compileArtifactCollectorArgs (sample_mon_env es) a = echo_launcher a"
  by (simp add: compileArtifactCollectorArgs_def sample_mon_sel)

lemma sample_stable: "compiler_stable (sample_mon_env es)"
  by (simp add: compiler_stable_def sample_mon_sel echo_launcher_def)

lemma sample_rand: "rand_contract (sample_mon_env es)"
  by (simp add: rand_contract_def sample_mon_sel)

lemma root_persisted: "GetIndex ''root'' PERSISTED = ''persisted''"
  by code_simp

theorem monitoring_table_roundtrip_witness:
  "\<exists>t w'. SetClientMonitoringState (sample_mon_env mem_es) sample_mon_table mon_start = (None, w') \<and>
    GetClientMonitoringState (sample_mon_env mem_es) w' = (Inr t, w') \<and> cet_Version t = 100"
proof -
  let ?t = "\<lparr>cet_Version = 100, cet_Artifacts = Some (empty_args\<lparr>ca_Artifacts := [''Proc''],
        ca_CompiledCollectorArgs := [\<lparr>va_MaxWait = 0, va_Timeout = 1, va_Query = JStr ''Proc''\<rparr>]\<rparr>), cet_LabelEvents = []\<rparr>"
  have "compileState (sample_mon_env mem_es) (sample_mon_table\<lparr>cet_Version := 100\<rparr>) = (None, ?t)"
    by (simp add: compileState_def Let_def sample_compile echo_launcher_def table_artifacts_def sample_mon_table_def)
  then show ?thesis
    using monitoring_table_roundtrip [of "sample_mon_env mem_es" "\<lambda>st c idx. mem_docs st idx" PrimaryOpenSearch
        mon_start sample_mon_table ?t] mem_store_contract sample_stable [of mem_es]
    by (auto simp: sample_mon_sel mon_start_def u64_def)
qed

text \<open>No document is there yet: the first client gets no event although the default table has one.\<close>

theorem read_error_replaces_table_witness:
  "\<exists>m w'. cm_GetClientUpdateEventTableMessage (sample_mon_env mem_es) None ''C.1'' mon_start = (Inr m, w') \<and>
    message_events m = [] \<and> mem_docs (mw_store w') ''persisted'' \<noteq> []"
proof -
  let ?env = "sample_mon_env mem_es"
  have "GetElasticRecord mem_es ''root'' PERSISTED ''client_monitoring'' [] = Inl ErrNotExist"
    by (rule GetElasticRecord_missing [OF mem_store_contract mem_es_client]) (simp add: mem_docs_def)
  then have miss: "GetElasticRecord (mo_es ?env) (mo_OrgId ?env) PERSISTED ''client_monitoring'' (mw_store mon_start) =
      Inl ErrNotExist"
    by (simp add: sample_mon_sel mon_start_def)
  obtain t w1 where t: "makeDefaultClientMonitoringLabel ?env mon_start = (Inr t, w1)"
    by (simp add: makeDefaultClientMonitoringLabel_def mon_now_def sample_mon_sel)
  define t' where "t' = snd (compileState ?env (t\<lparr>cet_Version := u64 (mo_now ?env (mw_ticks w1))\<rparr>))"
  have c: "compileState ?env (t\<lparr>cet_Version := u64 (mo_now ?env (mw_ticks w1))\<rparr>) = (None, t')"
    using t unfolding t'_def
    by (auto simp: makeDefaultClientMonitoringLabel_def mon_now_def sample_mon_sel compileState_def Let_def
        sample_compile echo_launcher_def table_artifacts_def)
  show ?thesis
    using read_error_replaces_table [OF miss t c, of None "''C.1''"]
      SetElasticIndex_put [OF mem_store_contract mem_es_client, of "''client_monitoring''" "''root''" PERSISTED
        "encode_config_entry \<lparr>ce_Type = ''client_monitoring'', ce_Data = ''t'', ce_DocType = ''config''\<rparr>" "[]"]
    by (auto simp: sample_mon_sel mon_start_def mem_docs_def root_persisted)
qed


definition event_docs :: mem_es_state where
  "event_docs = [(''transient'', [(''1'', JObj [(''client_id'', JStr ''C.1''), (''type'', JStr ''results''),
     (''artifact'', JStr ''Proc''), (''flow_id'', JStr ''F.Monitoring''), (''date'', JInt 17)])])]"

theorem event_times_listed_witness:
  "\<exists>ts. ListAvailableEventResults (sample_mon_env agg_es) ''C.1'' ''Proc'' event_docs =
      Inr [\<lparr>av_Artifact = ''Proc'', av_RowTimestamps = ts\<rparr>] \<and> set ts = {17}"
proof -
  let ?env = "sample_mon_env agg_es"
  have idx: "GetIndex ''root'' TRANSIENT = ''transient''" by code_simp
  have "agg_values (getAvailableEventTimesQuery ''C.1'' ''results'' ''Proc'') ''date''
      (mem_docs event_docs (GetIndex ''root'' TRANSIENT)) = JInt ` {17}"
    unfolding idx
    by (simp add: agg_values_def match_docs_def event_docs_def mem_docs_def getAvailableEventTimesQuery_def
        query_of_def field_values_def)
  moreover have "ParseInt ''17'' = Some 17" by code_simp
  moreover have "i32 17 = 17" by code_simp
  moreover have "GetElasticClient agg_es org = Inr PrimaryOpenSearch" for org
    by (simp add: GetElasticClient_def agg_es_def mem_es_def)
  ultimately show ?thesis
    using event_times_listed [of ?env "\<lambda>st c idx. mem_docs st idx" PrimaryOpenSearch "''C.1''" "''Proc''" event_docs "{17}"]
      mem_agg_contract
    by (simp add: sample_mon_sel)
qed

end
