(* ===== verification/Communicator.thy ===== *)
theory Communicator
  imports Ownership
begin

text \<open>
  The front end for clients (\<open>server/server.go\<close>), the backend that ingests their messages and
  hands out their tasks (\<open>server/elastic.go\<close>), and the store of their public keys
  (\<open>crypto/server/manager.go\<close>).
\<close>

section \<open>Environment\<close>

text \<open>
  The library's part: decryption, which gives the source and organisation of the messages and
  whether they are authenticated; the iteration over the messages it holds, with the function it
  calls for each; encryption; and the organisation's configuration, whose client section may be
  missing. A handler that panics ends its connection without a reply.
\<close>

record message_info =
  mi_Source :: string
  mi_OrgId :: string
  mi_Authenticated :: bool
  mi_Raw :: string

type_synonym 'st processor = "client_message \<Rightarrow> 'st \<Rightarrow> (go_error option \<times> 'st) option"

record 's comm_env =
  co_ig :: "'s ingest_env"
  co_Decrypt :: "string \<Rightarrow> message_info result"
  co_IterateJobs :: "message_info \<Rightarrow> 's ingest_state processor \<Rightarrow> 's ingest_state
     \<Rightarrow> (go_error option \<times> 's ingest_state) option"
  co_EncryptMessageList :: "velo_message list \<Rightarrow> string \<Rightarrow> string \<Rightarrow> string result"
  co_MAX_MEMORY :: nat
  co_OrgManager :: "go_error option"
  co_GetOrgConfig :: "string \<Rightarrow> string option result"
  co_ClientInfoManager :: "string \<Rightarrow> ('s elastic \<times> string) result"
  co_codec :: msg_codec

datatype http_answer = Answer int string | Aborted

definition http_Error :: "string \<Rightarrow> int \<Rightarrow> http_answer" where
  "http_Error msg code = Answer code (msg @ [CHR ''\<newline>''])"

section \<open>The backend (elastic.go)\<close>

fun ElasticBackend_Send ::
  "'s ingest_env \<Rightarrow> client_message list \<Rightarrow> 's ingest_state \<Rightarrow> (go_error option \<times> 's ingest_state) option" where
  "ElasticBackend_Send env [] st = Some (None, st)"
| "ElasticBackend_Send env (msg # msgs) st =
     (case Process env msg st of
        None \<Rightarrow> None
      | Some (Some e, st1) \<Rightarrow> Some (Some e, st1)
      | Some (None, st1) \<Rightarrow> ElasticBackend_Send env msgs st1)"

definition ElasticBackend_Receive ::
  "'s comm_env \<Rightarrow> string \<Rightarrow> string \<Rightarrow> 's ingest_state
     \<Rightarrow> (velo_message list \<times> string option) result \<times> 's ingest_state" where
  "ElasticBackend_Receive env cid org_id st =
     (case co_OrgManager env of
        Some e \<Rightarrow> (Inl e, st)
      | None \<Rightarrow>
     (case co_GetOrgConfig env org_id of
        Inl e \<Rightarrow> (Inl e, st)
      | Inr org_config_obj \<Rightarrow>
     (case co_ClientInfoManager env org_id of
        Inl e \<Rightarrow> (Inl e, st)
      | Inr (es, org) \<Rightarrow>
          (case GetClientTasks es org (co_codec env) cid (sto st) of
             (Inl e, s) \<Rightarrow> (Inl e, st\<lparr>is_world := (is_world st)\<lparr>wd_store := s\<rparr>\<rparr>)
           | (Inr tasks, s) \<Rightarrow> (Inr (tasks, org_config_obj), st\<lparr>is_world := (is_world st)\<lparr>wd_store := s\<rparr>\<rparr>)))))"

section \<open>The handlers (server.go)\<close>

text \<open>What both handlers do with the messages of a request: one at a time to the backend.\<close>

definition send_jobs ::
  "'s comm_env \<Rightarrow> message_info \<Rightarrow> 's ingest_state \<Rightarrow> (go_error option \<times> 's ingest_state) option" where
  "send_jobs env info st = co_IterateJobs env info (\<lambda>message st. ElasticBackend_Send (co_ig env) [message] st) st"

definition unavailable :: "go_error \<Rightarrow> http_answer" where
  "unavailable e = (if e = NilDereference then Aborted else Answer 503 (err_text e))"

definition Communicator_Send ::
  "'s comm_env \<Rightarrow> string result \<Rightarrow> 's ingest_state \<Rightarrow> (http_answer \<times> 's ingest_state) option" where
  "Communicator_Send env body st =
     (case bindR body (co_Decrypt env) of
        Inl e \<Rightarrow> Some (http_Error [] 403, st)
      | Inr info \<Rightarrow>
          (case send_jobs env info st of
             None \<Rightarrow> None
           | Some (Some e, st1) \<Rightarrow> Some (unavailable e, st1)
           | Some (None, st1) \<Rightarrow> Some (Answer 200 [], st1)))"

definition Communicator_Receive ::
  "'s comm_env \<Rightarrow> string \<Rightarrow> string result \<Rightarrow> 's ingest_state \<Rightarrow> (http_answer \<times> 's ingest_state) option" where
  "Communicator_Receive env meth body st =
     (if meth \<noteq> ''POST'' then Some (Answer 403 [], st)
      else
     (case bindR body (\<lambda>b. co_Decrypt env (take (co_MAX_MEMORY env) b)) of
        Inl e \<Rightarrow> Some (http_Error [] 403, st)
      | Inr info \<Rightarrow>
          if \<not> mi_Authenticated info then Some (http_Error ''Please Enrol'' 406, st)
          else
     (case send_jobs env info st of
        None \<Rightarrow> None
      | Some (Some e, st1) \<Rightarrow> Some (unavailable e, st1)
      | Some (None, st1) \<Rightarrow>
     (case ElasticBackend_Receive env (mi_Source info) (mi_OrgId info) st1 of
        (Inl e, st2) \<Rightarrow> Some (unavailable e, st2)
      | (Inr (msgs, client_section), st2) \<Rightarrow>
          Some (case client_section of
                  None \<Rightarrow> Aborted
                | Some nonce \<Rightarrow>
                    (case co_EncryptMessageList env msgs nonce (mi_Source info) of
                       Inl e \<Rightarrow> http_Error ''Please Enrol'' 406
                     | Inr resp \<Rightarrow> Answer 200 resp), st2)))))"

datatype endpoint =
    EControl | EReader | EServerPem | EUploadStart | EUploadPut | EUploadCommit | EUploadAbort

text \<open>The routes of the server; every other path is not found.\<close>

definition route :: "string \<Rightarrow> endpoint option" where
  "route p = map_of [(''/control'', EControl), (''/reader'', EReader), (''/server.pem'', EServerPem),
     (''/upload/start'', EUploadStart), (''/upload/put'', EUploadPut), (''/upload/commit'', EUploadCommit),
     (''/upload/abort'', EUploadAbort)] p"

definition server_pem :: "string \<Rightarrow> http_answer" where
  "server_pem certificate = Answer 200 certificate"

text \<open>The size of the cache of TLS sessions.\<close>

definition expected_clients :: "int option \<Rightarrow> int" where
  "expected_clients resources = (case resources of None \<Rightarrow> 10000 | Some n \<Rightarrow> if n > 0 then n else 10000)"

section \<open>Public keys (manager.go)\<close>

text \<open>
  The library's part: PEM texts of keys, and base64, in which JSON holds the bytes of the text.
\<close>

record ('s, 'k) key_env =
  ke_es :: "'s elastic"
  ke_PublicKeyToPem :: "'k \<Rightarrow> string"
  ke_PemToPublicKey :: "string \<Rightarrow> 'k result"
  ke_b64 :: "string \<Rightarrow> string"
  ke_unb64 :: "string \<Rightarrow> string result"

definition encode_public_key :: "('s, 'k) key_env \<Rightarrow> string \<Rightarrow> int \<Rightarrow> json" where
  "encode_public_key env pem enrolled = JObj [(''pem'', JStr (ke_b64 env pem)), (''enroll_time'', JInt enrolled)]"

definition GetPublicKey :: "('s, 'k) key_env \<Rightarrow> string \<Rightarrow> string \<Rightarrow> 's \<Rightarrow> 'k option" where
  "GetPublicKey env org_id cid s =
     (case bindR (GetElasticRecord (ke_es env) org_id PERSISTED (cid @ ''_key'') s) (\<lambda>record.
           bindR (Json.get_str ''pem'' record) (\<lambda>b. bindR (get_u64 ''enroll_time'' record) (\<lambda>t.
           bindR (ke_unb64 env b) (ke_PemToPublicKey env)))) of
        Inl e \<Rightarrow> None
      | Inr ky \<Rightarrow> Some ky)"

definition SetPublicKey ::
  "('s, 'k) key_env \<Rightarrow> int \<Rightarrow> string \<Rightarrow> string \<Rightarrow> 'k \<Rightarrow> 's \<Rightarrow> go_error option \<times> 's" where
  "SetPublicKey env now org_id cid ky s =
     SetElasticIndex (ke_es env) org_id PERSISTED (cid @ ''_key'')
       (encode_public_key env (ke_PublicKeyToPem env ky) (u64 now)) s"

section \<open>The messages of a request\<close>

text \<open>
  The documented behaviour of the iteration: there are messages, all with the source, organisation
  and authentication of the request, which are passed on in order until the first error; what does
  not decode after them is an error.
\<close>

fun run_jobs :: "'st processor \<Rightarrow> client_message list \<Rightarrow> 'st \<Rightarrow> (go_error option \<times> 'st) option" where
  "run_jobs f [] st = Some (None, st)"
| "run_jobs f (m # ms) st =
     (case f m st of
        None \<Rightarrow> None
      | Some (Some e, st1) \<Rightarrow> Some (Some e, st1)
      | Some (None, st1) \<Rightarrow> run_jobs f ms st1)"

definition message_of :: "message_info \<Rightarrow> client_message \<Rightarrow> bool" where
  "message_of info m \<longleftrightarrow> ms_Source m = mi_Source info \<and> ms_OrgId m = mi_OrgId info \<and>
     (ms_Unauthenticated m \<longleftrightarrow> \<not> mi_Authenticated info)"

definition iterate_contract ::
  "(message_info \<Rightarrow> 'st processor \<Rightarrow> 'st \<Rightarrow> (go_error option \<times> 'st) option) \<Rightarrow> bool" where
  "iterate_contract iterate \<longleftrightarrow> (\<forall>info. \<exists>ms e. (\<forall>m \<in> set ms. message_of info m) \<and>
     (\<forall>f st. iterate info f st = (case run_jobs f ms st of Some (None, st1) \<Rightarrow> Some (e, st1) | r \<Rightarrow> r)))"

lemma Send_is_run_jobs: "ElasticBackend_Send env ms st = run_jobs (Process env) ms st"
  by (induction ms arbitrary: st) (auto split: option.splits prod.splits)

section \<open>What a handler relies on\<close>

locale communicator_backend =
  fixes send :: "client_message list \<Rightarrow> 'st \<Rightarrow> (go_error option \<times> 'st) option"
    and writes :: "string \<Rightarrow> string \<Rightarrow> 'st \<Rightarrow> 'st \<Rightarrow> bool"
  assumes writes_refl: "writes src org st st"
    and writes_trans: "writes src org st st1 \<Longrightarrow> writes src org st1 st2 \<Longrightarrow> writes src org st st2"
    and send_writes: "send [m] st = Some (e, st') \<Longrightarrow> \<not> ms_Unauthenticated m \<Longrightarrow>
      writes (ms_Source m) (ms_OrgId m) st st'"
begin

lemma run_writes:
  assumes "\<forall>m \<in> set ms. ms_Source m = src \<and> ms_OrgId m = org \<and> \<not> ms_Unauthenticated m"
    and "run_jobs (\<lambda>m st. send [m] st) ms st = Some (e, st')"
  shows "writes src org st st'"
  using assms
proof (induction ms arbitrary: st)
  case (Cons m ms)
  obtain e1 st1 where s: "send [m] st = Some (e1, st1)"
    using Cons.prems(2) by (cases "send [m] st") auto
  have w: "writes src org st st1" using send_writes [OF s] Cons.prems(1) by simp
  show ?case
  proof (cases e1)
    case None
    have "run_jobs (\<lambda>m st. send [m] st) ms st1 = Some (e, st')" using Cons.prems(2) s None by simp
    moreover have "\<forall>m \<in> set ms. ms_Source m = src \<and> ms_OrgId m = org \<and> \<not> ms_Unauthenticated m"
      using Cons.prems(1) by (meson list.set_intros(2))
    ultimately have "writes src org st1 st'" by (rule Cons.IH [rotated])
    then show ?thesis by (rule writes_trans [OF w])
  next
    case (Some x)
    then show ?thesis using Cons.prems(2) s w by simp
  qed
qed (simp add: writes_refl)

lemma request_writes:
  assumes "iterate_contract iterate" and "mi_Authenticated info"
    and "iterate info (\<lambda>m st. send [m] st) st = Some (e, st')"
  shows "writes (mi_Source info) (mi_OrgId info) st st'"
proof -
  obtain ms e0 where ms: "\<forall>m \<in> set ms. message_of info m"
    and it: "iterate info (\<lambda>m st. send [m] st) st =
      (case run_jobs (\<lambda>m st. send [m] st) ms st of Some (None, st1) \<Rightarrow> Some (e0, st1) | r \<Rightarrow> r)"
    using spec [OF assms(1) [unfolded iterate_contract_def], of info] by blast
  obtain e1 where "run_jobs (\<lambda>m st. send [m] st) ms st = Some (e1, st')"
    using assms(3) it by (cases "run_jobs (\<lambda>m st. send [m] st) ms st") (auto split: option.splits)
  then show ?thesis
    using run_writes [of ms "mi_Source info" "mi_OrgId info"] ms assms(2) by (simp add: message_of_def)
qed

end

text \<open>The Elastic backend writes only the documents of the source of a message.\<close>

definition writes_own ::
  "'s ingest_env \<Rightarrow> ('s \<Rightarrow> (string \<times> json) set) \<Rightarrow> ('s \<Rightarrow> cluster \<Rightarrow> string \<Rightarrow> index_docs)
     \<Rightarrow> string \<Rightarrow> string \<Rightarrow> 's ingest_state \<Rightarrow> 's ingest_state \<Rightarrow> bool" where
  "writes_own env cells docs src org st st' \<longleftrightarrow> (\<forall>ve. ig_org env org = Inr ve \<longrightarrow>
     framed env (ve_fl ve) cells docs src \<longrightarrow> own env (ve_fl ve) cells src st st')"

interpretation elastic: communicator_backend "ElasticBackend_Send env" "writes_own env cells docs" for env cells docs
proof
  show "writes_own env cells docs src org st st" for src org st
    by (simp add: writes_own_def)
  show "writes_own env cells docs src org st st2"
    if "writes_own env cells docs src org st st1" and "writes_own env cells docs src org st1 st2" for src org st st1 st2
    using that own_trans unfolding writes_own_def by blast
  show "writes_own env cells docs (ms_Source m) (ms_OrgId m) st st'"
    if "ElasticBackend_Send env [m] st = Some (e, st')" and "\<not> ms_Unauthenticated m" for m st st' e
  proof -
    have "Process env m st = Some (e, st')" using that(1) by (auto split: option.splits prod.splits)
    then show ?thesis using that(2) own_Process unfolding writes_own_def by blast
  qed
qed

section \<open>Properties\<close>

text \<open>
  C5. A client that posts messages writes only its own documents: whatever the request holds, and
  whether or not it ends in an error, all that is added to the store or to its bulk queue are
  documents of the client the request was authenticated for, in its organisation.
\<close>

theorem posted_documents_own:
  assumes "iterate_contract (co_IterateJobs env)" and "co_Decrypt env body = Inr info" and "mi_Authenticated info"
    and "ig_org (co_ig env) (mi_OrgId info) = Inr ve"
    and "framed (co_ig env) (ve_fl ve) cells docs (mi_Source info)"
    and "Communicator_Send env (Inr body) st = Some (ans, st')"
  shows "cells (sto st') \<subseteq> cells (sto st) \<union> own_cells (co_ig env) (ve_fl ve) (mi_Source info)"
proof -
  obtain e where "send_jobs env info st = Some (e, st')"
    using assms(2,6) by (auto simp: Communicator_Send_def split: option.splits)
  then have "writes_own (co_ig env) cells docs (mi_Source info) (mi_OrgId info) st st'"
    unfolding send_jobs_def by (rule elastic.request_writes [OF assms(1,3)])
  then show ?thesis using assms(4,5) by (simp add: writes_own_def own_def adds_def)
qed

text \<open>
  C21. The reader changes something, or answers with success, only for an authenticated POST: any
  other request is refused before its messages are looked at.
\<close>

theorem reader_guarded:
  assumes "Communicator_Receive env meth body st = Some (ans, st')" and "st' \<noteq> st \<or> (\<exists>x. ans = Answer 200 x)"
  shows "meth = ''POST'' \<and> (\<exists>b info. body = Inr b \<and> co_Decrypt env (take (co_MAX_MEMORY env) b) = Inr info \<and>
    mi_Authenticated info)"
proof -
  have refused: "Communicator_Receive env meth body st \<noteq> Some (http_Error t n, st)" if "n \<noteq> 200" for t n
    using assms that by (auto simp: http_Error_def)
  have m: "meth = ''POST''"
  proof (rule ccontr)
    assume "meth \<noteq> ''POST''"
    then have "Communicator_Receive env meth body st = Some (Answer 403 [], st)"
      by (simp add: Communicator_Receive_def)
    then show False using assms by auto
  qed
  show ?thesis
  proof (cases "bindR body (\<lambda>b. co_Decrypt env (take (co_MAX_MEMORY env) b))")
    case (Inl e)
    then show ?thesis using refused [of 403 "[]"] m by (simp add: Communicator_Receive_def)
  next
    case (Inr info)
    have "mi_Authenticated info"
      by (rule ccontr) (use refused [of 406 "''Please Enrol''"] m Inr in \<open>simp add: Communicator_Receive_def\<close>)
    then show ?thesis using m Inr by (auto simp: bindR_Inr_iff)
  qed
qed


text \<open>A public key that was set is the key that is read for the client.\<close>

theorem public_key_roundtrip:
  assumes "store_contract (ke_es env) docs" and "GetElasticClient (ke_es env) org = Inr c"
    and "ke_PemToPublicKey env (ke_PublicKeyToPem env ky) = Inr ky"
    and "\<forall>x. ke_unb64 env (ke_b64 env x) = Inr x"
  shows "\<exists>s'. SetPublicKey env now org cid ky s = (None, s') \<and> GetPublicKey env org cid s' = Some ky"
proof -
  let ?doc = "encode_public_key env (ke_PublicKeyToPem env ky) (u64 now)"
  obtain s' where s': "SetPublicKey env now org cid ky s = (None, s')"
    "docs s' c (GetIndex org PERSISTED) = doc_put (cid @ ''_key'') ?doc (docs s c (GetIndex org PERSISTED))"
    using SetElasticIndex_put [OF assms(1,2), of "cid @ ''_key''" PERSISTED ?doc s] by (auto simp: SetPublicKey_def)
  have "GetElasticRecord (ke_es env) org PERSISTED (cid @ ''_key'') s' = Inr ?doc"
    by (rule GetElasticRecord_found [OF assms(1,2)]) (simp add: s'(2) map_of_doc_put)
  then have "GetPublicKey env org cid s' = Some ky"
    using assms(3,4) u64_range [of now]
    by (simp add: GetPublicKey_def encode_public_key_def Json.get_str_def get_u64_def Json.get_int_def)
  then show ?thesis using s'(1) by blast
qed

section \<open>A run\<close>

text \<open>A request of this run is a ping of a client, authenticated when its text says so.\<close>

definition ping_jobs :: "message_info \<Rightarrow> client_message list" where
  "ping_jobs info = [blank_message\<lparr>ms_Source := mi_Source info, ms_OrgId := mi_OrgId info,
     ms_Unauthenticated := \<not> mi_Authenticated info, ms_ForemanCheckin := True\<rparr>]"

definition client_info :: message_info where
  "client_info = \<lparr>mi_Source = ''C.1'', mi_OrgId = ''root'', mi_Authenticated = True, mi_Raw = []\<rparr>"

definition sample_comm_env :: "mem_es_state comm_env" where
  "sample_comm_env = \<lparr>co_ig = sample_ingest_env,
     co_Decrypt = (\<lambda>b. if b = ''ping'' then Inr client_info else if b = ''new'' then
        Inr (client_info\<lparr>mi_Authenticated := False\<rparr>) else Inl IOError),
     co_IterateJobs = (\<lambda>info f st. run_jobs f (ping_jobs info) st),
     co_EncryptMessageList = (\<lambda>l nonce cid. if nonce = ''N'' then Inr (replicate (length l) (CHR ''m'')) else Inl IOError),
     co_MAX_MEMORY = 100, co_OrgManager = None, co_GetOrgConfig = (\<lambda>org. Inr (Some (if org = ''root'' then ''N'' else []))),
     co_ClientInfoManager = (\<lambda>org. Inr (mem_es, org)), co_codec = plain_codec\<rparr>"

lemma sample_comm_sel:
  "co_ig sample_comm_env = sample_ingest_env" "co_Decrypt sample_comm_env ''ping'' = Inr client_info"
  "co_IterateJobs sample_comm_env info f st = run_jobs f (ping_jobs info) st"
  "co_EncryptMessageList sample_comm_env l ''N'' cid = Inr (replicate (length l) (CHR ''m''))"
  "co_MAX_MEMORY sample_comm_env = 100" "co_OrgManager sample_comm_env = None"
  "co_GetOrgConfig sample_comm_env ''root'' = Inr (Some ''N'')"
  "co_ClientInfoManager sample_comm_env org = Inr (mem_es, org)" "co_codec sample_comm_env = plain_codec"
  by (simp_all add: sample_comm_env_def)

lemma sample_iterate: "iterate_contract (co_IterateJobs sample_comm_env)"
  unfolding iterate_contract_def
proof
  fix info
  show "\<exists>ms e. (\<forall>m \<in> set ms. message_of info m) \<and> (\<forall>f st. co_IterateJobs sample_comm_env info f st =
      (case run_jobs f ms st of Some (None, st1) \<Rightarrow> Some (e, st1) | r \<Rightarrow> r))"
    by (intro exI [of _ "ping_jobs info"] exI [of _ None])
      (simp add: message_of_def ping_jobs_def sample_comm_sel split: option.splits prod.splits)
qed

text \<open>A ping is processed without an error, and queues nothing for the client.\<close>

lemma sample_ping:
  "\<exists>st1. send_jobs sample_comm_env client_info sample_ingest_state = Some (None, st1) \<and>
    queued ''C.1'' (mem_docs (sto st1) (GetIndex ''root'' PERSISTED)) = [] \<and>
    distinct (map fst (mem_docs (sto st1) (GetIndex ''root'' PERSISTED)))"
proof -
  let ?fl = "ve_fl sample_vfs_env"
  let ?m = "hd (ping_jobs client_info)"
  obtain now st1 later st2 where n: "ig_Now ?fl sample_ingest_state = (now, st1)" "ig_Now ?fl st1 = (later, st2)"
    using prod.exhaust by metis
  have e: "fl_es ?fl = mem_es" "fl_org ?fl = ''root''" by (simp_all add: sample_ingest_rs sample_rs_env_def)
  have s2: "sto st2 = []"
    using ig_Now_store [OF n(1)] ig_Now_store [OF n(2)] by (simp add: sample_ingest_state_def sample_world_def)
  let ?doc = "encode_client (ping_record ''C.1'' now later)"
  obtain s' where s': "SetElasticIndex mem_es ''root'' PERSISTED ''C.1_ping'' ?doc [] = (None, s')"
    "mem_docs s' (GetIndex ''root'' PERSISTED) = [(''C.1_ping'', ?doc)]"
    using SetElasticIndex_put [OF mem_store_contract mem_client, of "''C.1_ping''" "''root''" PERSISTED ?doc "[]"]
    by (auto simp: mem_docs_def)
  let ?st = "st2\<lparr>is_world := (is_world st2)\<lparr>wd_store := s'\<rparr>\<rparr>"
  have "HandlePing ?fl ?m sample_ingest_state = (None, ?st)"
    by (simp add: HandlePing_def n in_store_def e s2 s'(1) ping_jobs_def client_info_def)
  then have "Process sample_ingest_env ?m sample_ingest_state = Some (None, ?st)"
    by (simp add: Process_def sample_ingest_env_def ping_jobs_def client_info_def blank_message_def
        maybeHandleHuntResponse_def no_hunt_def Let_def)
  moreover have "queued ''C.1'' [(''C.1_ping'', ?doc)] = []"
    by (simp add: queued_def match_docs_def client_tasks_query_def query_of_def field_values_def encode_client_def
        ping_record_def empty_client_def opt_str_def opt_int_def opt_strs_def)
  ultimately show ?thesis
    using s'(2) by (simp add: send_jobs_def sample_comm_sel ping_jobs_def)
qed

theorem posted_documents_own_witness:
  "\<exists>ans st'. Communicator_Send sample_comm_env (Inr ''ping'') sample_ingest_state = Some (ans, st') \<and>
     {(idx, j). \<exists>i. (i, j) \<in> set (mem_docs (sto st') idx)} \<subseteq>
       {(idx, j). \<exists>i. (i, j) \<in> set (mem_docs (sto sample_ingest_state) idx)} \<union>
       own_cells sample_ingest_env (ve_fl sample_vfs_env) ''C.1''"
proof -
  obtain st1 where "send_jobs sample_comm_env client_info sample_ingest_state = Some (None, st1)"
    using sample_ping by blast
  then have run: "Communicator_Send sample_comm_env (Inr ''ping'') sample_ingest_state = Some (Answer 200 [], st1)"
    by (simp add: Communicator_Send_def sample_comm_sel)
  have env: "ig_org (co_ig sample_comm_env) (mi_OrgId client_info) = Inr sample_vfs_env" "mi_Authenticated client_info"
    "mi_Source client_info = ''C.1''"
    by (simp_all add: sample_comm_sel sample_ingest_env_def client_info_def)
  show ?thesis
    using posted_documents_own [OF sample_iterate sample_comm_sel(2) env(2,1) sample_framed [folded sample_comm_sel(1)] run]
      run env(3) by (auto simp: sample_comm_sel)
qed

theorem reader_guarded_witness:
  "\<exists>ans st'. Communicator_Receive sample_comm_env ''POST'' (Inr ''ping'') sample_ingest_state = Some (ans, st') \<and>
    (\<exists>info. co_Decrypt sample_comm_env (take (co_MAX_MEMORY sample_comm_env) ''ping'') = Inr info \<and> mi_Authenticated info)"
proof -
  obtain st1 where st1: "send_jobs sample_comm_env client_info sample_ingest_state = Some (None, st1)"
    "queued ''C.1'' (mem_docs (sto st1) (GetIndex ''root'' PERSISTED)) = []"
    "distinct (map fst (mem_docs (sto st1) (GetIndex ''root'' PERSISTED)))"
    using sample_ping by blast
  have "task_queue plain_codec ''C.1'' (mem_docs (sto st1) (GetIndex ''root'' PERSISTED)) [] 0"
    using st1(2,3) by (simp add: task_queue_def)
  then obtain s' where "GetClientTasks mem_es ''root'' plain_codec ''C.1'' (sto st1) = (Inr [], s')"
    using take_queue [OF mem_store_contract mem_client, of plain_codec "''C.1''" "sto st1" "''root''" "[]" 0] by auto
  then have "\<exists>st'. Communicator_Receive sample_comm_env ''POST'' (Inr ''ping'') sample_ingest_state = Some (Answer 200 [], st')"
    using st1(1)
    by (simp add: Communicator_Receive_def sample_comm_sel ElasticBackend_Receive_def client_info_def)
  then show ?thesis
    using reader_guarded [of sample_comm_env "''POST''" "Inr ''ping''" sample_ingest_state] by blast
qed


definition sample_key_env :: "(mem_es_state, nat) key_env" where
  "sample_key_env = \<lparr>ke_es = mem_es, ke_PublicKeyToPem = (\<lambda>n. replicate n (CHR ''k'')),
     ke_PemToPublicKey = (\<lambda>t. Inr (length t)), ke_b64 = rev, ke_unb64 = (\<lambda>t. Inr (rev t))\<rparr>"

theorem public_key_roundtrip_witness:
  "\<exists>s'. SetPublicKey sample_key_env 9 ''root'' ''C.1'' 3 [] = (None, s') \<and> GetPublicKey sample_key_env ''root'' ''C.1'' s' = Some 3"
  using public_key_roundtrip [of sample_key_env "\<lambda>st c idx. mem_docs st idx" "''root''" PrimaryOpenSearch 3 9 "''C.1''" "[]"]
    mem_store_contract by (simp add: sample_key_env_def)

end
