(* ===== verification/Repository.thy ===== *)
theory Repository
  imports Datastore Caches
begin

text \<open>
  Artifact repositories (\<open>services/repository/repository.go\<close>, \<open>services/repository/manager.go\<close>):
  the cloud repository of an organisation, with its cache, delegates to the one of the root
  organisation, and that one to the library's repository in memory, which holds what is built in.
\<close>

section \<open>Artifacts\<close>

record artifact =
  at_Name :: string
  at_Type :: string
  at_Sources :: "(string \<times> json) list"
  at_Compiled :: bool
  at_BuiltIn :: bool
  at_CompiledIn :: bool
  at_Other :: json

record artifact_options =
  ao_Validate :: bool
  ao_BuiltIn :: bool
  ao_CompiledIn :: bool

record RepositoryEntry =
  re_Name :: string
  re_Definition :: string
  re_DocType :: string

definition encode_artifact_entry :: "RepositoryEntry \<Rightarrow> json" where
  "encode_artifact_entry e = JObj ((if re_Name e = [] then [] else [(''name'', JStr (re_Name e))]) @
     (if re_Definition e = [] then [] else [(''definition'', JStr (re_Definition e))]) @
     [(''doc_type'', JStr (re_DocType e))])"

definition decode_artifact_entry :: "json \<Rightarrow> RepositoryEntry result" where
  "decode_artifact_entry j = bindR (get_str ''name'' j) (\<lambda>a. bindR (get_str ''definition'' j) (\<lambda>b.
     bindR (get_str ''doc_type'' j) (\<lambda>c. Inr \<lparr>re_Name = a, re_Definition = b, re_DocType = c\<rparr>)))"

lemma decode_encode_artifact_entry [simp]: "decode_artifact_entry (encode_artifact_entry e) = Inr e"
  by (simp add: encode_artifact_entry_def decode_artifact_entry_def get_str_def)

section \<open>Environment and state\<close>

text \<open>
  The library's repository in memory, over a state of its own (\<open>rp_new\<close> is the empty one), the
  JSON of an artifact, the split of a source name, and the files that are compiled in.
\<close>

record ('s, 'm) repo_env =
  rp_es :: "'s elastic"
  rp_fuel :: nat
  rp_new :: 'm
  rp_mLoadYaml :: "string \<Rightarrow> artifact_options \<Rightarrow> 'm \<Rightarrow> artifact result \<times> 'm"
  rp_mLoadProto :: "artifact \<Rightarrow> artifact_options \<Rightarrow> 'm \<Rightarrow> artifact result \<times> 'm"
  rp_mGet :: "string \<Rightarrow> 'm \<Rightarrow> artifact option"
  rp_mList :: "'m \<Rightarrow> string list result"
  rp_parse :: "string \<Rightarrow> artifact result"
  rp_render :: "artifact \<Rightarrow> string"
  rp_Split :: "string \<Rightarrow> string \<times> string"
  rp_Inventory :: "(string \<times> string result) list"
  rp_Overridden :: "(string \<times> string result) list"

text \<open>
  The store, the cache of each organisation's repository, and the repository in memory. A
  repository is the list of the organisations from its own one up to the root.
\<close>

record ('s, 'm) repo_state =
  rt_store :: 's
  rt_lru :: "string \<Rightarrow> artifact ttl_cache"
  rt_builtin :: 'm

definition repo_ttl :: int where
  "repo_ttl = 10"

definition set_lru :: "string \<Rightarrow> artifact ttl_cache \<Rightarrow> ('s, 'm) repo_state \<Rightarrow> ('s, 'm) repo_state" where
  "set_lru org c st = st\<lparr>rt_lru := (rt_lru st)(org := c)\<rparr>"

definition remember :: "int \<Rightarrow> string \<Rightarrow> artifact \<Rightarrow> ('s, 'm) repo_state \<Rightarrow> ('s, 'm) repo_state" where
  "remember now org a st = set_lru org (ttl_set repo_ttl now (at_Name a) a (rt_lru st org)) st"

section \<open>Reading\<close>

text \<open>\<open>ensureCompiled\<close>.\<close>

definition ensureCompiled ::
  "('s, 'm) repo_env \<Rightarrow> int \<Rightarrow> string \<Rightarrow> artifact \<Rightarrow> ('s, 'm) repo_state \<Rightarrow> artifact option \<times> ('s, 'm) repo_state" where
  "ensureCompiled env now org a st =
     (if at_Compiled a then (Some a, st)
      else (case rp_mLoadProto env a \<lparr>ao_Validate = False, ao_BuiltIn = at_BuiltIn a, ao_CompiledIn = at_CompiledIn a\<rparr> (rp_new env) of
              (Inl e, m) \<Rightarrow> (None, st)
            | (Inr a1, m) \<Rightarrow>
                (let c = (case rp_mGet env (at_Name a1) m of None \<Rightarrow> a1 | Some c \<Rightarrow> c)
                 in (Some c, remember now org c st))))"

definition read_artifact :: "('s, 'm) repo_env \<Rightarrow> string \<Rightarrow> string \<Rightarrow> 's \<Rightarrow> artifact result" where
  "read_artifact env org name s =
     bindR (GetElasticRecord (rp_es env) org PERSISTED name s) (\<lambda>serialized.
     bindR (decode_artifact_entry serialized) (\<lambda>e. rp_parse env (re_Definition e)))"

definition getFromBackend ::
  "('s, 'm) repo_env \<Rightarrow> int \<Rightarrow> string \<Rightarrow> string \<Rightarrow> ('s, 'm) repo_state \<Rightarrow> artifact option \<times> ('s, 'm) repo_state" where
  "getFromBackend env now org name st =
     (case read_artifact env org name (rt_store st) of
        Inl e \<Rightarrow> (None, st)
      | Inr a \<Rightarrow> ensureCompiled env now org a st)"

fun repo_Get ::
  "('s, 'm) repo_env \<Rightarrow> int \<Rightarrow> string list \<Rightarrow> string \<Rightarrow> ('s, 'm) repo_state \<Rightarrow> artifact option \<times> ('s, 'm) repo_state" where
  "repo_Get env now [] name st = (rp_mGet env name (rt_builtin st), st)"
| "repo_Get env now (org # parents) name st =
     (let nm = fst (rp_Split env name)
      in case ttl_hit repo_ttl now nm (rt_lru st org) of
           (Some a, c) \<Rightarrow> ensureCompiled env now org a (set_lru org c st)
         | (None, c) \<Rightarrow>
             (case repo_Get env now parents nm st of
                (Some a, st1) \<Rightarrow> ensureCompiled env now org a st1
              | (None, st1) \<Rightarrow> getFromBackend env now org nm st1))"

definition GetArtifactType ::
  "('s, 'm) repo_env \<Rightarrow> int \<Rightarrow> string list \<Rightarrow> string \<Rightarrow> ('s, 'm) repo_state \<Rightarrow> string result \<times> ('s, 'm) repo_state" where
  "GetArtifactType env now repo name st =
     (case repo_Get env now repo name st of
        (None, st1) \<Rightarrow> (Inl (Err (''Artifact '' @ name @ '' not known'')), st1)
      | (Some a, st1) \<Rightarrow> (Inr (at_Type a), st1))"

definition GetSource ::
  "('s, 'm) repo_env \<Rightarrow> int \<Rightarrow> string list \<Rightarrow> string \<Rightarrow> ('s, 'm) repo_state \<Rightarrow> json option \<times> ('s, 'm) repo_state" where
  "GetSource env now repo name st =
     (case rp_Split env name of (artifact_name, source_name) \<Rightarrow>
        (case repo_Get env now repo artifact_name st of
           (None, st1) \<Rightarrow> (None, st1)
         | (Some a, st1) \<Rightarrow> (map_of (at_Sources a) source_name, st1)))"

section \<open>Listing\<close>

definition allNamesQuery :: search_req where
  "allNamesQuery = query_of (Must [Match ''doc_type'' (JStr ''repository'')])"

text \<open>What decodes is remembered and listed.\<close>

fun list_hits ::
  "('s, 'm) repo_env \<Rightarrow> int \<Rightarrow> string \<Rightarrow> json list \<Rightarrow> string list \<Rightarrow> ('s, 'm) repo_state
     \<Rightarrow> string list \<times> ('s, 'm) repo_state" where
  "list_hits env now org [] names st = (names, st)"
| "list_hits env now org (hit # hits) names st =
     (case bindR (decode_artifact_entry hit) (\<lambda>e. rp_parse env (re_Definition e)) of
        Inl e \<Rightarrow> list_hits env now org hits names st
      | Inr a \<Rightarrow> list_hits env now org hits (append_new names (at_Name a)) (remember now org a st))"

fun repo_List ::
  "('s, 'm) repo_env \<Rightarrow> int \<Rightarrow> string list \<Rightarrow> ('s, 'm) repo_state \<Rightarrow> string list result \<times> ('s, 'm) repo_state" where
  "repo_List env now [] st = (rp_mList env (rt_builtin st), st)"
| "repo_List env now (org # parents) st =
     (case QueryChan (rp_es env) (rp_fuel env) 1000 org PERSISTED allNamesQuery ''name'' (\<lambda>n. rt_store st) of
        Inl e \<Rightarrow>
          (if e = ErrNotExist then
             (case repo_List env now parents st of
                (Inl x, st1) \<Rightarrow> (Inr [], st1)
              | (Inr l, st1) \<Rightarrow> (Inr (sort (foldl append_new [] l)), st1))
           else (Inl e, st))
      | Inr hits \<Rightarrow>
          (case list_hits env now org hits [] st of
             (names, st1) \<Rightarrow>
               (case repo_List env now parents st1 of
                  (Inl x, st2) \<Rightarrow> (Inr (sort names), st2)
                | (Inr l, st2) \<Rightarrow> (Inr (sort (foldl append_new names l)), st2))))"

section \<open>Writing\<close>

definition saveArtifact ::
  "('s, 'm) repo_env \<Rightarrow> int \<Rightarrow> string \<Rightarrow> string list \<Rightarrow> artifact \<Rightarrow> ('s, 'm) repo_state \<Rightarrow> go_error option \<times> ('s, 'm) repo_state" where
  "saveArtifact env now org parents a st =
     (case repo_Get env now parents (at_Name a) st of
        (Some p, st1) \<Rightarrow> (Some (Err (''Can not override an artifact from the root org: '' @ at_Name a)), st1)
      | (None, st1) \<Rightarrow>
          (case SetElasticIndex (rp_es env) org PERSISTED (at_Name a)
                  (encode_artifact_entry \<lparr>re_Name = at_Name a, re_Definition = rp_render env a, re_DocType = ''repository''\<rparr>)
                  (rt_store st1) of
             (e, s) \<Rightarrow> (e, remember now org a (st1\<lparr>rt_store := s\<rparr>))))"

text \<open>The artifact is returned next to the error of saving it.\<close>

definition loaded :: "artifact \<Rightarrow> go_error option \<times> 'x \<Rightarrow> (artifact option \<times> go_error option) \<times> 'x" where
  "loaded a r = ((Some a, fst r), snd r)"

fun repo_LoadYaml ::
  "('s, 'm) repo_env \<Rightarrow> int \<Rightarrow> string list \<Rightarrow> string \<Rightarrow> artifact_options \<Rightarrow> ('s, 'm) repo_state
     \<Rightarrow> (artifact option \<times> go_error option) \<times> ('s, 'm) repo_state" where
  "repo_LoadYaml env now [] data options st =
     (case rp_mLoadYaml env data options (rt_builtin st) of
        (Inl e, m) \<Rightarrow> ((None, Some e), st\<lparr>rt_builtin := m\<rparr>)
      | (Inr a, m) \<Rightarrow> ((Some a, None), st\<lparr>rt_builtin := m\<rparr>))"
| "repo_LoadYaml env now (org # parents) data options st =
     (if ao_BuiltIn options then repo_LoadYaml env now parents data options st
      else (case rp_mLoadYaml env data options (rp_new env) of
              (Inl e, m) \<Rightarrow> ((None, Some e), st)
            | (Inr a, m) \<Rightarrow> loaded a (saveArtifact env now org parents a st)))"

definition repo_LoadProto ::
  "('s, 'm) repo_env \<Rightarrow> int \<Rightarrow> string \<Rightarrow> string list \<Rightarrow> artifact \<Rightarrow> artifact_options \<Rightarrow> ('s, 'm) repo_state
     \<Rightarrow> (artifact option \<times> go_error option) \<times> ('s, 'm) repo_state" where
  "repo_LoadProto env now org parents a options st =
     (case rp_mLoadProto env a options (rp_new env) of
        (Inl e, m) \<Rightarrow> ((None, Some e), st)
      | (Inr a1, m) \<Rightarrow> loaded a1 (saveArtifact env now org parents a1 st))"

definition repo_Del :: "('s, 'm) repo_env \<Rightarrow> string \<Rightarrow> string \<Rightarrow> ('s, 'm) repo_state \<Rightarrow> ('s, 'm) repo_state" where
  "repo_Del env org name st =
     (set_lru org (AList.delete name (rt_lru st org)) st)
       \<lparr>rt_store := snd (DeleteDocument (rp_es env) org PERSISTED name True (rt_store st))\<rparr>"

section \<open>The manager (manager.go)\<close>

text \<open>
  \<open>(?sm)^(name: *)(.+)$\<close> at the start of a line: the dot matches line feeds too, so the second
  group is all the rest of the text, which has to have a character.
\<close>

definition name_match :: "string \<Rightarrow> (string \<times> string) option" where
  "name_match s =
     (if \<not> HasPrefix s ''name:'' then None
      else (let rest = drop 5 s; sp = takeWhile (\<lambda>c. c = CHR '' '') rest; r = dropWhile (\<lambda>c. c = CHR '' '') rest
            in if r \<noteq> [] then Some (''name:'' @ sp, r)
               else if sp \<noteq> [] then Some (''name:'' @ butlast sp, [last sp])
               else None))"

fun prefix_from :: "bool \<Rightarrow> string \<Rightarrow> string \<Rightarrow> string" where
  "prefix_from line_start [] prefix = []"
| "prefix_from line_start (c # cs) prefix =
     (case (if line_start then name_match (c # cs) else None) of
        Some (m1, m2) \<Rightarrow> m1 @ (if HasPrefix m2 prefix then m2 else prefix @ m2)
      | None \<Rightarrow> c # prefix_from (c = CHR ''\<newline>'') cs prefix)"

definition ensureArtifactPrefix :: "string \<Rightarrow> string \<Rightarrow> string" where
  "ensureArtifactPrefix definit prefix = prefix_from True definit prefix"

definition checked_options :: artifact_options where
  "checked_options = \<lparr>ao_Validate = True, ao_BuiltIn = False, ao_CompiledIn = False\<rparr>"

definition SetArtifactFile ::
  "('s, 'm) repo_env \<Rightarrow> int \<Rightarrow> string list \<Rightarrow> string \<Rightarrow> string \<Rightarrow> ('s, 'm) repo_state
     \<Rightarrow> (artifact option \<times> go_error option) \<times> ('s, 'm) repo_state" where
  "SetArtifactFile env now repo definit required_prefix st =
     (let d = (if required_prefix \<noteq> [] then ensureArtifactPrefix definit required_prefix else definit)
      in case fst (rp_mLoadYaml env d checked_options (rp_new env)) of
           Inl e \<Rightarrow> ((None, Some e), st)
         | Inr a \<Rightarrow>
             if \<not> HasPrefix (at_Name a) required_prefix then
               ((None, Some (Err (''Modified or custom artifacts must start with '' @ required_prefix))), st)
             else repo_LoadYaml env now repo d checked_options st)"

definition DeleteArtifactFile ::
  "('s, 'm) repo_env \<Rightarrow> string \<Rightarrow> string \<Rightarrow> ('s, 'm) repo_state \<Rightarrow> go_error option \<times> ('s, 'm) repo_state" where
  "DeleteArtifactFile env org name st =
     (case DeleteDocument (rp_es env) org PERSISTED name True (rt_store st) of
        (Some e, s) \<Rightarrow> (Some e, st\<lparr>rt_store := s\<rparr>)
      | (None, s) \<Rightarrow> (None, repo_Del env org name (st\<lparr>rt_store := s\<rparr>)))"

text \<open>Files that cannot be read or do not parse are passed over.\<close>

definition builtin_options :: artifact_options where
  "builtin_options = \<lparr>ao_Validate = False, ao_BuiltIn = True, ao_CompiledIn = True\<rparr>"

fun load_assets ::
  "('s, 'm) repo_env \<Rightarrow> int \<Rightarrow> string list \<Rightarrow> (string \<times> string result) list \<Rightarrow> ('s, 'm) repo_state \<Rightarrow> ('s, 'm) repo_state" where
  "load_assets env now repo [] st = st"
| "load_assets env now repo ((file, data) # files) st =
     (if HasPrefix file ''/artifacts/definitions'' \<and> HasSuffix file ''yaml'' then
        (case data of
           Inl e \<Rightarrow> load_assets env now repo files st
         | Inr d \<Rightarrow> load_assets env now repo files (snd (repo_LoadYaml env now repo d builtin_options st)))
      else load_assets env now repo files st)"

definition LoadBuiltInArtifacts ::
  "('s, 'm) repo_env \<Rightarrow> int \<Rightarrow> string list \<Rightarrow> ('s, 'm) repo_state \<Rightarrow> go_error option \<times> ('s, 'm) repo_state" where
  "LoadBuiltInArtifacts env now repo st = (None, load_assets env now repo (rp_Inventory env) st)"

text \<open>Overridden artifacts stop at the first that does not load.\<close>

fun load_overridden ::
  "('s, 'm) repo_env \<Rightarrow> int \<Rightarrow> string list \<Rightarrow> (string \<times> string result) list \<Rightarrow> ('s, 'm) repo_state
     \<Rightarrow> go_error option \<times> ('s, 'm) repo_state" where
  "load_overridden env now repo [] st = (None, st)"
| "load_overridden env now repo ((file, data) # files) st =
     (if HasSuffix file ''yaml'' then
        (case data of
           Inl e \<Rightarrow> load_overridden env now repo files st
         | Inr d \<Rightarrow>
             (case repo_LoadYaml env now repo d
                     \<lparr>ao_Validate = True, ao_BuiltIn = True, ao_CompiledIn = False\<rparr> st of
                ((a, Some e), st1) \<Rightarrow> (Some e, st1)
              | ((a, None), st1) \<Rightarrow> load_overridden env now repo files st1))
      else load_overridden env now repo files st)"

definition LoadOverridenArtifacts ::
  "('s, 'm) repo_env \<Rightarrow> int \<Rightarrow> string list \<Rightarrow> ('s, 'm) repo_state \<Rightarrow> go_error option \<times> ('s, 'm) repo_state" where
  "LoadOverridenArtifacts env now repo st = load_overridden env now repo (rp_Overridden env) st"

text \<open>A new manager has the repository of its organisation with an empty cache.\<close>

definition NewRepository :: "string \<Rightarrow> ('s, 'm) repo_state \<Rightarrow> ('s, 'm) repo_state" where
  "NewRepository org st = set_lru org [] st"

section \<open>Reading leaves the store\<close>

lemma ensureCompiled_store [simp]:
  "rt_store (snd (ensureCompiled env now org a st)) = rt_store st"
  "rt_builtin (snd (ensureCompiled env now org a st)) = rt_builtin st"
  by (simp_all add: ensureCompiled_def remember_def set_lru_def Let_def split: sum.splits prod.splits)

lemma set_lru_store [simp]:
  "rt_store (set_lru org c st) = rt_store st" "rt_builtin (set_lru org c st) = rt_builtin st"
  by (simp_all add: set_lru_def)

lemma repo_Get_store:
  "rt_store (snd (repo_Get env now repo name st)) = rt_store st \<and>
   rt_builtin (snd (repo_Get env now repo name st)) = rt_builtin st"
proof (induction repo arbitrary: name st)
  case (Cons org parents)
  then show ?case
    by (auto simp: Let_def getFromBackend_def split: option.splits prod.splits sum.splits)
      (metis snd_conv)+
qed simp

lemma repo_Get_storeD:
  "repo_Get env now repo name st = (r, st1) \<Longrightarrow> rt_store st1 = rt_store st \<and> rt_builtin st1 = rt_builtin st"
  using repo_Get_store [of env now repo name st] by simp

lemma repo_Get_missing_cache:
  assumes "ttl_get now (fst (rp_Split env name)) (rt_lru st org) = None"
  shows "repo_Get env now (org # parents) name st =
    (case repo_Get env now parents (fst (rp_Split env name)) st of
       (Some a, st1) \<Rightarrow> ensureCompiled env now org a st1
     | (None, st1) \<Rightarrow> getFromBackend env now org (fst (rp_Split env name)) st1)"
proof -
  have "set_lru org (rt_lru st org) st = st" by (simp add: set_lru_def)
  then show ?thesis using assms by (simp add: ttl_hit_def Let_def)
qed

lemma ensureCompiled_same: "fst (ensureCompiled env now org a st) = fst (ensureCompiled env now' org' a st')"
  by (simp add: ensureCompiled_def Let_def split: sum.splits prod.splits)

section \<open>Properties\<close>



text \<open>
  An artifact whose write failed is in use: the error of the store is returned, and for ten
  seconds the repository serves the artifact from its cache.
\<close>

theorem failed_artifact_in_use:
  assumes "saveArtifact env now org parents a st = (Some e, st')" and "fst (repo_Get env now parents (at_Name a) st) = None"
    and "fst (rp_Split env (at_Name a)) = at_Name a" and "u < now + 10"
  shows "fst (repo_Get env u (org # parents) (at_Name a) st') = fst (ensureCompiled env u org a st')"
proof -
  obtain st1 where st1: "repo_Get env now parents (at_Name a) st = (None, st1)"
    using assms(2) by (metis prod.collapse)
  obtain x where "rt_lru st' org = ttl_set repo_ttl now (at_Name a) a x"
    using assms(1) st1 by (auto simp: saveArtifact_def remember_def set_lru_def split: prod.splits)
  then have "ttl_get u (at_Name a) (rt_lru st' org) = Some a"
    using assms(4) by (simp add: ttl.get_put repo_ttl_def)
  then show ?thesis
    using assms(3) ensureCompiled_same [of env u org a _ u org st'] by (simp add: ttl_hit_def)
qed

text \<open>
  Deleting an artifact deletes the document with its name as id, whatever that document is: a
  user or a client record of that id is gone as well, although it is no artifact.
\<close>

theorem artifact_delete_removes_any_document:
  assumes "store_contract (rp_es env) docs" and "delete_contract (rp_es env) docs"
    and "GetElasticClient (rp_es env) org = Inr c"
  shows "\<exists>st'. DeleteArtifactFile env org name st = (None, st') \<and>
    docs (rt_store st') c (GetIndex org PERSISTED) =
      filter (\<lambda>d. fst d \<noteq> name) (docs (rt_store st) c (GetIndex org PERSISTED))"
proof -
  have del: "\<exists>s'. DeleteDocument (rp_es env) org PERSISTED name True s = (None, s') \<and>
      docs s' c (GetIndex org PERSISTED) = filter (\<lambda>d. fst d \<noteq> name) (docs s c (GetIndex org PERSISTED))" for s
  proof -
    obtain r s1 where d: "os_Delete (rp_es env) c (GetIndex org PERSISTED) name s = (Inr r, s1)"
      "docs s1 c (GetIndex org PERSISTED) = filter (\<lambda>d. fst d \<noteq> name) (docs s c (GetIndex org PERSISTED))"
      using store_contractD(4) [OF assms(1)] by blast
    obtain r' s2 where "os_Refresh (rp_es env) c [GetIndex org PERSISTED] s1 = (Inr r', s2)" "docs s2 = docs s1"
      using assms(2) unfolding delete_contract_def by blast
    then show ?thesis using d assms(3) by (simp add: DeleteDocument_def sync_refresh_def)
  qed
  obtain s1 where s1: "DeleteDocument (rp_es env) org PERSISTED name True (rt_store st) = (None, s1)"
    "docs s1 c (GetIndex org PERSISTED) = filter (\<lambda>d. fst d \<noteq> name) (docs (rt_store st) c (GetIndex org PERSISTED))"
    using del by blast
  obtain s2 where "DeleteDocument (rp_es env) org PERSISTED name True s1 = (None, s2)"
    "docs s2 c (GetIndex org PERSISTED) = filter (\<lambda>d. fst d \<noteq> name) (docs s1 c (GetIndex org PERSISTED))"
    using del by blast
  then show ?thesis using s1 by (simp add: DeleteArtifactFile_def repo_Del_def)
qed

section \<open>The prefix\<close>

text \<open>The name of a definition: what the first line that starts with \<open>name:\<close> has after it.\<close>

fun name_value :: "bool \<Rightarrow> string \<Rightarrow> string option" where
  "name_value line_start [] = None"
| "name_value line_start (c # cs) =
     (case (if line_start then name_match (c # cs) else None) of
        Some (m1, m2) \<Rightarrow> Some m2
      | None \<Rightarrow> name_value (c = CHR ''\<newline>'') cs)"

lemma HasPrefix_Cons: "HasPrefix (c # s) (x # w) \<longleftrightarrow> c = x \<and> HasPrefix s w"
  by (auto simp: HasPrefix_def)

lemma prefix_from_line:
  assumes "CHR ''\<newline>'' \<notin> set w"
  shows "HasPrefix (prefix_from False s p) w = HasPrefix s w"
  using assms
proof (induction w arbitrary: s)
  case (Cons x w)
  show ?case
  proof (cases s)
    case (Cons c cs)
    have "c = x \<Longrightarrow> (c = CHR ''\<newline>'') = False" using Cons.prems by auto
    then show ?thesis using Cons.IH [of cs] Cons.prems by (simp add: Cons HasPrefix_Cons) metis
  qed (simp add: HasPrefix_def)
qed (simp add: HasPrefix_def)

lemma name_match_SomeD:
  assumes "name_match s = Some (m1, m2)"
  shows "\<exists>n. m1 = ''name:'' @ replicate n (CHR '' '') \<and> s = m1 @ m2 \<and> m2 \<noteq> []"
proof -
  let ?sp = "takeWhile (\<lambda>c. c = CHR '' '') (drop 5 s)" and ?r = "dropWhile (\<lambda>c. c = CHR '' '') (drop 5 s)"
  have n: "HasPrefix s ''name:''" using assms by (auto simp: name_match_def split: if_splits)
  have "take 5 s = ''name:''" using n by (simp add: HasPrefix_def eval_nat_numeral)
  then have s: "s = ''name:'' @ ?sp @ ?r" by (metis append_take_drop_id takeWhile_dropWhile_id)
  have sp: "?sp = replicate (length ?sp) (CHR '' '')"
    by (rule replicate_eqI [symmetric, OF HOL.refl, THEN sym]) (auto dest: set_takeWhileD)
  show ?thesis
  proof (cases "?r = []")
    case False
    then have "m1 = ''name:'' @ ?sp" "m2 = ?r" using assms n by (simp_all add: name_match_def Let_def)
    then show ?thesis using s sp False by (metis append.assoc)
  next
    case True
    then have m: "m1 = ''name:'' @ butlast ?sp" "m2 = [last ?sp]" "?sp \<noteq> []"
      using assms n by (auto simp: name_match_def Let_def split: if_splits)
    have "butlast ?sp = replicate (length ?sp - 1) (CHR '' '')"
      by (subst sp) (simp add: butlast_conv_take min_def)
    then show ?thesis using s m True by (metis append.assoc append_butlast_last_id append_Nil2 not_Cons_self2)
  qed
qed

lemma name_match_prefixed:
  assumes "p \<noteq> []" and "hd p \<noteq> CHR '' ''"
  shows "name_match ((''name:'' @ replicate n (CHR '' '')) @ p @ x) = Some (''name:'' @ replicate n (CHR '' ''), p @ x)"
proof -
  have "takeWhile (\<lambda>c. c = CHR '' '') (replicate n (CHR '' '') @ p @ x) = replicate n (CHR '' '')"
    using assms by (cases p) (simp_all add: takeWhile_append)
  moreover have "dropWhile (\<lambda>c. c = CHR '' '') (replicate n (CHR '' '') @ p @ x) = p @ x"
    using assms by (cases p) (simp_all add: dropWhile_append)
  ultimately show ?thesis
    using assms(1) by (simp add: name_match_def HasPrefix_def Let_def del: dropWhile_eq_Nil_conv)
qed

lemma name_match_None:
  assumes "name_match (c # cs) = None"
  shows "name_match (c # prefix_from (c = CHR ''\<newline>'') cs p) = None"
proof (cases "HasPrefix (c # cs) ''name:''")
  case True
  let ?d = "drop 5 (c # cs)"
  have "takeWhile (\<lambda>c. c = CHR '' '') ?d = []" "dropWhile (\<lambda>c. c = CHR '' '') ?d = []"
    using assms True by (simp_all add: name_match_def Let_def del: dropWhile_eq_Nil_conv takeWhile_eq_Nil_iff split: if_splits)
  then have "?d = []" by (metis append_Nil takeWhile_dropWhile_id)
  moreover have "take 5 (c # cs) = ''name:''" using True by (simp add: HasPrefix_def eval_nat_numeral)
  ultimately have "c # cs = ''name:''" by (metis append_Nil2 append_take_drop_id)
  then show ?thesis by (simp add: name_match_def HasPrefix_def)
next
  case False
  have "HasPrefix (c # prefix_from (c = CHR ''\<newline>'') cs p) ''name:'' = HasPrefix (c # cs) ''name:''"
  proof (cases "c = CHR ''n''")
    case True
    then show ?thesis using prefix_from_line [of "''ame:''" cs p] by (simp add: HasPrefix_Cons)
  qed (simp add: HasPrefix_Cons)
  then show ?thesis using False by (simp add: name_match_def)
qed

lemma prefix_from_prefixed:
  assumes "p \<noteq> []" and "hd p \<noteq> CHR '' ''"
  shows "(case name_value b (prefix_from b s p) of None \<Rightarrow> True | Some v \<Rightarrow> HasPrefix v p) \<and>
    prefix_from b (prefix_from b s p) p = prefix_from b s p"
proof (induction s arbitrary: b)
  case (Cons c cs)
  show ?case
  proof (cases "if b then name_match (c # cs) else None")
    case None
    then have "(if b then name_match (c # prefix_from (c = CHR ''\<newline>'') cs p) else None) = None"
      using name_match_None [of c cs p] by (auto split: if_splits)
    then show ?thesis using None Cons.IH [of "c = CHR ''\<newline>''"] by simp
  next
    case (Some m)
    obtain m1 m2 where m: "m = (m1, m2)" by fastforce
    have b: "b" and nm: "name_match (c # cs) = Some (m1, m2)" using Some m by (auto split: if_splits)
    obtain n where n: "m1 = ''name:'' @ replicate n (CHR '' '')" using name_match_SomeD [OF nm] by blast
    obtain x where x: "(if HasPrefix m2 p then m2 else p @ m2) = p @ x"
      by (metis HasPrefix_def append_take_drop_id)
    have r: "prefix_from b (c # cs) p = m1 @ p @ x" using b nm x by simp
    have again: "name_match (m1 @ p @ x) = Some (m1, p @ x)" using name_match_prefixed [OF assms] n by simp
    obtain d ds where d: "m1 @ p @ x = d # ds" using n by simp
    have "name_value b (d # ds) = Some (p @ x)" "prefix_from b (d # ds) p = m1 @ p @ x"
      using again b d by simp_all
    then show ?thesis using r d by simp
  qed
qed simp

text \<open>
  The prefix is put before the name once: the name of the definition has it afterwards, and
  putting it again changes nothing.
\<close>

theorem artifact_prefix_ensured:
  assumes "prefix \<noteq> []" and "hd prefix \<noteq> CHR '' ''"
  shows "(case name_value True (ensureArtifactPrefix definit prefix) of None \<Rightarrow> True | Some v \<Rightarrow> HasPrefix v prefix) \<and>
    ensureArtifactPrefix (ensureArtifactPrefix definit prefix) prefix = ensureArtifactPrefix definit prefix"
  unfolding ensureArtifactPrefix_def by (rule prefix_from_prefixed [OF assms])

section \<open>A run\<close>

definition sample_artifact :: "string \<Rightarrow> artifact" where
  "sample_artifact nm = \<lparr>at_Name = nm, at_Type = ''CLIENT'', at_Sources = [], at_Compiled = True, at_BuiltIn = False,
     at_CompiledIn = False, at_Other = JNull\<rparr>"

text \<open>The text of an artifact in this run is its name line.\<close>

definition sample_repo_env :: "mem_es_state elastic \<Rightarrow> (mem_es_state, string list) repo_env" where
  "sample_repo_env es = \<lparr>rp_es = es, rp_fuel = 9, rp_new = [],
     rp_mLoadYaml = (\<lambda>d op m. (Inr (sample_artifact (drop 6 d)), drop 6 d # m)),
     rp_mLoadProto = (\<lambda>a op m. (Inr a, at_Name a # m)),
     rp_mGet = (\<lambda>n m. if n \<in> set m then Some (sample_artifact n) else None), rp_mList = Inr,
     rp_parse = (\<lambda>t. Inr (sample_artifact t)), rp_render = at_Name, rp_Split = (\<lambda>n. (n, [])),
     rp_Inventory = [], rp_Overridden = []\<rparr>"

definition repo_start :: "mem_es_state \<Rightarrow> (mem_es_state, string list) repo_state" where
  "repo_start s = \<lparr>rt_store = s, rt_lru = (\<lambda>org. []), rt_builtin = [''Sys'']\<rparr>"

lemma sample_repo_sel:
  "rp_es (sample_repo_env es) = es" "rp_new (sample_repo_env es) = []"
  "rp_mLoadYaml (sample_repo_env es) d op m = (Inr (sample_artifact (drop 6 d)), drop 6 d # m)"
  "rp_mGet (sample_repo_env es) n m = (if n \<in> set m then Some (sample_artifact n) else None)"
  "rp_parse (sample_repo_env es) t = Inr (sample_artifact t)" "rp_render (sample_repo_env es) = at_Name"
  "rp_Split (sample_repo_env es) n = (n, [])" "at_Name (sample_artifact n) = n" "at_Compiled (sample_artifact n)"
  by (simp_all add: sample_repo_env_def sample_artifact_def)

lemma repo_start_lru: "ttl_get t n (rt_lru (repo_start s) org) = None"
  by (simp add: repo_start_def ttl_get_def)



definition no_es :: "mem_es_state elastic" where
  "no_es = mem_es\<lparr>os_Index := (\<lambda>c idx i j st. (Inl IOError, st))\<rparr>"

theorem failed_artifact_in_use_witness:
  "\<exists>st'. saveArtifact (sample_repo_env no_es) 0 ''O1'' [] (sample_artifact ''Custom.Proc'') (repo_start []) = (Some IOError, st') \<and>
    fst (repo_Get (sample_repo_env no_es) 9 [''O1''] ''Custom.Proc'' st') = Some (sample_artifact ''Custom.Proc'')"
proof -
  have c: "GetElasticClient no_es org = Inr PrimaryOpenSearch" for org
    by (simp add: GetElasticClient_def no_es_def mem_es_def)
  have "SetElasticIndex no_es ''O1'' PERSISTED i j s = (Some IOError, s)" for i j s
    by (simp add: SetElasticIndex_def SetElasticIndex_once_def c write_outcome_def no_es_def)
      (rule retry_other_error; code_simp)
  then have "\<exists>st'. saveArtifact (sample_repo_env no_es) 0 ''O1'' [] (sample_artifact ''Custom.Proc'') (repo_start []) = (Some IOError, st')"
    by (simp add: saveArtifact_def sample_repo_sel repo_start_def)
  then obtain st' where st': "saveArtifact (sample_repo_env no_es) 0 ''O1'' [] (sample_artifact ''Custom.Proc'') (repo_start []) =
      (Some IOError, st')" by blast
  show ?thesis
    using failed_artifact_in_use [OF st', of 9] st'
    by (simp add: sample_repo_sel repo_start_def ensureCompiled_def)
qed

theorem artifact_delete_removes_any_document_witness:
  "\<exists>st'. DeleteArtifactFile (sample_repo_env mem_es) ''root'' ''bob''
      (repo_start [(''persisted'', [(''bob'', JObj [(''doc_type'', JStr ''users'')])])]) = (None, st') \<and>
    mem_docs (rt_store st') ''persisted'' = []"
proof -
  have "GetIndex ''root'' PERSISTED = ''persisted''" by code_simp
  then show ?thesis
    using artifact_delete_removes_any_document [of "sample_repo_env mem_es" "\<lambda>st c idx. mem_docs st idx" "''root''"
        PrimaryOpenSearch "''bob''" "repo_start [(''persisted'', [(''bob'', JObj [(''doc_type'', JStr ''users'')])])]"]
      mem_store_contract mem_delete_contract
    by (simp add: sample_repo_sel) (simp add: repo_start_def mem_docs_def)
qed

theorem artifact_prefix_ensured_witness:
  "ensureArtifactPrefix ''name: Custom.Proc'' ''Custom.'' = ''name: Custom.Proc''"
proof -
  have "ensureArtifactPrefix ''name: Proc'' ''Custom.'' = ''name: Custom.Proc''" by code_simp
  then show ?thesis using artifact_prefix_ensured [of "''Custom.''" "''name: Proc''"] by simp
qed

end
