(* ===== verification/Timelines.thy ===== *)
theory Timelines
  imports TransformedResultSets "HOL-Library.AList"
begin

text \<open>
  Timelines of notebooks (\<open>services/notebook/timeline_storer.go\<close>, \<open>services/notebook/timelines.go\<close>,
  \<open>services/notebook/annotator.go\<close>): the records of super timelines and their components, the
  writers and readers of events, and annotations with their deletion events.
\<close>

section \<open>Data\<close>

record timeline =
  tl_Id :: string
  tl_Version :: string
  tl_StartTime :: int
  tl_EndTime :: int
  tl_MessageColumn :: string
  tl_Other :: json

definition empty_timeline :: timeline where
  "empty_timeline = \<lparr>tl_Id = [], tl_Version = [], tl_StartTime = 0, tl_EndTime = 0, tl_MessageColumn = [], tl_Other = JNull\<rparr>"

record super_timeline =
  su_Name :: string
  su_Timelines :: "timeline list"

text \<open>The record of notebooks, cells and super timelines.\<close>

record NotebookRecord =
  nr_NotebookId :: string
  nr_CellId :: string
  nr_AvailableVersions :: "string list"
  nr_CurrentVersion :: string
  nr_Notebook :: string
  nr_NotebookCell :: string
  nr_Creator :: string
  nr_Public :: bool
  nr_SharedWith :: "string list"
  nr_Timestamp :: int
  nr_Timeline :: string
  nr_SupertimelineName :: string
  nr_Type :: string
  nr_DocType :: string

definition empty_record :: NotebookRecord where
  "empty_record = \<lparr>nr_NotebookId = [], nr_CellId = [], nr_AvailableVersions = [], nr_CurrentVersion = [], nr_Notebook = [],
     nr_NotebookCell = [], nr_Creator = [], nr_Public = False, nr_SharedWith = [], nr_Timestamp = 0, nr_Timeline = [],
     nr_SupertimelineName = [], nr_Type = [], nr_DocType = []\<rparr>"

definition encode_notebook :: "NotebookRecord \<Rightarrow> json" where
  "encode_notebook r = JObj
     [(''notebook_id'', JStr (nr_NotebookId r)), (''cell_id'', JStr (nr_CellId r)),
      (''available_versions'', jstrs (nr_AvailableVersions r)), (''current_version'', JStr (nr_CurrentVersion r)),
      (''notebook'', JStr (nr_Notebook r)), (''notebook_cell'', JStr (nr_NotebookCell r)),
      (''creator'', JStr (nr_Creator r)), (''public'', JBool (nr_Public r)), (''shared'', jstrs (nr_SharedWith r)),
      (''timestamp'', JInt (nr_Timestamp r)), (''timeline'', JStr (nr_Timeline r)),
      (''supertimeline_name'', JStr (nr_SupertimelineName r)), (''type'', JStr (nr_Type r)),
      (''doc_type'', JStr (nr_DocType r))]"

definition decode_notebook :: "json \<Rightarrow> NotebookRecord result" where
  "decode_notebook j =
     bindR (get_str ''notebook_id'' j) (\<lambda>a1. bindR (get_str ''cell_id'' j) (\<lambda>a2.
     bindR (get_strs ''available_versions'' j) (\<lambda>a3. bindR (get_str ''current_version'' j) (\<lambda>a4.
     bindR (get_str ''notebook'' j) (\<lambda>a5. bindR (get_str ''notebook_cell'' j) (\<lambda>a6.
     bindR (get_str ''creator'' j) (\<lambda>a7. bindR (get_bool ''public'' j) (\<lambda>a8.
     bindR (get_strs ''shared'' j) (\<lambda>a9. bindR (get_int ''timestamp'' j) (\<lambda>a10.
     bindR (get_str ''timeline'' j) (\<lambda>a11. bindR (get_str ''supertimeline_name'' j) (\<lambda>a12.
     bindR (get_str ''type'' j) (\<lambda>a13. bindR (get_str ''doc_type'' j) (\<lambda>a14.
       Inr \<lparr>nr_NotebookId = a1, nr_CellId = a2, nr_AvailableVersions = a3, nr_CurrentVersion = a4, nr_Notebook = a5,
         nr_NotebookCell = a6, nr_Creator = a7, nr_Public = a8, nr_SharedWith = a9, nr_Timestamp = a10, nr_Timeline = a11,
         nr_SupertimelineName = a12, nr_Type = a13, nr_DocType = a14\<rparr>))))))))))))))"

lemma decode_encode_notebook [simp]: "decode_notebook (encode_notebook r) = Inr r"
  by (simp add: decode_notebook_def encode_notebook_def get_str_def get_int_def get_bool_def get_strs_def get_list_def
      jstrs_def)

section \<open>Environment and state\<close>

text \<open>
  The JSON of super timelines and of rows, hashes, identifiers, the clock in nanoseconds, and the
  names the library gives to the fields of an annotation. A row is a dictionary whose values may
  be times.
\<close>

datatype ev_value = EvJson json | EvTime int

type_synonym event = "(string \<times> ev_value) list"

record 's tl_env =
  st_es :: "'s elastic"
  st_OrgId :: string
  st_GetOrgId :: string
  st_fuel :: nat
  st_sha1 :: "string \<Rightarrow> string"
  st_render :: "super_timeline \<Rightarrow> string result"
  st_parse :: "string \<Rightarrow> super_timeline result"
  st_nano :: "nat \<Rightarrow> int"
  st_guid :: "nat \<Rightarrow> string"
  st_marshal_row :: "event \<Rightarrow> string result"
  st_parse_row :: "string \<Rightarrow> (string \<times> json) list result"
  st_AnnotationID :: string
  st_AnnotationOGTime :: string
  st_AnnotatedBy :: string
  st_AnnotatedAt :: string
  st_TIMELINE_ANNOTATION :: string
  st_TIMELINE_DEFAULT_KEY :: string

record 's tl_world =
  lw_store :: 's
  lw_ticks :: nat
  lw_guids :: nat

definition lw_now :: "'s tl_env \<Rightarrow> 's tl_world \<Rightarrow> int \<times> 's tl_world" where
  "lw_now env w = (st_nano env (lw_ticks w), w\<lparr>lw_ticks := Suc (lw_ticks w)\<rparr>)"

definition lw_guid :: "'s tl_env \<Rightarrow> 's tl_world \<Rightarrow> string \<times> 's tl_world" where
  "lw_guid env w = (st_guid env (lw_guids w), w\<lparr>lw_guids := Suc (lw_guids w)\<rparr>)"

section \<open>The store of super timelines (timeline\_storer.go)\<close>

definition super_id :: "'s tl_env \<Rightarrow> string \<Rightarrow> string \<Rightarrow> string" where
  "super_id env notebook_id name = MakeId (st_sha1 env) (notebook_id @ name)"

definition super_Get :: "'s tl_env \<Rightarrow> string \<Rightarrow> string \<Rightarrow> 's \<Rightarrow> super_timeline result" where
  "super_Get env notebook_id name s =
     bindR (GetElasticRecord (st_es env) (st_OrgId env) PERSISTED (super_id env notebook_id name) s) (\<lambda>hit.
       case bindR (decode_notebook hit) (\<lambda>entry. st_parse env (nr_Timeline entry)) of
         Inl e \<Rightarrow> Inl NotFoundError
       | Inr item \<Rightarrow> Inr item)"

definition super_Set :: "'s tl_env \<Rightarrow> string \<Rightarrow> super_timeline \<Rightarrow> 's tl_world \<Rightarrow> go_error option \<times> 's tl_world" where
  "super_Set env notebook_id supert w =
     (case st_render env supert of
        Inl e \<Rightarrow> (Some e, w)
      | Inr serialized \<Rightarrow>
          (case lw_now env w of (now, w1) \<Rightarrow>
             (case SetElasticIndex (st_es env) (st_OrgId env) PERSISTED (super_id env notebook_id (su_Name supert))
                 (encode_notebook (empty_record\<lparr>nr_NotebookId := notebook_id, nr_Type := ''Supertimeline'',
                    nr_SupertimelineName := su_Name supert, nr_DocType := ''Notebook'', nr_Timeline := serialized,
                    nr_Timestamp := now\<rparr>)) (lw_store w1) of
                (e, s) \<Rightarrow> (e, w1\<lparr>lw_store := s\<rparr>))))"

definition query_for_supertimelines :: "string \<Rightarrow> search_req" where
  "query_for_supertimelines notebook_id =
     (query_of (Must [Match ''notebook_id'' (JStr notebook_id), Match ''type'' (JStr ''Supertimeline'')]))
     \<lparr>sq_sort := Some (''timestamp'', True), sq_size := Some 1000, sq_from := Some 0\<rparr>"

text \<open>One super timeline for a name: the place of the first hit, the value of the last.\<close>

fun dedup_timelines :: "'s tl_env \<Rightarrow> json list \<Rightarrow> (string \<times> super_timeline) list \<Rightarrow> (string \<times> super_timeline) list" where
  "dedup_timelines env [] seen = seen"
| "dedup_timelines env (hit # hits) seen =
     (case bindR (decode_notebook hit) (\<lambda>entry. st_parse env (nr_Timeline entry)) of
        Inl e \<Rightarrow> dedup_timelines env hits seen
      | Inr item \<Rightarrow> dedup_timelines env hits (AList.update (su_Name item) item seen))"

definition super_List :: "'s tl_env \<Rightarrow> string \<Rightarrow> 's \<Rightarrow> super_timeline list result" where
  "super_List env notebook_id s =
     bindR (QueryElasticRaw (st_es env) (st_OrgId env) PERSISTED (query_for_supertimelines notebook_id) s) (\<lambda>(hits, tot).
       Inr (map snd (dedup_timelines env hits [])))"

definition GetAvailableTimelines :: "'s tl_env \<Rightarrow> string \<Rightarrow> 's \<Rightarrow> string list" where
  "GetAvailableTimelines env notebook_id s =
     (case super_List env notebook_id s of Inl e \<Rightarrow> [] | Inr l \<Rightarrow> map su_Name l)"

text \<open>A super timeline that does not exist is an empty one.\<close>

definition super_or_new :: "'s tl_env \<Rightarrow> string \<Rightarrow> string \<Rightarrow> 's \<Rightarrow> super_timeline result" where
  "super_or_new env notebook_id super s =
     (case super_Get env notebook_id super s of
        Inl e \<Rightarrow> (if e \<noteq> ErrNotExist then Inl e else Inr \<lparr>su_Name = [], su_Timelines = []\<rparr>)
      | Inr t \<Rightarrow> Inr t)"

definition DeleteComponent ::
  "'s tl_env \<Rightarrow> string \<Rightarrow> string \<Rightarrow> string \<Rightarrow> 's tl_world \<Rightarrow> go_error option \<times> 's tl_world" where
  "DeleteComponent env notebook_id super del_component w =
     (case super_or_new env notebook_id super (lw_store w) of
        Inl e \<Rightarrow> (Some e, w)
      | Inr t \<Rightarrow> super_Set env notebook_id
          (t\<lparr>su_Timelines := filter (\<lambda>c. tl_Id c \<noteq> del_component) (su_Timelines t)\<rparr>) w)"

definition GetTimeline :: "'s tl_env \<Rightarrow> string \<Rightarrow> string \<Rightarrow> string \<Rightarrow> 's \<Rightarrow> timeline result" where
  "GetTimeline env notebook_id super component s =
     bindR (super_or_new env notebook_id super s) (\<lambda>t.
       case find (\<lambda>c. tl_Id c = component) (su_Timelines t) of
         Some c \<Rightarrow> Inr c
       | None \<Rightarrow> Inl NotFoundError)"

fun replace_component :: "timeline \<Rightarrow> timeline list \<Rightarrow> timeline list" where
  "replace_component t [] = [t]"
| "replace_component t (c # cs) = (if tl_Id c = tl_Id t then t # cs else c # replace_component t cs)"

definition UpdateTimeline ::
  "'s tl_env \<Rightarrow> string \<Rightarrow> string \<Rightarrow> timeline \<Rightarrow> 's tl_world \<Rightarrow> go_error option \<times> 's tl_world" where
  "UpdateTimeline env notebook_id super t w =
     (case super_or_new env notebook_id super (lw_store w) of
        Inl e \<Rightarrow> (Some e, w)
      | Inr st \<Rightarrow> super_Set env notebook_id
          (st\<lparr>su_Name := super, su_Timelines := replace_component t (su_Timelines st)\<rparr>) w)"

section \<open>Writing events (timelines.go)\<close>

definition timeline_path :: "string \<Rightarrow> string \<Rightarrow> string \<Rightarrow> string \<Rightarrow> string" where
  "timeline_path notebook_id super component version = Join ''/'' [notebook_id, super, component, version]"

definition NewRecord :: "string \<Rightarrow> string \<Rightarrow> string \<Rightarrow> string \<Rightarrow> int \<Rightarrow> timed_record" where
  "NewRecord notebook_id super component version timestamp =
     \<lparr>tr_ClientId = [], tr_FlowId = [], tr_Artifact = [], tr_Type = ''timeline'', tr_Timestamp = timestamp, tr_Date = 0,
      tr_VFSPath = timeline_path notebook_id super component version, tr_JSONData = []\<rparr>"

record timeline_writer =
  tw_stats :: timeline
  tw_notebook_id :: string
  tw_super :: string
  tw_timeline :: string

definition updateStats :: "int \<Rightarrow> timeline_writer \<Rightarrow> timeline_writer" where
  "updateStats timestamp tw =
     (let now = timestamp div 1000000000;
          st1 = (if tl_EndTime (tw_stats tw) < now then (tw_stats tw)\<lparr>tl_EndTime := now\<rparr> else tw_stats tw);
          st2 = (if tl_StartTime st1 = 0 then st1\<lparr>tl_StartTime := now\<rparr> else st1)
      in tw\<lparr>tw_stats := st2\<rparr>)"

definition WriteBuffer ::
  "'s tl_env \<Rightarrow> timeline_writer \<Rightarrow> int \<Rightarrow> string \<Rightarrow> 's tl_world \<Rightarrow> go_error option \<times> timeline_writer \<times> 's tl_world" where
  "WriteBuffer env tw timestamp serialized w =
     (case SetElasticIndex (st_es env) (st_GetOrgId env) TRANSIENT []
         (encode_timed ((NewRecord (tw_notebook_id tw) (tw_super tw) (tw_timeline tw) (tl_Version (tw_stats tw)) timestamp)
            \<lparr>tr_JSONData := serialized\<rparr>)) (lw_store w) of
        (Some e, s) \<Rightarrow> (Some e, tw, w\<lparr>lw_store := s\<rparr>)
      | (None, s) \<Rightarrow> (None, updateStats timestamp tw, w\<lparr>lw_store := s\<rparr>))"

definition tw_Write ::
  "'s tl_env \<Rightarrow> timeline_writer \<Rightarrow> int \<Rightarrow> event \<Rightarrow> 's tl_world \<Rightarrow> go_error option \<times> timeline_writer \<times> 's tl_world" where
  "tw_Write env tw timestamp row w =
     (case st_marshal_row env row of
        Inl e \<Rightarrow> (Some e, tw, w)
      | Inr serialized \<Rightarrow> WriteBuffer env tw timestamp serialized w)"

definition tw_Close :: "'s tl_env \<Rightarrow> timeline_writer \<Rightarrow> 's tl_world \<Rightarrow> 's tl_world" where
  "tw_Close env tw w = snd (UpdateTimeline env (tw_notebook_id tw) (tw_super tw) (tw_stats tw) w)"

text \<open>\<open>AddChild\<close>: a new version, since the events of the old one cannot be deleted.\<close>

definition stw_AddChild :: "'s tl_env \<Rightarrow> string \<Rightarrow> string \<Rightarrow> timeline \<Rightarrow> 's tl_world \<Rightarrow> timeline_writer \<times> 's tl_world" where
  "stw_AddChild env notebook_id super t w =
     (case lw_guid env w of (guid, w1) \<Rightarrow>
        (\<lparr>tw_stats = t\<lparr>tl_Version := guid\<rparr>, tw_notebook_id = notebook_id, tw_super = super, tw_timeline = tl_Id t\<rparr>, w1))"

section \<open>Reading events\<close>

record timeline_reader =
  tdr_timestamp :: int
  tdr_metadata :: "(string \<times> timeline) list"

record timeline_item =
  it_Row :: "(string \<times> json) list"
  it_Time :: int
  it_Message :: string
  it_Source :: string

text \<open>\<open>UnixNano\<close> of the zero value of \<open>time.Time\<close>.\<close>

definition zero_time :: int where
  "zero_time = - 6795364578871345152"

definition shouldInclude :: "string \<Rightarrow> string list \<Rightarrow> string list \<Rightarrow> bool" where
  "shouldInclude i include_components exclude_components =
     (if include_components \<noteq> [] \<and> \<not> InString include_components i then False
      else if InString exclude_components i then False
      else True)"

definition NewSuperTimelineReader ::
  "'s tl_env \<Rightarrow> string \<Rightarrow> string \<Rightarrow> string list \<Rightarrow> string list \<Rightarrow> 's \<Rightarrow> timeline_reader result" where
  "NewSuperTimelineReader env notebook_id super incl excl s =
     (case super_Get env notebook_id super s of
        Inl e \<Rightarrow> (if e = ErrNotExist then Inr \<lparr>tdr_timestamp = zero_time, tdr_metadata = []\<rparr> else Inl e)
      | Inr t \<Rightarrow> Inr \<lparr>tdr_timestamp = zero_time,
          tdr_metadata = foldl (\<lambda>m c. AList.update (timeline_path notebook_id super (tl_Id c) (tl_Version c)) c m) []
            (filter (\<lambda>c. shouldInclude (tl_Id c) incl excl) (su_Timelines t))\<rparr>)"

definition tdr_SeekToTime :: "int \<Rightarrow> timeline_reader \<Rightarrow> timeline_reader" where
  "tdr_SeekToTime t r = r\<lparr>tdr_timestamp := t\<rparr>"

definition timeline_query :: "string list \<Rightarrow> int \<Rightarrow> search_req" where
  "timeline_query paths start = query_of (Must [Should (map (\<lambda>p. Match ''vfs_path'' (JStr p)) paths),
     Range ''timestamp'' Gte start, Match ''type'' (JStr ''timeline'')])"

definition row_str :: "string \<Rightarrow> (string \<times> json) list \<Rightarrow> string option" where
  "row_str k row = (case map_of row k of Some (JStr s) \<Rightarrow> Some s | _ \<Rightarrow> None)"

definition item_of :: "timeline \<Rightarrow> timed_record \<Rightarrow> (string \<times> json) list \<Rightarrow> timeline_item" where
  "item_of md r row =
     \<lparr>it_Row = row, it_Time = tr_Timestamp r,
      it_Message = (case row_str (if tl_MessageColumn md = [] then ''Message'' else tl_MessageColumn md) row of
                      Some m \<Rightarrow> m | None \<Rightarrow> tr_JSONData r),
      it_Source = (let parts = Split (CHR ''/'') (tr_VFSPath r)
                   in if length parts > 2 then parts ! (length parts - 2) else [])\<rparr>"

text \<open>\<open>deletions\<close> are the identifiers of the deletion events seen so far.\<close>

fun read_items ::
  "'s tl_env \<Rightarrow> (string \<times> timeline) list \<Rightarrow> string list \<Rightarrow> json list \<Rightarrow> timeline_item list" where
  "read_items env metadata deletions [] = []"
| "read_items env metadata deletions (hit # hits) =
     (case decode_timed hit of
        Inl e \<Rightarrow> read_items env metadata deletions hits
      | Inr r \<Rightarrow>
     (case map_of metadata (tr_VFSPath r) of
        None \<Rightarrow> read_items env metadata deletions hits
      | Some md \<Rightarrow>
     (case st_parse_row env (tr_JSONData r) of
        Inl e \<Rightarrow> read_items env metadata deletions hits
      | Inr row \<Rightarrow>
          (case row_str (st_AnnotationID env) row of
             None \<Rightarrow> item_of md r row # read_items env metadata deletions hits
           | Some guid \<Rightarrow>
               (let dels = (if map_of row ''Deletion'' \<noteq> None then guid # deletions else deletions)
                in if InString dels guid then read_items env metadata dels hits
                   else item_of md r row # read_items env metadata dels hits)))))"

definition tdr_Read :: "'s tl_env \<Rightarrow> timeline_reader \<Rightarrow> 's \<Rightarrow> timeline_item list" where
  "tdr_Read env r s =
     (case QueryChan (st_es env) (st_fuel env) 1000 (st_GetOrgId env) TRANSIENT
             (timeline_query (map fst (tdr_metadata r)) (tdr_timestamp r)) ''timestamp'' (\<lambda>n. s) of
        Inl e \<Rightarrow> []
      | Inr hits \<Rightarrow> read_items env (tdr_metadata r) [] hits)"

section \<open>Annotations (annotator.go)\<close>

definition ev_str :: "string \<Rightarrow> event \<Rightarrow> string option" where
  "ev_str k ev = (case map_of ev k of Some (EvJson (JStr s)) \<Rightarrow> Some s | _ \<Rightarrow> None)"

text \<open>What is written for an annotation: the time and the row, or the error.\<close>

definition annotation_row ::
  "'s tl_env \<Rightarrow> string \<Rightarrow> string \<Rightarrow> string \<Rightarrow> int \<Rightarrow> int \<Rightarrow> event \<Rightarrow> (int \<times> event) result" where
  "annotation_row env guid message who now timestamp ev =
     (if timestamp div 1000000000 < 10 then
        (case map_of ev (st_AnnotationOGTime env) of
           None \<Rightarrow> Inl (InvalidArgError ''Original Timestamp not provided for deletion event'')
         | Some (EvTime t) \<Rightarrow> Inr (t - 1000000000, AList.update ''Deletion'' (EvJson (JBool True)) ev)
         | Some (EvJson j) \<Rightarrow> Inl (InvalidArgError ''Original Timestamp invalid for deletion event''))
      else Inr (timestamp,
        AList.update (st_AnnotationID env) (EvJson (JStr guid))
          (AList.update (st_AnnotatedAt env) (EvTime now)
            (AList.update (st_AnnotatedBy env) (EvJson (JStr who))
              (AList.update ''Notes'' (EvJson (JStr message))
                (AList.update (st_TIMELINE_DEFAULT_KEY env) (EvTime timestamp) ev))))))"

definition AnnotateTimeline ::
  "'s tl_env \<Rightarrow> string \<Rightarrow> string \<Rightarrow> string \<Rightarrow> string \<Rightarrow> int \<Rightarrow> event \<Rightarrow> 's tl_world \<Rightarrow> go_error option \<times> 's tl_world" where
  "AnnotateTimeline env notebook_id super message who timestamp ev w =
     (let t = (case GetTimeline env notebook_id super (st_TIMELINE_ANNOTATION env) (lw_store w) of
                 Inl e \<Rightarrow> empty_timeline\<lparr>tl_Id := st_TIMELINE_ANNOTATION env\<rparr>
               | Inr t \<Rightarrow> t);
          (guid, w1) = (case ev_str (st_AnnotationID env) ev of Some g \<Rightarrow> (g, w) | None \<Rightarrow> lw_guid env w);
          (now, w2) = (if timestamp div 1000000000 < 10 then (0, w1) else lw_now env w1);
          tw = \<lparr>tw_stats = t, tw_notebook_id = notebook_id, tw_super = super, tw_timeline = tl_Id t\<rparr>
      in case annotation_row env guid message who now timestamp (AList.update ''Message'' (EvJson (JStr message)) ev) of
           Inl e \<Rightarrow> (Some e, tw_Close env tw w2)
         | Inr (at, row) \<Rightarrow>
             (case tw_Write env tw at row w2 of (e, tw1, w3) \<Rightarrow> (e, tw_Close env tw1 w3)))"

section \<open>Sorting by a time\<close>

lemma insort_key_map: "insort_key k (f x) (map f l) = map f (insort_key (\<lambda>x. k (f x)) x l)"
  by (induction l) auto

lemma sort_key_map: "sort_key k (map f l) = map f (sort_key (\<lambda>x. k (f x)) l)"
  by (induction l) (simp_all add: insort_key_map)

lemma sort_key_KInt: "sort_key (\<lambda>x. KInt (f x)) l = sort_key f l"
proof -
  have "insort_key (\<lambda>x. KInt (f x)) x l = insort_key f x l" for x l by (induction l) auto
  then show ?thesis by (induction l) simp_all
qed

section \<open>Components\<close>

lemma find_replace:
  "find (\<lambda>c. tl_Id c = i) (replace_component t cs) = (if i = tl_Id t then Some t else find (\<lambda>c. tl_Id c = i) cs)"
  by (induction cs) auto

lemma find_remove:
  "find (\<lambda>c. tl_Id c = i) (filter (\<lambda>c. tl_Id c \<noteq> d) cs) = (if i = d then None else find (\<lambda>c. tl_Id c = i) cs)"
  by (induction cs) auto

text \<open>A record of a super timeline that was set is read back.\<close>

lemma super_set_get:
  assumes "store_contract (st_es env) docs" and "GetElasticClient (st_es env) (st_OrgId env) = Inr c"
    and "st_render env t = Inr x" and "st_parse env x = Inr t" and "super_id env nb (su_Name t) \<noteq> []"
  shows "\<exists>w'. super_Set env nb t w = (None, w') \<and> super_Get env nb (su_Name t) (lw_store w') = Inr t"
proof -
  let ?doc = "encode_notebook (empty_record\<lparr>nr_NotebookId := nb, nr_Type := ''Supertimeline'',
    nr_SupertimelineName := su_Name t, nr_DocType := ''Notebook'', nr_Timeline := x, nr_Timestamp := st_nano env (lw_ticks w)\<rparr>)"
  obtain s' where s': "SetElasticIndex (st_es env) (st_OrgId env) PERSISTED (super_id env nb (su_Name t)) ?doc (lw_store w) = (None, s')"
    "docs s' c (GetIndex (st_OrgId env) PERSISTED) =
      doc_put (super_id env nb (su_Name t)) ?doc (docs (lw_store w) c (GetIndex (st_OrgId env) PERSISTED))"
    using SetElasticIndex_put [OF assms(1,2,5)] by blast
  have "GetElasticRecord (st_es env) (st_OrgId env) PERSISTED (super_id env nb (su_Name t)) s' = Inr ?doc"
    by (rule GetElasticRecord_found [OF assms(1,2)]) (simp add: s'(2) map_of_doc_put)
  then show ?thesis
    using s'(1) assms(3,4) by (simp add: super_Set_def lw_now_def super_Get_def)
qed

text \<open>
  The components of a super timeline behave as a map: after an update the component is the new
  one, after a deletion it is not found, and in both cases the others are what they were.
\<close>

theorem timeline_components:
  assumes "store_contract (st_es env) docs" and "GetElasticClient (st_es env) (st_OrgId env) = Inr c"
    and "\<forall>u \<in> {st\<lparr>su_Name := super, su_Timelines := replace_component t (su_Timelines st)\<rparr>,
                st\<lparr>su_Timelines := filter (\<lambda>c. tl_Id c \<noteq> d) (su_Timelines st)\<rparr>}.
           \<exists>x. st_render env u = Inr x \<and> st_parse env x = Inr u"
    and "super_id env nb super \<noteq> []"
    and "super_Get env nb super (lw_store w) = Inr st" and "su_Name st = super"
  shows "\<exists>w1 w2. UpdateTimeline env nb super t w = (None, w1) \<and> DeleteComponent env nb super d w = (None, w2) \<and>
    (\<forall>i. GetTimeline env nb super i (lw_store w1) =
       (if i = tl_Id t then Inr t else GetTimeline env nb super i (lw_store w))) \<and>
    (\<forall>i. GetTimeline env nb super i (lw_store w2) =
       (if i = d then Inl NotFoundError else GetTimeline env nb super i (lw_store w)))"
proof -
  let ?u = "st\<lparr>su_Name := super, su_Timelines := replace_component t (su_Timelines st)\<rparr>"
  let ?d = "st\<lparr>su_Timelines := filter (\<lambda>c. tl_Id c \<noteq> d) (su_Timelines st)\<rparr>"
  have set: "\<exists>w'. super_Set env nb x w = (None, w') \<and> super_Get env nb (su_Name x) (lw_store w') = Inr x"
    if x: "x \<in> {?u, ?d}" "su_Name x = super" for x
  proof -
    obtain y where y: "st_render env x = Inr y" "st_parse env y = Inr x" using bspec [OF assms(3) x(1)] by blast
    have "super_id env nb (su_Name x) \<noteq> []" using assms(4) x(2) by simp
    then show ?thesis by (rule super_set_get [OF assms(1,2) y])
  qed
  obtain w1 where w1: "super_Set env nb ?u w = (None, w1)" "super_Get env nb super (lw_store w1) = Inr ?u"
    using set [of ?u] by (auto simp del: replace_component.simps)
  obtain w2 where w2: "super_Set env nb ?d w = (None, w2)" "super_Get env nb super (lw_store w2) = Inr ?d"
    using set [of ?d] assms(6) by auto
  have "UpdateTimeline env nb super t w = (None, w1)" "DeleteComponent env nb super d w = (None, w2)"
    using w1(1) w2(1) assms(5) by (simp_all add: UpdateTimeline_def DeleteComponent_def super_or_new_def)
  moreover have "GetTimeline env nb super i (lw_store w1) =
       (if i = tl_Id t then Inr t else GetTimeline env nb super i (lw_store w))" for i
    using w1(2) assms(5) by (simp add: GetTimeline_def super_or_new_def find_replace)
  moreover have "GetTimeline env nb super i (lw_store w2) =
       (if i = d then Inl NotFoundError else GetTimeline env nb super i (lw_store w))" for i
    using w2(2) assms(5) by (simp add: GetTimeline_def super_or_new_def find_remove)
  ultimately show ?thesis by blast
qed

section \<open>Events that were written\<close>

fun write_rows ::
  "'s tl_env \<Rightarrow> timeline_writer \<Rightarrow> (int \<times> string) list \<Rightarrow> 's tl_world \<Rightarrow> go_error option \<times> timeline_writer \<times> 's tl_world" where
  "write_rows env tw [] w = (None, tw, w)"
| "write_rows env tw ((t, x) # rows) w =
     (case WriteBuffer env tw t x w of
        (Some e, tw1, w1) \<Rightarrow> (Some e, tw1, w1)
      | (None, tw1, w1) \<Rightarrow> write_rows env tw1 rows w1)"

definition writer_path :: "timeline_writer \<Rightarrow> string" where
  "writer_path tw = timeline_path (tw_notebook_id tw) (tw_super tw) (tw_timeline tw) (tl_Version (tw_stats tw))"

definition event_record :: "timeline_writer \<Rightarrow> int \<times> string \<Rightarrow> timed_record" where
  "event_record tw r = (NewRecord (tw_notebook_id tw) (tw_super tw) (tw_timeline tw) (tl_Version (tw_stats tw)) (fst r))
     \<lparr>tr_JSONData := snd r\<rparr>"

lemma event_record_stats [simp]: "event_record (updateStats t tw) = event_record tw"
  by (rule ext) (simp add: event_record_def updateStats_def Let_def)

lemma write_rows_docs:
  assumes "store_contract (st_es env) docs" and "GetElasticClient (st_es env) (st_GetOrgId env) = Inr c"
  shows "\<exists>ids tw' w'. write_rows env tw rows w = (None, tw', w') \<and> length ids = length rows \<and>
    docs (lw_store w') c (GetIndex (st_GetOrgId env) TRANSIENT) =
      docs (lw_store w) c (GetIndex (st_GetOrgId env) TRANSIENT) @
        map (\<lambda>(i, r). (i, encode_timed (event_record tw r))) (zip ids rows)"
proof (induction rows arbitrary: tw w)
  case (Cons r rows)
  obtain t x where r: "r = (t, x)" by fastforce
  obtain i s' where s': "SetElasticIndex (st_es env) (st_GetOrgId env) TRANSIENT [] (encode_timed (event_record tw r)) (lw_store w) = (None, s')"
    "docs s' c (GetIndex (st_GetOrgId env) TRANSIENT) =
      docs (lw_store w) c (GetIndex (st_GetOrgId env) TRANSIENT) @ [(i, encode_timed (event_record tw r))]"
    using SetElasticIndex_fresh [OF assms] by blast
  let ?w = "w\<lparr>lw_store := s'\<rparr>"
  have one: "WriteBuffer env tw t x w = (None, updateStats t tw, ?w)"
    using s'(1) by (simp add: WriteBuffer_def event_record_def r)
  obtain ids tw' w' where IH: "write_rows env (updateStats t tw) rows ?w = (None, tw', w')" "length ids = length rows"
    "docs (lw_store w') c (GetIndex (st_GetOrgId env) TRANSIENT) =
      docs s' c (GetIndex (st_GetOrgId env) TRANSIENT) @
        map (\<lambda>(i, r). (i, encode_timed (event_record tw r))) (zip ids rows)"
    using Cons.IH [of "updateStats t tw" ?w] by auto
  show ?case
    by (intro exI [of _ "i # ids"] exI [of _ tw'] exI [of _ w']) (use one IH s'(2) in \<open>simp add: r\<close>)
qed auto

lemma timeline_query_matches:
  "matches (sq_query (timeline_query [p] start)) (encode_timed r) \<longleftrightarrow>
     tr_VFSPath r = p \<and> start \<le> tr_Timestamp r \<and> tr_Type r = ''timeline''"
  by (auto simp: timeline_query_def query_of_def field_values_def encode_timed_def)

lemma read_items_plain:
  assumes "\<forall>r \<in> set rs. tr_VFSPath r = p \<and> st_parse_row env (tr_JSONData r) = Inr (row_of (tr_JSONData r)) \<and>
      row_str (st_AnnotationID env) (row_of (tr_JSONData r)) = None"
  shows "read_items env [(p, md)] dels (map encode_timed rs) = map (\<lambda>r. item_of md r (row_of (tr_JSONData r))) rs"
  using assms by (induction rs) auto


section \<open>Deleted annotations\<close>

lemma sort_two: "k b \<le> k a \<Longrightarrow> k a \<noteq> k b \<Longrightarrow> sort_key k [a, b] = [b, a]" for k :: "'a \<Rightarrow> 'b::linorder"
  by auto

text \<open>
  An annotation that was deleted comes back: the deletion event, a second before it, hides it from
  readers that start before the deletion event, and a reader that seeks to a time in the second
  before the annotation delivers it again.
\<close>

theorem deleted_annotation_comes_back:
  assumes "search_contract (st_es env) docs" and "GetElasticClient (st_es env) (st_GetOrgId env) = Inr c" and "0 < st_fuel env"
    and "match_docs (Match ''vfs_path'' (JStr p)) (docs s c (GetIndex (st_GetOrgId env) TRANSIENT)) =
           [(i, encode_timed r), (j, encode_timed d)]"
    and "tr_VFSPath r = p" and "tr_Type r = ''timeline''" and "tr_Timestamp r = t"
    and "tr_VFSPath d = p" and "tr_Type d = ''timeline''" and "tr_Timestamp d = t - 1000000000"
    and "st_parse_row env (tr_JSONData r) = Inr row" and "row_str (st_AnnotationID env) row = Some guid"
    and "map_of row ''Deletion'' = None"
    and "st_parse_row env (tr_JSONData d) = Inr drow" and "row_str (st_AnnotationID env) drow = Some guid"
    and "map_of drow ''Deletion'' \<noteq> None"
  shows "(start \<le> t - 1000000000 \<longrightarrow> tdr_Read env \<lparr>tdr_timestamp = start, tdr_metadata = [(p, md)]\<rparr> s = []) \<and>
    (t - 1000000000 < start \<and> start \<le> t \<longrightarrow>
       tdr_Read env \<lparr>tdr_timestamp = start, tdr_metadata = [(p, md)]\<rparr> s = [item_of md r row])"
proof -
  let ?I = "GetIndex (st_GetOrgId env) TRANSIENT" and ?q = "timeline_query [p] start"
  have "match_docs (sq_query ?q) ds = match_docs (sq_query ?q) (match_docs (Match ''vfs_path'' (JStr p)) ds)" for ds
    by (auto simp: match_docs_def timeline_query_def query_of_def intro!: filter_cong)
  then have hits: "match_docs (sq_query ?q) (docs s c ?I) =
      match_docs (sq_query ?q) [(i, encode_timed r), (j, encode_timed d)]"
    using assms(4) by metis
  have m: "matches (sq_query ?q) (encode_timed r) \<longleftrightarrow> start \<le> t"
    "matches (sq_query ?q) (encode_timed d) \<longleftrightarrow> start \<le> t - 1000000000"
    using assms(5-10) by (simp_all add: timeline_query_matches)
  have key: "key_of ''timestamp'' (i, encode_timed r) = KInt t" "key_of ''timestamp'' (j, encode_timed d) = KInt (t - 1000000000)"
    using assms(7,10) by (simp_all add: key_of_def encode_timed_def)
  have page: "QueryChan (st_es env) (st_fuel env) 1000 (st_GetOrgId env) TRANSIENT ?q ''timestamp'' (\<lambda>n. s) =
      Inr (map snd (sort_key (key_of ''timestamp'') (match_docs (sq_query ?q) [(i, encode_timed r), (j, encode_timed d)])))"
    using QueryChan_one_page [OF assms(1,2), of ?q s TRANSIENT 1000 "''timestamp''" "st_fuel env"] assms(3)
    unfolding hits by (simp add: match_docs_def timeline_query_def query_of_def)
  show ?thesis
  proof (intro conjI impI)
    assume a: "start \<le> t - 1000000000"
    have "sort_key (key_of ''timestamp'') [(i, encode_timed r), (j, encode_timed d)] = [(j, encode_timed d), (i, encode_timed r)]"
      by (rule sort_two) (simp_all add: key)
    then show "tdr_Read env \<lparr>tdr_timestamp = start, tdr_metadata = [(p, md)]\<rparr> s = []"
      using page a m assms(5,8,11-16) by (simp add: tdr_Read_def match_docs_def Let_def)
  next
    assume a: "t - 1000000000 < start \<and> start \<le> t"
    then show "tdr_Read env \<lparr>tdr_timestamp = start, tdr_metadata = [(p, md)]\<rparr> s = [item_of md r row]"
      using page m assms(5,8,11-13) by (simp add: tdr_Read_def match_docs_def Let_def)
  qed
qed

section \<open>The time span of a component\<close>

lemma write_rows_stats:
  assumes "write_rows env tw rows w = (None, tw', w')" and "0 < tl_StartTime (tw_stats tw)"
  shows "tl_StartTime (tw_stats tw') = tl_StartTime (tw_stats tw) \<and> tl_EndTime (tw_stats tw) \<le> tl_EndTime (tw_stats tw') \<and>
    (\<forall>r \<in> set rows. fst r div 1000000000 \<le> tl_EndTime (tw_stats tw'))"
  using assms
proof (induction rows arbitrary: tw w)
  case (Cons r rows)
  obtain t x where r: "r = (t, x)" by fastforce
  obtain w1 where one: "WriteBuffer env tw t x w = (None, updateStats t tw, w1)"
    and rest: "write_rows env (updateStats t tw) rows w1 = (None, tw', w')"
    using Cons.prems(1) by (auto simp: r WriteBuffer_def split: prod.splits option.splits)
  have u: "tl_StartTime (tw_stats (updateStats t tw)) = tl_StartTime (tw_stats tw)"
    "tl_EndTime (tw_stats (updateStats t tw)) = max (tl_EndTime (tw_stats tw)) (t div 1000000000)"
    using Cons.prems(2) by (simp_all add: updateStats_def Let_def max_def)
  show ?case using Cons.IH [OF rest] u Cons.prems(2) by (simp add: r)
qed simp

text \<open>
  The end of a component is not before any of its events, but its start is the time of the event
  that was written first, which is the earliest only when the events come in their order.
\<close>

theorem timeline_span:
  assumes "write_rows env tw ((t, x) # rows) w = (None, tw', w')" and "tl_StartTime (tw_stats tw) = 0"
    and "1000000000 \<le> t"
  shows "tl_StartTime (tw_stats tw') = t div 1000000000 \<and>
    (\<forall>r \<in> set ((t, x) # rows). fst r div 1000000000 \<le> tl_EndTime (tw_stats tw'))"
proof -
  obtain w1 where rest: "write_rows env (updateStats t tw) rows w1 = (None, tw', w')"
    using assms(1) by (auto simp: WriteBuffer_def split: prod.splits option.splits)
  have "0 < t div 1000000000" using assms(3) by (simp add: pos_imp_zdiv_pos_iff)
  then have u: "tl_StartTime (tw_stats (updateStats t tw)) = t div 1000000000"
    "t div 1000000000 \<le> tl_EndTime (tw_stats (updateStats t tw))"
    using assms(2) by (simp_all add: updateStats_def Let_def)
  then have "0 < tl_StartTime (tw_stats (updateStats t tw))" using \<open>0 < t div 1000000000\<close> by simp
  then show ?thesis using write_rows_stats [OF rest] u by auto
qed

section \<open>A run\<close>

definition sample_component :: timeline where
  "sample_component = empty_timeline\<lparr>tl_Id := ''events'', tl_Version := ''V1''\<rparr>"

definition plain_super :: super_timeline where
  "plain_super = \<lparr>su_Name = ''S'', su_Timelines = []\<rparr>"

text \<open>
  The texts of this run: \<open>0\<close> and \<open>1\<close> are the super timeline without and with its component; a row
  is a letter, an annotation is \<open>a\<close> and its deletion \<open>d\<close>.
\<close>

definition sample_tl_env :: "mem_es_state tl_env" where
  "sample_tl_env = \<lparr>st_es = mem_es, st_OrgId = ''root'', st_GetOrgId = ''root'', st_fuel = 9, st_sha1 = (\<lambda>x. ''h'' @ x),
     st_render = (\<lambda>t. Inr (if su_Timelines t = [] then ''0'' else ''1'')),
     st_parse = (\<lambda>x. Inr (if x = ''0'' then plain_super else plain_super\<lparr>su_Timelines := [sample_component]\<rparr>)),
     st_nano = (\<lambda>n. int n), st_guid = (\<lambda>n. replicate n (CHR ''g'')), st_marshal_row = (\<lambda>r. Inr ''a''),
     st_parse_row = (\<lambda>x. Inr (if x = ''a'' then [(''id'', JStr ''g'')]
        else if x = ''d'' then [(''Deletion'', JBool True), (''id'', JStr ''g'')] else [(''x'', JStr x)])),
     st_AnnotationID = ''id'', st_AnnotationOGTime = ''og'', st_AnnotatedBy = ''by'', st_AnnotatedAt = ''at'',
     st_TIMELINE_ANNOTATION = ''Annotation'', st_TIMELINE_DEFAULT_KEY = ''Timestamp''\<rparr>"

lemma sample_tl_sel:
  "st_es sample_tl_env = mem_es" "st_OrgId sample_tl_env = ''root''" "st_GetOrgId sample_tl_env = ''root''"
  "st_fuel sample_tl_env = 9" "st_sha1 sample_tl_env x = ''h'' @ x" "st_AnnotationID sample_tl_env = ''id''"
  "st_render sample_tl_env t = Inr (if su_Timelines t = [] then ''0'' else ''1'')"
  "st_parse sample_tl_env x = Inr (if x = ''0'' then plain_super else plain_super\<lparr>su_Timelines := [sample_component]\<rparr>)"
  "st_parse_row sample_tl_env x = Inr (if x = ''a'' then [(''id'', JStr ''g'')]
        else if x = ''d'' then [(''Deletion'', JBool True), (''id'', JStr ''g'')] else [(''x'', JStr x)])"
  by (simp_all add: sample_tl_env_def)

definition tl_start :: "mem_es_state \<Rightarrow> mem_es_state tl_world" where
  "tl_start s = \<lparr>lw_store = s, lw_ticks = 0, lw_guids = 0\<rparr>"

definition sample_writer :: timeline_writer where
  "sample_writer = \<lparr>tw_stats = sample_component, tw_notebook_id = ''N'', tw_super = ''S'', tw_timeline = ''events''\<rparr>"

theorem timeline_components_witness:
  "\<exists>w0 w1. super_Set sample_tl_env ''N'' plain_super (tl_start []) = (None, w0) \<and>
    UpdateTimeline sample_tl_env ''N'' ''S'' sample_component w0 = (None, w1) \<and>
    GetTimeline sample_tl_env ''N'' ''S'' ''events'' (lw_store w1) = Inr sample_component"
proof -
  have n: "su_Name plain_super = ''S''" "su_Timelines plain_super = []" "tl_Id sample_component = ''events''"
    "plain_super\<lparr>su_Name := ''S''\<rparr> = plain_super"
    by (simp_all add: plain_super_def sample_component_def)
  obtain w0 where w0: "super_Set sample_tl_env ''N'' plain_super (tl_start []) = (None, w0)"
    "super_Get sample_tl_env ''N'' ''S'' (lw_store w0) = Inr plain_super"
    using super_set_get [of sample_tl_env "\<lambda>st c idx. mem_docs st idx" PrimaryOpenSearch plain_super "''0''" "''N''" "tl_start []"]
      mem_store_contract n by (auto simp: sample_tl_sel super_id_def MakeId_def)
  have "\<exists>w1 w2. UpdateTimeline sample_tl_env ''N'' ''S'' sample_component w0 = (None, w1) \<and>
    DeleteComponent sample_tl_env ''N'' ''S'' ''x'' w0 = (None, w2) \<and>
    (\<forall>i. GetTimeline sample_tl_env ''N'' ''S'' i (lw_store w1) =
       (if i = tl_Id sample_component then Inr sample_component else GetTimeline sample_tl_env ''N'' ''S'' i (lw_store w0))) \<and>
    (\<forall>i. GetTimeline sample_tl_env ''N'' ''S'' i (lw_store w2) =
       (if i = ''x'' then Inl NotFoundError else GetTimeline sample_tl_env ''N'' ''S'' i (lw_store w0)))"
    by (rule timeline_components [where docs = "\<lambda>st c idx. mem_docs st idx" and c = PrimaryOpenSearch and st = plain_super])
      (simp_all add: sample_tl_sel mem_store_contract super_id_def MakeId_def w0(2) n)
  then show ?thesis using w0(1) n(3) by metis
qed


definition annotated_docs :: mem_es_state where
  "annotated_docs = [(''transient'',
     [(''1'', encode_timed ((NewRecord ''N'' ''S'' ''A'' [] 5000000000)\<lparr>tr_JSONData := ''a''\<rparr>)),
      (''2'', encode_timed ((NewRecord ''N'' ''S'' ''A'' [] 4000000000)\<lparr>tr_JSONData := ''d''\<rparr>))])]"

theorem deleted_annotation_comes_back_witness:
  "tdr_Read sample_tl_env \<lparr>tdr_timestamp = 0, tdr_metadata = [(''N/S/A/'', empty_timeline)]\<rparr> annotated_docs = [] \<and>
   length (tdr_Read sample_tl_env \<lparr>tdr_timestamp = 4500000000, tdr_metadata = [(''N/S/A/'', empty_timeline)]\<rparr> annotated_docs) = 1"
proof -
  let ?r = "(NewRecord ''N'' ''S'' ''A'' [] 5000000000)\<lparr>tr_JSONData := ''a''\<rparr>"
  let ?d = "(NewRecord ''N'' ''S'' ''A'' [] 4000000000)\<lparr>tr_JSONData := ''d''\<rparr>"
  have f: "tr_VFSPath ?r = ''N/S/A/''" "tr_VFSPath ?d = ''N/S/A/''" "tr_Type ?r = ''timeline''" "tr_Type ?d = ''timeline''"
    "tr_Timestamp ?r = 5000000000" "tr_Timestamp ?d = 4000000000" "tr_JSONData ?r = ''a''" "tr_JSONData ?d = ''d''"
    by (simp_all add: NewRecord_def timeline_path_def)
  have "GetIndex ''root'' TRANSIENT = ''transient''" by code_simp
  then have m: "match_docs (Match ''vfs_path'' (JStr ''N/S/A/'')) (mem_docs annotated_docs (GetIndex ''root'' TRANSIENT)) =
      [(''1'', encode_timed ?r), (''2'', encode_timed ?d)]"
    by (simp add: annotated_docs_def mem_docs_def match_docs_def field_values_def encode_timed_def NewRecord_def timeline_path_def)
  show ?thesis
    using deleted_annotation_comes_back [of sample_tl_env "\<lambda>st c idx. mem_docs st idx" PrimaryOpenSearch "''N/S/A/''" annotated_docs "''1''" ?r "''2''" ?d
        5000000000 "[(''id'', JStr ''g'')]" "''g''" "[(''Deletion'', JBool True), (''id'', JStr ''g'')]" 0 empty_timeline]
      deleted_annotation_comes_back [of sample_tl_env "\<lambda>st c idx. mem_docs st idx" PrimaryOpenSearch "''N/S/A/''" annotated_docs "''1''" ?r "''2''" ?d
        5000000000 "[(''id'', JStr ''g'')]" "''g''" "[(''Deletion'', JBool True), (''id'', JStr ''g'')]" 4500000000 empty_timeline]
      mem_search_contract m f
    by (simp add: sample_tl_sel row_str_def)
qed

theorem timeline_span_witness:
  "\<exists>tw' w'. write_rows sample_tl_env sample_writer [(7000000000, ''b''), (5000000000, ''c'')] (tl_start []) = (None, tw', w') \<and>
    tl_StartTime (tw_stats tw') = 7"
proof -
  obtain ids tw' w' where run: "write_rows sample_tl_env sample_writer [(7000000000, ''b''), (5000000000, ''c'')] (tl_start []) = (None, tw', w')"
    using write_rows_docs [of sample_tl_env "\<lambda>st c idx. mem_docs st idx" PrimaryOpenSearch sample_writer
        "[(7000000000, ''b''), (5000000000, ''c'')]" "tl_start []"] mem_store_contract by (auto simp: sample_tl_sel)
  have "tl_StartTime (tw_stats sample_writer) = 0"
    by (simp add: sample_writer_def sample_component_def empty_timeline_def)
  then show ?thesis using timeline_span [OF run] run by simp
qed

end
