(* ===== verification/Notebook.thy ===== *)
theory Notebook
  imports Timelines Datastore
begin

text \<open>
  Notebooks and their cells (\<open>services/notebook/storage.go\<close>, \<open>services/notebook/shared.go\<close>,
  \<open>services/notebook/delete.go\<close>).
\<close>

section \<open>Data\<close>

record cell =
  nc_CellId :: string
  nc_AvailableVersions :: "string list"
  nc_CurrentVersion :: string
  nc_Timestamp :: int
  nc_Type :: string
  nc_Other :: json

record notebook =
  nb_NotebookId :: string
  nb_Creator :: string
  nb_Public :: bool
  nb_Collaborators :: "string list"
  nb_ModifiedTime :: int
  nb_Hidden :: bool
  nb_CellMetadata :: "cell list"
  nb_Timelines :: "string list"
  nb_Other :: json

text \<open>The JSON of notebooks and cells, next to what the timelines need.\<close>

record 's nb_env =
  ne_tl :: "'s tl_env"
  ne_render :: "notebook \<Rightarrow> string"
  ne_parse :: "string \<Rightarrow> notebook result"
  ne_render_cell :: "cell \<Rightarrow> string"
  ne_parse_cell :: "string \<Rightarrow> cell result"

abbreviation ne_es :: "'s nb_env \<Rightarrow> 's elastic" where
  "ne_es env \<equiv> st_es (ne_tl env)"

abbreviation ne_OrgId :: "'s nb_env \<Rightarrow> string" where
  "ne_OrgId env \<equiv> st_OrgId (ne_tl env)"

definition getType :: "string \<Rightarrow> string" where
  "getType notebook_id =
     (if HasPrefix notebook_id ''N.F.'' then ''Flow''
      else if HasPrefix notebook_id ''N.H.'' then ''Hunt''
      else if HasPrefix notebook_id ''N.E.'' then ''Event''
      else ''User'')"

definition checkNotebookAccess :: "notebook \<Rightarrow> string \<Rightarrow> bool" where
  "checkNotebookAccess nb user \<longleftrightarrow> nb_Public nb \<or> nb_Creator nb = user \<or> InString (nb_Collaborators nb) user"

section \<open>Notebooks\<close>

definition notebook_Version :: "'s nb_env \<Rightarrow> 's tl_world \<Rightarrow> int \<times> 's tl_world" where
  "notebook_Version env w = (case lw_now (ne_tl env) w of (now, w1) \<Rightarrow> (now div 1000000000, w1))"

definition SetNotebook :: "'s nb_env \<Rightarrow> notebook \<Rightarrow> 's tl_world \<Rightarrow> go_error option \<times> 's tl_world" where
  "SetNotebook env nb w =
     (case lw_now (ne_tl env) w of (now, w1) \<Rightarrow>
        (let nb1 = nb\<lparr>nb_ModifiedTime := now div 1000000000\<rparr>
         in case lw_now (ne_tl env) w1 of (stamp, w2) \<Rightarrow>
              (case SetElasticIndex (ne_es env) (ne_OrgId env) PERSISTED (nb_NotebookId nb)
                  (encode_notebook (empty_record\<lparr>nr_NotebookId := nb_NotebookId nb, nr_Notebook := ne_render env nb1,
                     nr_Creator := nb_Creator nb, nr_Public := nb_Public nb, nr_Timestamp := stamp,
                     nr_SharedWith := nb_Collaborators nb, nr_Type := getType (nb_NotebookId nb),
                     nr_DocType := ''notebooks''\<rparr>)) (lw_store w2) of
                 (e, s) \<Rightarrow> (e, w2\<lparr>lw_store := s\<rparr>))))"

definition GetNotebook :: "'s nb_env \<Rightarrow> string \<Rightarrow> 's \<Rightarrow> notebook result" where
  "GetNotebook env notebook_id s =
     bindR (GetElasticRecord (ne_es env) (ne_OrgId env) PERSISTED notebook_id s) (\<lambda>serialized.
       case decode_notebook serialized of
         Inl e \<Rightarrow> Inl ErrNotExist
       | Inr entry \<Rightarrow>
           if nr_NotebookId entry \<noteq> notebook_id then Inl ErrNotExist
           else ne_parse env (nr_Notebook entry))"

section \<open>Cells\<close>

text \<open>A cell takes the place of the first cells with its id, all of them, or comes last.\<close>

definition put_cell :: "cell \<Rightarrow> cell list \<Rightarrow> cell list" where
  "put_cell c cells =
     (let new = map (\<lambda>md. if nc_CellId md = nc_CellId c then c else md) cells
      in if list_ex (\<lambda>md. nc_CellId md = nc_CellId c) cells then new else new @ [c])"

definition SetNotebookCell :: "'s nb_env \<Rightarrow> string \<Rightarrow> cell \<Rightarrow> 's tl_world \<Rightarrow> go_error option \<times> 's tl_world" where
  "SetNotebookCell env notebook_id c w =
     (case lw_now (ne_tl env) w of (stamp, w1) \<Rightarrow>
        (case SetElasticIndex (ne_es env) (ne_OrgId env) PERSISTED (nc_CellId c @ nc_CurrentVersion c)
            (encode_notebook (empty_record\<lparr>nr_NotebookId := notebook_id, nr_CellId := nc_CellId c,
               nr_AvailableVersions := nc_AvailableVersions c, nr_CurrentVersion := nc_CurrentVersion c,
               nr_Timestamp := stamp, nr_NotebookCell := ne_render_cell env c, nr_DocType := ''notebooks''\<rparr>))
            (lw_store w1) of
           (Some e, s) \<Rightarrow> (Some e, w1\<lparr>lw_store := s\<rparr>)
         | (None, s) \<Rightarrow>
             (case GetNotebook env notebook_id s of
                Inl e \<Rightarrow> (Some e, w1\<lparr>lw_store := s\<rparr>)
              | Inr nb \<Rightarrow>
                  (case lw_now (ne_tl env) (w1\<lparr>lw_store := s\<rparr>) of (now, w2) \<Rightarrow>
                     SetNotebook env (nb\<lparr>nb_CellMetadata := put_cell
                       \<lparr>nc_CellId = nc_CellId c, nc_AvailableVersions = nc_AvailableVersions c,
                        nc_CurrentVersion = nc_CurrentVersion c, nc_Timestamp = now, nc_Type = nc_Type c, nc_Other = JNull\<rparr>
                       (nb_CellMetadata nb)\<rparr>) w2))))"

definition GetNotebookCell :: "'s nb_env \<Rightarrow> string \<Rightarrow> string \<Rightarrow> string \<Rightarrow> 's \<Rightarrow> cell result" where
  "GetNotebookCell env notebook_id cell_id version s =
     bindR (GetElasticRecord (ne_es env) (ne_OrgId env) PERSISTED (cell_id @ version) s) (\<lambda>serialized.
     bindR (decode_notebook serialized) (\<lambda>entry. ne_parse_cell env (nr_NotebookCell entry)))"

definition RemoveNotebookCell ::
  "'s nb_env \<Rightarrow> string \<Rightarrow> string \<Rightarrow> string \<Rightarrow> string \<Rightarrow> 's tl_world \<Rightarrow> go_error option \<times> 's tl_world" where
  "RemoveNotebookCell env org notebook_id cell_id version w =
     (case DeleteDocument (ne_es env) org PERSISTED (cell_id @ version) False (lw_store w) of
        (e, s) \<Rightarrow> (e, w\<lparr>lw_store := s\<rparr>))"

definition DeleteNotebook :: "'s nb_env \<Rightarrow> string \<Rightarrow> bool \<Rightarrow> 's tl_world \<Rightarrow> go_error option \<times> 's tl_world" where
  "DeleteNotebook env notebook_id really_do_it w =
     (if really_do_it then
        (case DeleteDocument (ne_es env) (ne_OrgId env) PERSISTED notebook_id True (lw_store w) of
           (e, s) \<Rightarrow> (e, w\<lparr>lw_store := s\<rparr>))
      else (None, w))"

section \<open>Listing\<close>

definition query_for_shared_notebooks :: "string \<Rightarrow> search_req" where
  "query_for_shared_notebooks username =
     (query_of (Must [Should [Match ''creator'' (JStr username), Match ''shared'' (JStr username), Match ''public'' (JBool True)],
        Match ''doc_type'' (JStr ''notebooks''), Match ''type'' (JStr ''User'')]))
     \<lparr>sq_sort := Some (''timestamp'', True), sq_size := Some 1000, sq_from := Some 0\<rparr>"

definition query_for_all_notebooks :: search_req where
  "query_for_all_notebooks =
     (query_of (Must [Match ''doc_type'' (JStr ''notebooks''), Match ''type'' (JStr ''User'')]))
     \<lparr>sq_sort := Some (''timestamp'', True), sq_size := Some 1000, sq_from := Some 0\<rparr>"

definition with_timelines :: "'s nb_env \<Rightarrow> 's \<Rightarrow> notebook \<Rightarrow> notebook" where
  "with_timelines env s nb =
     (case super_List (ne_tl env) (nb_NotebookId nb) s of
        Inl e \<Rightarrow> nb
      | Inr l \<Rightarrow> nb\<lparr>nb_Timelines := foldl append_new (nb_Timelines nb) (map su_Name l)\<rparr>)"

fun take_notebooks :: "'s nb_env \<Rightarrow> string \<Rightarrow> bool \<Rightarrow> 's \<Rightarrow> json list \<Rightarrow> notebook list" where
  "take_notebooks env username timelines s [] = []"
| "take_notebooks env username timelines s (hit # hits) =
     (case bindR (decode_notebook hit) (\<lambda>entry. ne_parse env (nr_Notebook entry)) of
        Inl e \<Rightarrow> take_notebooks env username timelines s hits
      | Inr item \<Rightarrow>
          if nb_Hidden item then take_notebooks env username timelines s hits
          else if username \<noteq> [] \<and> \<not> checkNotebookAccess item username then take_notebooks env username timelines s hits
          else (if timelines then with_timelines env s item else item) # take_notebooks env username timelines s hits)"

definition GetAllNotebooks :: "'s nb_env \<Rightarrow> string \<Rightarrow> bool \<Rightarrow> 's \<Rightarrow> notebook list result" where
  "GetAllNotebooks env username timelines s =
     bindR (QueryElasticRaw (ne_es env) (ne_OrgId env) PERSISTED
       (if username \<noteq> [] then query_for_shared_notebooks username else query_for_all_notebooks) s) (\<lambda>(hits, tot).
       Inr (take_notebooks env username timelines s hits))"

section \<open>Notebooks that were written\<close>

lemma SetNotebook_puts:
  assumes "store_contract (ne_es env) docs" and "GetElasticClient (ne_es env) (ne_OrgId env) = Inr c"
    and "nb_NotebookId nb \<noteq> []"
  shows "\<exists>r w'. SetNotebook env nb w = (None, w') \<and> nr_NotebookId r = nb_NotebookId nb \<and>
    nr_Notebook r = ne_render env (nb\<lparr>nb_ModifiedTime := st_nano (ne_tl env) (lw_ticks w) div 1000000000\<rparr>) \<and>
    docs (lw_store w') c (GetIndex (ne_OrgId env) PERSISTED) =
      doc_put (nb_NotebookId nb) (encode_notebook r) (docs (lw_store w) c (GetIndex (ne_OrgId env) PERSISTED))"
proof -
  let ?n = "nb\<lparr>nb_ModifiedTime := st_nano (ne_tl env) (lw_ticks w) div 1000000000\<rparr>"
  let ?r = "empty_record\<lparr>nr_NotebookId := nb_NotebookId nb, nr_Notebook := ne_render env ?n,
     nr_Creator := nb_Creator nb, nr_Public := nb_Public nb, nr_Timestamp := st_nano (ne_tl env) (Suc (lw_ticks w)),
     nr_SharedWith := nb_Collaborators nb, nr_Type := getType (nb_NotebookId nb), nr_DocType := ''notebooks''\<rparr>"
  obtain s' where "SetElasticIndex (ne_es env) (ne_OrgId env) PERSISTED (nb_NotebookId nb) (encode_notebook ?r) (lw_store w) = (None, s')"
    "docs s' c (GetIndex (ne_OrgId env) PERSISTED) =
      doc_put (nb_NotebookId nb) (encode_notebook ?r) (docs (lw_store w) c (GetIndex (ne_OrgId env) PERSISTED))"
    using SetElasticIndex_put [OF assms] by blast
  then show ?thesis
    by (intro exI [of _ ?r] exI [of _ "w\<lparr>lw_ticks := Suc (Suc (lw_ticks w)), lw_store := s'\<rparr>"])
      (simp add: SetNotebook_def lw_now_def Let_def)
qed

lemma GetNotebook_doc:
  assumes "store_contract (ne_es env) docs" and "GetElasticClient (ne_es env) (ne_OrgId env) = Inr c"
    and "map_of (docs s c (GetIndex (ne_OrgId env) PERSISTED)) (nr_NotebookId r) = Some (encode_notebook r)"
  shows "GetNotebook env (nr_NotebookId r) s = ne_parse env (nr_Notebook r)"
  using GetElasticRecord_found [OF assms] by (simp add: GetNotebook_def)

lemma put_cell_ids: "map nc_CellId (put_cell x cs) = append_new (map nc_CellId cs) (nc_CellId x)"
proof -
  have "map nc_CellId (map (\<lambda>md. if nc_CellId md = nc_CellId x then x else md) cs) = map nc_CellId cs"
    by (induction cs) simp_all
  moreover have "list_ex (\<lambda>md. nc_CellId md = nc_CellId x) cs \<longleftrightarrow> nc_CellId x \<in> set (map nc_CellId cs)"
    by (induction cs) auto
  ultimately show ?thesis by (simp add: put_cell_def Let_def append_new_def del: set_map)
qed


section \<open>The notebooks of a user\<close>

definition shown :: "'s nb_env \<Rightarrow> string \<Rightarrow> bool \<Rightarrow> 's \<Rightarrow> notebook \<Rightarrow> notebook" where
  "shown env username timelines s nb = (if timelines then with_timelines env s nb else nb)"

definition hit_notebook :: "'s nb_env \<Rightarrow> json \<Rightarrow> notebook list" where
  "hit_notebook env hit =
     (case bindR (decode_notebook hit) (\<lambda>entry. ne_parse env (nr_Notebook entry)) of Inl e \<Rightarrow> [] | Inr nb \<Rightarrow> [nb])"

lemma take_notebooks_filter:
  "take_notebooks env username timelines s hits =
    map (shown env username timelines s)
      (filter (\<lambda>nb. \<not> nb_Hidden nb \<and> (username \<noteq> [] \<longrightarrow> checkNotebookAccess nb username))
        (concat (map (hit_notebook env) hits)))"
  by (induction hits) (simp_all add: shown_def hit_notebook_def split: sum.splits)

lemma with_timelines_access [simp]:
  "checkNotebookAccess (with_timelines env s nb) user = checkNotebookAccess nb user"
  "nb_Hidden (with_timelines env s nb) = nb_Hidden nb"
  by (simp_all add: with_timelines_def checkNotebookAccess_def split: sum.splits)


section \<open>A run\<close>

definition my_notebook :: notebook where
  "my_notebook = \<lparr>nb_NotebookId = ''N.1'', nb_Creator = ''bob'', nb_Public = False, nb_Collaborators = [], nb_ModifiedTime = 0,
     nb_Hidden = False, nb_CellMetadata = [], nb_Timelines = [], nb_Other = JNull\<rparr>"

definition my_cell :: cell where
  "my_cell = \<lparr>nc_CellId = ''NC.1'', nc_AvailableVersions = [''V1''], nc_CurrentVersion = ''V1'', nc_Timestamp = 0,
     nc_Type = ''vql'', nc_Other = JStr ''SELECT''\<rparr>"

definition my_notebook_then :: notebook where
  "my_notebook_then = my_notebook\<lparr>nb_CellMetadata := [\<lparr>nc_CellId = ''NC.1'', nc_AvailableVersions = [''V1''],
     nc_CurrentVersion = ''V1'', nc_Timestamp = 1, nc_Type = ''vql'', nc_Other = JNull\<rparr>]\<rparr>"

text \<open>The texts of this run tell whether a notebook has cells.\<close>

definition sample_nb_env :: "mem_es_state nb_env" where
  "sample_nb_env = \<lparr>ne_tl = sample_tl_env, ne_render = (\<lambda>n. if nb_CellMetadata n = [] then ''0'' else ''1''),
     ne_parse = (\<lambda>x. Inr (if x = ''0'' then my_notebook else my_notebook_then)),
     ne_render_cell = (\<lambda>c. ''c''), ne_parse_cell = (\<lambda>x. Inr my_cell)\<rparr>"

definition notebook_docs :: mem_es_state where
  "notebook_docs = [(''persisted'', [(''N.1'', encode_notebook (empty_record\<lparr>nr_NotebookId := ''N.1'', nr_Notebook := ''0'',
     nr_Creator := ''bob'', nr_Type := ''User'', nr_DocType := ''notebooks''\<rparr>))])]"

lemma notebook_docs_persisted: "mem_docs notebook_docs (GetIndex ''root'' PERSISTED) =
    [(''N.1'', encode_notebook (empty_record\<lparr>nr_NotebookId := ''N.1'', nr_Notebook := ''0'',
     nr_Creator := ''bob'', nr_Type := ''User'', nr_DocType := ''notebooks''\<rparr>))]"
proof -
  have "GetIndex ''root'' PERSISTED = ''persisted''" by code_simp
  then show ?thesis by (simp add: notebook_docs_def mem_docs_def)
qed

lemma sample_nb_sel:
  "ne_tl sample_nb_env = sample_tl_env" "ne_parse sample_nb_env x = Inr (if x = ''0'' then my_notebook else my_notebook_then)"
  "ne_render sample_nb_env n = (if nb_CellMetadata n = [] then ''0'' else ''1'')"
  "ne_parse_cell sample_nb_env x = Inr my_cell"
  by (simp_all add: sample_nb_env_def)



end
