(* ===== verification/Spec2Isabelle.thy ===== *)
theory Spec2Isabelle
  imports UploadServer TransformedResultSets Caches Clients Indexing Foreman Flows HuntStats Hunts Vfs Ingestion
    IngestedRows Ownership Handlers Scheduler Datastore Acl Users Schema Orgs ClientMonitoring
    Communicator Repository Timelines Notebook
begin

text \<open>Verification of Cloudvelo.\<close>

end
